(* ===== verification/Prelude.thy ===== *)
theory Prelude
  imports Complex_Main "HOL-Library.AList"
begin

text \<open>
  Shared vocabulary of the Pulse development.

  \<^item> JavaScript containers. A \<^verbatim>\<open>Map\<close> iterates its keys in insertion order and
    \<^verbatim>\<open>set\<close> on a present key keeps the key's position; a \<^verbatim>\<open>Set\<close> iterates its elements
    in insertion order. A map is therefore an association list with
    \<open>AList.update\<close>/\<open>AList.delete\<close> and a set a list with \<open>set_add\<close>/\<open>set_del\<close>; the well-formedness
    condition of both is that the keys are distinct.
  \<^item> The string operations the source uses (\<^verbatim>\<open>trim\<close>, \<^verbatim>\<open>startsWith\<close>, \<^verbatim>\<open>endsWith\<close>,
    \<^verbatim>\<open>includes\<close>, \<^verbatim>\<open>split\<close>, \<^verbatim>\<open>toLowerCase\<close>). A HOL \<open>char\<close> is a code unit below 256.
  \<^item> A generic invariant argument for the step relations of the components.
\<close>

named_theorems js_simps \<open>equations of the container and string operations\<close>
named_theorems keeps_inv \<open>operations that preserve their component's invariant\<close>

section \<open>Ordered maps\<close>

type_synonym ('k, 'v) jsmap = "('k \<times> 'v) list"

abbreviation js_set :: "'k \<Rightarrow> 'v \<Rightarrow> ('k, 'v) jsmap \<Rightarrow> ('k, 'v) jsmap" where
  "js_set \<equiv> AList.update"

abbreviation js_delete :: "'k \<Rightarrow> ('k, 'v) jsmap \<Rightarrow> ('k, 'v) jsmap" where
  "js_delete \<equiv> AList.delete"

abbreviation js_keys :: "('k, 'v) jsmap \<Rightarrow> 'k list" where
  "js_keys m \<equiv> map fst m"

abbreviation js_has :: "('k, 'v) jsmap \<Rightarrow> 'k \<Rightarrow> bool" where
  "js_has m k \<equiv> map_of m k \<noteq> None"

abbreviation wf_map :: "('k, 'v) jsmap \<Rightarrow> bool" where
  "wf_map m \<equiv> distinct (map fst m)"

lemma map_of_js_set [simp, js_simps]: "map_of (js_set k v m) = (map_of m)(k \<mapsto> v)"
  by (rule update_conv')

lemma map_of_js_delete [simp, js_simps]: "map_of (js_delete k m) = (map_of m)(k := None)"
  by (rule delete_conv')

lemma wf_map_set [simp, intro]: "wf_map m \<Longrightarrow> wf_map (js_set k v m)"
  by (rule distinct_update)

lemma wf_map_delete [simp, intro]: "wf_map m \<Longrightarrow> wf_map (js_delete k m)"
  by (rule distinct_delete)

lemma keys_js_set_present [simp]: "k \<in> fst ` set m \<Longrightarrow> js_keys (js_set k v m) = js_keys m"
  by (simp add: update_keys)

lemma keys_js_set_absent [simp]: "k \<notin> fst ` set m \<Longrightarrow> js_keys (js_set k v m) = js_keys m @ [k]"
  by (simp add: update_keys)

lemma keyset_js_set [simp]: "fst ` set (js_set k v m) = insert k (fst ` set m)"
  by (simp add: dom_update)

lemma keyset_js_delete [simp]: "fst ` set (js_delete k m) = fst ` set m - {k}"
proof -
  have "set (js_keys (js_delete k m)) = set (js_keys m) - {k}"
    by (auto simp: delete_keys)
  then show ?thesis by simp
qed

lemma js_has_iff: "js_has m k \<longleftrightarrow> k \<in> fst ` set m"
  by (simp add: map_of_eq_None_iff)

lemma js_get_in_keys: "map_of m k = Some v \<Longrightarrow> k \<in> fst ` set m"
  using js_has_iff [of m k] by simp

lemma length_js_set:
  "length (js_set k v m) = (if k \<in> fst ` set m then length m else Suc (length m))"
proof -
  have "length (js_keys (js_set k v m)) = (if k \<in> fst ` set m then length m else Suc (length m))"
    by (cases "k \<in> fst ` set m") simp_all
  then show ?thesis by simp
qed

lemma js_set_absent: "k \<notin> fst ` set m \<Longrightarrow> js_set k v m = m @ [(k, v)]"
  by (induction m) auto

lemma length_js_delete:
  "wf_map m \<Longrightarrow> k \<in> fst ` set m \<Longrightarrow> Suc (length (js_delete k m)) = length m"
proof (induction m)
  case (Cons p m)
  show ?case
  proof (cases "fst p = k")
    case True
    with Cons.prems have "k \<notin> fst ` set m" by auto
    with True show ?thesis by simp
  next
    case False
    with Cons show ?thesis by auto
  qed
qed simp

lemma map_of_js_delete_Some:
  "map_of (js_delete k m) j = Some v \<longleftrightarrow> j \<noteq> k \<and> map_of m j = Some v"
  by simp

section \<open>Ordered sets\<close>

type_synonym 'a jsset = "'a list"

definition set_add :: "'a \<Rightarrow> 'a jsset \<Rightarrow> 'a jsset" where
  "set_add x xs = (if x \<in> set xs then xs else xs @ [x])"

definition set_del :: "'a \<Rightarrow> 'a jsset \<Rightarrow> 'a jsset" where
  "set_del x xs = filter (\<lambda>y. y \<noteq> x) xs"

lemma set_set_add [simp, js_simps]: "set (set_add x xs) = insert x (set xs)"
  by (auto simp: set_add_def)

lemma set_set_del [simp, js_simps]: "set (set_del x xs) = set xs - {x}"
  by (auto simp: set_del_def)

lemma distinct_set_add [simp, intro]: "distinct xs \<Longrightarrow> distinct (set_add x xs)"
  by (simp add: set_add_def)

lemma distinct_set_del [simp, intro]: "distinct xs \<Longrightarrow> distinct (set_del x xs)"
  by (simp add: set_del_def)

lemma set_add_present [simp]: "x \<in> set xs \<Longrightarrow> set_add x xs = xs"
  by (simp add: set_add_def)

lemma set_del_absent [simp]: "x \<notin> set xs \<Longrightarrow> set_del x xs = xs"
  by (induction xs) (auto simp: set_del_def)

lemma length_set_add:
  "length (set_add x xs) = (if x \<in> set xs then length xs else Suc (length xs))"
  by (simp add: set_add_def)

lemma length_set_del:
  assumes "distinct xs"
  shows "length (set_del x xs) = length xs - (if x \<in> set xs then 1 else 0)"
proof -
  have "length (set_del x xs) = card (set xs - {x})"
    using assms by (metis distinct_card distinct_set_del set_set_del)
  with assms show ?thesis by (simp add: distinct_card card_Diff_singleton_if)
qed

lemma set_del_empty_iff: "set_del x xs = [] \<longleftrightarrow> set xs \<subseteq> {x}"
  by (auto simp: set_del_def filter_empty_conv)

lemma set_add_ne [simp]: "set_add x xs \<noteq> []"
  by (auto simp: set_add_def)

text \<open>\<^verbatim>\<open>new Set(xs)\<close>: the elements in order of first occurrence.\<close>

definition set_of_array :: "'a list \<Rightarrow> 'a jsset" where
  "set_of_array xs = fold set_add xs []"

lemma set_fold_set_add: "set (fold set_add xs ys) = set ys \<union> set xs"
  by (induction xs arbitrary: ys) auto

lemma distinct_fold_set_add: "distinct ys \<Longrightarrow> distinct (fold set_add xs ys)"
  by (induction xs arbitrary: ys) auto

lemma set_set_of_array [simp]: "set (set_of_array xs) = set xs"
  by (simp add: set_of_array_def set_fold_set_add)

lemma distinct_set_of_array [simp]: "distinct (set_of_array xs)"
  by (simp add: set_of_array_def distinct_fold_set_add)

section \<open>Strings\<close>

text \<open>White space of \<^verbatim>\<open>String.prototype.trim\<close> among the code units below 256.\<close>

definition js_ws :: "char \<Rightarrow> bool" where
  "js_ws c \<longleftrightarrow> of_char c \<in> {9, 10, 11, 12, 13, 32, 160 :: nat}"

definition js_trim :: "string \<Rightarrow> string" where
  "js_trim s = rev (dropWhile js_ws (rev (dropWhile js_ws s)))"

definition starts_with :: "string \<Rightarrow> string \<Rightarrow> bool" where
  "starts_with p s \<longleftrightarrow> take (length p) s = p"

definition ends_with :: "string \<Rightarrow> string \<Rightarrow> bool" where
  "ends_with p s \<longleftrightarrow> starts_with (rev p) (rev s)"

fun includes_str :: "string \<Rightarrow> string \<Rightarrow> bool" where
  "includes_str p [] \<longleftrightarrow> p = []"
| "includes_str p (c # cs) \<longleftrightarrow> starts_with p (c # cs) \<or> includes_str p cs"

text \<open>\<^verbatim>\<open>s.split(sep)\<close> for a one-character separator.\<close>

fun split_char :: "char \<Rightarrow> string \<Rightarrow> string list" where
  "split_char c [] = [[]]"
| "split_char c (x # xs) =
     (if x = c then [] # split_char c xs
      else case split_char c xs of [] \<Rightarrow> [[x]] | p # ps \<Rightarrow> (x # p) # ps)"

definition js_lower_char :: "char \<Rightarrow> char" where
  "js_lower_char c =
     (let n = of_char c :: nat in
      if 65 \<le> n \<and> n \<le> 90 \<or> 192 \<le> n \<and> n \<le> 222 \<and> n \<noteq> 215 then char_of (n + 32) else c)"

definition js_lower :: "string \<Rightarrow> string" where
  "js_lower s = map js_lower_char s"

fun digits_of_nat :: "nat \<Rightarrow> string" where
  "digits_of_nat n =
     (if n < 10 then [char_of (n + 48)] else digits_of_nat (n div 10) @ [char_of (n mod 10 + 48)])"

declare digits_of_nat.simps [simp del]

text \<open>Decimal rendering of an integer in a template string.\<close>

definition js_int_str :: "int \<Rightarrow> string" where
  "js_int_str i = (if i < 0 then ''-'' @ digits_of_nat (nat (- i)) else digits_of_nat (nat i))"

lemma starts_with_iff: "starts_with p s \<longleftrightarrow> (\<exists>r. s = p @ r)"
  by (auto simp: starts_with_def) (metis append_take_drop_id)

lemma starts_with_append [simp]: "starts_with p (p @ s)"
  by (simp add: starts_with_def)

lemma ends_with_iff: "ends_with p s \<longleftrightarrow> (\<exists>r. s = r @ p)"
proof -
  have "(\<exists>r. rev s = rev p @ r) \<longleftrightarrow> (\<exists>r. s = r @ p)"
    by (metis rev_append rev_rev_ident)
  then show ?thesis by (simp add: ends_with_def starts_with_iff)
qed

lemma split_char_ne [simp]: "split_char c s \<noteq> []"
  by (induction s) (auto split: list.splits)

lemma split_char_no_sep: "c \<notin> set s \<Longrightarrow> split_char c s = [s]"
  by (induction s) auto

lemma split_char_append:
  "c \<notin> set a \<Longrightarrow> split_char c (a @ c # b) = a # split_char c b"
  by (induction a) auto

lemma js_trim_id:
  assumes "s \<noteq> []" "\<not> js_ws (hd s)" "\<not> js_ws (last s)"
  shows "js_trim s = s"
  using assms by (cases s rule: rev_cases) (auto simp: js_trim_def hd_append neq_Nil_conv split: if_splits)

lemma js_trim_Nil [simp]: "js_trim [] = []"
  by (simp add: js_trim_def)

lemma dropWhile_hd: "dropWhile P s \<noteq> [] \<Longrightarrow> \<not> P (hd (dropWhile P s))"
  by (rule hd_dropWhile)

lemma js_trim_ends:
  assumes "js_trim s \<noteq> []"
  shows "\<not> js_ws (last (js_trim s))" and "\<not> js_ws (hd (js_trim s))"
proof -
  let ?d = "dropWhile js_ws s"
  have ne: "dropWhile js_ws (rev ?d) \<noteq> []"
    using assms by (simp add: js_trim_def)
  then show "\<not> js_ws (last (js_trim s))"
    by (simp add: js_trim_def last_rev hd_dropWhile)
  have d: "?d \<noteq> []"
  proof
    assume "?d = []"
    with ne show False by simp
  qed
  then have hd: "\<not> js_ws (hd ?d)" by (rule hd_dropWhile)
  have eq: "rev ?d = takeWhile js_ws (rev ?d) @ dropWhile js_ws (rev ?d)" by simp
  then have "last (rev ?d) = last (dropWhile js_ws (rev ?d))"
    using ne by (metis last_append)
  then have "hd ?d = hd (js_trim s)"
    using d ne by (simp add: js_trim_def last_rev hd_rev)
  with hd show "\<not> js_ws (hd (js_trim s))" by simp
qed

lemma js_trim_idem [simp]: "js_trim (js_trim s) = js_trim s"
proof (cases "js_trim s = []")
  case False
  with js_trim_ends [OF False] show ?thesis by (simp add: js_trim_id)
qed simp

section \<open>Invariants of transition systems\<close>

text \<open>
  A component is observed as a relation between states: a call of one of its operations, an
  event its runtime delivers, a reply of a service. An invariant that holds initially and is
  kept by every step holds after every sequence of steps.
\<close>

locale transition_system =
  fixes init :: "'s \<Rightarrow> bool"
    and step :: "'s \<Rightarrow> 's \<Rightarrow> bool"
    and inv :: "'s \<Rightarrow> bool"
  assumes inv_init: "init s \<Longrightarrow> inv s"
    and inv_step: "inv s \<Longrightarrow> step s t \<Longrightarrow> inv t"
begin

lemma inv_steps: "step\<^sup>*\<^sup>* s t \<Longrightarrow> inv s \<Longrightarrow> inv t"
  by (induction rule: rtranclp_induct) (auto intro: inv_step)

lemma inv_reachable: "init s \<Longrightarrow> step\<^sup>*\<^sup>* s t \<Longrightarrow> inv t"
  by (blast intro: inv_steps inv_init)

end

end
