(* ===== verification/Js_Value.thy ===== *)
theory Js_Value
  imports Prelude "HOL-Library.List_Lexorder" "HOL-Library.Char_ord"
begin

text \<open>
  JavaScript values as the protocol code sees them: numbers, the JSON values \<^verbatim>\<open>JSON.parse\<close>
  can return, truthiness, and the composition \<^verbatim>\<open>JSON.parse(JSON.stringify(v))\<close>.
  A number is an exact rational or one of the three non-finite values: \<^verbatim>\<open>JSON.parse\<close> returns
  \<^verbatim>\<open>Infinity\<close> on a literal such as \<^verbatim>\<open>1e999\<close> and \<^verbatim>\<open>parseInt\<close> returns \<^verbatim>\<open>NaN\<close>. Rounding of
  binary64 arithmetic is not modelled.
\<close>

datatype jsnum = FinNum rat | PosInf | NegInf | NaN

abbreviation int_num :: "int \<Rightarrow> jsnum" where
  "int_num i \<equiv> FinNum (of_int i)"

fun num_less :: "jsnum \<Rightarrow> jsnum \<Rightarrow> bool" where
  "num_less (FinNum p) (FinNum q) \<longleftrightarrow> p < q"
| "num_less (FinNum _) PosInf \<longleftrightarrow> True"
| "num_less NegInf (FinNum _) \<longleftrightarrow> True"
| "num_less NegInf PosInf \<longleftrightarrow> True"
| "num_less _ _ \<longleftrightarrow> False"

fun num_leq :: "jsnum \<Rightarrow> jsnum \<Rightarrow> bool" where
  "num_leq NaN _ \<longleftrightarrow> False"
| "num_leq _ NaN \<longleftrightarrow> False"
| "num_leq x y \<longleftrightarrow> x = y \<or> num_less x y"

fun is_finite :: "jsnum \<Rightarrow> bool" where
  "is_finite (FinNum _) \<longleftrightarrow> True"
| "is_finite _ \<longleftrightarrow> False"

text \<open>\<^verbatim>\<open>Number.isInteger(n)\<close>, with the integer when it holds.\<close>

fun as_integer :: "jsnum \<Rightarrow> int option" where
  "as_integer (FinNum q) = (if snd (quotient_of q) = 1 then Some (fst (quotient_of q)) else None)"
| "as_integer _ = None"

lemma as_integer_of_int [simp]: "as_integer (int_num i) = Some i"
  by simp

lemma num_less_asym: "num_less a b \<Longrightarrow> \<not> num_less b a"
  by (cases a; cases b) auto

lemma num_less_trans: "num_less a b \<Longrightarrow> num_less b c \<Longrightarrow> num_less a c"
  by (cases a; cases b; cases c) auto

lemma num_leq_less_trans: "num_leq a b \<Longrightarrow> num_less b c \<Longrightarrow> num_less a c"
  by (cases a; cases b; cases c) auto

lemma not_num_leq: "a \<noteq> NaN \<Longrightarrow> b \<noteq> NaN \<Longrightarrow> \<not> num_leq a b \<longleftrightarrow> num_less b a"
  by (cases a; cases b) auto

section \<open>JSON values\<close>

datatype json =
    JNull
  | JBool bool
  | JNum jsnum
  | JStr string
  | JArr "json list"
  | JObj "(string \<times> json) list"

text \<open>A property read \<^verbatim>\<open>o.k\<close>: \<open>None\<close> is \<^verbatim>\<open>undefined\<close>.\<close>

fun json_get :: "json \<Rightarrow> string \<Rightarrow> json option" where
  "json_get (JObj kvs) k = map_of kvs k"
| "json_get _ k = None"

fun truthy :: "json option \<Rightarrow> bool" where
  "truthy None \<longleftrightarrow> False"
| "truthy (Some JNull) \<longleftrightarrow> False"
| "truthy (Some (JBool b)) \<longleftrightarrow> b"
| "truthy (Some (JNum n)) \<longleftrightarrow> n \<noteq> FinNum 0 \<and> n \<noteq> NaN"
| "truthy (Some (JStr s)) \<longleftrightarrow> s \<noteq> []"
| "truthy (Some (JArr _)) \<longleftrightarrow> True"
| "truthy (Some (JObj _)) \<longleftrightarrow> True"

text \<open>A string option in a boolean position: \<^verbatim>\<open>undefined\<close> and the empty string are falsy.\<close>

fun str_truthy :: "string option \<Rightarrow> bool" where
  "str_truthy None \<longleftrightarrow> False"
| "str_truthy (Some s) \<longleftrightarrow> s \<noteq> []"

text \<open>\<^verbatim>\<open>a || b\<close> on string options.\<close>

definition str_or :: "string option \<Rightarrow> string option \<Rightarrow> string option" where
  "str_or a b = (if str_truthy a then a else b)"

fun as_str :: "json option \<Rightarrow> string option" where
  "as_str (Some (JStr s)) = Some s"
| "as_str _ = None"

fun as_num :: "json option \<Rightarrow> jsnum option" where
  "as_num (Some (JNum n)) = Some n"
| "as_num _ = None"

fun as_obj :: "json option \<Rightarrow> (string \<times> json) list option" where
  "as_obj (Some (JObj kvs)) = Some kvs"
| "as_obj _ = None"

fun as_arr :: "json option \<Rightarrow> json list option" where
  "as_arr (Some (JArr xs)) = Some xs"
| "as_arr _ = None"

text \<open>
  \<^verbatim>\<open>JSON.parse(JSON.stringify(v))\<close> on a value that came from \<^verbatim>\<open>JSON.parse\<close>: the serialiser
  writes every non-finite number as \<^verbatim>\<open>null\<close>; everything else is read back unchanged.
\<close>

primrec json_reparse :: "json \<Rightarrow> json" where
  "json_reparse JNull = JNull"
| "json_reparse (JBool b) = JBool b"
| "json_reparse (JNum n) = (if is_finite n then JNum n else JNull)"
| "json_reparse (JStr s) = JStr s"
| "json_reparse (JArr xs) = JArr (map json_reparse xs)"
| "json_reparse (JObj kvs) = JObj (map (map_prod id json_reparse) kvs)"

lemma json_get_reparse: "json_get (json_reparse j) k = map_option json_reparse (json_get j k)"
proof (cases j)
  case (JObj kvs)
  have "map_of (map (map_prod id json_reparse) kvs) k = map_option json_reparse (map_of kvs k)"
    by (induction kvs) auto
  with JObj show ?thesis by simp
qed auto

lemma json_reparse_idem [simp]: "json_reparse (json_reparse j) = json_reparse j"
  by (induction j) auto

text \<open>
  \<^verbatim>\<open>JSON.stringify(v, keys)\<close> with an array of property names serialises, in every object of the
  value however deep, exactly the properties named in the array, in the array's order.
  \<open>json_select keys v\<close> is the value that is written.
\<close>

primrec json_select :: "string list \<Rightarrow> json \<Rightarrow> json" where
  "json_select ks JNull = JNull"
| "json_select ks (JBool b) = JBool b"
| "json_select ks (JNum n) = (if is_finite n then JNum n else JNull)"
| "json_select ks (JStr s) = JStr s"
| "json_select ks (JArr xs) = JArr (map (json_select ks) xs)"
| "json_select ks (JObj kvs) =
     JObj (List.map_filter
       (\<lambda>k. map_option (Pair k) (map_of (map (map_prod id (json_select ks)) kvs) k)) ks)"

end
