(* ===== verification/Uuid.thy ===== *)
theory Uuid
  imports Js_Value
begin

text \<open>
  \<^verbatim>\<open>src/utils/uuidv7.ts\<close>: the module-level generator state, the generator, the format check and
  the timestamp extraction. \<open>rnd\<close> is the process's random source: \<open>rnd i\<close> is its \<open>i\<close>-th draw,
  reduced to the range the call asks for.

  \<open>runtime\<close> is also the root of the record that the components of one server process extend:
  beside the generator state it carries the calls made on the metrics registry, in order.
\<close>

unbundle bit_operations_syntax

text \<open>
  A call \<^verbatim>\<open>metricsRegistry?.getCounter(name)?.inc(labels, value)\<close>, \<^verbatim>\<open>getGauge(name)?.set(v)\<close> or
  \<^verbatim>\<open>getHistogram(name)?.record(duration)\<close>; observed durations are not modelled.
\<close>

datatype metric_call =
    MInc string "(string \<times> string) list" nat
  | MSet string int
  | MRecord string

record runtime =
  metricCalls :: "metric_call list"
  lastMs :: nat
  sequenceCounter :: nat
  draws :: nat

definition metric :: "metric_call \<Rightarrow> 'a runtime_scheme \<Rightarrow> 'a runtime_scheme" where
  "metric c rt = rt\<lparr>metricCalls := metricCalls rt @ [c]\<rparr>"

abbreviation inc_metric :: "string \<Rightarrow> string \<Rightarrow> string \<Rightarrow> 'a runtime_scheme \<Rightarrow> 'a runtime_scheme" where
  "inc_metric name label v \<equiv> metric (MInc name [(label, v)] 1)"

section \<open>Encoding\<close>

text \<open>\<^verbatim>\<open>bytes.writeUIntBE(n, _, w)\<close> as a list of \<open>w\<close> bytes.\<close>

fun be_bytes :: "nat \<Rightarrow> nat \<Rightarrow> nat list" where
  "be_bytes 0 n = []"
| "be_bytes (Suc w) n = be_bytes w (n div 256) @ [n mod 256]"

definition hex_digit :: "nat \<Rightarrow> char" where
  "hex_digit d = ''0123456789abcdef'' ! d"

definition hex_of_byte :: "nat \<Rightarrow> string" where
  "hex_of_byte b = [hex_digit (b div 16), hex_digit (b mod 16)]"

definition hex_of_bytes :: "nat list \<Rightarrow> string" where
  "hex_of_bytes bs = concat (map hex_of_byte bs)"

definition hex_val :: "char \<Rightarrow> nat" where
  "hex_val c =
     (let n = of_char c :: nat in
      if 48 \<le> n \<and> n \<le> 57 then n - 48 else if 97 \<le> n \<and> n \<le> 102 then n - 87 else n - 55)"

definition parse_hex :: "string \<Rightarrow> nat" where
  "parse_hex s = foldl (\<lambda>a c. 16 * a + hex_val c) 0 s"

definition substring :: "nat \<Rightarrow> nat \<Rightarrow> string \<Rightarrow> string" where
  "substring a b s = drop a (take b s)"

text \<open>
  Lines 54-75: sixteen bytes from the millisecond, the sequence counter and eight random
  bytes, with the version and variant bits set, formatted 8-4-4-4-12.
\<close>

definition format_uuid :: "nat \<Rightarrow> nat \<Rightarrow> nat \<Rightarrow> string" where
  "format_uuid ms seqc rand8 =
     (let verAndSeq = push_bit 12 7 OR (seqc AND 4095);
          rb = be_bytes 8 rand8;
          bytes = be_bytes 6 ms @ be_bytes 2 verAndSeq @ [(hd rb AND 63) OR 128] @ tl rb;
          hex = hex_of_bytes bytes
      in substring 0 8 hex @ ''-'' @ substring 8 12 hex @ ''-'' @ substring 12 16 hex @ ''-''
         @ substring 16 20 hex @ ''-'' @ substring 20 32 hex)"

section \<open>The generator\<close>

datatype uuid_error = RangeError | InvalidUUIDv7

text \<open>Lines 30-52 without a custom timestamp: the millisecond to encode, and the new state.\<close>

definition advance_uuid :: "(nat \<Rightarrow> nat) \<Rightarrow> nat \<Rightarrow> 'a runtime_scheme \<Rightarrow> nat \<times> 'a runtime_scheme" where
  "advance_uuid rnd now rt =
     (if now > lastMs rt
      then (now, rt\<lparr>lastMs := now, sequenceCounter := rnd (draws rt) mod 0x3ff, draws := Suc (draws rt)\<rparr>)
      else if now = lastMs rt
      then (if Suc (sequenceCounter rt) > 0xfff
            then (Suc now, rt\<lparr>lastMs := Suc now, sequenceCounter := 0\<rparr>)
            else (now, rt\<lparr>sequenceCounter := Suc (sequenceCounter rt)\<rparr>))
      else (lastMs rt, rt\<lparr>sequenceCounter := Suc (sequenceCounter rt)\<rparr>))"

text \<open>Line 57: \<^verbatim>\<open>writeUIntBE\<close> throws when the millisecond does not fit 48 bits.\<close>

definition encode_uuid ::
  "(nat \<Rightarrow> nat) \<Rightarrow> nat \<Rightarrow> 'a runtime_scheme \<Rightarrow> (uuid_error + string) \<times> 'a runtime_scheme" where
  "encode_uuid rnd ms rt =
     (if ms < 2 ^ 48
      then (Inr (format_uuid ms (sequenceCounter rt) (rnd (draws rt))), rt\<lparr>draws := Suc (draws rt)\<rparr>)
      else (Inl RangeError, rt))"

definition generateUUIDv7 ::
  "(nat \<Rightarrow> nat) \<Rightarrow> nat option \<Rightarrow> nat \<Rightarrow> 'a runtime_scheme
     \<Rightarrow> (uuid_error + string) \<times> 'a runtime_scheme" where
  "generateUUIDv7 rnd customTimestamp now rt =
     (case customTimestamp of
        Some ms \<Rightarrow>
          encode_uuid rnd ms
            (rt\<lparr>sequenceCounter := rnd (draws rt) mod 0xfff, draws := Suc (draws rt)\<rparr>)
      | None \<Rightarrow> (let (ms, rt') = advance_uuid rnd now rt in encode_uuid rnd ms rt'))"

text \<open>
  The call without a timestamp as the message handlers use it. \<^verbatim>\<open>Date.now()\<close> fits 48 bits until
  the year 10889, so the handlers never see the range error (\<open>freshId_generate\<close>).
\<close>

definition freshId :: "(nat \<Rightarrow> nat) \<Rightarrow> int \<Rightarrow> 'a runtime_scheme \<Rightarrow> string \<times> 'a runtime_scheme" where
  "freshId rnd now rt =
     (let (ms, rt') = advance_uuid rnd (nat now) rt
      in (format_uuid ms (sequenceCounter rt') (rnd (draws rt')), rt'\<lparr>draws := Suc (draws rt')\<rparr>))"

lemma freshId_generate:
  assumes "fst (advance_uuid rnd (nat now) rt) < 2 ^ 48"
  shows "generateUUIDv7 rnd None (nat now) rt = (Inr (fst (freshId rnd now rt)), snd (freshId rnd now rt))"
  using assms by (auto simp: generateUUIDv7_def encode_uuid_def freshId_def split: prod.splits)

section \<open>Validation and extraction\<close>

definition is_hex :: "char \<Rightarrow> bool" where
  "is_hex c \<longleftrightarrow> c \<in> set ''0123456789abcdefABCDEF''"

text \<open>The regular expression \<^verbatim>\<open>UUIDV7_REGEX\<close>, position by position (flag \<^verbatim>\<open>i\<close>).\<close>

definition uuidv7_regex :: "(char \<Rightarrow> bool) list" where
  "uuidv7_regex =
     replicate 8 is_hex @ [\<lambda>c. c = CHR ''-''] @ replicate 4 is_hex @ [\<lambda>c. c = CHR ''-'']
     @ [\<lambda>c. c = CHR ''7''] @ replicate 3 is_hex @ [\<lambda>c. c = CHR ''-'']
     @ [\<lambda>c. c \<in> set ''89abAB''] @ replicate 3 is_hex @ [\<lambda>c. c = CHR ''-''] @ replicate 12 is_hex"

definition isValidUUIDv7 :: "string \<Rightarrow> bool" where
  "isValidUUIDv7 s \<longleftrightarrow> length s = 36 \<and> list_all2 (\<lambda>p c. p c) uuidv7_regex s"

definition extractTimestampFromUUIDv7 :: "string \<Rightarrow> uuid_error + nat" where
  "extractTimestampFromUUIDv7 s =
     (if \<not> isValidUUIDv7 s then Inl InvalidUUIDv7
      else Inr (parse_hex (substring 0 12 (filter (\<lambda>c. c \<noteq> CHR ''-'') s))))"

section \<open>Lemmas on the encoding\<close>

lemma length_be_bytes [simp]: "length (be_bytes w n) = w"
  by (induction w n rule: be_bytes.induct) auto

lemma be_bytes_small: "b \<in> set (be_bytes w n) \<Longrightarrow> b < 256"
  by (induction w n rule: be_bytes.induct) auto

lemma length_hex_of_bytes [simp]: "length (hex_of_bytes bs) = 2 * length bs"
  by (induction bs) (simp_all add: hex_of_bytes_def hex_of_byte_def)

lemma hex_of_bytes_append [simp]: "hex_of_bytes (a @ b) = hex_of_bytes a @ hex_of_bytes b"
  by (simp add: hex_of_bytes_def)

lemma below_16:
  "(d::nat) < 16 \<Longrightarrow> d \<in> {0, 1, 2, 3, 4, 5, 6, 7, 8, 9, 10, 11, 12, 13, 14, 15}"
  by (simp, presburger)

lemma hex_val_hex_digit [simp]: "d < 16 \<Longrightarrow> hex_val (hex_digit d) = d"
  by (drule below_16) (auto simp: hex_digit_def hex_val_def Let_def)

lemma is_hex_hex_digit [simp]: "d < 16 \<Longrightarrow> is_hex (hex_digit d)"
  by (drule below_16) (auto simp: is_hex_def hex_digit_def)

lemma of_char_hex_digit: "d < 16 \<Longrightarrow> of_char (hex_digit d) = (if d < 10 then 48 + d else 87 + d)"
  by (drule below_16) (auto simp: hex_digit_def)

lemma hex_digit_mono: "d < e \<Longrightarrow> e < 16 \<Longrightarrow> hex_digit d < hex_digit e"
  by (auto simp: less_char_def of_char_hex_digit)

lemma hex_digit_not_dash [simp]: "d < 16 \<Longrightarrow> hex_digit d \<noteq> CHR ''-''"
  using is_hex_hex_digit [of d] by (auto simp: is_hex_def)

lemma hex_of_bytes_hex:
  "(\<forall>b\<in>set bs. b < 256) \<Longrightarrow> c \<in> set (hex_of_bytes bs) \<Longrightarrow> is_hex c"
  by (auto simp: hex_of_bytes_def hex_of_byte_def)

text \<open>The hexadecimal digits of a number, most significant first.\<close>

fun hexw :: "nat \<Rightarrow> nat \<Rightarrow> string" where
  "hexw 0 n = []"
| "hexw (Suc w) n = hexw w (n div 16) @ [hex_digit (n mod 16)]"

lemma length_hexw [simp]: "length (hexw w n) = w"
  by (induction w n rule: hexw.induct) auto

lemma hexw_digits: "c \<in> set (hexw w n) \<Longrightarrow> is_hex c \<and> c \<noteq> CHR ''-''"
  by (induction w n rule: hexw.induct) auto

lemma hex_of_be_bytes: "hex_of_bytes (be_bytes w n) = hexw (2 * w) n"
proof (induction w n rule: be_bytes.induct)
  case (2 w n)
  have "n mod (16 * 16) = 16 * (n div 16 mod 16) + n mod 16"
    by (rule mod_mult2_eq)
  then have "n mod 256 div 16 = n div 16 mod 16" "n mod 256 mod 16 = n mod 16"
    by simp_all
  moreover have "n div 16 div 16 = n div 256"
    by (simp add: div_mult2_eq [symmetric])
  ultimately show ?case using 2 by (simp add: hex_of_bytes_def hex_of_byte_def)
qed (simp add: hex_of_bytes_def)

lemma parse_hexw: "parse_hex (hexw w n) = n mod 16 ^ w"
proof (induction w n rule: hexw.induct)
  case (2 w n)
  have "parse_hex (hexw (Suc w) n) = 16 * (n div 16 mod 16 ^ w) + n mod 16"
    using 2 by (simp add: parse_hex_def)
  then show ?case by (simp add: mod_mult2_eq)
qed (simp add: parse_hex_def)

lemma push_or_take: "push_bit k a OR take_bit k n = push_bit k a + take_bit k n" for a n :: nat
  by (rule disjunctive_add [symmetric]) (auto simp: bit_push_bit_iff bit_take_bit_iff)

text \<open>The third group of the identifier: the version nibble and twelve bits of the counter.\<close>

lemma ver_and_seq: "push_bit 12 7 OR (n AND 4095) = 28672 + n mod 4096" for n :: nat
proof -
  have "n AND 4095 = take_bit 12 n"
    by (simp add: take_bit_eq_mask mask_eq_exp_minus_1)
  then show ?thesis
    using push_or_take [of 12 7 n] by (simp add: push_bit_eq_mult take_bit_eq_mod)
qed

lemma variant_byte: "(n AND 63) OR 128 = 128 + n mod 64" for n :: nat
proof -
  have "n AND 63 = take_bit 6 n"
    by (simp add: take_bit_eq_mask mask_eq_exp_minus_1)
  then show ?thesis
    using push_or_take [of 6 2 n] by (simp add: push_bit_eq_mult take_bit_eq_mod or.commute)
qed

lemma hexw_msb: "hexw (Suc w) n = hex_digit (n div 16 ^ w mod 16) # hexw w n"
proof (induction w arbitrary: n)
  case (Suc w)
  have "hexw (Suc (Suc w)) n = hexw (Suc w) (n div 16) @ [hex_digit (n mod 16)]" by simp
  also have "\<dots> = hex_digit (n div 16 div 16 ^ w mod 16) # hexw w (n div 16) @ [hex_digit (n mod 16)]"
    by (simp only: Suc.IH append_Cons)
  finally show ?case by (simp add: div_mult2_eq)
qed simp

lemma hexw_add_mult: "hexw w (n + k * 16 ^ w) = hexw w n"
proof (induction w arbitrary: n)
  case (Suc w)
  have "(n + k * 16 ^ Suc w) div 16 = n div 16 + k * 16 ^ w"
    by (simp add: mult.left_commute [of k 16])
  moreover have "(n + k * 16 ^ Suc w) mod 16 = n mod 16"
    by (simp add: mult.left_commute [of k 16])
  ultimately show ?case using Suc.IH [of "n div 16"] by simp
qed simp

definition uuid_tail :: "nat \<Rightarrow> string" where
  "uuid_tail rand8 =
     (let rb = be_bytes 8 rand8; hex = hex_of_bytes ([(hd rb AND 63) OR 128] @ tl rb)
      in substring 0 4 hex @ ''-'' @ substring 4 16 hex)"

lemma hexw_ver_and_seq: "n < 4096 \<Longrightarrow> hexw 4 (28672 + n) = ''7'' @ hexw 3 n"
  using hexw_msb [of 3 "28672 + n"] hexw_add_mult [of 3 n 7] by (simp add: hex_digit_def add.commute)

lemma format_uuid_eq:
  "format_uuid ms c r =
     take 8 (hexw 12 ms) @ ''-'' @ drop 8 (hexw 12 ms) @ ''-7'' @ hexw 3 (c mod 4096) @ ''-'' @ uuid_tail r"
proof -
  let ?rb = "be_bytes 8 r"
  let ?v = "[(hd ?rb AND 63) OR 128] @ tl ?rb"
  have lv: "length ?v = 8" by simp
  have h: "hex_of_bytes (be_bytes 6 ms @ be_bytes 2 (28672 + c mod 4096) @ ?v)
      = hexw 12 ms @ hexw 4 (28672 + c mod 4096) @ hex_of_bytes ?v"
    by (simp add: hex_of_be_bytes)
  show ?thesis
    using lv unfolding format_uuid_def ver_and_seq Let_def h uuid_tail_def substring_def
    by (simp add: hexw_ver_and_seq)
qed

lemma uuid_tail_shape:
  obtains v t u where "uuid_tail r = v # t @ ''-'' @ u" "v \<in> set ''89ab''"
    "length t = 3" "length u = 12" "\<And>c. c \<in> set t \<union> set u \<Longrightarrow> is_hex c \<and> c \<noteq> CHR ''-''"
proof -
  let ?rb = "be_bytes 8 r"
  let ?h = "hex_of_bytes (tl ?rb)"
  define b where "b = 128 + hd ?rb mod 64"
  have b: "b div 16 \<in> {8, 9, 10, 11}" "b mod 16 < 16" by (auto simp: b_def)
  have hex: "hex_of_bytes ([b] @ tl ?rb) = hex_digit (b div 16) # hex_digit (b mod 16) # ?h"
    by (simp add: hex_of_bytes_def hex_of_byte_def)
  have ish: "is_hex c \<and> c \<noteq> CHR ''-''" if "c \<in> set ?h" for c
  proof -
    have "x \<in> set ?rb" if "x \<in> set (tl ?rb)" for x
      using that by (metis list.sel(2) list.set_sel(2))
    then have "is_hex c"
      using that hex_of_bytes_hex [of "tl ?rb" c] be_bytes_small [of _ 8 r] by blast
    then show ?thesis by (auto simp: is_hex_def)
  qed
  show thesis
  proof (rule that)
    show "uuid_tail r = hex_digit (b div 16) # (hex_digit (b mod 16) # take 2 ?h) @ ''-'' @ drop 2 ?h"
      using hex unfolding uuid_tail_def Let_def variant_byte b_def [symmetric]
      by (simp add: substring_def)
    show "hex_digit (b div 16) \<in> set ''89ab''" using b(1) by (auto simp: hex_digit_def)
    show "length (hex_digit (b mod 16) # take 2 ?h) = 3" "length (drop 2 ?h) = 12" by simp_all
    show "is_hex c \<and> c \<noteq> CHR ''-''" if "c \<in> set (hex_digit (b mod 16) # take 2 ?h) \<union> set (drop 2 ?h)" for c
      using that b(2) ish [of c] by (auto dest: in_set_takeD in_set_dropD)
  qed
qed

lemma list_all2_replicate:
  "list_all2 (\<lambda>p c. p c) (replicate n P) xs \<longleftrightarrow> length xs = n \<and> (\<forall>x\<in>set xs. P x)"
  by (induction n arbitrary: xs) (auto simp: list_all2_Cons1 length_Suc_conv)

lemma list_all2_part:
  "length a = length x \<Longrightarrow>
     list_all2 (\<lambda>p c. p c) (a @ b) (x @ y)
       \<longleftrightarrow> list_all2 (\<lambda>p c. p c) a x \<and> list_all2 (\<lambda>p c. p c) b y"
  by (rule list_all2_append)

lemma take_drop_hex: "c \<in> set (take i (hexw w n)) \<union> set (drop i (hexw w n)) \<Longrightarrow> is_hex c \<and> c \<noteq> CHR ''-''"
  using hexw_digits [of c w n] by (auto dest: in_set_takeD in_set_dropD)

lemma format_uuid_valid: "isValidUUIDv7 (format_uuid ms c r)"
proof -
  obtain v t u where T: "uuid_tail r = v # t @ ''-'' @ u" "v \<in> set ''89ab''" "length t = 3" "length u = 12"
    "\<And>c. c \<in> set t \<union> set u \<Longrightarrow> is_hex c \<and> c \<noteq> CHR ''-''"
    using uuid_tail_shape [of r] by metis
  have eq: "format_uuid ms c r =
      take 8 (hexw 12 ms) @ ''-'' @ drop 8 (hexw 12 ms) @ ''-'' @ ''7'' @ hexw 3 (c mod 4096) @ ''-''
      @ [v] @ t @ ''-'' @ u"
    by (simp add: format_uuid_eq T(1))
  show ?thesis
    unfolding isValidUUIDv7_def eq uuidv7_regex_def
    using T take_drop_hex [of _ 8 12 ms] hexw_digits [of _ 3 "c mod 4096"]
    by (auto simp: list_all2_part list_all2_replicate)
qed

lemma format_uuid_timestamp:
  assumes "ms < 2 ^ 48"
  shows "extractTimestampFromUUIDv7 (format_uuid ms c r) = Inr ms"
proof -
  have no_dash: "filter (\<lambda>c. c \<noteq> CHR ''-'') (take 8 (hexw 12 ms)) = take 8 (hexw 12 ms)"
    "filter (\<lambda>c. c \<noteq> CHR ''-'') (drop 8 (hexw 12 ms)) = drop 8 (hexw 12 ms)"
    using take_drop_hex [of _ 8 12 ms] by (auto simp: filter_id_conv)
  let ?rest = "filter (\<lambda>c. c \<noteq> CHR ''-'') (''-7'' @ hexw 3 (c mod 4096) @ ''-'' @ uuid_tail r)"
  have "filter (\<lambda>c. c \<noteq> CHR ''-'') (format_uuid ms c r) = hexw 12 ms @ ?rest"
    by (simp only: format_uuid_eq filter_append no_dash) simp
  then have "substring 0 12 (filter (\<lambda>c. c \<noteq> CHR ''-'') (format_uuid ms c r)) = hexw 12 ms"
    by (simp add: substring_def)
  with assms show ?thesis
    by (simp add: extractTimestampFromUUIDv7_def format_uuid_valid parse_hexw)
qed

section \<open>Identifiers sort by time\<close>

lemma lex_append_left: "length xs = length ys \<Longrightarrow> xs < ys \<Longrightarrow> xs @ a < ys @ b"
  for xs ys :: "'a::linorder list"
proof (induction xs ys rule: list_induct2)
  case (Cons x xs y ys)
  then show ?case by (cases "x < y") auto
qed simp

lemma lex_append_same: "a < b \<Longrightarrow> xs @ a < xs @ b" for xs a b :: "'a::linorder list"
  by (induction xs) auto

lemma lex_insert_mid:
  fixes a b c d :: "'a::linorder list"
  assumes "length a = length b" "length c = length d" "a @ c < b @ d"
  shows "a @ m @ c @ x < b @ m @ d @ y"
proof (cases "a = b")
  case True
  with assms(3) have "c < d"
    by (metis lex_append_same linorder_neqE order_less_asym)
  with True assms(2) show ?thesis by (auto intro: lex_append_same lex_append_left)
next
  case False
  then consider "a < b" | "b < a" by (meson linorder_neqE)
  then show ?thesis
  proof cases
    case 2
    then have "b @ d < a @ c" using assms(1) lex_append_left [of b a d c] by simp
    with assms(3) show ?thesis by (meson order_less_asym)
  qed (use assms(1) lex_append_left [of a b] in simp)
qed

lemma hexw_mono:
  "m < n \<Longrightarrow> n < 16 ^ w \<Longrightarrow> hexw w m < hexw w n"
proof (induction w arbitrary: m n)
  case (Suc w)
  show ?case
  proof (cases "m div 16 < n div 16")
    case True
    have "n div 16 < 16 ^ w" using Suc.prems(2) by (simp add: less_mult_imp_div_less mult.commute)
    with Suc.IH [OF True] have "hexw w (m div 16) < hexw w (n div 16)" by blast
    then show ?thesis by (simp add: lex_append_left)
  next
    case False
    with Suc.prems(1) have "m div 16 = n div 16" by (meson div_le_mono le_less_linear le_less order_less_imp_le)
    moreover from this Suc.prems(1) have "m mod 16 < n mod 16"
      by (metis div_mult_mod_eq nat_add_left_cancel_less)
    ultimately show ?thesis by (auto intro: lex_append_same simp: hex_digit_mono)
  qed
qed simp

lemma format_uuid_less:
  assumes "ms < ms' \<or> ms = ms' \<and> c < c'" "ms' < 2 ^ 48" "c < 4096" "c' < 4096"
  shows "format_uuid ms c r < format_uuid ms' c' r'"
proof (cases "ms < ms'")
  case True
  then have "hexw 12 ms < hexw 12 ms'" using assms(2) by (intro hexw_mono) simp_all
  then have "take 8 (hexw 12 ms) @ drop 8 (hexw 12 ms) < take 8 (hexw 12 ms') @ drop 8 (hexw 12 ms')"
    by simp
  then show ?thesis
    unfolding format_uuid_eq by (intro lex_insert_mid) simp_all
next
  case False
  with assms have "ms = ms'" "hexw 3 c < hexw 3 c'" by (auto intro: hexw_mono)
  with assms(3,4) show ?thesis
    unfolding format_uuid_eq by (auto intro!: lex_append_same lex_append_left)
qed

text \<open>One call: what is encoded, and that the pair of millisecond and counter has grown.\<close>

definition uuid_step_ok :: "int \<Rightarrow> 'a runtime_scheme \<Rightarrow> bool" where
  "uuid_step_ok now rt \<longleftrightarrow>
     sequenceCounter rt \<le> 0xfff \<and> (nat now < lastMs rt \<longrightarrow> sequenceCounter rt < 0xfff)
     \<and> nat now < 2 ^ 48 - 1 \<and> lastMs rt < 2 ^ 48"

lemma freshId_step:
  assumes "uuid_step_ok now rt"
  shows "fst (freshId rnd now rt) =
           format_uuid (lastMs (snd (freshId rnd now rt))) (sequenceCounter (snd (freshId rnd now rt)))
             (rnd (draws (snd (freshId rnd now rt)) - 1))"
    and "lastMs rt < lastMs (snd (freshId rnd now rt))
         \<or> lastMs rt = lastMs (snd (freshId rnd now rt))
           \<and> sequenceCounter rt < sequenceCounter (snd (freshId rnd now rt))"
    and "sequenceCounter (snd (freshId rnd now rt)) \<le> 0xfff"
    and "lastMs (snd (freshId rnd now rt)) < 2 ^ 48"
  using assms mod_less_divisor [of "0x3ff" "rnd (draws rt)"]
  by (auto simp: freshId_def advance_uuid_def uuid_step_ok_def Let_def)

text \<open>A run of the generator at the given clock readings; whether every call stays in range.\<close>

fun fresh_run :: "(nat \<Rightarrow> nat) \<Rightarrow> int list \<Rightarrow> 'a runtime_scheme \<Rightarrow> string list" where
  "fresh_run rnd [] rt = []"
| "fresh_run rnd (t # ts) rt = fst (freshId rnd t rt) # fresh_run rnd ts (snd (freshId rnd t rt))"

fun fresh_run_ok :: "(nat \<Rightarrow> nat) \<Rightarrow> int list \<Rightarrow> 'a runtime_scheme \<Rightarrow> bool" where
  "fresh_run_ok rnd [] rt = True"
| "fresh_run_ok rnd (t # ts) rt = (uuid_step_ok t rt \<and> fresh_run_ok rnd ts (snd (freshId rnd t rt)))"

lemma fresh_run_above:
  assumes "fresh_run_ok rnd ts rt" "sequenceCounter rt < 4096" "u \<in> set (fresh_run rnd ts rt)"
  shows "format_uuid (lastMs rt) (sequenceCounter rt) r < u"
  using assms
proof (induction ts arbitrary: rt r)
  case (Cons t ts)
  let ?rt = "snd (freshId rnd t rt)"
  have ok: "uuid_step_ok t rt" using Cons.prems(1) by simp
  note st = freshId_step [OF ok, of rnd]
  have lt: "format_uuid (lastMs rt) (sequenceCounter rt) r
      < format_uuid (lastMs ?rt) (sequenceCounter ?rt) r'" for r'
    by (rule format_uuid_less) (use st ok in \<open>auto simp: uuid_step_ok_def\<close>)
  from Cons.prems(3) consider "u = fst (freshId rnd t rt)" | "u \<in> set (fresh_run rnd ts ?rt)"
    by auto
  then show ?case
  proof cases
    case 1
    with lt st(1) show ?thesis by metis
  next
    case 2
    have "format_uuid (lastMs ?rt) (sequenceCounter ?rt) 0 < u"
      by (rule Cons.IH) (use Cons.prems st(3) 2 in auto)
    with lt show ?thesis by (rule less_trans)
  qed
qed simp

text \<open>
  Identifiers drawn one after the other without a custom timestamp are strictly increasing
  strings (and therefore sort by creation time and never repeat), whatever the clock readings
  and the random source, as long as every call keeps the 12-bit counter in range: a call whose
  clock reading is behind the last encoded millisecond needs a counter below 0xfff.
\<close>

theorem generated_ids_increase:
  assumes "fresh_run_ok rnd ts rt"
  shows "sorted_wrt (<) (fresh_run rnd ts rt) \<and> (\<forall>u \<in> set (fresh_run rnd ts rt). isValidUUIDv7 u)"
  using assms
proof (induction ts arbitrary: rt)
  case (Cons t ts)
  let ?rt = "snd (freshId rnd t rt)"
  have ok: "uuid_step_ok t rt" using Cons.prems by simp
  note st = freshId_step [OF ok, of rnd]
  have "fst (freshId rnd t rt) < u" if "u \<in> set (fresh_run rnd ts ?rt)" for u
    using fresh_run_above [of rnd ts ?rt u] that Cons.prems st by simp
  moreover have "isValidUUIDv7 (fst (freshId rnd t rt))"
    using st(1) by (metis format_uuid_valid)
  ultimately show ?case using Cons by auto
qed simp

theorem generated_ids_increase_witness:
  "fresh_run_ok (\<lambda>_. 5) [1000, 1000, 999, 1001]
       \<lparr>metricCalls = [], lastMs = 0, sequenceCounter = 0, draws = 0\<rparr>
   \<and> sorted_wrt (<) (fresh_run (\<lambda>_. 5) [1000, 1000, 999, 1001]
       \<lparr>metricCalls = [], lastMs = 0, sequenceCounter = 0, draws = 0\<rparr>)"
proof -
  have "fresh_run_ok (\<lambda>_. 5) [1000, 1000, 999, 1001]
       \<lparr>metricCalls = [], lastMs = 0, sequenceCounter = 0, draws = 0\<rparr>"
    by (simp add: uuid_step_ok_def freshId_def advance_uuid_def)
  with generated_ids_increase [OF this] show ?thesis by blast
qed

text \<open>
  The millisecond survives the encoding. A generated identifier is a valid UUIDv7 and
  extracting its timestamp returns the custom timestamp; a timestamp of 48 bits or more is
  refused with a range error instead of being truncated.
\<close>

theorem uuid_timestamp_roundtrip:
  "if ms < 2 ^ 48
   then \<exists>u rt'. generateUUIDv7 rnd (Some ms) now rt = (Inr u, rt') \<and> isValidUUIDv7 u
          \<and> extractTimestampFromUUIDv7 u = Inr ms
   else fst (generateUUIDv7 rnd (Some ms) now rt) = Inl RangeError"
  by (simp add: generateUUIDv7_def encode_uuid_def format_uuid_valid format_uuid_timestamp)

text \<open>
  Monotonicity is lost when the clock steps back while the counter is full. The branch for a
  backward clock increments the counter without the rollover of the other branch, the counter is
  masked to twelve bits when it is encoded, and the next identifier sorts below its predecessor.
\<close>

theorem clock_back_breaks_order:
  "let rt = \<lparr>metricCalls = [], lastMs = 1000, sequenceCounter = 0xffe, draws = 0\<rparr>;
       (u, rt1) = freshId rnd 999 rt;
       (u', rt2) = freshId rnd 999 rt1
   in u' < u"
proof -
  let ?rt = "\<lparr>metricCalls = [], lastMs = 1000, sequenceCounter = 0xffe, draws = 0\<rparr>"
  have a: "freshId rnd 999 ?rt = (format_uuid 1000 0xfff (rnd 0), ?rt\<lparr>sequenceCounter := 0xfff, draws := 1\<rparr>)"
    by (simp add: freshId_def advance_uuid_def)
  have b: "freshId rnd 999 (?rt\<lparr>sequenceCounter := 0xfff, draws := 1\<rparr>) =
      (format_uuid 1000 0x1000 (rnd 1), ?rt\<lparr>sequenceCounter := 0x1000, draws := 2\<rparr>)"
    by (simp add: freshId_def advance_uuid_def)
  have "format_uuid 1000 0x1000 (rnd 1) = format_uuid 1000 0 (rnd 1)"
    by (simp add: format_uuid_eq)
  moreover have "format_uuid 1000 0 (rnd 1) < format_uuid 1000 0xfff (rnd 0)"
    by (rule format_uuid_less) simp_all
  ultimately show ?thesis using a b by simp
qed

end
