(* ===== verification/Redis_Metrics.thy ===== *)
theory Redis_Metrics
  imports Uuid
begin

text \<open>
  \<^verbatim>\<open>src/redis/RedisMetrics.ts\<close>: the counters of the Redis side of one server process, and the
  calls they forward to the metrics registry. Milliseconds are integers; the averages of the
  snapshot are exact rationals.
\<close>

record rm_state = runtime +
  publishCount :: nat
  publishErrors :: nat
  publishLatencyTotalMs :: int
  publishLatencyMaxMs :: int
  inFlightPublishes :: int
  inboundCount :: nat
  inboundLatencyTotalMs :: int
  inboundLatencyMaxMs :: int
  echoesSuppressed :: nat
  duplicatesSuppressed :: nat
  channelsActive :: nat
  connectionState :: string
  presenceUsersOnline :: nat
  presenceConnectionsActive :: nat
  presenceEventsPublished :: nat
  presenceEventsReceived :: nat
  presencePruneLatencyMs :: int
  presenceLeaseRenewals :: nat

definition recordPublishStart :: "'a rm_state_scheme \<Rightarrow> 'a rm_state_scheme" where
  "recordPublishStart st =
     (let st' = st\<lparr>inFlightPublishes := inFlightPublishes st + 1\<rparr>
      in metric (MSet ''pulse_redis_publish_in_flight'' (inFlightPublishes st')) st')"

definition recordPublishRejected :: "'a rm_state_scheme \<Rightarrow> 'a rm_state_scheme" where
  "recordPublishRejected st =
     inc_metric ''pulse_redis_publish_total'' ''status'' ''error'' (st\<lparr>publishErrors := Suc (publishErrors st)\<rparr>)"

definition recordPublishEnd :: "int \<Rightarrow> bool \<Rightarrow> 'a rm_state_scheme \<Rightarrow> 'a rm_state_scheme" where
  "recordPublishEnd durationMs err st =
     (let st1 = st\<lparr>inFlightPublishes := max 0 (inFlightPublishes st - 1)\<rparr>;
          st2 = metric (MSet ''pulse_redis_publish_in_flight'' (inFlightPublishes st1)) st1 in
      if err
      then inc_metric ''pulse_redis_publish_total'' ''status'' ''error''
             (st2\<lparr>publishErrors := Suc (publishErrors st2)\<rparr>)
      else metric (MRecord ''pulse_redis_publish_duration_seconds'')
             (inc_metric ''pulse_redis_publish_total'' ''status'' ''success''
               (st2\<lparr>publishCount := Suc (publishCount st2),
                    publishLatencyTotalMs := publishLatencyTotalMs st2 + durationMs,
                    publishLatencyMaxMs := max (publishLatencyMaxMs st2) durationMs\<rparr>)))"

definition recordInbound :: "int \<Rightarrow> 'a rm_state_scheme \<Rightarrow> 'a rm_state_scheme" where
  "recordInbound durationMs st =
     st\<lparr>inboundCount := Suc (inboundCount st),
        inboundLatencyTotalMs := inboundLatencyTotalMs st + durationMs,
        inboundLatencyMaxMs := max (inboundLatencyMaxMs st) durationMs\<rparr>"

definition recordEchoSuppressed :: "'a rm_state_scheme \<Rightarrow> 'a rm_state_scheme" where
  "recordEchoSuppressed st = st\<lparr>echoesSuppressed := Suc (echoesSuppressed st)\<rparr>"

definition recordDuplicateSuppressed :: "'a rm_state_scheme \<Rightarrow> 'a rm_state_scheme" where
  "recordDuplicateSuppressed st = st\<lparr>duplicatesSuppressed := Suc (duplicatesSuppressed st)\<rparr>"

definition setChannelsActive :: "nat \<Rightarrow> 'a rm_state_scheme \<Rightarrow> 'a rm_state_scheme" where
  "setChannelsActive n st =
     metric (MSet ''pulse_redis_subscriptions_active'' (int n)) (st\<lparr>channelsActive := n\<rparr>)"

definition setConnectionState :: "string \<Rightarrow> 'a rm_state_scheme \<Rightarrow> 'a rm_state_scheme" where
  "setConnectionState s st =
     metric (MSet ''pulse_redis_connection_state'' (if s = ''connected'' then 1 else 0)) (st\<lparr>connectionState := s\<rparr>)"

definition recordPresenceEventPublished :: "'a rm_state_scheme \<Rightarrow> 'a rm_state_scheme" where
  "recordPresenceEventPublished st =
     inc_metric ''pulse_presence_events_total'' ''direction'' ''published''
       (st\<lparr>presenceEventsPublished := Suc (presenceEventsPublished st)\<rparr>)"

definition recordPresenceEventReceived :: "'a rm_state_scheme \<Rightarrow> 'a rm_state_scheme" where
  "recordPresenceEventReceived st =
     inc_metric ''pulse_presence_events_total'' ''direction'' ''received''
       (st\<lparr>presenceEventsReceived := Suc (presenceEventsReceived st)\<rparr>)"

definition recordPresencePruneLatency :: "int \<Rightarrow> 'a rm_state_scheme \<Rightarrow> 'a rm_state_scheme" where
  "recordPresencePruneLatency durationMs st =
     metric (MRecord ''pulse_presence_prune_duration_seconds'')
       (st\<lparr>presencePruneLatencyMs := max (presencePruneLatencyMs st) durationMs\<rparr>)"

definition recordPresenceLeaseRenewals :: "nat \<Rightarrow> 'a rm_state_scheme \<Rightarrow> 'a rm_state_scheme" where
  "recordPresenceLeaseRenewals n st =
     metric (MInc ''pulse_presence_lease_renewals_total'' [] n)
       (st\<lparr>presenceLeaseRenewals := presenceLeaseRenewals st + n\<rparr>)"

definition setPresenceCounts :: "nat \<Rightarrow> nat \<Rightarrow> 'a rm_state_scheme \<Rightarrow> 'a rm_state_scheme" where
  "setPresenceCounts users conns st =
     metric (MSet ''pulse_presence_connections_active'' (int conns))
       (metric (MSet ''pulse_presence_users_online'' (int users))
         (st\<lparr>presenceUsersOnline := users, presenceConnectionsActive := conns\<rparr>))"

text \<open>\<^verbatim>\<open>Math.round((total / count) * 100) / 100\<close>, or 0 when nothing was counted.\<close>

definition latency_avg :: "int \<Rightarrow> nat \<Rightarrow> rat" where
  "latency_avg totalMs n =
     (if n > 0 then of_int (floor (of_int totalMs / of_nat n * 100 + 1 / 2 :: rat)) / 100 else (0 :: rat))"

record rm_snapshot =
  snapPublish :: "nat \<times> nat \<times> rat \<times> int \<times> int"
  snapInbound :: "nat \<times> rat \<times> int"
  snapSuppressed :: "nat \<times> nat"
  snapChannels :: "nat \<times> string"
  snapPresence :: "nat \<times> nat \<times> nat \<times> nat \<times> int \<times> nat"

definition getSnapshot :: "'a rm_state_scheme \<Rightarrow> rm_snapshot" where
  "getSnapshot st =
     \<lparr>snapPublish = (publishCount st, publishErrors st, latency_avg (publishLatencyTotalMs st) (publishCount st),
                      publishLatencyMaxMs st, inFlightPublishes st),
      snapInbound = (inboundCount st, latency_avg (inboundLatencyTotalMs st) (inboundCount st), inboundLatencyMaxMs st),
      snapSuppressed = (echoesSuppressed st, duplicatesSuppressed st),
      snapChannels = (channelsActive st, connectionState st),
      snapPresence = (presenceUsersOnline st, presenceConnectionsActive st, presenceEventsPublished st,
                      presenceEventsReceived st, presencePruneLatencyMs st, presenceLeaseRenewals st)\<rparr>"

definition reset_redis_metrics :: "'a rm_state_scheme \<Rightarrow> 'a rm_state_scheme" where
  "reset_redis_metrics st =
     metric (MSet ''pulse_presence_connections_active'' 0)
      (metric (MSet ''pulse_presence_users_online'' 0)
       (metric (MSet ''pulse_redis_connection_state'' 0)
        (metric (MSet ''pulse_redis_subscriptions_active'' 0)
         (metric (MSet ''pulse_redis_publish_in_flight'' 0)
          (st\<lparr>publishCount := 0, publishErrors := 0, publishLatencyTotalMs := 0, publishLatencyMaxMs := 0,
              inFlightPublishes := 0, inboundCount := 0, inboundLatencyTotalMs := 0, inboundLatencyMaxMs := 0,
              echoesSuppressed := 0, duplicatesSuppressed := 0, channelsActive := 0,
              connectionState := ''disconnected'', presenceUsersOnline := 0, presenceConnectionsActive := 0,
              presenceEventsPublished := 0, presenceEventsReceived := 0, presencePruneLatencyMs := 0,
              presenceLeaseRenewals := 0\<rparr>)))))"

text \<open>The value a gauge shows is the last value set.\<close>

fun gauge_value :: "string \<Rightarrow> metric_call list \<Rightarrow> int option" where
  "gauge_value g [] = None"
| "gauge_value g (c # cs) =
     (case gauge_value g cs of
        Some v \<Rightarrow> Some v
      | None \<Rightarrow> (case c of MSet g' v \<Rightarrow> if g' = g then Some v else None | _ \<Rightarrow> None))"

lemma gauge_value_append:
  "gauge_value g (cs @ ds) = (case gauge_value g ds of Some v \<Rightarrow> Some v | None \<Rightarrow> gauge_value g cs)"
  by (induction cs) (auto split: option.splits)

text \<open>In-flight accounting: the count is never negative and the gauge shows it.\<close>

definition inflight_ok :: "'a rm_state_scheme \<Rightarrow> bool" where
  "inflight_ok st \<longleftrightarrow> inFlightPublishes st \<ge> 0
     \<and> gauge_value ''pulse_redis_publish_in_flight'' (metricCalls st) \<in> {None, Some (inFlightPublishes st)}"

lemmas redis_metric_defs = recordPublishStart_def recordPublishRejected_def recordPublishEnd_def
  setChannelsActive_def setConnectionState_def metric_def

lemma inflight_ok_start [keeps_inv]: "inflight_ok st \<Longrightarrow> inflight_ok (recordPublishStart st)"
  by (auto simp: inflight_ok_def redis_metric_defs Let_def gauge_value_append)

lemma inflight_ok_rejected [keeps_inv]: "inflight_ok st \<Longrightarrow> inflight_ok (recordPublishRejected st)"
  by (auto simp: inflight_ok_def redis_metric_defs Let_def gauge_value_append)

lemma inflight_ok_end [keeps_inv]: "inflight_ok st \<Longrightarrow> inflight_ok (recordPublishEnd d err st)"
  by (auto simp: inflight_ok_def redis_metric_defs Let_def gauge_value_append)

end
