(* ===== verification/Redis_Link.thy ===== *)
theory Redis_Link
  imports Redis_Metrics
begin

text \<open>
  \<^verbatim>\<open>src/redis/RedisConnectionManager.ts\<close> with the state type of \<^verbatim>\<open>src/redis/types.ts\<close>: the two
  Redis clients of a process and their statuses. The client library is outside the sources: its
  events (\<^verbatim>\<open>connect\<close>, \<^verbatim>\<open>ready\<close>, \<^verbatim>\<open>reconnecting\<close>, \<^verbatim>\<open>close\<close>, \<^verbatim>\<open>error\<close>, \<^verbatim>\<open>end\<close>) are steps the environment
  takes, and each listener is a definition. \<open>emitted\<close> records the events the manager emits.
\<close>

datatype role = Publisher | Subscriber

datatype link_status = Idle | Connecting | Connected | Reconnecting | Disconnecting | Disconnected | Error

datatype link_event = EmConnected | EmDisconnected | EmReconnecting role | EmError

record link_state = rm_state +
  hasPublisher :: bool
  hasSubscriber :: bool
  publisherStatus :: link_status
  subscriberStatus :: link_status
  linkShuttingDown :: bool
  emitted :: "link_event list"

definition emit :: "link_event \<Rightarrow> 'a link_state_scheme \<Rightarrow> 'a link_state_scheme" where
  "emit e st = st\<lparr>emitted := emitted st @ [e]\<rparr>"

definition link_connected :: "'a link_state_scheme \<Rightarrow> bool" where
  "link_connected st \<longleftrightarrow> hasPublisher st \<and> hasSubscriber st
     \<and> publisherStatus st = Connected \<and> subscriberStatus st = Connected"

definition updateStatus :: "role \<Rightarrow> link_status \<Rightarrow> 'a link_state_scheme \<Rightarrow> 'a link_state_scheme" where
  "updateStatus r s st =
     (case r of Publisher \<Rightarrow> st\<lparr>publisherStatus := s\<rparr> | Subscriber \<Rightarrow> st\<lparr>subscriberStatus := s\<rparr>)"

definition checkDisconnected :: "'a link_state_scheme \<Rightarrow> 'a link_state_scheme" where
  "checkDisconnected st =
     (if publisherStatus st \<noteq> Connected \<or> subscriberStatus st \<noteq> Connected then emit EmDisconnected st else st)"

section \<open>Listeners\<close>

datatype client_event = OnConnect | OnReady | OnReconnecting | OnClose | OnError | OnEnd

fun client_listener :: "role \<Rightarrow> client_event \<Rightarrow> 'a link_state_scheme \<Rightarrow> 'a link_state_scheme" where
  "client_listener r OnConnect st = updateStatus r Connecting st"
| "client_listener r OnReady st =
     (let st' = updateStatus r Connected st in if link_connected st' then emit EmConnected st' else st')"
| "client_listener r OnReconnecting st = emit (EmReconnecting r) (updateStatus r Reconnecting st)"
| "client_listener r OnClose st =
     checkDisconnected (updateStatus r (if linkShuttingDown st then Disconnected else Reconnecting) st)"
| "client_listener r OnError st = emit EmError (updateStatus r Error st)"
| "client_listener r OnEnd st = checkDisconnected (updateStatus r Disconnected st)"

section \<open>Connecting and disconnecting\<close>

text \<open>
  \<^verbatim>\<open>connect()\<close> up to its await (the clients exist and both roles are connecting; \<open>None\<close> when it
  returns at once), and its two continuations.
\<close>

definition link_connect_begin :: "'a link_state_scheme \<Rightarrow> 'a link_state_scheme option" where
  "link_connect_begin st =
     (if hasPublisher st \<and> hasSubscriber st \<and> link_connected st then None
      else Some (st\<lparr>linkShuttingDown := False, publisherStatus := Connecting, subscriberStatus := Connecting,
                    hasPublisher := True, hasSubscriber := True\<rparr>))"

definition link_connect_done :: "'a link_state_scheme \<Rightarrow> 'a link_state_scheme" where
  "link_connect_done st = emit EmConnected st"

definition link_connect_failed :: "'a link_state_scheme \<Rightarrow> 'a link_state_scheme" where
  "link_connect_failed st = emit EmError (st\<lparr>publisherStatus := Error, subscriberStatus := Error\<rparr>)"

text \<open>\<^verbatim>\<open>waitForReady\<close>: the one-shot listener of a client's first \<^verbatim>\<open>ready\<close>.\<close>

definition wait_ready :: "role \<Rightarrow> 'a link_state_scheme \<Rightarrow> 'a link_state_scheme" where
  "wait_ready r st = updateStatus r Connected st"

definition link_disconnect_begin :: "'a link_state_scheme \<Rightarrow> 'a link_state_scheme" where
  "link_disconnect_begin st =
     st\<lparr>linkShuttingDown := True, publisherStatus := Disconnecting, subscriberStatus := Disconnecting\<rparr>"

definition link_disconnect_end :: "'a link_state_scheme \<Rightarrow> 'a link_state_scheme" where
  "link_disconnect_end st =
     emit EmDisconnected (st\<lparr>hasPublisher := False, hasSubscriber := False,
        publisherStatus := Disconnected, subscriberStatus := Disconnected\<rparr>)"

section \<open>The reconnection delay\<close>

record retry_options =
  retryMaxAttempts :: "nat option"
  retryInitialDelayMs :: "rat option"
  retryMaxDelayMs :: "rat option"

text \<open>\<^verbatim>\<open>retryStrategy(times)\<close>; \<open>u\<close> is the value of \<^verbatim>\<open>Math.random()\<close>.\<close>

definition retryStrategy :: "retry_options \<Rightarrow> bool \<Rightarrow> rat \<Rightarrow> nat \<Rightarrow> rat option" where
  "retryStrategy opts shuttingDown u attempt =
     (if shuttingDown then None
      else if (case retryMaxAttempts opts of None \<Rightarrow> False | Some k \<Rightarrow> k \<noteq> 0 \<and> attempt > k) then None
      else let initial = (case retryInitialDelayMs opts of None \<Rightarrow> 100 | Some d \<Rightarrow> d);
               mx = (case retryMaxDelayMs opts of None \<Rightarrow> 3000 | Some d \<Rightarrow> d);
               backoff = min (initial * (3 / 2) ^ (attempt - 1)) mx;
               jitter = of_int (floor (u * (initial * (1 / 2))))
           in Some (min (backoff + jitter) mx))"

text \<open>
  Reconnection is patient but bounded. While the manager is not shutting down and the
  attempts are not exhausted (an absent or zero limit never exhausts them), every attempt is
  scheduled, after a delay between the exponential backoff and the configured maximum; once the
  backoff has reached the maximum the delay is the maximum.
\<close>

theorem retry_delay_bounds:
  assumes "retryInitialDelayMs opts = Some initial" "retryMaxDelayMs opts = Some mx"
    and "0 \<le> initial" "0 \<le> u" "attempt \<ge> 1"
    and "case retryMaxAttempts opts of None \<Rightarrow> True | Some k \<Rightarrow> k = 0 \<or> attempt \<le> k"
  shows "\<exists>d. retryStrategy opts False u attempt = Some d \<and> min (initial * (3 / 2) ^ (attempt - 1)) mx \<le> d \<and> d \<le> mx"
proof -
  have "0 \<le> floor (u * (initial * (1 / 2)))" using assms(3,4) by simp
  then have j: "0 \<le> (of_int (floor (u * (initial * (1 / 2)))) :: rat)"
    by (simp only: of_int_0_le_iff)
  have "\<not> (case retryMaxAttempts opts of None \<Rightarrow> False | Some k \<Rightarrow> k \<noteq> 0 \<and> attempt > k)"
    using assms(6) by (auto split: option.splits)
  then have "retryStrategy opts False u attempt =
     Some (min (min (initial * (3 / 2) ^ (attempt - 1)) mx + of_int (floor (u * (initial * (1 / 2))))) mx)"
    by (simp add: retryStrategy_def assms(1,2) Let_def)
  then show ?thesis using j by auto
qed

theorem retry_delay_bounds_witness:
  "\<exists>d. retryStrategy \<lparr>retryMaxAttempts = Some 10, retryInitialDelayMs = Some 100, retryMaxDelayMs = Some 3000\<rparr>
      False (1 / 2) 4 = Some d \<and> min (100 * (3 / 2) ^ (4 - 1)) 3000 \<le> d \<and> d \<le> 3000"
  by (rule retry_delay_bounds) simp_all

section \<open>Connection events\<close>

text \<open>
  A successful first connection reports itself twice: the permanent listener of the second client
  to become ready emits \<^verbatim>\<open>connected\<close>, and \<^verbatim>\<open>connect()\<close> emits it again when it resumes.
\<close>

lemma connect_reports_twice:
  assumes "link_connect_begin st = Some st1" "emitted st = []"
  shows "emitted (link_connect_done (wait_ready Subscriber (client_listener Subscriber OnReady
           (wait_ready Publisher (client_listener Publisher OnReady st1))))) = [EmConnected, EmConnected]"
  using assms by (auto simp: link_connect_begin_def link_connect_done_def wait_ready_def updateStatus_def emit_def
      link_connected_def Let_def split: if_splits)

end
