(* ===== verification/Types.thy ===== *)
theory Types
  imports Js_Value
begin

text \<open>
  The wire types of \<^verbatim>\<open>src/types/index.ts\<close>: event types, targets and envelopes. Optional
  properties are option-valued fields; a payload is a JSON value. \<open>senderId\<close> is a JSON value too:
  the validator of distributed events copies it from the message without checking its type.
\<close>

datatype event_type =
    SYS_CONNECT_ACK
  | SYS_PING
  | SYS_PONG
  | SYS_ERROR
  | SYS_SHUTDOWN
  | ROOM_JOIN
  | ROOM_JOIN_ACK
  | ROOM_LEAVE
  | ROOM_LEAVE_ACK
  | ROOM_BATCH_JOIN
  | ROOM_BATCH_JOIN_ACK
  | ROOM_MESSAGE
  | DIRECT_MESSAGE
  | PRESENCE_UPDATE
  | ROOM_ROSTER
  | DELIVERY_ACK

text \<open>The string literal of each member of the union type.\<close>

fun event_type_name :: "event_type \<Rightarrow> string" where
  "event_type_name SYS_CONNECT_ACK = ''SYS_CONNECT_ACK''"
| "event_type_name SYS_PING = ''SYS_PING''"
| "event_type_name SYS_PONG = ''SYS_PONG''"
| "event_type_name SYS_ERROR = ''SYS_ERROR''"
| "event_type_name SYS_SHUTDOWN = ''SYS_SHUTDOWN''"
| "event_type_name ROOM_JOIN = ''ROOM_JOIN''"
| "event_type_name ROOM_JOIN_ACK = ''ROOM_JOIN_ACK''"
| "event_type_name ROOM_LEAVE = ''ROOM_LEAVE''"
| "event_type_name ROOM_LEAVE_ACK = ''ROOM_LEAVE_ACK''"
| "event_type_name ROOM_BATCH_JOIN = ''ROOM_BATCH_JOIN''"
| "event_type_name ROOM_BATCH_JOIN_ACK = ''ROOM_BATCH_JOIN_ACK''"
| "event_type_name ROOM_MESSAGE = ''ROOM_MESSAGE''"
| "event_type_name DIRECT_MESSAGE = ''DIRECT_MESSAGE''"
| "event_type_name PRESENCE_UPDATE = ''PRESENCE_UPDATE''"
| "event_type_name ROOM_ROSTER = ''ROOM_ROSTER''"
| "event_type_name DELIVERY_ACK = ''DELIVERY_ACK''"

text \<open>\<^verbatim>\<open>EventTarget\<close>.\<close>

record event_target =
  roomId :: "string option"
  recipientId :: "string option"

text \<open>\<^verbatim>\<open>PulseEventEnvelope\<close>; \<open>evType\<close> is the property \<^verbatim>\<open>type\<close>.\<close>

record envelope =
  eventId :: string
  evType :: event_type
  timestamp :: jsnum
  senderId :: json
  seq :: "int option"
  target :: "event_target option"
  payload :: json
  correlationId :: "string option"
  ackRequired :: "bool option"
  originInstanceId :: "string option"
  originTimestampMs :: "jsnum option"

text \<open>\<^verbatim>\<open>target?.roomId\<close> and \<^verbatim>\<open>target?.recipientId\<close>.\<close>

definition target_room :: "event_target option \<Rightarrow> string option" where
  "target_room t = (case t of None \<Rightarrow> None | Some t' \<Rightarrow> roomId t')"

definition target_recipient :: "event_target option \<Rightarrow> string option" where
  "target_recipient t = (case t of None \<Rightarrow> None | Some t' \<Rightarrow> recipientId t')"

lemma target_room_simps [simp]:
  "target_room None = None" "target_room (Some t) = roomId t"
  by (simp_all add: target_room_def)

lemma target_recipient_simps [simp]:
  "target_recipient None = None" "target_recipient (Some t) = recipientId t"
  by (simp_all add: target_recipient_def)

text \<open>The object literals \<^verbatim>\<open>{ roomId }\<close> and \<^verbatim>\<open>{ recipientId }\<close>.\<close>

definition room_target :: "string \<Rightarrow> event_target" where
  "room_target r = \<lparr>roomId = Some r, recipientId = None\<rparr>"

definition recipient_target :: "string \<Rightarrow> event_target" where
  "recipient_target u = \<lparr>roomId = None, recipientId = Some u\<rparr>"

text \<open>
  An envelope the server itself creates: a fresh identifier, the current time, sender
  \<^verbatim>\<open>system\<close>, and the given type, correlation, target and payload.
\<close>

definition system_envelope ::
  "string \<Rightarrow> event_type \<Rightarrow> int \<Rightarrow> string option \<Rightarrow> event_target option \<Rightarrow> json \<Rightarrow> envelope" where
  "system_envelope eid ty now corr tgt pl =
     \<lparr>eventId = eid, evType = ty, timestamp = int_num now, senderId = JStr ''system'', seq = None,
      target = tgt, payload = pl, correlationId = corr, ackRequired = None,
      originInstanceId = None, originTimestampMs = None\<rparr>"

lemma system_envelope_sel [simp]:
  "eventId (system_envelope eid ty now corr tgt pl) = eid"
  "evType (system_envelope eid ty now corr tgt pl) = ty"
  "correlationId (system_envelope eid ty now corr tgt pl) = corr"
  "target (system_envelope eid ty now corr tgt pl) = tgt"
  "payload (system_envelope eid ty now corr tgt pl) = pl"
  "senderId (system_envelope eid ty now corr tgt pl) = JStr ''system''"
  "seq (system_envelope eid ty now corr tgt pl) = None"
  by (simp_all add: system_envelope_def)

text \<open>The payload \<^verbatim>\<open>{ code, message }\<close> of a \<^verbatim>\<open>SYS_ERROR\<close>.\<close>

definition error_payload :: "string \<Rightarrow> string \<Rightarrow> json" where
  "error_payload code message = JObj [(''code'', JStr code), (''message'', JStr message)]"

lemma error_payload_code [simp]:
  "json_get (error_payload code message) ''code'' = Some (JStr code)"
  by (simp add: error_payload_def)

lemma event_type_name_inj: "event_type_name a = event_type_name b \<longleftrightarrow> a = b"
  by (cases a; cases b) simp_all

end
