(* ===== verification/Event_Validator.thy ===== *)
theory Event_Validator
  imports Types Uuid
begin

text \<open>
  \<^verbatim>\<open>src/events/EventValidator.ts\<close>: validation of a client frame, of an event received from Redis,
  and the stamping of an event before it is published. \<open>parse\<close> is \<^verbatim>\<open>JSON.parse\<close> (\<open>None\<close> when it
  throws); the checks after it are functions of the parsed value. A missing event identifier is
  drawn from the process's UUID generator, so the validator threads the runtime state.
\<close>

text \<open>The \<^verbatim>\<open>error\<close> object of a \<^verbatim>\<open>ValidationResult\<close>.\<close>

record validation_error =
  errCode :: string
  errMessage :: string
  errCorrelationId :: "string option"

type_synonym validation_result = "validation_error + envelope"

definition verror :: "string \<Rightarrow> string \<Rightarrow> string option \<Rightarrow> validation_error" where
  "verror code message corr = \<lparr>errCode = code, errMessage = message, errCorrelationId = corr\<rparr>"

definition quoted :: "string \<Rightarrow> string" where
  "quoted s = CHR 0x27 # s @ [CHR 0x27]"

definition MAX_BATCH_ROOMS :: nat where
  "MAX_BATCH_ROOMS = 50"

text \<open>\<^verbatim>\<open>VALID_EVENT_TYPES\<close>, and the member with a given name.\<close>

definition VALID_EVENT_TYPES :: "event_type list" where
  "VALID_EVENT_TYPES =
     [SYS_CONNECT_ACK, SYS_PING, SYS_PONG, SYS_ERROR, SYS_SHUTDOWN, ROOM_JOIN, ROOM_JOIN_ACK,
      ROOM_LEAVE, ROOM_LEAVE_ACK, ROOM_BATCH_JOIN, ROOM_BATCH_JOIN_ACK, ROOM_MESSAGE,
      DIRECT_MESSAGE, PRESENCE_UPDATE, ROOM_ROSTER, DELIVERY_ACK]"

definition find_event_type :: "string \<Rightarrow> event_type option" where
  "find_event_type name = find (\<lambda>t. event_type_name t = name) VALID_EVENT_TYPES"

section \<open>The parts of a frame\<close>

text \<open>Lines 103-106: the frame's timestamp if it is a positive number, the current time otherwise.\<close>

definition pick_timestamp :: "int \<Rightarrow> json option \<Rightarrow> jsnum" where
  "pick_timestamp now ts =
     (case ts of Some (JNum n) \<Rightarrow> if num_less (FinNum 0) n then n else int_num now
      | _ \<Rightarrow> int_num now)"

text \<open>Lines 109-122: \<open>None\<close> when the sequence number is refused.\<close>

definition pick_seq :: "json option \<Rightarrow> int option option" where
  "pick_seq s =
     (case s of
        None \<Rightarrow> Some None
      | Some (JNum n) \<Rightarrow>
          (case as_integer n of None \<Rightarrow> None | Some i \<Rightarrow> if i < 1 then None else Some (Some i))
      | Some _ \<Rightarrow> None)"

text \<open>Lines 125-128: anything but an object is replaced by the empty object.\<close>

definition pick_payload :: "json option \<Rightarrow> (string \<times> json) list" where
  "pick_payload p = (case as_obj p of None \<Rightarrow> [] | Some kvs \<Rightarrow> kvs)"

text \<open>Lines 131-147: the target object, completed from the payload.\<close>

definition base_target :: "json option \<Rightarrow> event_target option" where
  "base_target tj =
     (case as_obj tj of
        None \<Rightarrow> None
      | Some t \<Rightarrow> Some \<lparr>roomId = map_option js_trim (as_str (map_of t ''roomId'')),
                       recipientId = map_option js_trim (as_str (map_of t ''recipientId''))\<rparr>)"

definition fill_room :: "(string \<times> json) list \<Rightarrow> event_target option \<Rightarrow> event_target option" where
  "fill_room pl t =
     (case as_str (map_of pl ''roomId'') of
        Some r \<Rightarrow>
          if str_truthy (target_room t) then t
          else Some \<lparr>roomId = Some (js_trim r), recipientId = target_recipient t\<rparr>
      | None \<Rightarrow> t)"

definition fill_recipient :: "(string \<times> json) list \<Rightarrow> event_target option \<Rightarrow> event_target option" where
  "fill_recipient pl t =
     (case as_str (map_of pl ''recipientId'') of
        Some u \<Rightarrow>
          if str_truthy (target_recipient t) then t
          else Some \<lparr>roomId = target_room t, recipientId = Some (js_trim u)\<rparr>
      | None \<Rightarrow> t)"

definition resolve_target :: "json option \<Rightarrow> (string \<times> json) list \<Rightarrow> event_target option" where
  "resolve_target tj pl = fill_recipient pl (fill_room pl (base_target tj))"

text \<open>Lines 149-236: the requirements of each event type; \<open>None\<close> when they are met.\<close>

definition bad_room_entry :: "json \<Rightarrow> bool" where
  "bad_room_entry r = (case r of JStr s \<Rightarrow> js_trim s = [] | _ \<Rightarrow> True)"

definition type_requirements ::
  "event_type \<Rightarrow> event_target option \<Rightarrow> (string \<times> json) list \<Rightarrow> (string \<times> string) option" where
  "type_requirements ty tgt pl =
     (if (ty = ROOM_JOIN \<or> ty = ROOM_LEAVE) \<and> \<not> str_truthy (target_room tgt)
      then Some (''MISSING_ROOM_ID'',
             ''Event '' @ quoted (event_type_name ty) @ '' requires a valid non-empty roomId'')
      else if ty = ROOM_BATCH_JOIN
      then (case as_arr (map_of pl ''rooms'') of
              None \<Rightarrow> Some (''INVALID_ROOMS_ARRAY'', ''Event '' @ quoted ''ROOM_BATCH_JOIN'' @ '' requires a non-empty '' @ quoted ''rooms'' @ '' array in payload'')
            | Some rooms \<Rightarrow>
                if rooms = [] then Some (''INVALID_ROOMS_ARRAY'', ''Event '' @ quoted ''ROOM_BATCH_JOIN'' @ '' requires a non-empty '' @ quoted ''rooms'' @ '' array in payload'')
                else if length rooms > MAX_BATCH_ROOMS
                then Some (''BATCH_SIZE_EXCEEDED'', ''Event '' @ quoted ''ROOM_BATCH_JOIN'' @ '' exceeds maximum batch limit of 50 rooms'')
                else if list_ex bad_room_entry rooms
                then Some (''INVALID_ROOM_ID'', ''All entries in '' @ quoted ''rooms'' @ '' array must be non-empty strings'')
                else None)
      else if ty = ROOM_MESSAGE
      then (if \<not> str_truthy (target_room tgt)
            then Some (''MISSING_ROOM_ID'', ''Event '' @ quoted ''ROOM_MESSAGE'' @ '' requires a valid non-empty roomId'')
            else if map_of pl ''content'' = None \<and> pl = []
            then Some (''EMPTY_PAYLOAD'', ''Event '' @ quoted ''ROOM_MESSAGE'' @ '' requires a non-empty payload'')
            else None)
      else if ty = DIRECT_MESSAGE \<and> \<not> str_truthy (target_recipient tgt)
      then Some (''MISSING_RECIPIENT_ID'', ''Event '' @ quoted ''DIRECT_MESSAGE'' @ '' requires a valid non-empty recipientId'')
      else None)"

text \<open>Lines 239-268: the optional origin fields; \<open>None\<close> when refused.\<close>

definition pick_origin :: "json option \<Rightarrow> string option option" where
  "pick_origin oi =
     (case oi of
        None \<Rightarrow> Some None
      | Some (JStr s) \<Rightarrow> if js_trim s = [] then None else Some (Some (js_trim s))
      | Some _ \<Rightarrow> None)"

definition pick_origin_ts :: "json option \<Rightarrow> jsnum option option" where
  "pick_origin_ts ots =
     (case ots of
        None \<Rightarrow> Some None
      | Some (JNum n) \<Rightarrow> if is_finite n then Some (Some n) else None
      | Some _ \<Rightarrow> None)"

section \<open>The validators\<close>

text \<open>Lines 96-100: the frame's identifier, or a new one.\<close>

definition pick_event_id ::
  "(nat \<Rightarrow> nat) \<Rightarrow> int \<Rightarrow> json option \<Rightarrow> 'a runtime_scheme \<Rightarrow> string \<times> 'a runtime_scheme" where
  "pick_event_id rnd now eid rt =
     (case as_str eid of
        Some s \<Rightarrow> if s \<noteq> [] then (s, rt) else freshId rnd now rt
      | None \<Rightarrow> freshId rnd now rt)"

text \<open>Lines 102-287, once type and identifier are known.\<close>

definition build_envelope ::
  "int \<Rightarrow> json \<Rightarrow> (string \<times> json) list \<Rightarrow> event_type \<Rightarrow> string \<Rightarrow> validation_result" where
  "build_envelope now sender obj ty eid =
     (let corr = as_str (map_of obj ''correlationId'');
          ts = pick_timestamp now (map_of obj ''timestamp'') in
      case pick_seq (map_of obj ''seq'') of
        None \<Rightarrow> Inl (verror ''INVALID_SEQUENCE_NUMBER'' ''Sequence number seq must be a positive integer'' corr)
      | Some sq \<Rightarrow>
          let pl = pick_payload (map_of obj ''payload'');
              tgt = resolve_target (map_of obj ''target'') pl in
          case type_requirements ty tgt pl of
            Some (code, message) \<Rightarrow> Inl (verror code message corr)
          | None \<Rightarrow>
              (case pick_origin (map_of obj ''originInstanceId'') of
                 None \<Rightarrow> Inl (verror ''INVALID_ORIGIN_INSTANCE_ID'' ''originInstanceId must be a non-empty string'' corr)
               | Some oi \<Rightarrow>
                   (case pick_origin_ts (map_of obj ''originTimestampMs'') of
                      None \<Rightarrow> Inl (verror ''INVALID_ORIGIN_TIMESTAMP'' ''originTimestampMs must be a valid finite number'' corr)
                    | Some ots \<Rightarrow>
                        Inr \<lparr>eventId = eid, evType = ty, timestamp = ts, senderId = sender, seq = sq,
                             target = tgt, payload = JObj pl, correlationId = corr,
                             ackRequired = Some (map_of obj ''ackRequired'' = Some (JBool True)),
                             originInstanceId = oi, originTimestampMs = ots\<rparr>)))"

definition validateParsed ::
  "(nat \<Rightarrow> nat) \<Rightarrow> int \<Rightarrow> json \<Rightarrow> json \<Rightarrow> 'a runtime_scheme \<Rightarrow> validation_result \<times> 'a runtime_scheme" where
  "validateParsed rnd now parsed sender rt =
     (case parsed of
        JObj obj \<Rightarrow>
          let corr = as_str (map_of obj ''correlationId'') in
          (case as_str (map_of obj ''type'') of
             None \<Rightarrow> (Inl (verror ''MISSING_EVENT_TYPE'' ''Event must specify a valid string type'' corr), rt)
           | Some name \<Rightarrow>
               if name = []
               then (Inl (verror ''MISSING_EVENT_TYPE'' ''Event must specify a valid string type'' corr), rt)
               else (case find_event_type name of
                       None \<Rightarrow> (Inl (verror ''UNRECOGNIZED_EVENT_TYPE'' (''Event type '' @ quoted name @ '' is not supported'') corr), rt)
                     | Some ty \<Rightarrow>
                         let (eid, rt') = pick_event_id rnd now (map_of obj ''eventId'') rt
                         in (build_envelope now sender obj ty eid, rt')))
      | _ \<Rightarrow> (Inl (verror ''INVALID_ENVELOPE'' ''Incoming event must be a JSON object'' None), rt))"

definition validateIncoming ::
  "(string \<Rightarrow> json option) \<Rightarrow> (nat \<Rightarrow> nat) \<Rightarrow> int \<Rightarrow> string \<Rightarrow> json \<Rightarrow> 'a runtime_scheme
     \<Rightarrow> validation_result \<times> 'a runtime_scheme" where
  "validateIncoming parse rnd now raw sender rt =
     (case parse raw of
        None \<Rightarrow> (Inl (verror ''MALFORMED_JSON'' ''Incoming frame is not valid JSON'' None), rt)
      | Some parsed \<Rightarrow> validateParsed rnd now parsed sender rt)"

text \<open>
  \<^verbatim>\<open>validateDistributed\<close>. The inner call re-parses the text of \<^verbatim>\<open>JSON.stringify(obj)\<close>
  (\<open>json_reparse\<close>); its sender argument is \<^verbatim>\<open>obj.senderId || 'unknown'\<close>, whatever its type.
\<close>

definition distributed_sender :: "(string \<times> json) list \<Rightarrow> json" where
  "distributed_sender obj =
     (case map_of obj ''senderId'' of
        None \<Rightarrow> JStr ''unknown''
      | Some v \<Rightarrow> if truthy (Some v) then v else JStr ''unknown'')"

definition validateDistributed ::
  "(nat \<Rightarrow> nat) \<Rightarrow> int \<Rightarrow> json \<Rightarrow> 'a runtime_scheme \<Rightarrow> validation_result \<times> 'a runtime_scheme" where
  "validateDistributed rnd now raw rt =
     (case raw of
        JObj obj \<Rightarrow>
          let corr = as_str (map_of obj ''correlationId'') in
          (case as_str (map_of obj ''originInstanceId'') of
             None \<Rightarrow> (Inl (verror ''MISSING_ORIGIN_INSTANCE_ID'' ''Distributed events must include a non-empty originInstanceId'' corr), rt)
           | Some oi \<Rightarrow>
               if js_trim oi = []
               then (Inl (verror ''MISSING_ORIGIN_INSTANCE_ID'' ''Distributed events must include a non-empty originInstanceId'' corr), rt)
               else (case validateParsed rnd now (json_reparse (JObj obj)) (distributed_sender obj) rt of
                       (Inl e, rt') \<Rightarrow> (Inl e, rt')
                     | (Inr env, rt') \<Rightarrow>
                         (Inr (env\<lparr>originInstanceId := Some (js_trim oi),
                                   originTimestampMs :=
                                     (case as_num (map_of obj ''originTimestampMs'') of
                                        Some n \<Rightarrow> if is_finite n then Some n else originTimestampMs env
                                      | None \<Rightarrow> originTimestampMs env),
                                   seq := None\<rparr>), rt')))
      | _ \<Rightarrow> (Inl (verror ''INVALID_DISTRIBUTED_ENVELOPE'' ''Distributed event must be a JSON object'' None), rt))"

definition stampForDistribution :: "envelope \<Rightarrow> string \<Rightarrow> int \<Rightarrow> envelope" where
  "stampForDistribution env instId ts =
     env\<lparr>originInstanceId := Some instId, originTimestampMs := Some (int_num ts), seq := None\<rparr>"

text \<open>
  The JSON object that \<^verbatim>\<open>JSON.stringify(envelope)\<close> writes: properties that are \<^verbatim>\<open>undefined\<close> are
  left out. What a peer parses from the text is \<open>json_reparse\<close> of it.
\<close>

definition opt_field :: "string \<Rightarrow> json option \<Rightarrow> (string \<times> json) list" where
  "opt_field k v = (case v of None \<Rightarrow> [] | Some j \<Rightarrow> [(k, j)])"

definition target_json :: "event_target \<Rightarrow> json" where
  "target_json t =
     JObj (opt_field ''roomId'' (map_option JStr (roomId t))
         @ opt_field ''recipientId'' (map_option JStr (recipientId t)))"

definition envelope_json :: "envelope \<Rightarrow> json" where
  "envelope_json e =
     JObj ([(''eventId'', JStr (eventId e)), (''type'', JStr (event_type_name (evType e))),
            (''timestamp'', JNum (timestamp e)), (''senderId'', senderId e)]
        @ opt_field ''seq'' (map_option (\<lambda>i. JNum (int_num i)) (seq e))
        @ opt_field ''target'' (map_option target_json (target e))
        @ [(''payload'', payload e)]
        @ opt_field ''correlationId'' (map_option JStr (correlationId e))
        @ opt_field ''ackRequired'' (map_option JBool (ackRequired e))
        @ opt_field ''originInstanceId'' (map_option JStr (originInstanceId e))
        @ opt_field ''originTimestampMs'' (map_option JNum (originTimestampMs e)))"

section \<open>What the validators guarantee\<close>

lemma find_event_type_name [simp]: "find_event_type (event_type_name ty) = Some ty"
  by (cases ty) (simp_all add: find_event_type_def VALID_EVENT_TYPES_def)

lemma find_event_type_Some: "find_event_type name = Some ty \<Longrightarrow> event_type_name ty = name"
  by (auto simp: find_event_type_def find_Some_iff)

lemma event_type_name_ne [simp]: "event_type_name ty \<noteq> []"
  by (cases ty) simp_all

lemma format_uuid_ne [simp]: "format_uuid ms sq r \<noteq> []"
  by (simp add: format_uuid_def Let_def)

lemma freshId_ne: "fst (freshId rnd now rt) \<noteq> []"
  by (simp add: freshId_def split: prod.splits)

lemma pick_event_id_ne: "pick_event_id rnd now j rt = (eid, rt') \<Longrightarrow> eid \<noteq> []"
  using freshId_ne [of rnd now rt] by (auto simp: pick_event_id_def split: option.splits if_splits)

lemma pick_timestamp_pos: "now > 0 \<Longrightarrow> num_less (FinNum 0) (pick_timestamp now ts)"
  by (auto simp: pick_timestamp_def split: option.splits json.splits)

lemma pick_seq_pos: "pick_seq s = Some (Some i) \<Longrightarrow> i \<ge> 1"
  by (auto simp: pick_seq_def split: option.splits json.splits if_splits)

text \<open>
  The shape of an accepted envelope: identifier and time present, positive sequence number, an
  object as payload, and the requirements of its type.
\<close>

definition sound_envelope :: "envelope \<Rightarrow> bool" where
  "sound_envelope e \<longleftrightarrow>
     eventId e \<noteq> [] \<and> num_less (FinNum 0) (timestamp e)
     \<and> (case seq e of None \<Rightarrow> True | Some i \<Rightarrow> i \<ge> 1)
     \<and> (case payload e of
          JObj pl \<Rightarrow>
            (evType e \<in> {ROOM_JOIN, ROOM_LEAVE, ROOM_MESSAGE} \<longrightarrow> str_truthy (target_room (target e)))
            \<and> (evType e = ROOM_MESSAGE \<longrightarrow> pl \<noteq> [])
            \<and> (evType e = DIRECT_MESSAGE \<longrightarrow> str_truthy (target_recipient (target e)))
            \<and> (evType e = ROOM_BATCH_JOIN \<longrightarrow>
                 (case as_arr (map_of pl ''rooms'') of
                    None \<Rightarrow> False
                  | Some rooms \<Rightarrow> rooms \<noteq> [] \<and> length rooms \<le> 50
                                 \<and> list_all (\<lambda>r. case r of JStr s \<Rightarrow> js_trim s \<noteq> [] | _ \<Rightarrow> False) rooms))
        | _ \<Rightarrow> False)"

lemma not_bad_room_entry: "\<not> bad_room_entry r \<longleftrightarrow> (case r of JStr s \<Rightarrow> js_trim s \<noteq> [] | _ \<Rightarrow> False)"
  by (cases r) (simp_all add: bad_room_entry_def)

lemma type_requirements_None:
  "type_requirements ty tgt pl = None \<longleftrightarrow>
     (ty \<in> {ROOM_JOIN, ROOM_LEAVE, ROOM_MESSAGE} \<longrightarrow> str_truthy (target_room tgt))
     \<and> (ty = ROOM_MESSAGE \<longrightarrow> pl \<noteq> [])
     \<and> (ty = DIRECT_MESSAGE \<longrightarrow> str_truthy (target_recipient tgt))
     \<and> (ty = ROOM_BATCH_JOIN \<longrightarrow>
          (case as_arr (map_of pl ''rooms'') of
             None \<Rightarrow> False
           | Some rooms \<Rightarrow> rooms \<noteq> [] \<and> length rooms \<le> 50
                          \<and> list_all (\<lambda>r. case r of JStr s \<Rightarrow> js_trim s \<noteq> [] | _ \<Rightarrow> False) rooms))"
  by (cases ty) (auto simp: type_requirements_def MAX_BATCH_ROOMS_def list_ex_iff list_all_iff
      not_bad_room_entry [symmetric] split: option.splits)

lemma build_envelope_Inr:
  assumes "build_envelope now sender obj ty eid = Inr e"
  shows "eventId e = eid" "evType e = ty" "senderId e = sender"
    "timestamp e = pick_timestamp now (map_of obj ''timestamp'')"
    "pick_seq (map_of obj ''seq'') = Some (seq e)"
    "payload e = JObj (pick_payload (map_of obj ''payload''))"
    "target e = resolve_target (map_of obj ''target'') (pick_payload (map_of obj ''payload''))"
    "type_requirements ty (target e) (pick_payload (map_of obj ''payload'')) = None"
    "correlationId e = as_str (map_of obj ''correlationId'')" "ackRequired e \<noteq> None"
  using assms by (auto simp: build_envelope_def Let_def split: option.splits prod.splits)

lemma validateParsed_Inr:
  assumes "validateParsed rnd now parsed sender rt = (Inr e, rt')"
  obtains obj ty eid where "parsed = JObj obj" "build_envelope now sender obj ty eid = Inr e" "eid \<noteq> []"
  using assms that pick_event_id_ne
  by (fastforce simp: validateParsed_def Let_def split: json.splits option.splits if_splits prod.splits)

lemma validateParsed_sound:
  assumes "validateParsed rnd now parsed sender rt = (Inr e, rt')" "now > 0"
  shows "sound_envelope e \<and> senderId e = sender"
proof -
  from assms(1) obtain obj ty eid
    where "parsed = JObj obj" and b: "build_envelope now sender obj ty eid = Inr e" and "eid \<noteq> []"
    by (rule validateParsed_Inr)
  note f = build_envelope_Inr [OF b]
  show ?thesis
    using f(8) pick_timestamp_pos [OF assms(2)] pick_seq_pos [of "map_of obj ''seq''"] \<open>eid \<noteq> []\<close>
    by (auto simp: sound_envelope_def f(1-7) type_requirements_None split: option.splits)
qed

text \<open>
  C15: an accepted client frame is well formed and carries the authenticated sender. Whatever text
  a client sends, if the validator accepts it then the envelope has an identifier, a positive
  timestamp, a positive sequence number if any, an object payload, the room, recipient or room
  list its type requires (at most 50 non-blank rooms), and its sender is the connection's user and
  not a field of the frame.
\<close>

theorem incoming_frame_sound:
  assumes "validateIncoming parse rnd now raw (JStr user) rt = (Inr e, rt')" "now > 0"
  shows "sound_envelope e \<and> senderId e = JStr user"
proof -
  from assms(1) obtain parsed where "validateParsed rnd now parsed (JStr user) rt = (Inr e, rt')"
    by (auto simp: validateIncoming_def split: option.splits)
  from validateParsed_sound [OF this assms(2)] show ?thesis .
qed

theorem incoming_frame_sound_witness:
  "\<exists>e. fst (validateIncoming
        (\<lambda>_. Some (JObj [(''type'', JStr ''ROOM_MESSAGE''), (''eventId'', JStr ''e1''), (''senderId'', JStr ''mallory''),
           (''payload'', JObj [(''roomId'', JStr '' lobby ''), (''content'', JStr ''hi'')])]))
        (\<lambda>_. 0) 5 ''text'' (JStr ''ada'') \<lparr>metricCalls = [], lastMs = 0, sequenceCounter = 0, draws = 0\<rparr>) = Inr e
     \<and> sound_envelope e \<and> senderId e = JStr ''ada''"
proof -
  let ?v = "validateIncoming
        (\<lambda>_. Some (JObj [(''type'', JStr ''ROOM_MESSAGE''), (''eventId'', JStr ''e1''), (''senderId'', JStr ''mallory''),
           (''payload'', JObj [(''roomId'', JStr '' lobby ''), (''content'', JStr ''hi'')])]))
        (\<lambda>_. 0) 5 ''text'' (JStr ''ada'') \<lparr>metricCalls = [], lastMs = 0, sequenceCounter = 0, draws = 0\<rparr>"
  have "isl (fst ?v) = False" by code_simp
  then obtain e where e: "fst ?v = Inr e" by (cases "fst ?v") auto
  then have "?v = (Inr e, snd ?v)" by (simp add: prod_eq_iff)
  from incoming_frame_sound [OF this] e show ?thesis by simp
qed

section \<open>The trip through Redis\<close>

lemma as_str_reparse [simp]: "as_str (map_option json_reparse j) = as_str j"
proof (cases j)
  case (Some v)
  then show ?thesis by (cases v) auto
qed simp

lemma as_str_JStr [simp]: "as_str (map_option JStr x) = x"
  by (cases x) simp_all

lemma as_obj_reparse:
  "as_obj (map_option json_reparse j) = map_option (map (map_prod id json_reparse)) (as_obj j)"
proof (cases j)
  case (Some v)
  then show ?thesis by (cases v) auto
qed simp

lemma map_of_reparse [simp]:
  "map_of (map (map_prod id json_reparse) kvs) (k :: string) = map_option json_reparse (map_of kvs k)"
  using json_get_reparse [of "JObj kvs" k] by simp

lemma fill_room_reparse [simp]: "fill_room (map (map_prod id json_reparse) pl) t = fill_room pl t"
  by (simp add: fill_room_def)

lemma fill_recipient_reparse [simp]:
  "fill_recipient (map (map_prod id json_reparse) pl) t = fill_recipient pl t"
  by (simp add: fill_recipient_def)

text \<open>A resolved target, sent as JSON with its payload, resolves to itself.\<close>

definition trimmed_target :: "event_target option \<Rightarrow> bool" where
  "trimmed_target t \<longleftrightarrow>
     map_option js_trim (target_room t) = target_room t
     \<and> map_option js_trim (target_recipient t) = target_recipient t"

lemma trimmed_resolve: "trimmed_target (resolve_target tj pl)"
  by (auto simp: trimmed_target_def resolve_target_def fill_recipient_def fill_room_def base_target_def
      option.map_comp o_def split: option.splits)

lemma base_target_json:
  assumes "trimmed_target t"
  shows "base_target (map_option target_json t) = t"
proof (cases t)
  case (Some x)
  with assms show ?thesis
    by (cases "roomId x"; cases "recipientId x")
      (auto simp: base_target_def target_json_def opt_field_def trimmed_target_def intro!: event_target.equality)
qed (simp add: base_target_def)

lemma target_ext:
  "t = Some x \<Longrightarrow> roomId x = r \<Longrightarrow> recipientId x = u \<Longrightarrow> t = Some \<lparr>roomId = r, recipientId = u\<rparr>"
  by simp

lemma resolve_fixpoint:
  "fill_recipient pl (fill_room pl (resolve_target tj pl)) = resolve_target tj pl"
proof -
  let ?b = "base_target tj"
  have "fill_recipient pl (fill_room pl (fill_recipient pl (fill_room pl t))) = fill_recipient pl (fill_room pl t)" for t
    by (cases "as_str (map_of pl ''roomId'')"; cases "as_str (map_of pl ''recipientId'')"; cases t)
      (auto simp: fill_room_def fill_recipient_def)
  then show ?thesis by (simp add: resolve_target_def)
qed

lemma target_json_reparse [simp]: "json_reparse (target_json t) = target_json t"
  by (simp add: target_json_def opt_field_def split: option.splits)

lemma resolve_json:
  "resolve_target (map_option target_json (resolve_target tj pl)) (map (map_prod id json_reparse) pl)
     = resolve_target tj pl"
proof -
  have "resolve_target (map_option target_json (resolve_target tj pl)) pl = resolve_target tj pl"
    using resolve_fixpoint [of pl tj]
    by (simp add: resolve_target_def [of "map_option target_json _"] base_target_json [OF trimmed_resolve])
  then show ?thesis by (simp add: resolve_target_def)
qed

lemma bad_room_entry_reparse [simp]: "bad_room_entry (json_reparse r) = bad_room_entry r"
  by (cases r) (simp_all add: bad_room_entry_def)

lemma as_arr_reparse: "as_arr (map_option json_reparse j) = map_option (map json_reparse) (as_arr j)"
proof (cases j)
  case (Some v)
  then show ?thesis by (cases v) auto
qed simp

lemma type_requirements_reparse [simp]:
  "type_requirements ty t (map (map_prod id json_reparse) pl) = type_requirements ty t pl"
  by (simp add: type_requirements_def as_arr_reparse list_ex_iff split: option.splits)

lemma map_of_opt_field [simp]: "map_of (opt_field k v) k' = (if k = k' then v else None)"
  by (simp add: opt_field_def split: option.splits)

lemma json_get_envelope:
  "json_get (envelope_json e) ''eventId'' = Some (JStr (eventId e))"
  "json_get (envelope_json e) ''type'' = Some (JStr (event_type_name (evType e)))"
  "json_get (envelope_json e) ''timestamp'' = Some (JNum (timestamp e))"
  "json_get (envelope_json e) ''senderId'' = Some (senderId e)"
  "json_get (envelope_json e) ''seq'' = map_option (\<lambda>i. JNum (int_num i)) (seq e)"
  "json_get (envelope_json e) ''target'' = map_option target_json (target e)"
  "json_get (envelope_json e) ''payload'' = Some (payload e)"
  "json_get (envelope_json e) ''correlationId'' = map_option JStr (correlationId e)"
  "json_get (envelope_json e) ''ackRequired'' = map_option JBool (ackRequired e)"
  "json_get (envelope_json e) ''originInstanceId'' = map_option JStr (originInstanceId e)"
  "json_get (envelope_json e) ''originTimestampMs'' = map_option JNum (originTimestampMs e)"
  by (simp_all add: envelope_json_def map_add_def split: option.splits)

lemma envelope_json_obj:
  obtains obj where "envelope_json e = JObj obj" "\<And>k. map_of obj k = json_get (envelope_json e) k"
  by (metis envelope_json_def json_get.simps(1))

lemma stamped_event_accepted:
  assumes acc: "validateParsed rnd now parsed (JStr user) rt = (Inr e, rt')"
    and "now > 0" and fin: "is_finite (timestamp e)" and user: "user \<noteq> []" and inst: "js_trim inst \<noteq> []"
  shows "validateDistributed rnd' now' (json_reparse (envelope_json (stampForDistribution e inst ts))) rtB =
     (Inr (e\<lparr>seq := None, payload := json_reparse (payload e),
             originInstanceId := Some (js_trim inst), originTimestampMs := Some (int_num ts)\<rparr>), rtB)"
proof -
  from acc obtain src ty eid where b: "build_envelope now (JStr user) src ty eid = Inr e" and eid: "eid \<noteq> []"
    by (rule validateParsed_Inr)
  note f = build_envelope_Inr [OF b]
  have tpos: "num_less (FinNum 0) (timestamp e)"
    using pick_timestamp_pos [OF \<open>now > 0\<close>] f(4) by simp
  let ?d = "stampForDistribution e inst ts"
  obtain obj where obj: "envelope_json ?d = JObj obj" "\<And>k. map_of obj k = json_get (envelope_json ?d) k"
    by (rule envelope_json_obj [of ?d]) blast
  let ?pl = "pick_payload (map_of src ''payload'')"
  let ?obj = "map (map_prod id json_reparse) obj"
  have sender: "distributed_sender ?obj = JStr user"
    using user by (simp add: distributed_sender_def obj(2) json_get_envelope stampForDistribution_def f(3))
  obtain ack where ack: "ackRequired e = Some ack" using f(10) by blast
  have tgt: "resolve_target (map_of ?obj ''target'') (map (map_prod id json_reparse) ?pl) = target e"
    using resolve_json [of "map_of src ''target''" ?pl]
    by (simp add: obj(2) json_get_envelope stampForDistribution_def f(7) option.map_comp o_def)
  have ts: "pick_timestamp now' (map_of ?obj ''timestamp'') = timestamp e"
    using tpos fin by (simp add: pick_timestamp_def obj(2) json_get_envelope stampForDistribution_def)
  have pl: "pick_payload (map_of ?obj ''payload'') = map (map_prod id json_reparse) ?pl"
    by (simp add: obj(2) json_get_envelope stampForDistribution_def f(6) pick_payload_def)
  have origin: "pick_seq (map_of ?obj ''seq'') = Some None"
      "pick_origin (map_of ?obj ''originInstanceId'') = Some (Some (js_trim inst))"
      "pick_origin_ts (map_of ?obj ''originTimestampMs'') = Some (Some (int_num ts))"
      "as_str (map_of ?obj ''correlationId'') = correlationId e"
      "(map_of ?obj ''ackRequired'' = Some (JBool True)) = ack"
    using inst ack by (simp_all add: obj(2) json_get_envelope stampForDistribution_def pick_seq_def
        pick_origin_def pick_origin_ts_def option.map_comp o_def split: option.splits)
  have build: "build_envelope now' (JStr user) ?obj ty eid =
      Inr (e\<lparr>seq := None, payload := json_reparse (payload e),
             originInstanceId := Some (js_trim inst), originTimestampMs := Some (int_num ts)\<rparr>)"
    using f(8) ack unfolding build_envelope_def Let_def origin pl tgt ts
    by (simp add: f(1,2,3,6) [symmetric]) (simp add: f(3,6))
  have re: "json_reparse (JObj ?obj) = JObj ?obj"
    using json_reparse_idem [of "JObj obj"] unfolding json_reparse.simps .
  have "validateParsed rnd' now' (json_reparse (JObj ?obj)) (distributed_sender ?obj) rtB =
      (build_envelope now' (JStr user) ?obj ty eid, rtB)"
    unfolding re sender validateParsed_def Let_def using eid
    by (simp add: obj(2) json_get_envelope stampForDistribution_def f(1,2) pick_event_id_def option.map_comp o_def)
  then have "validateDistributed rnd' now' (JObj ?obj) rtB = (build_envelope now' (JStr user) ?obj ty eid, rtB)"
    using inst unfolding validateDistributed_def Let_def
    by (simp add: obj(2) json_get_envelope stampForDistribution_def build)
  then show ?thesis by (simp add: obj(1) build)
qed

text \<open>
  C16: events survive the trip between instances. A client frame accepted on one instance, stamped
  with that instance's identifier, serialised, and parsed by another instance is accepted by the
  distributed validator as the same envelope: same identifier, type, time, sender, target and
  correlation; the connection-local sequence number is gone, the origin is the publishing
  instance, and the payload is what JSON preserves of it. No identifier is drawn on the way.
\<close>

theorem distributed_roundtrip:
  assumes acc: "validateParsed rnd now parsed (JStr user) rt = (Inr e, rt')"
    and "now > 0" and fin: "is_finite (timestamp e)" and user: "user \<noteq> []" and inst: "js_trim inst \<noteq> []"
  shows "validateDistributed rnd' now' (json_reparse (envelope_json (stampForDistribution e inst ts))) rtB =
     (Inr (e\<lparr>seq := None, payload := json_reparse (payload e),
             originInstanceId := Some (js_trim inst), originTimestampMs := Some (int_num ts)\<rparr>), rtB)"
  by (rule stamped_event_accepted) (use assms in auto)

definition sample_frame :: json where
  "sample_frame = JObj [(''type'', JStr ''ROOM_MESSAGE''), (''eventId'', JStr ''e1''), (''seq'', JNum (FinNum 3)),
     (''payload'', JObj [(''roomId'', JStr '' lobby ''), (''content'', JStr ''hi'')])]"

definition runtime0 :: runtime where
  "runtime0 = \<lparr>metricCalls = [], lastMs = 0, sequenceCounter = 0, draws = 0\<rparr>"

theorem distributed_roundtrip_witness:
  "\<exists>e. validateParsed (\<lambda>_. 0) 5 sample_frame (JStr ''ada'') runtime0 = (Inr e, runtime0) \<and>
     validateDistributed (\<lambda>_. 0) 9 (json_reparse (envelope_json (stampForDistribution e ''node-a'' 7))) runtime0 =
       (Inr (e\<lparr>seq := None, payload := json_reparse (payload e),
             originInstanceId := Some ''node-a'', originTimestampMs := Some (FinNum 7)\<rparr>), runtime0)"
proof -
  obtain e where e: "validateParsed (\<lambda>_. 0) 5 sample_frame (JStr ''ada'') runtime0 = (Inr e, runtime0)"
    and t: "timestamp e = FinNum 5"
    by (simp add: validateParsed_def sample_frame_def find_event_type_def VALID_EVENT_TYPES_def
        pick_event_id_def build_envelope_def pick_seq_def pick_timestamp_def pick_payload_def resolve_target_def
        base_target_def fill_room_def fill_recipient_def type_requirements_def pick_origin_def pick_origin_ts_def
        js_trim_def js_ws_def)
  have tr: "js_trim ''node-a'' = ''node-a''" by code_simp
  from distributed_roundtrip [OF e, of "''node-a''" "\<lambda>_. 0" 9 7 runtime0] e t tr show ?thesis by auto
qed

end
