(* ===== verification/Cache_Spec.thy ===== *)
theory Cache_Spec
  imports Prelude
begin

text \<open>
  The contract of the two bounded caches of the server, the idempotency cache and the presence
  event tracker: a JavaScript \<^verbatim>\<open>Map\<close> whose iteration order is the eviction order, with an insertion
  that makes room by evicting the oldest key. The laws say what an insertion may do to the other
  entries and to the size; the lemmas bound the size of the cache along any run of insertions.
\<close>

text \<open>The first key in iteration order removed: \<^verbatim>\<open>delete(keys().next().value)\<close>.\<close>

definition evict_oldest :: "('k, 'v) jsmap \<Rightarrow> ('k, 'v) jsmap" where
  "evict_oldest m = (case m of [] \<Rightarrow> [] | (k, _) # _ \<Rightarrow> js_delete k m)"

text \<open>\<^verbatim>\<open>delete(k)\<close> followed by \<^verbatim>\<open>set(k, v)\<close>: the key moves to the end of the iteration order.\<close>

definition touch :: "'k \<Rightarrow> 'v \<Rightarrow> ('k, 'v) jsmap \<Rightarrow> ('k, 'v) jsmap" where
  "touch k v m = js_set k v (js_delete k m)"

lemma touch_append: "touch k v m = js_delete k m @ [(k, v)]"
  by (simp add: touch_def js_set_absent)

lemma js_delete_absent [simp]: "k \<notin> fst ` set m \<Longrightarrow> js_delete k m = m"
  by (rule delete_id) simp

lemma evict_oldest_Cons: "wf_map m \<Longrightarrow> m = (k, v) # r \<Longrightarrow> evict_oldest m = r"
  by (simp add: evict_oldest_def delete_id)

lemma evict_oldest_tl: "wf_map m \<Longrightarrow> evict_oldest m = tl m"
  by (cases m) (auto simp: evict_oldest_Cons evict_oldest_def)

lemma map_of_evict: "map_of (evict_oldest m) k \<in> {None, map_of m k}"
  by (auto simp: evict_oldest_def split: list.splits)

lemma wf_map_touch [simp, intro]: "wf_map m \<Longrightarrow> wf_map (touch k v m)"
  by (simp add: touch_def)

lemma wf_map_evict [simp, intro]: "wf_map m \<Longrightarrow> wf_map (evict_oldest m)"
  by (cases m) (auto simp: evict_oldest_def intro: wf_map_delete)

lemma length_delete_le: "length (js_delete k m) \<le> length m"
  by (simp add: length_delete_le)

lemma keys_tl_subset: "fst ` set (tl m) \<subseteq> fst ` set m"
  by (cases m) auto

locale bounded_cache =
  fixes entries :: "'c \<Rightarrow> ('k, 'v) jsmap"
    and cap :: "'c \<Rightarrow> nat"
    and put :: "'k \<Rightarrow> 'v \<Rightarrow> 'c \<Rightarrow> 'c"
    and key_ok :: "'k \<Rightarrow> bool"
    and valid :: "'c \<Rightarrow> bool"
  assumes valid_wf: "valid c \<Longrightarrow> wf_map (entries c)"
    and put_valid: "valid c \<Longrightarrow> key_ok k \<Longrightarrow> valid (put k v c)"
    and put_get: "valid c \<Longrightarrow> key_ok k \<Longrightarrow> map_of (entries (put k v c)) k = Some v"
    and put_other: "valid c \<Longrightarrow> key_ok k \<Longrightarrow> k' \<noteq> k \<Longrightarrow>
      map_of (entries (put k v c)) k' \<in> {None, map_of (entries c) k'}"
    and put_room: "valid c \<Longrightarrow> key_ok k \<Longrightarrow> k' \<noteq> k \<Longrightarrow> length (entries c) < cap c \<Longrightarrow>
      map_of (entries (put k v c)) k' = map_of (entries c) k'"
    and put_cap: "cap (put k v c) = cap c"
    and put_size: "valid c \<Longrightarrow> key_ok k \<Longrightarrow>
      length (entries (put k v c)) \<le> max (length (entries c)) (max (cap c) 1)"
begin

fun put_all :: "('k \<times> 'v) list \<Rightarrow> 'c \<Rightarrow> 'c" where
  "put_all [] c = c"
| "put_all ((k, v) # r) c = put_all r (put k v c)"

lemma put_all_valid: "valid c \<Longrightarrow> \<forall>k \<in> fst ` set kvs. key_ok k \<Longrightarrow> valid (put_all kvs c)"
  by (induction kvs c rule: put_all.induct) (simp_all add: put_valid)

text \<open>However many keys are inserted, the size stays within the capacity (or one entry, at capacity 0).\<close>

lemma put_all_bounded:
  "valid c \<Longrightarrow> \<forall>k \<in> fst ` set kvs. key_ok k \<Longrightarrow> length (entries c) \<le> max (cap c) 1 \<Longrightarrow>
     length (entries (put_all kvs c)) \<le> max (cap c) 1"
proof (induction kvs c rule: put_all.induct)
  case (2 k v r c)
  then show ?case using put_size [of c k v] by (simp add: put_valid put_cap)
qed simp

text \<open>No insertion invents an entry: what is found was there before or was inserted.\<close>

lemma put_all_origin:
  "valid c \<Longrightarrow> \<forall>k \<in> fst ` set kvs. key_ok k \<Longrightarrow> map_of (entries (put_all kvs c)) k = Some v \<Longrightarrow>
     (k, v) \<in> set kvs \<or> map_of (entries c) k = Some v"
proof (induction kvs c rule: put_all.induct)
  case (2 k' v' r c)
  then have "(k, v) \<in> set r \<or> map_of (entries (put k' v' c)) k = Some v"
    by (simp add: put_valid)
  then show ?case
    using put_get [OF 2(2), of k' v'] put_other [OF 2(2), of k' k v'] 2(3) by (cases "k = k'") auto
qed simp

end

end
