(* ===== verification/Channel_Registry.thy ===== *)
theory Channel_Registry
  imports Redis_Link Event_Validator Cache_Spec
begin

text \<open>
  \<^verbatim>\<open>src/redis/RedisPubSubManager.ts\<close> and \<^verbatim>\<open>src/redis/ChannelRegistry.ts\<close>: which Redis channels the
  process listens to, and the reference counts that decide when to subscribe.

  An \<^verbatim>\<open>async\<close> method runs synchronously up to its first await, so the definition of a call is that
  part, with a flag that says whether the call now awaits a reply of Redis; the code after the
  await that changes state (the rollback of a rejected command) is a definition of its own, run
  when the reply arrives. \<open>issued\<close> records the commands handed to the client library.
\<close>

datatype redis_cmd =
    SUBSCRIBE "string list"
  | UNSUBSCRIBE string
  | PUBLISH string envelope

record chan_state = link_state +
  chanEnabled :: bool
  channelRefCounts :: "(string, nat) jsmap"
  subscribedChannels :: "string list"
  listenerAttached :: bool
  maxInFlightPublishes :: int
  issued :: "redis_cmd list"

definition issue :: "redis_cmd \<Rightarrow> 'a chan_state_scheme \<Rightarrow> 'a chan_state_scheme" where
  "issue c st = st\<lparr>issued := issued st @ [c]\<rparr>"

section \<open>Channel names\<close>

definition CHANNEL_PREFIX_ROOM :: string where "CHANNEL_PREFIX_ROOM = ''pulse:room:''"
definition CHANNEL_PREFIX_USER :: string where "CHANNEL_PREFIX_USER = ''pulse:user:''"
definition CHANNEL_PRESENCE_EVENTS :: string where "CHANNEL_PRESENCE_EVENTS = ''pulse:presence:events''"

text \<open>\<open>None\<close> when the function throws.\<close>

definition getRoomChannel :: "string \<Rightarrow> string option" where
  "getRoomChannel r = (if js_trim r = [] then None else Some (CHANNEL_PREFIX_ROOM @ js_trim r))"

definition getUserChannel :: "string \<Rightarrow> string option" where
  "getUserChannel u = (if js_trim u = [] then None else Some (CHANNEL_PREFIX_USER @ js_trim u))"

definition isRoomChannel :: "string \<Rightarrow> bool" where
  "isRoomChannel ch = starts_with CHANNEL_PREFIX_ROOM ch"

definition isUserChannel :: "string \<Rightarrow> bool" where
  "isUserChannel ch = starts_with CHANNEL_PREFIX_USER ch"

definition isPresenceChannel :: "string \<Rightarrow> bool" where
  "isPresenceChannel ch \<longleftrightarrow> ch = CHANNEL_PRESENCE_EVENTS"

definition extractRoomId :: "string \<Rightarrow> string option" where
  "extractRoomId ch = (if \<not> isRoomChannel ch then None else Some (drop (length CHANNEL_PREFIX_ROOM) ch))"

definition extractUserId :: "string \<Rightarrow> string option" where
  "extractUserId ch = (if \<not> isUserChannel ch then None else Some (drop (length CHANNEL_PREFIX_USER) ch))"

section \<open>Publish and subscribe\<close>

datatype publish_error = NotConnected | Backpressure

text \<open>\<^verbatim>\<open>publish\<close> up to its await, and its continuation when Redis replies.\<close>

definition pubsub_publish ::
  "string \<Rightarrow> envelope \<Rightarrow> 'a chan_state_scheme \<Rightarrow> (publish_error + unit) \<times> 'a chan_state_scheme" where
  "pubsub_publish ch e st =
     (if \<not> link_connected st then (Inl NotConnected, st)
      else if inFlightPublishes st \<ge> maxInFlightPublishes st then (Inl Backpressure, recordPublishRejected st)
      else (Inr (), issue (PUBLISH ch e) (recordPublishStart st)))"

definition publish_reply :: "int \<Rightarrow> bool \<Rightarrow> 'a chan_state_scheme \<Rightarrow> 'a chan_state_scheme" where
  "publish_reply durationMs err st = recordPublishEnd durationMs err st"

definition pubsub_subscribe :: "string \<Rightarrow> 'a chan_state_scheme \<Rightarrow> bool \<times> 'a chan_state_scheme" where
  "pubsub_subscribe ch st =
     (if ch \<in> set (subscribedChannels st) then (False, st)
      else let st1 = st\<lparr>subscribedChannels := set_add ch (subscribedChannels st)\<rparr>;
               st2 = setChannelsActive (length (subscribedChannels st1)) st1
           in if link_connected st2 then (True, issue (SUBSCRIBE [ch]) st2) else (False, st2))"

definition pubsub_unsubscribe :: "string \<Rightarrow> 'a chan_state_scheme \<Rightarrow> bool \<times> 'a chan_state_scheme" where
  "pubsub_unsubscribe ch st =
     (if ch \<notin> set (subscribedChannels st) then (False, st)
      else let st1 = st\<lparr>subscribedChannels := set_del ch (subscribedChannels st)\<rparr>;
               st2 = setChannelsActive (length (subscribedChannels st1)) st1
           in if link_connected st2 then (True, issue (UNSUBSCRIBE ch) st2) else (False, st2))"

definition attachSubscriberListener :: "'a chan_state_scheme \<Rightarrow> 'a chan_state_scheme" where
  "attachSubscriberListener st =
     (if listenerAttached st \<or> \<not> link_connected st then st else st\<lparr>listenerAttached := True\<rparr>)"

definition restoreSubscriptions :: "'a chan_state_scheme \<Rightarrow> 'a chan_state_scheme" where
  "restoreSubscriptions st =
     (if subscribedChannels st = [] \<or> \<not> link_connected st then st
      else issue (SUBSCRIBE (subscribedChannels st)) st)"

text \<open>\<^verbatim>\<open>setupConnectionEvents\<close>: the reaction to each event of the connection manager.\<close>

fun pubsub_on :: "link_event \<Rightarrow> 'a chan_state_scheme \<Rightarrow> 'a chan_state_scheme" where
  "pubsub_on EmConnected st =
     restoreSubscriptions (attachSubscriberListener (setConnectionState ''connected'' st))"
| "pubsub_on EmDisconnected st = setConnectionState ''disconnected'' st"
| "pubsub_on (EmReconnecting _) st = setConnectionState ''reconnecting'' st"
| "pubsub_on EmError st = setConnectionState ''error'' st"

text \<open>A step of the connection manager followed by the reactions to the events it emitted.\<close>

definition with_reactions ::
  "('a chan_state_scheme \<Rightarrow> 'a chan_state_scheme) \<Rightarrow> 'a chan_state_scheme \<Rightarrow> 'a chan_state_scheme" where
  "with_reactions f st =
     (let st' = f st in fold pubsub_on (drop (length (emitted st)) (emitted st')) st')"

definition pubsub_connected :: "'a chan_state_scheme \<Rightarrow> 'a chan_state_scheme" where
  "pubsub_connected st = attachSubscriberListener (setConnectionState ''connected'' st)"

definition pubsub_disconnect :: "'a chan_state_scheme \<Rightarrow> 'a chan_state_scheme" where
  "pubsub_disconnect st =
     with_reactions link_disconnect_begin
       ((setConnectionState ''disconnected'' (setChannelsActive 0 (st\<lparr>subscribedChannels := []\<rparr>)))
          \<lparr>listenerAttached := False\<rparr>)"

section \<open>Reference counts\<close>

definition getRefCount :: "'a chan_state_scheme \<Rightarrow> string \<Rightarrow> nat" where
  "getRefCount st ch = (case map_of (channelRefCounts st) ch of None \<Rightarrow> 0 | Some n \<Rightarrow> n)"

definition incrementSubscription :: "string \<Rightarrow> 'a chan_state_scheme \<Rightarrow> bool \<times> 'a chan_state_scheme" where
  "incrementSubscription ch st =
     (let currentCount = getRefCount st ch;
          st1 = st\<lparr>channelRefCounts := js_set ch (currentCount + 1) (channelRefCounts st)\<rparr>
      in if currentCount = 0 then pubsub_subscribe ch st1 else (False, st1))"

text \<open>Lines 171-175: the rollback when the awaited SUBSCRIBE is rejected.\<close>

definition increment_rejected :: "string \<Rightarrow> 'a chan_state_scheme \<Rightarrow> 'a chan_state_scheme" where
  "increment_rejected ch st = st\<lparr>channelRefCounts := js_delete ch (channelRefCounts st)\<rparr>"

definition decrementSubscription :: "string \<Rightarrow> 'a chan_state_scheme \<Rightarrow> bool \<times> 'a chan_state_scheme" where
  "decrementSubscription ch st =
     (let currentCount = getRefCount st ch in
      if currentCount = 0 then (False, st\<lparr>channelRefCounts := js_delete ch (channelRefCounts st)\<rparr>)
      else if currentCount = 1
      then pubsub_unsubscribe ch (st\<lparr>channelRefCounts := js_delete ch (channelRefCounts st)\<rparr>)
      else (False, st\<lparr>channelRefCounts := js_set ch (currentCount - 1) (channelRefCounts st)\<rparr>))"

text \<open>Lines 206-210: the rollback when the awaited UNSUBSCRIBE is rejected.\<close>

definition decrement_rejected :: "string \<Rightarrow> 'a chan_state_scheme \<Rightarrow> 'a chan_state_scheme" where
  "decrement_rejected ch st = st\<lparr>channelRefCounts := js_set ch 1 (channelRefCounts st)\<rparr>"

text \<open>
  The public operations. The callers of the four room and user operations do not await them and
  only log a failure, so their effect on the state is the synchronous part; a blank name throws
  before anything changes.
\<close>

definition subscribeRoom :: "string \<Rightarrow> 'a chan_state_scheme \<Rightarrow> 'a chan_state_scheme" where
  "subscribeRoom r st = (case getRoomChannel r of None \<Rightarrow> st | Some ch \<Rightarrow> snd (incrementSubscription ch st))"

definition unsubscribeRoom :: "string \<Rightarrow> 'a chan_state_scheme \<Rightarrow> 'a chan_state_scheme" where
  "unsubscribeRoom r st = (case getRoomChannel r of None \<Rightarrow> st | Some ch \<Rightarrow> snd (decrementSubscription ch st))"

definition subscribeUser :: "string \<Rightarrow> 'a chan_state_scheme \<Rightarrow> 'a chan_state_scheme" where
  "subscribeUser u st = (case getUserChannel u of None \<Rightarrow> st | Some ch \<Rightarrow> snd (incrementSubscription ch st))"

definition unsubscribeUser :: "string \<Rightarrow> 'a chan_state_scheme \<Rightarrow> 'a chan_state_scheme" where
  "unsubscribeUser u st = (case getUserChannel u of None \<Rightarrow> st | Some ch \<Rightarrow> snd (decrementSubscription ch st))"

definition subscribePresence :: "'a chan_state_scheme \<Rightarrow> bool \<times> 'a chan_state_scheme" where
  "subscribePresence st = incrementSubscription CHANNEL_PRESENCE_EVENTS st"

definition unsubscribePresence :: "'a chan_state_scheme \<Rightarrow> bool \<times> 'a chan_state_scheme" where
  "unsubscribePresence st = decrementSubscription CHANNEL_PRESENCE_EVENTS st"

definition isPresenceSubscribed :: "'a chan_state_scheme \<Rightarrow> bool" where
  "isPresenceSubscribed st \<longleftrightarrow> getRefCount st CHANNEL_PRESENCE_EVENTS > 0"

definition getActiveChannels :: "'a chan_state_scheme \<Rightarrow> string list" where
  "getActiveChannels st = js_keys (channelRefCounts st)"

text \<open>\<^verbatim>\<open>clear\<close>: each channel is unsubscribed in turn; a failing reply is logged and skipped.\<close>

definition clear_channels :: "'a chan_state_scheme \<Rightarrow> 'a chan_state_scheme" where
  "clear_channels st =
     fold (\<lambda>ch s. snd (pubsub_unsubscribe ch s)) (js_keys (channelRefCounts st)) (st\<lparr>channelRefCounts := []\<rparr>)"

section \<open>The contract of the registry\<close>

text \<open>
  What the room and connection managers rely on: a count per channel, one more after an increment
  and one less (never below zero) after a decrement, other channels untouched.
\<close>

locale ref_registry =
  fixes count :: "'s \<Rightarrow> string \<Rightarrow> nat"
    and incr :: "string \<Rightarrow> 's \<Rightarrow> 's"
    and decr :: "string \<Rightarrow> 's \<Rightarrow> 's"
  assumes count_incr: "count (incr c s) c' = (if c' = c then Suc (count s c) else count s c')"
    and count_decr: "count (decr c s) c' = (if c' = c then count s c - 1 else count s c')"
begin

text \<open>
  The discipline of the clients: a count equals the number of members of the group that uses the
  channel. It is kept when a member is added with an increment and removed with a decrement.
\<close>

definition counts_members :: "(string \<Rightarrow> string list) \<Rightarrow> string set \<Rightarrow> 's \<Rightarrow> bool" where
  "counts_members grp chans s \<longleftrightarrow> (\<forall>c \<in> chans. count s c = length (grp c))"

lemma counts_members_add:
  assumes "counts_members grp chans s" "length (grp' c) = Suc (length (grp c))" "\<And>d. d \<noteq> c \<Longrightarrow> grp' d = grp d"
  shows "counts_members grp' chans (incr c s)"
  using assms by (auto simp: counts_members_def count_incr)

lemma counts_members_remove:
  assumes "counts_members grp chans s" "Suc (length (grp' c)) = length (grp c)" "\<And>d. d \<noteq> c \<Longrightarrow> grp' d = grp d"
  shows "counts_members grp' chans (decr c s)"
proof -
  have "count s d - 1 = length (grp' d)" if "d = c" "d \<in> chans" for d
    using assms(1,2) that by (metis counts_members_def diff_Suc_1)
  then show ?thesis using assms by (auto simp: counts_members_def count_decr)
qed

end

lemma getRefCount_unchanged [simp]:
  "getRefCount (issue c st) ch = getRefCount st ch"
  "getRefCount (setChannelsActive n st) ch = getRefCount st ch"
  "getRefCount (setConnectionState x st) ch = getRefCount st ch"
  "getRefCount (st\<lparr>subscribedChannels := cs\<rparr>) ch = getRefCount st ch"
  by (simp_all add: getRefCount_def issue_def setChannelsActive_def setConnectionState_def metric_def)

lemma pubsub_refcounts [simp]:
  "getRefCount (snd (pubsub_subscribe c st)) ch = getRefCount st ch"
  "getRefCount (snd (pubsub_unsubscribe c st)) ch = getRefCount st ch"
  by (simp_all add: pubsub_subscribe_def pubsub_unsubscribe_def Let_def)

lemma getRefCount_increment:
  "getRefCount (snd (incrementSubscription c st)) ch = (if ch = c then Suc (getRefCount st c) else getRefCount st ch)"
  by (simp add: incrementSubscription_def Let_def) (simp add: getRefCount_def)

lemma getRefCount_decrement:
  "getRefCount (snd (decrementSubscription c st)) ch = (if ch = c then getRefCount st c - 1 else getRefCount st ch)"
  by (simp add: decrementSubscription_def Let_def) (simp add: getRefCount_def)

interpretation registry: ref_registry getRefCount "\<lambda>c st. snd (incrementSubscription c st)" "\<lambda>c st. snd (decrementSubscription c st)"
  by unfold_locales (rule getRefCount_increment, rule getRefCount_decrement)

section \<open>The Redis server's view\<close>

text \<open>The channels the Redis server delivers to this process, after the commands it was sent.\<close>

fun redis_apply :: "redis_cmd \<Rightarrow> string set \<Rightarrow> string set" where
  "redis_apply (SUBSCRIBE cs) S = S \<union> set cs"
| "redis_apply (UNSUBSCRIBE c) S = S - {c}"
| "redis_apply (PUBLISH _ _) S = S"

definition new_commands :: "'a chan_state_scheme \<Rightarrow> 'a chan_state_scheme \<Rightarrow> redis_cmd list" where
  "new_commands st st' = drop (length (issued st)) (issued st')"

text \<open>
  What can happen to a registry and the server's subscription set: a call on the registry, an
  event of one of the two clients, the completion of \<^verbatim>\<open>connect()\<close>. A lost or re-established
  connection may leave any subscription set behind (the server forgets it on a disconnection, the
  client library may restore some of it), so those steps choose it arbitrarily. Redis executes the
  commands it is sent; rejected commands are treated below.
\<close>

inductive chan_step :: "('a chan_state_scheme \<times> string set) \<Rightarrow> ('a chan_state_scheme \<times> string set) \<Rightarrow> bool" where
  Increment: "st' = snd (incrementSubscription c st) \<Longrightarrow>
     chan_step (st, S) (st', fold redis_apply (new_commands st st') S)"
| Decrement: "st' = snd (decrementSubscription c st) \<Longrightarrow>
     chan_step (st, S) (st', fold redis_apply (new_commands st st') S)"
| Publish: "st' = snd (pubsub_publish c e st) \<Longrightarrow>
     chan_step (st, S) (st', fold redis_apply (new_commands st st') S)"
| Client: "st' = with_reactions (client_listener r ev) st \<Longrightarrow>
     chan_step (st, S) (st', fold redis_apply (new_commands st st') S')"
| ConnectBegin: "link_connect_begin st = Some st' \<Longrightarrow> chan_step (st, S) (st', S')"
| ConnectDone: "link_connected st \<Longrightarrow> st' = with_reactions link_connect_done st \<Longrightarrow>
     chan_step (st, S) (st', fold redis_apply (new_commands st st') S)"
| Clear: "st' = clear_channels st \<Longrightarrow> chan_step (st, S) (st', fold redis_apply (new_commands st st') S)"
| Disconnect: "channelRefCounts st = [] \<Longrightarrow> st' = pubsub_disconnect st \<Longrightarrow> chan_step (st, S) (st', S')"

definition chan_inv :: "('a chan_state_scheme \<times> string set) \<Rightarrow> bool" where
  "chan_inv = (\<lambda>(st, S).
     wf_map (channelRefCounts st) \<and> 0 \<notin> snd ` set (channelRefCounts st)
     \<and> distinct (subscribedChannels st) \<and> set (subscribedChannels st) = fst ` set (channelRefCounts st)
     \<and> (link_connected st \<longrightarrow> set (subscribedChannels st) \<subseteq> S))"

lemma metric_frame [simp]:
  "link_connected (metric m st) = link_connected st" "issued (metric m st') = issued st'"
  "subscribedChannels (metric m st') = subscribedChannels st'"
  "channelRefCounts (metric m st') = channelRefCounts st'"
  by (simp_all add: metric_def link_connected_def)

lemma metrics_frame [simp]:
  "link_connected (setChannelsActive n st) = link_connected st"
  "link_connected (setConnectionState x st) = link_connected st"
  "subscribedChannels (setChannelsActive n st') = subscribedChannels st'"
  "subscribedChannels (setConnectionState x st') = subscribedChannels st'"
  "channelRefCounts (setChannelsActive n st') = channelRefCounts st'"
  "channelRefCounts (setConnectionState x st') = channelRefCounts st'"
  "issued (setChannelsActive n st') = issued st'" "issued (setConnectionState x st') = issued st'"
  by (simp_all add: setChannelsActive_def setConnectionState_def metric_def link_connected_def)

lemma publish_frame [simp]:
  "link_connected (recordPublishStart st) = link_connected st"
  "link_connected (recordPublishRejected st) = link_connected st"
  "subscribedChannels (recordPublishStart st') = subscribedChannels st'"
  "subscribedChannels (recordPublishRejected st') = subscribedChannels st'"
  "channelRefCounts (recordPublishStart st') = channelRefCounts st'"
  "channelRefCounts (recordPublishRejected st') = channelRefCounts st'"
  "issued (recordPublishStart st') = issued st'" "issued (recordPublishRejected st') = issued st'"
  by (simp_all add: redis_metric_defs Let_def link_connected_def)

lemma issue_frame [simp]:
  "link_connected (issue c st) = link_connected st" "subscribedChannels (issue c st) = subscribedChannels st"
  "channelRefCounts (issue c st) = channelRefCounts st" "issued (issue c st) = issued st @ [c]"
  by (simp_all add: issue_def link_connected_def)

lemma update_frame [simp]:
  "link_connected (st\<lparr>subscribedChannels := cs\<rparr>) = link_connected st"
  "link_connected (st\<lparr>channelRefCounts := rc\<rparr>) = link_connected st"
  "link_connected (st\<lparr>listenerAttached := b\<rparr>) = link_connected st"
  by (simp_all add: link_connected_def)

lemma pubsub_subscribe_facts:
  "channelRefCounts (snd (pubsub_subscribe c st)) = channelRefCounts st"
  "link_connected (snd (pubsub_subscribe c st)) = link_connected st"
  "subscribedChannels (snd (pubsub_subscribe c st)) = set_add c (subscribedChannels st)"
  "issued (snd (pubsub_subscribe c st)) =
     issued st @ (if c \<in> set (subscribedChannels st) \<or> \<not> link_connected st then [] else [SUBSCRIBE [c]])"
  by (simp_all add: pubsub_subscribe_def Let_def)

lemma pubsub_unsubscribe_facts:
  "channelRefCounts (snd (pubsub_unsubscribe c st)) = channelRefCounts st"
  "link_connected (snd (pubsub_unsubscribe c st)) = link_connected st"
  "subscribedChannels (snd (pubsub_unsubscribe c st)) = set_del c (subscribedChannels st)"
  "issued (snd (pubsub_unsubscribe c st)) =
     issued st @ (if c \<notin> set (subscribedChannels st) \<or> \<not> link_connected st then [] else [UNSUBSCRIBE c])"
  by (simp_all add: pubsub_unsubscribe_def Let_def)

lemmas pubsub_facts = pubsub_subscribe_facts pubsub_unsubscribe_facts

lemma getRefCount_0:
  "0 \<notin> snd ` set (channelRefCounts st) \<Longrightarrow> getRefCount st c = 0 \<longleftrightarrow> c \<notin> fst ` set (channelRefCounts st)"
proof (cases "map_of (channelRefCounts st) c")
  case (Some n)
  assume "0 \<notin> snd ` set (channelRefCounts st)"
  moreover have "n \<in> snd ` set (channelRefCounts st)" using Some by (force dest: map_of_SomeD)
  ultimately have "n \<noteq> 0" by metis
  with Some show ?thesis by (simp add: getRefCount_def js_get_in_keys)
next
  case None
  then have "c \<notin> fst ` set (channelRefCounts st)" using js_has_iff [of "channelRefCounts st" c] by simp
  with None show ?thesis by (simp add: getRefCount_def)
qed

lemma values_js_set: "0 \<notin> snd ` set m \<Longrightarrow> 0 \<notin> snd ` set (js_set k (Suc n) m)"
  by (induction m) auto

lemma values_js_delete: "0 \<notin> snd ` set m \<Longrightarrow> 0 \<notin> snd ` set (js_delete k m)"
  by (auto simp: AList.delete_eq)

lemma chan_inv_increment:
  assumes "chan_inv (st, S)"
  shows "chan_inv (snd (incrementSubscription c st),
     fold redis_apply (new_commands st (snd (incrementSubscription c st))) S)"
proof (cases "getRefCount st c = 0")
  case True
  with assms have n: "c \<notin> fst ` set (channelRefCounts st)" "c \<notin> set (subscribedChannels st)"
    using getRefCount_0 [of st c] by (simp_all add: chan_inv_def)
  with True assms show ?thesis
    by (auto simp: chan_inv_def incrementSubscription_def pubsub_facts new_commands_def values_js_set [of _ _ 0, simplified])
next
  case False
  with assms have n: "c \<in> fst ` set (channelRefCounts st)"
    using getRefCount_0 [of st c] by (simp add: chan_inv_def)
  with False assms show ?thesis
    by (auto simp: chan_inv_def incrementSubscription_def new_commands_def values_js_set insert_absorb)
qed

lemma chan_inv_decrement:
  assumes "chan_inv (st, S)"
  shows "chan_inv (snd (decrementSubscription c st),
     fold redis_apply (new_commands st (snd (decrementSubscription c st))) S)"
proof -
  consider "getRefCount st c = 0" | "getRefCount st c = 1" | n where "getRefCount st c = Suc (Suc n)"
    by (metis One_nat_def not0_implies_Suc)
  then show ?thesis
  proof cases
    case 1
    with assms have "c \<notin> fst ` set (channelRefCounts st)"
      using getRefCount_0 [of st c] by (simp add: chan_inv_def)
    with 1 assms show ?thesis
      by (auto simp: chan_inv_def decrementSubscription_def new_commands_def)
  next
    case 2
    with assms show ?thesis
      by (auto simp: chan_inv_def decrementSubscription_def pubsub_facts new_commands_def values_js_delete)
  next
    case 3
    with assms have n: "c \<in> fst ` set (channelRefCounts st)"
      using getRefCount_0 [of st c] by (simp add: chan_inv_def)
    with 3 assms show ?thesis
      by (auto simp: chan_inv_def decrementSubscription_def new_commands_def values_js_set insert_absorb)
  qed
qed

lemma chan_inv_publish:
  "chan_inv (st, S) \<Longrightarrow> chan_inv (snd (pubsub_publish c e st),
     fold redis_apply (new_commands st (snd (pubsub_publish c e st))) S)"
  by (auto simp: chan_inv_def pubsub_publish_def new_commands_def)

text \<open>The connection manager's steps leave the registry alone.\<close>

lemma link_frame [simp]:
  "channelRefCounts (emit ev st) = channelRefCounts st" "subscribedChannels (emit ev st) = subscribedChannels st"
  "issued (emit ev st) = issued st" "link_connected (emit ev st') = link_connected st'"
  "channelRefCounts (updateStatus r s st) = channelRefCounts st"
  "subscribedChannels (updateStatus r s st) = subscribedChannels st" "issued (updateStatus r s st) = issued st"
  "emitted (updateStatus r s st') = emitted st'" "emitted (emit ev st') = emitted st' @ [ev]"
  by (cases r; simp add: emit_def updateStatus_def link_connected_def)+

lemma listener_frame [simp]:
  "channelRefCounts (client_listener r ev st) = channelRefCounts st"
  "subscribedChannels (client_listener r ev st) = subscribedChannels st"
  "issued (client_listener r ev st) = issued st"
  by (cases ev; simp add: checkDisconnected_def Let_def)+

lemma attach_frame [simp]:
  "channelRefCounts (attachSubscriberListener st) = channelRefCounts st"
  "subscribedChannels (attachSubscriberListener st) = subscribedChannels st"
  "issued (attachSubscriberListener st) = issued st"
  "link_connected (attachSubscriberListener st) = link_connected st"
  by (simp_all add: attachSubscriberListener_def)

lemma pubsub_on_frame [simp]:
  "channelRefCounts (pubsub_on ev st) = channelRefCounts st"
  "subscribedChannels (pubsub_on ev st) = subscribedChannels st"
  "link_connected (pubsub_on ev st) = link_connected st"
  by (cases ev; simp add: restoreSubscriptions_def)+

lemma pubsub_on_issued:
  "issued (pubsub_on ev st) = issued st @
     (if ev = EmConnected \<and> subscribedChannels st \<noteq> [] \<and> link_connected st then [SUBSCRIBE (subscribedChannels st)] else [])"
  by (cases ev) (simp_all add: restoreSubscriptions_def)

text \<open>A client event leaves the link down, or reports the connection, which restores the subscriptions.\<close>

lemma client_listener_cases:
  obtains "\<not> link_connected (client_listener r ev st)"
  | "emitted (client_listener r ev st) = emitted st @ [EmConnected]" "link_connected (client_listener r ev st)"
proof (cases ev)
  case OnReady
  show ?thesis
  proof (cases "link_connected (updateStatus r Connected st)")
    case True
    with OnReady show ?thesis by (intro that(2)) (simp_all add: Let_def)
  next
    case False
    with OnReady show ?thesis by (intro that(1)) (simp add: Let_def)
  qed
qed (cases r; use that in \<open>simp add: link_connected_def updateStatus_def emit_def checkDisconnected_def split: if_splits\<close>)+

lemma fold_pubsub_frame [simp]:
  "channelRefCounts (fold pubsub_on evs st) = channelRefCounts st"
  "subscribedChannels (fold pubsub_on evs st) = subscribedChannels st"
  "link_connected (fold pubsub_on evs st) = link_connected st"
  by (induction evs arbitrary: st) simp_all

lemma chan_inv_client:
  assumes "chan_inv (st, S)"
  shows "chan_inv (with_reactions (client_listener r ev) st,
     fold redis_apply (new_commands st (with_reactions (client_listener r ev) st)) S')"
proof (rule client_listener_cases [of r ev st])
  assume "\<not> link_connected (client_listener r ev st)"
  with assms show ?thesis by (simp add: chan_inv_def with_reactions_def Let_def)
next
  assume "emitted (client_listener r ev st) = emitted st @ [EmConnected]" "link_connected (client_listener r ev st)"
  with assms show ?thesis
    by (auto simp: chan_inv_def with_reactions_def Let_def new_commands_def pubsub_on_issued
        simp del: pubsub_on.simps client_listener.simps)
qed

lemma clear_fold [simp]:
  "channelRefCounts (fold (\<lambda>ch s. snd (pubsub_unsubscribe ch s)) cs st) = channelRefCounts st"
  "link_connected (fold (\<lambda>ch s. snd (pubsub_unsubscribe ch s)) cs st) = link_connected st"
  by (induction cs arbitrary: st) (simp_all add: pubsub_facts)

lemma clear_fold_channels:
  "subscribedChannels (fold (\<lambda>ch s. snd (pubsub_unsubscribe ch s)) cs st) = fold set_del cs (subscribedChannels st)"
  by (induction cs arbitrary: st) (simp_all add: pubsub_facts)

lemma set_fold_set_del: "set (fold set_del cs xs) = set xs - set cs"
  by (induction cs arbitrary: xs) auto

lemma distinct_fold_set_del: "distinct xs \<Longrightarrow> distinct (fold set_del cs xs)"
  by (induction cs arbitrary: xs) simp_all

text \<open>A step that leaves the link down and the registry alone keeps the invariant for any server set.\<close>

lemma chan_inv_down:
  "chan_inv (st, S) \<Longrightarrow> \<not> link_connected st' \<Longrightarrow> channelRefCounts st' = channelRefCounts st \<Longrightarrow>
     subscribedChannels st' = subscribedChannels st \<Longrightarrow> chan_inv (st', S')"
  by (simp add: chan_inv_def)

lemma link_connect_begin_facts:
  assumes "link_connect_begin st = Some st'"
  shows "\<not> link_connected st'" "channelRefCounts st' = channelRefCounts st" "subscribedChannels st' = subscribedChannels st"
proof -
  have "st' = st\<lparr>linkShuttingDown := False, publisherStatus := Connecting, subscriberStatus := Connecting,
      hasPublisher := True, hasSubscriber := True\<rparr>"
    using assms by (simp add: link_connect_begin_def split: if_splits)
  then show "\<not> link_connected st'" "channelRefCounts st' = channelRefCounts st"
    "subscribedChannels st' = subscribedChannels st"
    by (simp_all add: link_connected_def)
qed

lemma chan_inv_connect_done:
  assumes "chan_inv (st, S)" "link_connected st"
  shows "chan_inv (with_reactions link_connect_done st, fold redis_apply (new_commands st (with_reactions link_connect_done st)) S)"
proof -
  have st': "with_reactions link_connect_done st = pubsub_on EmConnected (emit EmConnected st)"
    by (simp add: with_reactions_def Let_def link_connect_done_def del: pubsub_on.simps)
  show ?thesis
    using assms by (auto simp: chan_inv_def st' new_commands_def pubsub_on_issued simp del: pubsub_on.simps)
qed

lemma chan_inv_disconnect:
  assumes "chan_inv (st, S)" "channelRefCounts st = []"
  shows "chan_inv (pubsub_disconnect st, S')"
proof -
  let ?st = "(setConnectionState ''disconnected'' (setChannelsActive 0 (st\<lparr>subscribedChannels := []\<rparr>)))\<lparr>listenerAttached := False\<rparr>"
  have "pubsub_disconnect st = link_disconnect_begin ?st"
    by (simp add: pubsub_disconnect_def with_reactions_def Let_def link_disconnect_begin_def)
  moreover have "channelRefCounts ?st = []" "subscribedChannels ?st = []" using assms(2) by simp_all
  ultimately show ?thesis
    by (simp add: chan_inv_def link_disconnect_begin_def)
qed

lemma chan_inv_clear:
  "chan_inv (st, S) \<Longrightarrow> chan_inv (clear_channels st, S')"
  by (simp add: chan_inv_def clear_channels_def clear_fold_channels set_fold_set_del distinct_fold_set_del)

lemma chan_inv_step:
  assumes "chan_step p q" "chan_inv p"
  shows "chan_inv q"
  using assms
proof (cases rule: chan_step.cases)
  case (ConnectBegin st st' S S')
  then show ?thesis using chan_inv_down [of st S st' S'] link_connect_begin_facts [of st st'] assms(2) by simp
qed (use assms(2) in \<open>simp_all add: chan_inv_increment chan_inv_decrement chan_inv_publish chan_inv_client
    chan_inv_connect_done chan_inv_clear chan_inv_disconnect\<close>)

definition chan_init :: "('a chan_state_scheme \<times> string set) \<Rightarrow> bool" where
  "chan_init = (\<lambda>(st, S). channelRefCounts st = [] \<and> subscribedChannels st = [])"

lemma chan_inv_init: "chan_init p \<Longrightarrow> chan_inv p"
  by (auto simp: chan_init_def chan_inv_def)

interpretation chan: transition_system chan_init chan_step chan_inv
  by unfold_locales (rule chan_inv_init, assumption, rule chan_inv_step)


definition chan0 :: chan_state where
  "chan0 = \<lparr>metricCalls = [], lastMs = 0, sequenceCounter = 0, draws = 0,
     publishCount = 0, publishErrors = 0, publishLatencyTotalMs = 0, publishLatencyMaxMs = 0,
     inFlightPublishes = 0, inboundCount = 0, inboundLatencyTotalMs = 0, inboundLatencyMaxMs = 0,
     echoesSuppressed = 0, duplicatesSuppressed = 0, channelsActive = 0, connectionState = ''connected'',
     presenceUsersOnline = 0, presenceConnectionsActive = 0, presenceEventsPublished = 0,
     presenceEventsReceived = 0, presencePruneLatencyMs = 0, presenceLeaseRenewals = 0,
     hasPublisher = True, hasSubscriber = True, publisherStatus = Connected, subscriberStatus = Connected,
     linkShuttingDown = False, emitted = [], chanEnabled = True, channelRefCounts = [],
     subscribedChannels = [], listenerAttached = True, maxInFlightPublishes = 1000, issued = []\<rparr>"


section \<open>Rejected commands\<close>

text \<open>
  A rejected SUBSCRIBE is not retried. The rollback deletes the reference count so that the
  next subscriber goes through the 0 to 1 transition again, but the channel stays in the
  manager's set of subscribed channels, so that transition issues no command: the room is counted
  as subscribed, and as long as the connection holds the server was never successfully asked for
  it.
\<close>

theorem rejected_subscribe_not_retried:
  assumes "link_connected st" "getRefCount st ch = 0" "ch \<notin> set (subscribedChannels st)"
  shows "let st1 = snd (incrementSubscription ch st);
             st2 = snd (incrementSubscription ch (increment_rejected ch st1))
         in issued st1 = issued st @ [SUBSCRIBE [ch]] \<and> issued st2 = issued st1 \<and> getRefCount st2 ch = 1"
proof -
  let ?st1 = "snd (incrementSubscription ch st)"
  let ?r = "increment_rejected ch ?st1"
  have i: "issued ?st1 = issued st @ [SUBSCRIBE [ch]]"
    using assms by (simp add: incrementSubscription_def pubsub_facts)
  have c: "getRefCount ?r ch = 0" "issued ?r = issued ?st1" "ch \<in> set (subscribedChannels ?r)"
    using assms by (simp_all add: increment_rejected_def getRefCount_def [of "_\<lparr>channelRefCounts := _\<rparr>"]
        incrementSubscription_def pubsub_facts)
  then show ?thesis
    using i getRefCount_increment [of ch ?r ch]
    by (simp add: Let_def incrementSubscription_def [of ch ?r] pubsub_facts)
qed

theorem rejected_subscribe_not_retried_witness:
  "let st1 = snd (incrementSubscription ''pulse:room:lobby'' chan0);
       st2 = snd (incrementSubscription ''pulse:room:lobby'' (increment_rejected ''pulse:room:lobby'' st1))
   in issued st1 = issued chan0 @ [SUBSCRIBE [''pulse:room:lobby'']] \<and> issued st2 = issued st1
      \<and> getRefCount st2 ''pulse:room:lobby'' = 1"
  by (rule rejected_subscribe_not_retried) (simp_all add: chan0_def link_connected_def getRefCount_def)

text \<open>The rollback also forgets a second subscriber that arrived while the first command was pending.\<close>

lemma rejected_subscribe_drops_second:
  assumes "getRefCount st ch = 0"
  shows "getRefCount (snd (incrementSubscription ch (snd (incrementSubscription ch st)))) ch = 2"
    and "getRefCount (increment_rejected ch (snd (incrementSubscription ch (snd (incrementSubscription ch st))))) ch = 0"
  using assms by (simp_all add: getRefCount_increment) (simp add: increment_rejected_def getRefCount_def)

section \<open>Names\<close>

lemma extract_room_channel: "getRoomChannel r = Some ch \<Longrightarrow> extractRoomId ch = Some (js_trim r)"
  by (auto simp: getRoomChannel_def extractRoomId_def isRoomChannel_def split: if_splits)

lemma extract_user_channel: "getUserChannel u = Some ch \<Longrightarrow> extractUserId ch = Some (js_trim u)"
  by (auto simp: getUserChannel_def extractUserId_def isUserChannel_def split: if_splits)

lemma channel_kinds_disjoint:
  "getRoomChannel r = Some c \<Longrightarrow> getUserChannel u = Some d \<Longrightarrow> c \<noteq> d \<and> c \<noteq> CHANNEL_PRESENCE_EVENTS \<and> d \<noteq> CHANNEL_PRESENCE_EVENTS"
  by (auto simp: getRoomChannel_def getUserChannel_def CHANNEL_PREFIX_ROOM_def CHANNEL_PREFIX_USER_def
      CHANNEL_PRESENCE_EVENTS_def split: if_splits)

end
