(* ===== verification/Room_Manager.thy ===== *)
theory Room_Manager
  imports Channel_Registry
begin

text \<open>
  \<^verbatim>\<open>src/core/RoomManager.ts\<close>: the members of each room, and the subscription of the rooms' Redis
  channels. \<open>chanEnabled\<close> says whether the manager was given a channel registry.
\<close>

record room_state = chan_state +
  rooms :: "(string, string list) jsmap"

definition getRoomConnectionIds :: "string \<Rightarrow> 'a room_state_scheme \<Rightarrow> string list" where
  "getRoomConnectionIds r st = (case map_of (rooms st) r of None \<Rightarrow> [] | Some ms \<Rightarrow> ms)"

definition getConnectionCountInRoom :: "string \<Rightarrow> 'a room_state_scheme \<Rightarrow> nat" where
  "getConnectionCountInRoom r st = (case map_of (rooms st) r of None \<Rightarrow> 0 | Some ms \<Rightarrow> length ms)"

definition isConnectionInRoom :: "string \<Rightarrow> string \<Rightarrow> 'a room_state_scheme \<Rightarrow> bool" where
  "isConnectionInRoom r c st = (case map_of (rooms st) r of None \<Rightarrow> False | Some ms \<Rightarrow> c \<in> set ms)"

definition getRoomCount :: "'a room_state_scheme \<Rightarrow> nat" where
  "getRoomCount st = length (rooms st)"

definition getAllRoomIds :: "'a room_state_scheme \<Rightarrow> string list" where
  "getAllRoomIds st = js_keys (rooms st)"

abbreviation rooms_gauge :: "'a room_state_scheme \<Rightarrow> 'a room_state_scheme" where
  "rooms_gauge st \<equiv> metric (MSet ''pulse_rooms_active'' (int (length (rooms st)))) st"

definition joinRoom :: "string \<Rightarrow> string \<Rightarrow> 'a room_state_scheme \<Rightarrow> bool \<times> 'a room_state_scheme" where
  "joinRoom r c st =
     (let members = getRoomConnectionIds r st;
          isNew = c \<notin> set members;
          st1 = st\<lparr>rooms := js_set r (set_add c members) (rooms st)\<rparr>;
          st2 = (if isNew then rooms_gauge st1 else st1);
          st3 = (if isNew \<and> chanEnabled st then subscribeRoom r st2 else st2)
      in (isNew, st3))"

fun joinRooms :: "string list \<Rightarrow> string \<Rightarrow> 'a room_state_scheme \<Rightarrow> string list \<times> 'a room_state_scheme" where
  "joinRooms [] c st = ([], st)"
| "joinRooms (r # rs) c st =
     (if js_trim r \<noteq> []
      then (let (joined, st') = joinRooms rs c (snd (joinRoom (js_trim r) c st)) in (js_trim r # joined, st'))
      else joinRooms rs c st)"

definition leaveRoom :: "string \<Rightarrow> string \<Rightarrow> 'a room_state_scheme \<Rightarrow> bool \<times> 'a room_state_scheme" where
  "leaveRoom r c st =
     (case map_of (rooms st) r of
        None \<Rightarrow> (False, st)
      | Some members \<Rightarrow>
          let removed = c \<in> set members;
              members' = set_del c members;
              st1 = st\<lparr>rooms := js_set r members' (rooms st)\<rparr>;
              st2 = (if removed \<and> chanEnabled st then unsubscribeRoom r st1 else st1);
              st3 = (if members' = [] then rooms_gauge (st2\<lparr>rooms := js_delete r (rooms st2)\<rparr>) else st2)
          in (removed, st3))"

fun leave_each :: "string list \<Rightarrow> string \<Rightarrow> 'a room_state_scheme \<Rightarrow> string list \<times> 'a room_state_scheme" where
  "leave_each [] c st = ([], st)"
| "leave_each (r # rs) c st =
     (let (removed, st1) = leaveRoom r c st; (rest, st2) = leave_each rs c st1
      in (if removed then r # rest else rest, st2))"

text \<open>
  The second loop iterates over the live map; it only deletes the entry it is at, so it visits
  the keys present when it starts.
\<close>

fun sweep_rooms :: "string list \<Rightarrow> string \<Rightarrow> 'a room_state_scheme \<Rightarrow> string list \<times> 'a room_state_scheme" where
  "sweep_rooms [] c st = ([], st)"
| "sweep_rooms (r # rs) c st =
     (if isConnectionInRoom r c st
      then (let (removed, st1) = leaveRoom r c st; (rest, st2) = sweep_rooms rs c st1
            in (if removed then r # rest else rest, st2))
      else sweep_rooms rs c st)"

definition removeConnectionFromAllRooms ::
  "string \<Rightarrow> string list \<Rightarrow> 'a room_state_scheme \<Rightarrow> string list \<times> 'a room_state_scheme" where
  "removeConnectionFromAllRooms c rs st =
     (let (removed1, st1) = leave_each rs c st;
          (removed2, st2) = sweep_rooms (js_keys (rooms st1)) c st1
      in (removed1 @ removed2, st2))"

definition clear_rooms :: "'a room_state_scheme \<Rightarrow> 'a room_state_scheme" where
  "clear_rooms st = metric (MSet ''pulse_rooms_active'' 0) (st\<lparr>rooms := []\<rparr>)"

section \<open>Frames\<close>

lemma rooms_chan_ops [simp]:
  "rooms (metric m st) = rooms st" "rooms (issue cmd st) = rooms st" "rooms (setChannelsActive n st) = rooms st"
  "chanEnabled (metric m st') = chanEnabled st'" "chanEnabled (issue cmd st') = chanEnabled st'"
  "chanEnabled (setChannelsActive n st') = chanEnabled st'"
  by (simp_all add: metric_def issue_def setChannelsActive_def)

lemma rooms_pubsub [simp]:
  "rooms (snd (pubsub_subscribe ch st)) = rooms st" "rooms (snd (pubsub_unsubscribe ch st)) = rooms st"
  "chanEnabled (snd (pubsub_subscribe ch st')) = chanEnabled st'"
  "chanEnabled (snd (pubsub_unsubscribe ch st')) = chanEnabled st'"
  by (simp_all add: pubsub_subscribe_def pubsub_unsubscribe_def Let_def)

lemma rooms_registry [simp]:
  "rooms (subscribeRoom r st) = rooms st" "rooms (unsubscribeRoom r st) = rooms st"
  "rooms (subscribeUser u st) = rooms st" "rooms (unsubscribeUser u st) = rooms st"
  "chanEnabled (subscribeRoom r st') = chanEnabled st'" "chanEnabled (unsubscribeRoom r st') = chanEnabled st'"
  "chanEnabled (subscribeUser u st') = chanEnabled st'" "chanEnabled (unsubscribeUser u st') = chanEnabled st'"
  by (simp_all add: subscribeRoom_def unsubscribeRoom_def subscribeUser_def unsubscribeUser_def
      incrementSubscription_def decrementSubscription_def Let_def split: option.splits)

lemma refcount_room_update [simp]:
  "getRefCount (st\<lparr>rooms := rs\<rparr>) ch = getRefCount st ch" "getRefCount (metric m st') ch = getRefCount st' ch"
  by (simp_all add: getRefCount_def metric_def)

lemma rooms_joinRoom: "rooms (snd (joinRoom r c st)) = js_set r (set_add c (getRoomConnectionIds r st)) (rooms st)"
  by (simp add: joinRoom_def Let_def)

lemma rooms_leaveRoom:
  "rooms (snd (leaveRoom r c st)) =
     (case map_of (rooms st) r of
        None \<Rightarrow> rooms st
      | Some ms \<Rightarrow> if set_del c ms = [] then js_delete r (js_set r (set_del c ms) (rooms st))
                   else js_set r (set_del c ms) (rooms st))"
  by (simp add: leaveRoom_def Let_def split: option.splits)

lemma chanEnabled_rooms [simp]:
  "chanEnabled (snd (joinRoom r c st)) = chanEnabled st" "chanEnabled (snd (leaveRoom r c st)) = chanEnabled st"
  by (simp_all add: joinRoom_def leaveRoom_def Let_def split: option.splits)

lemma members_join:
  "getRoomConnectionIds r' (snd (joinRoom r c st)) =
     (if r' = r then set_add c (getRoomConnectionIds r st) else getRoomConnectionIds r' st)"
  by (simp add: getRoomConnectionIds_def [of r' "snd _"] rooms_joinRoom) (simp add: getRoomConnectionIds_def)

lemma members_leave:
  "getRoomConnectionIds r' (snd (leaveRoom r c st)) =
     (if r' = r then set_del c (getRoomConnectionIds r st) else getRoomConnectionIds r' st)"
  by (auto simp: getRoomConnectionIds_def rooms_leaveRoom set_del_def split: option.splits)

lemma fst_joinRoom: "fst (joinRoom r c st) \<longleftrightarrow> c \<notin> set (getRoomConnectionIds r st)"
  by (simp add: joinRoom_def Let_def)

lemma fst_leaveRoom: "fst (leaveRoom r c st) \<longleftrightarrow> c \<in> set (getRoomConnectionIds r st)"
  by (simp add: leaveRoom_def getRoomConnectionIds_def Let_def split: option.splits)

lemma inRoom_members: "isConnectionInRoom r c st \<longleftrightarrow> c \<in> set (getRoomConnectionIds r st)"
  by (simp add: isConnectionInRoom_def getRoomConnectionIds_def split: option.splits)

section \<open>The invariant\<close>

definition room_name :: "string \<Rightarrow> bool" where
  "room_name r \<longleftrightarrow> r \<noteq> [] \<and> js_trim r = r"

definition room_channels :: "string set" where
  "room_channels = {c. \<exists>r. getRoomChannel r = Some c}"

definition room_group :: "'a room_state_scheme \<Rightarrow> string \<Rightarrow> string list" where
  "room_group st c = (case extractRoomId c of None \<Rightarrow> [] | Some r \<Rightarrow> getRoomConnectionIds r st)"

definition rooms_wf :: "'a room_state_scheme \<Rightarrow> bool" where
  "rooms_wf st \<longleftrightarrow> wf_map (rooms st) \<and> (\<forall>(r, ms) \<in> set (rooms st). ms \<noteq> [] \<and> distinct ms \<and> room_name r)"

definition room_inv :: "'a room_state_scheme \<Rightarrow> bool" where
  "room_inv st \<longleftrightarrow> rooms_wf st \<and>
     (chanEnabled st \<longrightarrow> registry.counts_members (room_group st) room_channels st)"

lemma room_channel_name: "room_name r \<Longrightarrow> getRoomChannel r = Some (CHANNEL_PREFIX_ROOM @ r)"
  by (simp add: room_name_def getRoomChannel_def)

lemma extractRoomId_channel [simp]: "extractRoomId (CHANNEL_PREFIX_ROOM @ r) = Some r"
  by (simp add: extractRoomId_def isRoomChannel_def)

lemma extractRoomId_eq: "extractRoomId c = Some r \<longleftrightarrow> c = CHANNEL_PREFIX_ROOM @ r"
  by (auto simp: extractRoomId_def isRoomChannel_def starts_with_iff split: if_splits)

lemma room_group_other:
  "(\<And>r'. r' \<noteq> r \<Longrightarrow> getRoomConnectionIds r' st' = getRoomConnectionIds r' st) \<Longrightarrow>
     d \<noteq> CHANNEL_PREFIX_ROOM @ r \<Longrightarrow> room_group st' d = room_group st d"
  by (auto simp: room_group_def extractRoomId_eq split: option.splits)

lemma members_distinct: "rooms_wf st \<Longrightarrow> distinct (getRoomConnectionIds r st)"
  by (auto simp: rooms_wf_def getRoomConnectionIds_def split: option.splits dest: map_of_SomeD)

lemma js_set_entries: "wf_map m \<Longrightarrow> set (js_set k v m) = {p \<in> set m. fst p \<noteq> k} \<union> {(k, v)}"
  by (induction m) (auto simp: image_iff)

lemma js_delete_entries: "set (js_delete k m) = {p \<in> set m. fst p \<noteq> k}"
  by (auto simp: AList.delete_eq)

lemma rooms_wf_join: "rooms_wf st \<Longrightarrow> room_name r \<Longrightarrow> rooms_wf (snd (joinRoom r c st))"
  using members_distinct [of st r] by (auto simp: rooms_wf_def rooms_joinRoom js_set_entries)

lemma rooms_wf_leave: "rooms_wf st \<Longrightarrow> rooms_wf (snd (leaveRoom r c st))"
  by (auto simp: rooms_wf_def rooms_leaveRoom js_set_entries js_delete_entries split: option.splits dest!: map_of_SomeD)

lemma counts_same:
  "registry.counts_members g C st \<Longrightarrow> (\<And>c. getRefCount st' c = getRefCount st c) \<Longrightarrow> registry.counts_members g C st'"
  by (simp add: registry.counts_members_def)

lemma room_inv_join [keeps_inv]:
  assumes "room_inv st" "room_name r"
  shows "room_inv (snd (joinRoom r c st))"
proof -
  let ?st = "snd (joinRoom r c st)" and ?ch = "CHANNEL_PREFIX_ROOM @ r"
  have wf: "rooms_wf ?st" using assms by (simp add: room_inv_def rooms_wf_join)
  have other: "\<And>d. d \<noteq> ?ch \<Longrightarrow> room_group ?st d = room_group st d"
    by (rule room_group_other [of r]) (simp_all add: members_join)
  have grp: "room_group ?st ?ch = set_add c (room_group st ?ch)"
    by (simp add: room_group_def members_join)
  have "registry.counts_members (room_group ?st) room_channels ?st" if on: "chanEnabled st"
  proof -
    have old: "registry.counts_members (room_group st) room_channels st" using assms(1) on by (simp add: room_inv_def)
    show ?thesis
    proof (cases "c \<in> set (room_group st ?ch)")
      case True
      then have "room_group ?st = room_group st" using other grp by (intro ext) (metis set_add_present)
      moreover have "\<And>d. getRefCount ?st d = getRefCount st d"
        using True by (simp add: joinRoom_def Let_def room_group_def)
      ultimately show ?thesis using counts_same [OF old, of ?st] by simp
    next
      case False
      then obtain st2 where st2: "?st = snd (incrementSubscription ?ch st2)" "\<And>d. getRefCount st2 d = getRefCount st d"
        using on assms(2) by (simp add: joinRoom_def Let_def room_group_def subscribeRoom_def room_channel_name)
      show ?thesis
        unfolding st2(1)
        by (rule registry.counts_members_add [OF counts_same [OF old st2(2)]])
          (use False grp other st2(1) in \<open>simp_all add: length_set_add\<close>)
    qed
  qed
  with wf show ?thesis by (simp add: room_inv_def)
qed

lemma room_inv_leave [keeps_inv]:
  assumes "room_inv st"
  shows "room_inv (snd (leaveRoom r c st))"
proof -
  let ?st = "snd (leaveRoom r c st)" and ?ch = "CHANNEL_PREFIX_ROOM @ r"
  have wf0: "rooms_wf st" using assms by (simp add: room_inv_def)
  have other: "\<And>d. d \<noteq> ?ch \<Longrightarrow> room_group ?st d = room_group st d"
    by (rule room_group_other [of r]) (simp_all add: members_leave)
  have grp: "room_group ?st ?ch = set_del c (room_group st ?ch)"
    by (simp add: room_group_def members_leave)
  have "registry.counts_members (room_group ?st) room_channels ?st" if on: "chanEnabled st"
  proof -
    have old: "registry.counts_members (room_group st) room_channels st" using assms(1) on by (simp add: room_inv_def)
    show ?thesis
    proof (cases "c \<in> set (room_group st ?ch)")
      case False
      then have "room_group ?st = room_group st" using other grp by (intro ext) (metis set_del_absent)
      moreover have "\<And>d. getRefCount ?st d = getRefCount st d"
        using False by (simp add: leaveRoom_def Let_def room_group_def getRoomConnectionIds_def split: option.splits)
      ultimately show ?thesis using counts_same [OF old, of ?st] by simp
    next
      case True
      then obtain ms where ms: "map_of (rooms st) r = Some ms" "c \<in> set ms"
        by (cases "map_of (rooms st) r") (auto simp: room_group_def getRoomConnectionIds_def)
      have name: "room_name r" using wf0 map_of_SomeD [OF ms(1)] by (auto simp: rooms_wf_def)
      let ?st1 = "st\<lparr>rooms := js_set r (set_del c ms) (rooms st)\<rparr>"
      have cnt: "\<And>d. getRefCount ?st d = getRefCount (snd (decrementSubscription ?ch ?st1)) d"
        using on ms name by (simp add: leaveRoom_def Let_def unsubscribeRoom_def room_channel_name)
      have len: "Suc (length (room_group ?st ?ch)) = length (room_group st ?ch)"
        using True members_distinct [OF wf0, of r] grp length_set_del [of "room_group st ?ch" c]
          length_pos_if_in_set [OF True] by (simp add: room_group_def)
      have "registry.counts_members (room_group ?st) room_channels (snd (decrementSubscription ?ch ?st1))"
        by (rule registry.counts_members_remove [OF counts_same [OF old] len other]) simp_all
      then show ?thesis by (rule counts_same) (rule cnt)
    qed
  qed
  then show ?thesis using wf0 by (simp add: room_inv_def rooms_wf_leave)
qed

lemma leave_each_Cons:
  "fst (leave_each (r # rs) c st) =
     (if fst (leaveRoom r c st) then [r] else []) @ fst (leave_each rs c (snd (leaveRoom r c st)))"
  "snd (leave_each (r # rs) c st) = snd (leave_each rs c (snd (leaveRoom r c st)))"
  by (simp_all add: case_prod_beta Let_def)

lemma sweep_rooms_Cons:
  "sweep_rooms (r # rs) c st =
     (if isConnectionInRoom r c st
      then (r # fst (sweep_rooms rs c (snd (leaveRoom r c st))), snd (sweep_rooms rs c (snd (leaveRoom r c st))))
      else sweep_rooms rs c st)"
  by (simp add: case_prod_beta Let_def fst_leaveRoom inRoom_members)

lemma joinRooms_Cons:
  "joinRooms (r # rs) c st =
     (if js_trim r \<noteq> []
      then (js_trim r # fst (joinRooms rs c (snd (joinRoom (js_trim r) c st))),
            snd (joinRooms rs c (snd (joinRoom (js_trim r) c st))))
      else joinRooms rs c st)"
  by (simp add: case_prod_beta Let_def)

declare leave_each.simps(2) [simp del] sweep_rooms.simps(2) [simp del] joinRooms.simps(2) [simp del]

lemma removeAll_eq:
  "removeConnectionFromAllRooms c rs st =
     (let st1 = snd (leave_each rs c st); sw = sweep_rooms (js_keys (rooms st1)) c st1
      in (fst (leave_each rs c st) @ fst sw, snd sw))"
  by (simp add: removeConnectionFromAllRooms_def case_prod_beta Let_def)

lemma room_inv_leave_each [keeps_inv]: "room_inv st \<Longrightarrow> room_inv (snd (leave_each rs c st))"
  by (induction rs arbitrary: st) (simp_all add: leave_each_Cons room_inv_leave)

lemma room_inv_sweep [keeps_inv]: "room_inv st \<Longrightarrow> room_inv (snd (sweep_rooms rs c st))"
  by (induction rs arbitrary: st) (simp_all add: sweep_rooms_Cons room_inv_leave)

lemma room_inv_removeAll [keeps_inv]: "room_inv st \<Longrightarrow> room_inv (snd (removeConnectionFromAllRooms c rs st))"
  by (simp add: removeAll_eq Let_def room_inv_leave_each room_inv_sweep)

lemma room_inv_joinRooms [keeps_inv]: "room_inv st \<Longrightarrow> room_inv (snd (joinRooms rs c st))"
proof (induction rs arbitrary: st)
  case (Cons r rs)
  have "room_inv (snd (joinRoom (js_trim r) c st))" if "js_trim r \<noteq> []"
    using Cons.prems that by (intro room_inv_join) (simp_all add: room_name_def)
  with Cons show ?case by (simp add: joinRooms_Cons)
qed simp

section \<open>Membership as a relation\<close>

text \<open>The abstract state: which connection is in which room.\<close>

definition membership :: "'a room_state_scheme \<Rightarrow> (string \<times> string) set" where
  "membership st = {(r, c). isConnectionInRoom r c st}"

lemma mem_membership: "(r, c) \<in> membership st \<longleftrightarrow> c \<in> set (getRoomConnectionIds r st)"
  by (simp add: membership_def inRoom_members)

lemma membership_join: "membership (snd (joinRoom r c st)) = insert (r, c) (membership st)"
proof (rule set_eqI)
  fix p
  show "p \<in> membership (snd (joinRoom r c st)) \<longleftrightarrow> p \<in> insert (r, c) (membership st)"
    by (cases p) (auto simp: mem_membership members_join)
qed

lemma membership_leave: "membership (snd (leaveRoom r c st)) = membership st - {(r, c)}"
proof (rule set_eqI)
  fix p
  show "p \<in> membership (snd (leaveRoom r c st)) \<longleftrightarrow> p \<in> membership st - {(r, c)}"
    by (cases p) (auto simp: mem_membership members_leave)
qed

lemma membership_leave_each: "membership (snd (leave_each rs c st)) = membership st - set rs \<times> {c}"
  by (induction rs arbitrary: st) (auto simp: leave_each_Cons membership_leave)

lemma membership_sweep: "membership (snd (sweep_rooms rs c st)) = membership st - set rs \<times> {c}"
proof (induction rs arbitrary: st)
  case (Cons r rs)
  show ?case
  proof (cases "isConnectionInRoom r c st")
    case True
    then show ?thesis by (auto simp: sweep_rooms_Cons Cons.IH membership_leave)
  next
    case False
    then have "(r, c) \<notin> membership st" by (simp add: membership_def)
    with False show ?thesis by (auto simp: sweep_rooms_Cons Cons.IH)
  qed
qed simp

lemma membership_keys: "(r, c) \<in> membership st \<Longrightarrow> r \<in> set (js_keys (rooms st))"
  by (cases "map_of (rooms st) r") (auto simp: membership_def isConnectionInRoom_def dest: js_get_in_keys)

lemma membership_removeAll:
  "membership (snd (removeConnectionFromAllRooms c rs st)) = {m \<in> membership st. snd m \<noteq> c}"
proof -
  let ?st1 = "snd (leave_each rs c st)"
  have "membership (snd (removeConnectionFromAllRooms c rs st)) = membership ?st1 - set (js_keys (rooms ?st1)) \<times> {c}"
    by (simp add: removeAll_eq Let_def membership_sweep)
  also have "\<dots> = {m \<in> membership ?st1. snd m \<noteq> c}" using membership_keys [of _ _ ?st1] by auto
  also have "\<dots> = {m \<in> membership st. snd m \<noteq> c}" by (auto simp: membership_leave_each)
  finally show ?thesis .
qed

lemma leave_each_removed:
  "set (fst (leave_each rs c st)) = {r \<in> set rs. (r, c) \<in> membership st} \<and> distinct (fst (leave_each rs c st))"
proof (induction rs arbitrary: st)
  case (Cons r rs)
  from Cons.IH [of "snd (leaveRoom r c st)"] show ?case
    by (auto simp: leave_each_Cons membership_leave fst_leaveRoom mem_membership [symmetric])
qed simp

lemma sweep_removed:
  "distinct rs \<Longrightarrow>
   set (fst (sweep_rooms rs c st)) = {r \<in> set rs. (r, c) \<in> membership st} \<and> distinct (fst (sweep_rooms rs c st))"
proof (induction rs arbitrary: st)
  case (Cons r rs)
  from Cons.IH [of "snd (leaveRoom r c st)"] Cons.IH [of st] Cons.prems show ?case
    by (auto simp: sweep_rooms_Cons membership_leave inRoom_members mem_membership [symmetric])
qed simp

lemma removeAll_removed:
  assumes "wf_map (rooms (snd (leave_each rs c st)))"
  shows "set (fst (removeConnectionFromAllRooms c rs st)) = {r. (r, c) \<in> membership st}
     \<and> distinct (fst (removeConnectionFromAllRooms c rs st))"
proof -
  let ?st1 = "snd (leave_each rs c st)"
  have sw: "set (fst (sweep_rooms (js_keys (rooms ?st1)) c ?st1)) = {r. (r, c) \<in> membership ?st1}"
    "distinct (fst (sweep_rooms (js_keys (rooms ?st1)) c ?st1))"
    using sweep_removed [OF assms, of c ?st1] membership_keys [of _ c ?st1] by auto
  show ?thesis
    using leave_each_removed [of rs c st] sw by (auto simp: removeAll_eq Let_def membership_leave_each)
qed

lemma rooms_wf_leave_each: "rooms_wf st \<Longrightarrow> rooms_wf (snd (leave_each rs c st))"
  by (induction rs arbitrary: st) (simp_all add: leave_each_Cons rooms_wf_leave)

text \<open>
  C11: the room manager implements a membership relation. Joining adds one pair, leaving removes
  one pair and each reports whether it changed anything; removing a connection from all rooms,
  given any list of rooms (even an incomplete or stale one), removes exactly that connection's
  pairs, leaves every other membership as it was, and returns each room it left exactly once.
\<close>

theorem rooms_refine_membership:
  "membership (snd (joinRoom r c st)) = insert (r, c) (membership st)
   \<and> fst (joinRoom r c st) = ((r, c) \<notin> membership st)
   \<and> membership (snd (leaveRoom r c st)) = membership st - {(r, c)}
   \<and> fst (leaveRoom r c st) = ((r, c) \<in> membership st)
   \<and> membership (snd (removeConnectionFromAllRooms c rs st)) = {m \<in> membership st. snd m \<noteq> c}
   \<and> (rooms_wf st \<longrightarrow>
        set (fst (removeConnectionFromAllRooms c rs st)) = {r. (r, c) \<in> membership st}
        \<and> distinct (fst (removeConnectionFromAllRooms c rs st)))"
proof -
  have "rooms_wf st \<Longrightarrow> wf_map (rooms (snd (leave_each rs c st)))"
    using rooms_wf_leave_each [of st rs c] by (simp add: rooms_wf_def)
  then show ?thesis
    using removeAll_removed [of rs c st]
    by (simp add: membership_join membership_leave membership_removeAll fst_joinRoom fst_leaveRoom mem_membership)
qed

definition room0 :: room_state where
  "room0 = chan_state.extend chan0 \<lparr>rooms = []\<rparr>"

theorem rooms_refine_membership_witness:
  "membership (snd (joinRoom ''lobby'' ''c1'' room0)) = insert (''lobby'', ''c1'') (membership room0)
   \<and> set (fst (removeConnectionFromAllRooms ''c1'' [] (snd (joinRoom ''lobby'' ''c1'' room0)))) = {''lobby''}"
proof -
  let ?st = "snd (joinRoom ''lobby'' ''c1'' room0)"
  have "rooms room0 = []" by (simp add: room0_def chan_state.defs)
  then have "membership room0 = {}" "rooms_wf room0"
    by (simp_all add: membership_def isConnectionInRoom_def rooms_wf_def)
  moreover have "room_name ''lobby''" by code_simp
  ultimately show ?thesis
    using rooms_refine_membership [of "''lobby''" "''c1''" room0 "[]"]
      rooms_refine_membership [of "''lobby''" "''c1''" ?st "[]"] rooms_wf_join [of room0 "''lobby''" "''c1''"] by simp
qed

section \<open>Rooms and subscriptions together\<close>

text \<open>
  A call that only issues subscription commands and keeps the registry's invariant once the
  server has executed them.
\<close>

definition subs_ok :: "'a chan_state_scheme \<Rightarrow> 'a chan_state_scheme \<Rightarrow> bool" where
  "subs_ok st st' \<longleftrightarrow>
     (\<exists>cmds. issued st' = issued st @ cmds \<and> (\<forall>S. chan_inv (st, S) \<longrightarrow> chan_inv (st', fold redis_apply cmds S)))"

lemma subs_ok_refl: "subs_ok st st"
  by (auto simp: subs_ok_def)

lemma subs_ok_trans: "subs_ok st st' \<Longrightarrow> subs_ok st' st'' \<Longrightarrow> subs_ok st st''"
  unfolding subs_ok_def
proof (elim exE conjE)
  fix c d
  assume a: "issued st' = issued st @ c" "\<forall>S. chan_inv (st, S) \<longrightarrow> chan_inv (st', fold redis_apply c S)"
    "issued st'' = issued st' @ d" "\<forall>S. chan_inv (st', S) \<longrightarrow> chan_inv (st'', fold redis_apply d S)"
  then show "\<exists>cmds. issued st'' = issued st @ cmds \<and> (\<forall>S. chan_inv (st, S) \<longrightarrow> chan_inv (st'', fold redis_apply cmds S))"
    by (intro exI [of _ "c @ d"]) simp
qed

lemma subs_ok_frame:
  "issued st' = issued st \<Longrightarrow> channelRefCounts st' = channelRefCounts st \<Longrightarrow>
   subscribedChannels st' = subscribedChannels st \<Longrightarrow> link_connected st' = link_connected st \<Longrightarrow> subs_ok st st'"
  by (auto simp: subs_ok_def chan_inv_def)

lemma issued_increment: "\<exists>cmds. issued (snd (incrementSubscription c st)) = issued st @ cmds"
  by (simp add: incrementSubscription_def Let_def pubsub_facts)

lemma issued_decrement: "\<exists>cmds. issued (snd (decrementSubscription c st)) = issued st @ cmds"
  by (simp add: decrementSubscription_def Let_def pubsub_facts)

lemma subs_ok_increment: "subs_ok st (snd (incrementSubscription c st))"
  using issued_increment [of c st] chan_inv_increment [of st _ c] by (force simp: subs_ok_def new_commands_def)

lemma subs_ok_decrement: "subs_ok st (snd (decrementSubscription c st))"
  using issued_decrement [of c st] chan_inv_decrement [of st _ c] by (force simp: subs_ok_def new_commands_def)

lemma subs_ok_registry:
  "subs_ok st (subscribeRoom r st)" "subs_ok st (unsubscribeRoom r st)"
  "subs_ok st (subscribeUser u st)" "subs_ok st (unsubscribeUser u st)"
  by (auto simp: subscribeRoom_def unsubscribeRoom_def subscribeUser_def unsubscribeUser_def
      subs_ok_refl subs_ok_increment subs_ok_decrement split: option.splits)

lemma rooms_update_frame [simp]: "link_connected (st\<lparr>rooms := rs\<rparr>) = link_connected st"
  by (simp add: link_connected_def)

lemma subs_ok_if: "subs_ok st st' \<Longrightarrow> subs_ok st st'' \<Longrightarrow> subs_ok st (if b then st' else st'')"
  by simp

lemma subs_ok_join: "subs_ok st (snd (joinRoom r c st))"
proof -
  define st1 where "st1 = st\<lparr>rooms := js_set r (set_add c (getRoomConnectionIds r st)) (rooms st)\<rparr>"
  define st2 where "st2 = (if c \<notin> set (getRoomConnectionIds r st) then rooms_gauge st1 else st1)"
  have eq: "snd (joinRoom r c st) = (if c \<notin> set (getRoomConnectionIds r st) \<and> chanEnabled st then subscribeRoom r st2 else st2)"
    by (simp add: joinRoom_def Let_def st1_def st2_def)
  have "subs_ok st st2" by (rule subs_ok_frame) (simp_all add: st2_def st1_def)
  then show ?thesis
    unfolding eq by (rule subs_ok_trans) (intro subs_ok_if subs_ok_registry subs_ok_refl)
qed

lemma subs_ok_leave: "subs_ok st (snd (leaveRoom r c st))"
proof (cases "map_of (rooms st) r")
  case (Some ms)
  define st1 where "st1 = st\<lparr>rooms := js_set r (set_del c ms) (rooms st)\<rparr>"
  define st2 where "st2 = (if c \<in> set ms \<and> chanEnabled st then unsubscribeRoom r st1 else st1)"
  define st3 where "st3 = (if set_del c ms = [] then rooms_gauge (st2\<lparr>rooms := js_delete r (rooms st2)\<rparr>) else st2)"
  have eq: "snd (leaveRoom r c st) = st3"
    using Some by (simp add: leaveRoom_def Let_def st1_def st2_def st3_def)
  have "subs_ok st st1" by (rule subs_ok_frame) (simp_all add: st1_def)
  moreover have "subs_ok st1 st2" unfolding st2_def by (intro subs_ok_if subs_ok_registry subs_ok_refl)
  moreover have "subs_ok st2 st3" by (rule subs_ok_frame) (simp_all add: st3_def)
  ultimately show ?thesis unfolding eq by (blast intro: subs_ok_trans)
qed (simp add: leaveRoom_def subs_ok_refl)

lemma subs_ok_leave_each: "subs_ok st (snd (leave_each rs c st))"
  by (induction rs arbitrary: st) (auto simp: leave_each_Cons subs_ok_refl intro: subs_ok_trans subs_ok_leave)

lemma subs_ok_sweep: "subs_ok st (snd (sweep_rooms rs c st))"
  by (induction rs arbitrary: st) (auto simp: sweep_rooms_Cons subs_ok_refl intro: subs_ok_trans subs_ok_leave)

lemma subs_ok_removeAll: "subs_ok st (snd (removeConnectionFromAllRooms c rs st))"
  by (auto simp: removeAll_eq Let_def intro: subs_ok_trans subs_ok_leave_each subs_ok_sweep)

lemma subs_ok_inv:
  assumes "subs_ok st st'" "chan_inv (st, S)"
  shows "chan_inv (st', fold redis_apply (new_commands st st') S)"
  using assms by (auto simp: subs_ok_def new_commands_def)

text \<open>
  A room manager with its registry and the Redis server: room operations, with the names the
  validator lets through, and the events of the Redis clients.
\<close>

inductive room_step :: "('a room_state_scheme \<times> string set) \<Rightarrow> ('a room_state_scheme \<times> string set) \<Rightarrow> bool" where
  RoomJoin: "room_name r \<Longrightarrow> st' = snd (joinRoom r c st) \<Longrightarrow>
     room_step (st, S) (st', fold redis_apply (new_commands st st') S)"
| RoomLeave: "st' = snd (leaveRoom r c st) \<Longrightarrow> room_step (st, S) (st', fold redis_apply (new_commands st st') S)"
| RoomRemoveAll: "st' = snd (removeConnectionFromAllRooms c rs st) \<Longrightarrow>
     room_step (st, S) (st', fold redis_apply (new_commands st st') S)"
| RedisClient: "st' = with_reactions (client_listener r ev) st \<Longrightarrow>
     room_step (st, S) (st', fold redis_apply (new_commands st st') S')"

definition room_sys_inv :: "('a room_state_scheme \<times> string set) \<Rightarrow> bool" where
  "room_sys_inv p \<longleftrightarrow> chanEnabled (fst p) \<and> room_inv (fst p) \<and> chan_inv p"

definition room_init :: "('a room_state_scheme \<times> string set) \<Rightarrow> bool" where
  "room_init p \<longleftrightarrow> chanEnabled (fst p) \<and> rooms (fst p) = [] \<and> channelRefCounts (fst p) = [] \<and> subscribedChannels (fst p) = []"

lemma rooms_link [simp]:
  "rooms (emit ev st) = rooms st" "chanEnabled (emit ev st') = chanEnabled st'"
  "rooms (updateStatus r s st) = rooms st" "chanEnabled (updateStatus r s st') = chanEnabled st'"
  by (cases r; simp add: emit_def updateStatus_def)+

lemma rooms_listener [simp]:
  "rooms (client_listener r ev st) = rooms st" "chanEnabled (client_listener r ev st') = chanEnabled st'"
  by (cases ev; simp add: checkDisconnected_def Let_def)+

lemma rooms_pubsub_on [simp]:
  "rooms (pubsub_on ev st) = rooms st" "chanEnabled (pubsub_on ev st') = chanEnabled st'"
  by (cases ev; simp add: restoreSubscriptions_def attachSubscriberListener_def setConnectionState_def)+

lemma rooms_reactions [simp]:
  "rooms (fold pubsub_on evs st) = rooms st" "chanEnabled (fold pubsub_on evs st') = chanEnabled st'"
  by (induction evs arbitrary: st st') simp_all

lemma room_inv_frame:
  "room_inv st \<Longrightarrow> rooms st' = rooms st \<Longrightarrow> chanEnabled st' = chanEnabled st \<Longrightarrow> channelRefCounts st' = channelRefCounts st \<Longrightarrow> room_inv st'"
proof -
  assume a: "room_inv st" "rooms st' = rooms st" "chanEnabled st' = chanEnabled st" "channelRefCounts st' = channelRefCounts st"
  have "room_group st' = room_group st"
    by (intro ext) (simp add: room_group_def getRoomConnectionIds_def a(2) cong: option.case_cong)
  with a show ?thesis
    by (simp add: room_inv_def rooms_wf_def registry.counts_members_def getRefCount_def)
qed

lemma chanEnabled_removeAll [simp]: "chanEnabled (snd (removeConnectionFromAllRooms c rs st)) = chanEnabled st"
proof -
  have "chanEnabled (snd (leave_each rs c st)) = chanEnabled st" for rs :: "string list" and st :: "'a room_state_scheme"
    by (induction rs arbitrary: st) (simp_all add: leave_each_Cons)
  moreover have "chanEnabled (snd (sweep_rooms rs c st)) = chanEnabled st" for rs :: "string list" and st :: "'a room_state_scheme"
    by (induction rs arbitrary: st) (simp_all add: sweep_rooms_Cons)
  ultimately show ?thesis by (simp add: removeAll_eq Let_def)
qed

lemma room_inv_client: "room_inv st \<Longrightarrow> room_inv (with_reactions (client_listener r ev) st)"
  by (rule room_inv_frame) (simp_all add: with_reactions_def Let_def del: client_listener.simps)

lemma chanEnabled_client [simp]: "chanEnabled (with_reactions (client_listener r ev) st) = chanEnabled st"
  by (simp add: with_reactions_def Let_def del: client_listener.simps)

lemma room_sys_inv_step: "room_step p q \<Longrightarrow> room_sys_inv p \<Longrightarrow> room_sys_inv q"
  by (induction rule: room_step.induct)
    (simp_all add: room_sys_inv_def room_inv_join room_inv_leave room_inv_removeAll room_inv_client
      chan_inv_client [where S = S and st = st for S st, OF conjunct2 [OF conjunct2]]
      subs_ok_inv [OF subs_ok_join] subs_ok_inv [OF subs_ok_leave] subs_ok_inv [OF subs_ok_removeAll])

lemma room_sys_inv_init: "room_init p \<Longrightarrow> room_sys_inv p"
  by (cases p) (auto simp: room_init_def room_sys_inv_def room_inv_def rooms_wf_def chan_inv_def
      registry.counts_members_def getRefCount_def room_group_def getRoomConnectionIds_def split: option.splits)

interpretation room_sys: transition_system room_init room_step room_sys_inv
  by unfold_locales (rule room_sys_inv_init, assumption, rule room_sys_inv_step)



end
