(* ===== verification/Token_Bucket.thy ===== *)
theory Token_Bucket
  imports Prelude
begin

text \<open>
  \<^verbatim>\<open>src/utils/TokenBucket.ts\<close>: the per-connection inbound rate limiter. Token amounts are
  exact rationals; times are the integer milliseconds of \<^verbatim>\<open>Date.now()\<close>, passed as an argument.
\<close>

record token_bucket =
  capacity :: rat
  refillRate :: rat
  tokens :: rat
  lastRefillTime :: int
  violationCount :: nat
  lastViolationTime :: int

definition new_TokenBucket :: "rat \<Rightarrow> rat \<Rightarrow> int \<Rightarrow> token_bucket" where
  "new_TokenBucket cap rate now =
     \<lparr>capacity = max 1 cap, refillRate = max (1/10) rate, tokens = max 1 cap,
      lastRefillTime = now, violationCount = 0, lastViolationTime = 0\<rparr>"

definition refill :: "int \<Rightarrow> token_bucket \<Rightarrow> token_bucket" where
  "refill now tb =
     (let elapsedSec = of_int (now - lastRefillTime tb) / 1000 in
      if elapsedSec > 0
      then tb\<lparr>tokens := min (capacity tb) (tokens tb + elapsedSec * refillRate tb),
              lastRefillTime := now\<rparr>
      else tb)"

definition tryConsume :: "rat \<Rightarrow> int \<Rightarrow> token_bucket \<Rightarrow> bool \<times> token_bucket" where
  "tryConsume cost now tb =
     (let tb' = refill now tb in
      if tokens tb' \<ge> cost then (True, tb'\<lparr>tokens := tokens tb' - cost\<rparr>) else (False, tb'))"

definition recordViolation :: "nat \<Rightarrow> int \<Rightarrow> int \<Rightarrow> token_bucket \<Rightarrow> bool \<times> token_bucket" where
  "recordViolation threshold windowMs now tb =
     (let n = (if now - lastViolationTime tb > windowMs then 1 else violationCount tb + 1);
          tb' = tb\<lparr>violationCount := n, lastViolationTime := now\<rparr>
      in (violationCount tb' \<ge> threshold, tb'))"

definition getTokens :: "int \<Rightarrow> token_bucket \<Rightarrow> rat \<times> token_bucket" where
  "getTokens now tb = (let tb' = refill now tb in (tokens tb', tb'))"

definition reset_bucket :: "int \<Rightarrow> token_bucket \<Rightarrow> token_bucket" where
  "reset_bucket now tb =
     tb\<lparr>tokens := capacity tb, lastRefillTime := now, violationCount := 0, lastViolationTime := 0\<rparr>"

section \<open>The balance stays between zero and the capacity\<close>

definition bucket_inv :: "token_bucket \<Rightarrow> bool" where
  "bucket_inv tb \<longleftrightarrow>
     1 \<le> capacity tb \<and> 1/10 \<le> refillRate tb \<and> 0 \<le> tokens tb \<and> tokens tb \<le> capacity tb"

lemma bucket_inv_new [simp, keeps_inv]: "bucket_inv (new_TokenBucket cap rate now)"
  by (auto simp: bucket_inv_def new_TokenBucket_def)

lemma refill_fields [simp]:
  "capacity (refill now tb) = capacity tb" "refillRate (refill now tb) = refillRate tb"
  "violationCount (refill now tb) = violationCount tb"
  "lastViolationTime (refill now tb) = lastViolationTime tb"
  "lastRefillTime (refill now tb) = max now (lastRefillTime tb)"
  by (auto simp: refill_def Let_def)

lemma refill_tokens_mono:
  assumes "bucket_inv tb" shows "tokens tb \<le> tokens (refill now tb)"
proof (cases "now \<le> lastRefillTime tb")
  case False
  with assms have "0 \<le> of_int (now - lastRefillTime tb) / 1000 * refillRate tb"
    by (intro mult_nonneg_nonneg) (auto simp: bucket_inv_def)
  with assms False show ?thesis by (auto simp: refill_def Let_def bucket_inv_def)
qed (auto simp: refill_def Let_def)

lemma bucket_inv_refill [simp, keeps_inv]: "bucket_inv tb \<Longrightarrow> bucket_inv (refill now tb)"
  using refill_tokens_mono [of tb now]
  by (auto simp: bucket_inv_def) (auto simp: refill_def Let_def)

lemma bucket_inv_tryConsume [keeps_inv]:
  "bucket_inv tb \<Longrightarrow> 0 \<le> cost \<Longrightarrow> bucket_inv (snd (tryConsume cost now tb))"
  using bucket_inv_refill [of tb now] by (auto simp: tryConsume_def Let_def bucket_inv_def)

lemma bucket_inv_recordViolation [keeps_inv]:
  "bucket_inv tb \<Longrightarrow> bucket_inv (snd (recordViolation k w now tb))"
  by (auto simp: recordViolation_def Let_def bucket_inv_def)

lemma bucket_inv_reset [keeps_inv]: "bucket_inv tb \<Longrightarrow> bucket_inv (reset_bucket now tb)"
  by (auto simp: reset_bucket_def bucket_inv_def)

section \<open>The long-run rate\<close>

text \<open>
  \<open>consume_run tb ts\<close> calls \<^verbatim>\<open>tryConsume()\<close> (cost 1) at the times \<open>ts\<close> and counts the successes.
\<close>

fun consume_run :: "token_bucket \<Rightarrow> int list \<Rightarrow> nat \<times> token_bucket" where
  "consume_run tb [] = (0, tb)"
| "consume_run tb (t # ts) =
     (let (ok, tb1) = tryConsume 1 t tb; (n, tb2) = consume_run tb1 ts
      in ((if ok then Suc n else n), tb2))"

lemma refill_gain:
  assumes "bucket_inv tb" "lastRefillTime tb \<le> now"
  shows "tokens (refill now tb) \<le> tokens tb + refillRate tb * of_int (now - lastRefillTime tb) / 1000"
  using assms by (auto simp: refill_def Let_def algebra_simps)

lemma tryConsume_potential:
  assumes "bucket_inv tb" "lastRefillTime tb \<le> now" "tryConsume 1 now tb = (ok, tb')"
  shows "tokens tb' + (if ok then 1 else 0)
           \<le> tokens tb + refillRate tb * of_int (now - lastRefillTime tb) / 1000"
  using refill_gain [OF assms(1,2)] assms(3)
  by (auto simp: tryConsume_def Let_def split: if_splits)

lemma tryConsume_fields:
  assumes "tryConsume c now tb = (ok, tb')"
  shows "refillRate tb' = refillRate tb" "capacity tb' = capacity tb"
    "lastRefillTime tb' = max now (lastRefillTime tb)"
  using assms by (auto simp: tryConsume_def Let_def split: if_splits)

lemma consume_run_potential:
  assumes "bucket_inv tb" "sorted (lastRefillTime tb # ts)" "consume_run tb ts = (n, tb')"
  shows "of_nat n + tokens tb'
           \<le> tokens tb + refillRate tb * of_int (last (lastRefillTime tb # ts) - lastRefillTime tb) / 1000
         \<and> bucket_inv tb'"
  using assms
proof (induction ts arbitrary: tb n)
  case Nil
  then show ?case by simp
next
  case (Cons t ts)
  obtain ok tb1 where c: "tryConsume 1 t tb = (ok, tb1)" by fastforce
  obtain m where r: "consume_run tb1 ts = (m, tb')" and n: "n = (if ok then Suc m else m)"
    using Cons.prems(3) c by (auto split: prod.splits)
  have le: "lastRefillTime tb \<le> t" and so: "sorted (t # ts)" using Cons.prems(2) by auto
  have f: "refillRate tb1 = refillRate tb" "lastRefillTime tb1 = t"
    using tryConsume_fields [OF c] le by auto
  have inv1: "bucket_inv tb1"
    using bucket_inv_tryConsume [OF Cons.prems(1), of 1 t] c by simp
  have ih: "of_nat m + tokens tb'
      \<le> tokens tb1 + refillRate tb1 * of_int (last (lastRefillTime tb1 # ts) - lastRefillTime tb1) / 1000
      \<and> bucket_inv tb'"
    by (rule Cons.IH [OF inv1 _ r]) (use so f in simp)
  have p: "tokens tb1 + (if ok then 1 else 0)
      \<le> tokens tb + refillRate tb * of_int (t - lastRefillTime tb) / 1000"
    by (rule tryConsume_potential [OF Cons.prems(1) le c])
  have "last (lastRefillTime tb # t # ts) = last (t # ts)" by simp
  with ih p f n show ?case by (auto simp: algebra_simps add_divide_distrib diff_divide_distrib)
qed

text \<open>
  C23: the limiter enforces its rate. Starting from a bucket in its invariant, any sequence of
  requests at non-decreasing times is granted at most the tokens in the bucket plus the refill
  of the elapsed time, hence at most \<open>capacity + refillRate * seconds\<close> messages.
\<close>

theorem token_bucket_rate_bound:
  assumes "bucket_inv tb" "sorted (lastRefillTime tb # ts)"
  shows "of_nat (fst (consume_run tb ts))
           \<le> capacity tb + refillRate tb * of_int (last (lastRefillTime tb # ts) - lastRefillTime tb) / 1000"
proof -
  obtain n tb' where r: "consume_run tb ts = (n, tb')" by fastforce
  from consume_run_potential [OF assms r]
  have "of_nat n + tokens tb'
      \<le> tokens tb + refillRate tb * of_int (last (lastRefillTime tb # ts) - lastRefillTime tb) / 1000"
    and "bucket_inv tb'" by auto
  with assms(1) r show ?thesis by (auto simp: bucket_inv_def)
qed

theorem token_bucket_rate_bound_witness:
  "(of_nat (fst (consume_run (new_TokenBucket 2 10 0) [0, 0, 0, 100])) :: rat) \<le> 2 + 10 * 100 / 1000
   \<and> fst (consume_run (new_TokenBucket 2 10 0) [0, 0, 0, 100]) = 3"
proof -
  have i: "bucket_inv (new_TokenBucket 2 10 0)" by simp
  have s: "sorted (lastRefillTime (new_TokenBucket 2 10 0) # [0, 0, 0, 100])"
    by (simp add: new_TokenBucket_def)
  have "fst (consume_run (new_TokenBucket 2 10 0) [0, 0, 0, 100]) = 3"
    by (simp add: new_TokenBucket_def tryConsume_def refill_def Let_def)
  moreover have "(of_nat (fst (consume_run (new_TokenBucket 2 10 0) [0, 0, 0, 100])) :: rat)
      \<le> 2 + 10 * 100 / 1000"
    using token_bucket_rate_bound [OF i s] by (simp add: new_TokenBucket_def)
  ultimately show ?thesis by blast
qed

text \<open>
  C0: a throttled client recovers. After a silence of at least \<open>1000 * cost / refillRate\<close>
  milliseconds a request whose cost does not exceed the capacity is granted.
\<close>

theorem token_bucket_recovers:
  assumes "bucket_inv tb" "cost \<le> capacity tb"
    and "1000 * cost / refillRate tb \<le> of_int (now - lastRefillTime tb)"
  shows "fst (tryConsume cost now tb)"
proof (cases "now \<le> lastRefillTime tb")
  case True
  have r: "0 < refillRate tb" using assms(1) by (auto simp: bucket_inv_def)
  from True have "of_int (now - lastRefillTime tb) \<le> (0::rat)" by simp
  with assms(3) have "1000 * cost / refillRate tb \<le> 0" by linarith
  with r have "cost \<le> 0" by (simp add: divide_le_0_iff)
  with True assms(1) show ?thesis by (auto simp: tryConsume_def refill_def Let_def bucket_inv_def)
next
  case False
  have r: "0 < refillRate tb" using assms(1) by (auto simp: bucket_inv_def)
  with assms(3) have "cost \<le> of_int (now - lastRefillTime tb) / 1000 * refillRate tb"
    by (simp add: field_simps)
  with False assms(1,2) show ?thesis
    by (auto simp: tryConsume_def refill_def Let_def bucket_inv_def)
qed

theorem token_bucket_recovers_witness:
  "fst (tryConsume 1 100 (snd (tryConsume 1 0 (new_TokenBucket 1 10 0))))
   \<and> \<not> fst (tryConsume 1 99 (snd (tryConsume 1 0 (new_TokenBucket 1 10 0))))"
proof -
  let ?tb = "snd (tryConsume 1 0 (new_TokenBucket 1 10 0))"
  have "bucket_inv ?tb" by (rule bucket_inv_tryConsume) simp_all
  moreover have "1 \<le> capacity ?tb" "1000 * 1 / refillRate ?tb \<le> of_int (100 - lastRefillTime ?tb)"
    by (simp_all add: tryConsume_def refill_def new_TokenBucket_def Let_def)
  ultimately have "fst (tryConsume 1 100 ?tb)" by (rule token_bucket_recovers)
  then show ?thesis by (simp add: tryConsume_def refill_def new_TokenBucket_def Let_def)
qed

section \<open>Abuse detection\<close>

text \<open>Violations recorded at the times \<open>ts\<close>; the flag of the last call.\<close>

fun violation_run :: "nat \<Rightarrow> int \<Rightarrow> int list \<Rightarrow> token_bucket \<Rightarrow> bool \<times> token_bucket" where
  "violation_run k w [] tb = (False, tb)"
| "violation_run k w [t] tb = recordViolation k w t tb"
| "violation_run k w (t # t' # ts) tb = violation_run k w (t' # ts) (snd (recordViolation k w t tb))"

text \<open>Every violation comes at most \<open>w\<close> milliseconds after the one before it.\<close>

fun gaps_within :: "int \<Rightarrow> int \<Rightarrow> int list \<Rightarrow> bool" where
  "gaps_within w t [] = True"
| "gaps_within w t (u # us) = (u - t \<le> w \<and> gaps_within w u us)"

lemma violation_run_chain:
  assumes "gaps_within w (lastViolationTime tb) ts" "ts \<noteq> []"
  shows "fst (violation_run k w ts tb) \<longleftrightarrow> k \<le> violationCount tb + length ts"
  using assms
proof (induction k w ts tb rule: violation_run.induct)
  case (3 k w t t' ts tb)
  then show ?case by (auto simp: recordViolation_def Let_def)
qed (auto simp: recordViolation_def Let_def)

text \<open>
  What the abuse flag measures. After a first violation that opens a window, a further chain
  of violations, each within \<open>windowMs\<close> of its predecessor, is flagged exactly when the number of
  violations reaches the threshold: the window restarts at every violation, however long ago the
  first one was.
\<close>

theorem abuse_flag_counts_chain:
  assumes "windowMs < t - lastViolationTime tb" "gaps_within windowMs t ts" "ts \<noteq> []"
  shows "fst (violation_run threshold windowMs (t # ts) tb) \<longleftrightarrow> threshold \<le> Suc (length ts)"
proof -
  obtain u us where ts: "ts = u # us" using assms(3) by (cases ts) auto
  have "fst (violation_run threshold windowMs ts (snd (recordViolation threshold windowMs t tb)))
      \<longleftrightarrow> threshold \<le> 1 + length ts"
    using violation_run_chain [of windowMs "snd (recordViolation threshold windowMs t tb)" ts threshold] assms
    by (simp add: recordViolation_def Let_def)
  with ts show ?thesis by simp
qed

theorem abuse_flag_counts_chain_witness:
  "fst (violation_run 10 10000 (map (\<lambda>i. 100000 + 9000 * i) [0..9]) (new_TokenBucket 50 100 0))"
proof -
  let ?ts = "map (\<lambda>i. 100000 + 9000 * i) [1..9] :: int list"
  have "fst (violation_run 10 10000 (100000 # ?ts) (new_TokenBucket 50 100 0))
      \<longleftrightarrow> 10 \<le> Suc (length ?ts)"
    by (rule abuse_flag_counts_chain) (simp_all add: new_TokenBucket_def upto_rec1)
  then show ?thesis by (simp add: upto_rec1)
qed

end
