(* ===== verification/Connection.thy ===== *)
theory Connection
  imports Token_Bucket Types Uuid
begin

text \<open>
  \<^verbatim>\<open>src/core/Connection.ts\<close>: one client connection. The WebSocket is an object of the \<^verbatim>\<open>ws\<close> library:
  its state is the type variable \<open>'s\<close>, and its operations are the arguments collected in \<open>ws\<close>
  (\<open>None\<close> when a call throws, which leaves the socket as it was). \<open>outbox\<close> records the frames handed
  to the socket, in order.
\<close>

record 's ws =
  readyState :: "'s \<Rightarrow> nat"
  bufferedAmount :: "'s \<Rightarrow> nat"
  wsSend :: "envelope \<Rightarrow> 's \<Rightarrow> 's option"
  wsClose :: "nat \<Rightarrow> string \<Rightarrow> 's \<Rightarrow> 's option"
  wsTerminate :: "'s \<Rightarrow> 's option"

text \<open>The values of \<^verbatim>\<open>readyState\<close> in the WebSocket standard.\<close>

definition WS_CONNECTING :: nat where "WS_CONNECTING = 0"
definition WS_OPEN :: nat where "WS_OPEN = 1"
definition WS_CLOSING :: nat where "WS_CLOSING = 2"
definition WS_CLOSED :: nat where "WS_CLOSED = 3"

record 's connection =
  connectionId :: string
  userId :: string
  roles :: json
  connectedAt :: int
  lastSeenAt :: int
  lastSeenSeq :: int
  socket :: 's
  remoteAddress :: string
  maxBufferedAmountBytes :: nat
  tokenBucket :: token_bucket
  connRooms :: "string list"
  isCleanedUp :: bool
  isHeartbeatTimedOut :: bool
  outbox :: "envelope list"

text \<open>The constructor's options; the identifier is generated when none is given.\<close>

record 's connection_options =
  optConnectionId :: "string option"
  optUserId :: string
  optRoles :: "json option"
  optSocket :: 's
  optRemoteAddress :: "string option"
  optMaxBuffered :: "nat option"
  optBurst :: "rat option"
  optRate :: "rat option"

definition new_Connection ::
  "(nat \<Rightarrow> nat) \<Rightarrow> int \<Rightarrow> 's connection_options \<Rightarrow> 'a runtime_scheme \<Rightarrow> 's connection \<times> 'a runtime_scheme" where
  "new_Connection rnd now opts rt =
     (let (cid, rt') = (case optConnectionId opts of Some i \<Rightarrow> (i, rt) | None \<Rightarrow> freshId rnd now rt)
      in (\<lparr>connectionId = cid, userId = optUserId opts,
           roles = (case optRoles opts of None \<Rightarrow> JArr [JStr ''user''] | Some r \<Rightarrow> r),
           connectedAt = now, lastSeenAt = now, lastSeenSeq = 0, socket = optSocket opts,
           remoteAddress = (case optRemoteAddress opts of None \<Rightarrow> ''unknown'' | Some a \<Rightarrow> a),
           maxBufferedAmountBytes = (case optMaxBuffered opts of None \<Rightarrow> 1024 * 1024 | Some n \<Rightarrow> n),
           tokenBucket = new_TokenBucket (case optBurst opts of None \<Rightarrow> 50 | Some b \<Rightarrow> b)
                                         (case optRate opts of None \<Rightarrow> 100 | Some r \<Rightarrow> r) now,
           connRooms = [], isCleanedUp = False, isHeartbeatTimedOut = False, outbox = []\<rparr>, rt'))"

definition conn_touch :: "int \<Rightarrow> 's connection \<Rightarrow> 's connection" where
  "conn_touch now c = c\<lparr>lastSeenAt := now\<rparr>"

definition consumeRateLimit :: "int \<Rightarrow> 's connection \<Rightarrow> bool \<times> 's connection" where
  "consumeRateLimit now c =
     (let (ok, b) = tryConsume 1 now (tokenBucket c) in (ok, c\<lparr>tokenBucket := b\<rparr>))"

definition recordRateViolation :: "int \<Rightarrow> 's connection \<Rightarrow> bool \<times> 's connection" where
  "recordRateViolation now c =
     (let (abuse, b) = recordViolation 10 10000 now (tokenBucket c) in (abuse, c\<lparr>tokenBucket := b\<rparr>))"

definition conn_close :: "'s ws \<Rightarrow> nat \<Rightarrow> string \<Rightarrow> 's connection \<Rightarrow> 's connection" where
  "conn_close W code reason c =
     (if readyState W (socket c) = WS_OPEN \<or> readyState W (socket c) = WS_CONNECTING
      then (case wsClose W code reason (socket c) of None \<Rightarrow> c | Some s \<Rightarrow> c\<lparr>socket := s\<rparr>)
      else c)"

definition conn_terminate :: "'s ws \<Rightarrow> 's connection \<Rightarrow> 's connection" where
  "conn_terminate W c = (case wsTerminate W (socket c) of None \<Rightarrow> c | Some s \<Rightarrow> c\<lparr>socket := s\<rparr>)"

text \<open>
  \<^verbatim>\<open>send\<close>, on the envelopes the server sends. The label of the delivery counter is the envelope's
  type, which is always in the bounded vocabulary.
\<close>

definition conn_send ::
  "'s ws \<Rightarrow> envelope \<Rightarrow> 's connection \<Rightarrow> 'a runtime_scheme \<Rightarrow> bool \<times> 's connection \<times> 'a runtime_scheme" where
  "conn_send W e c rt =
     (if readyState W (socket c) \<noteq> WS_OPEN then (False, c, rt)
      else if bufferedAmount W (socket c) > maxBufferedAmountBytes c
      then (False, conn_close W 1008 ''Policy Violation: Buffer overflow / slow consumer'' c,
            inc_metric ''pulse_messages_dropped_total'' ''reason'' ''slow_consumer'' rt)
      else (case wsSend W e (socket c) of
              None \<Rightarrow> (False, c, rt)
            | Some s \<Rightarrow>
                (True, c\<lparr>socket := s, outbox := outbox c @ [e]\<rparr>,
                 inc_metric ''pulse_messages_delivered_total'' ''event_type'' (event_type_name (evType e))
                   (metric (MRecord ''pulse_local_delivery_duration_seconds'') rt))))"

definition conn_joinRoom :: "string \<Rightarrow> 's connection \<Rightarrow> 's connection" where
  "conn_joinRoom r c = c\<lparr>connRooms := set_add r (connRooms c)\<rparr>"

definition conn_leaveRoom :: "string \<Rightarrow> 's connection \<Rightarrow> 's connection" where
  "conn_leaveRoom r c = c\<lparr>connRooms := set_del r (connRooms c)\<rparr>"

definition hasRoom :: "string \<Rightarrow> 's connection \<Rightarrow> bool" where
  "hasRoom r c \<longleftrightarrow> r \<in> set (connRooms c)"

definition markCleanedUp :: "'s connection \<Rightarrow> 's connection" where
  "markCleanedUp c = c\<lparr>isCleanedUp := True\<rparr>"

definition isAlive :: "'s ws \<Rightarrow> 's connection \<Rightarrow> bool" where
  "isAlive W c \<longleftrightarrow> \<not> isCleanedUp c \<and> readyState W (socket c) = WS_OPEN"

section \<open>What a send does\<close>

text \<open>A connection that would accept a frame now: open, not over its buffer limit, and the send does not throw.\<close>

definition deliverable :: "'s ws \<Rightarrow> envelope \<Rightarrow> 's connection \<Rightarrow> bool" where
  "deliverable W e c \<longleftrightarrow> readyState W (socket c) = WS_OPEN
     \<and> bufferedAmount W (socket c) \<le> maxBufferedAmountBytes c \<and> wsSend W e (socket c) \<noteq> None"

lemma fst_conn_send: "fst (conn_send W e c rt) = deliverable W e c"
  by (auto simp: conn_send_def deliverable_def split: option.splits)

lemma outbox_conn_close [simp]: "outbox (conn_close W code reason c) = outbox c"
  by (simp add: conn_close_def split: option.splits)

lemma conn_close_fields [simp]:
  "connectionId (conn_close W code reason c) = connectionId c" "userId (conn_close W code reason c) = userId c"
  "connRooms (conn_close W code reason c) = connRooms c" "lastSeenSeq (conn_close W code reason c) = lastSeenSeq c"
  "lastSeenAt (conn_close W code reason c) = lastSeenAt c" "tokenBucket (conn_close W code reason c) = tokenBucket c"
  "isCleanedUp (conn_close W code reason c) = isCleanedUp c"
  "isHeartbeatTimedOut (conn_close W code reason c) = isHeartbeatTimedOut c"
  by (simp_all add: conn_close_def split: option.splits)

lemma conn_send_fields [simp]:
  "connectionId (fst (snd (conn_send W e c rt))) = connectionId c" "userId (fst (snd (conn_send W e c rt))) = userId c"
  "connRooms (fst (snd (conn_send W e c rt))) = connRooms c" "lastSeenSeq (fst (snd (conn_send W e c rt))) = lastSeenSeq c"
  "lastSeenAt (fst (snd (conn_send W e c rt))) = lastSeenAt c" "tokenBucket (fst (snd (conn_send W e c rt))) = tokenBucket c"
  "isCleanedUp (fst (snd (conn_send W e c rt))) = isCleanedUp c"
  "isHeartbeatTimedOut (fst (snd (conn_send W e c rt))) = isHeartbeatTimedOut c"
  by (simp_all add: conn_send_def split: option.splits)

lemma outbox_conn_send:
  "outbox (fst (snd (conn_send W e c rt))) = outbox c @ (if deliverable W e c then [e] else [])"
  by (auto simp: conn_send_def deliverable_def split: option.splits)

definition send_metrics :: "'s ws \<Rightarrow> envelope \<Rightarrow> 's connection \<Rightarrow> metric_call list" where
  "send_metrics W e c =
     (if readyState W (socket c) \<noteq> WS_OPEN then []
      else if bufferedAmount W (socket c) > maxBufferedAmountBytes c
      then [MInc ''pulse_messages_dropped_total'' [(''reason'', ''slow_consumer'')] 1]
      else if wsSend W e (socket c) = None then []
      else [MRecord ''pulse_local_delivery_duration_seconds'',
            MInc ''pulse_messages_delivered_total'' [(''event_type'', event_type_name (evType e))] 1])"

lemma conn_send_runtime:
  "snd (snd (conn_send W e c rt)) = rt\<lparr>metricCalls := metricCalls rt @ send_metrics W e c\<rparr>"
  by (simp add: conn_send_def send_metrics_def metric_def split: option.splits)

text \<open>
  A slow consumer is cut off, not buffered without bound. When the socket's unsent bytes
  exceed the connection's limit, a send hands nothing to the socket, counts the dropped frame and
  closes the connection with the policy-violation code 1008; at or below the limit an open socket
  is handed exactly the frame.
\<close>

theorem slow_consumer_is_closed:
  assumes "readyState W (socket c) = WS_OPEN" "wsClose W 1008 reason (socket c) = Some s"
    and "reason = ''Policy Violation: Buffer overflow / slow consumer''"
  shows "conn_send W e c rt =
     (if bufferedAmount W (socket c) > maxBufferedAmountBytes c
      then (False, c\<lparr>socket := s\<rparr>, rt\<lparr>metricCalls := metricCalls rt @
              [MInc ''pulse_messages_dropped_total'' [(''reason'', ''slow_consumer'')] 1]\<rparr>)
      else (deliverable W e c, fst (snd (conn_send W e c rt)), rt\<lparr>metricCalls := metricCalls rt @ send_metrics W e c\<rparr>))
     \<and> outbox (fst (snd (conn_send W e c rt))) = outbox c @ (if deliverable W e c then [e] else [])"
proof -
  have "conn_send W e c rt = (fst (conn_send W e c rt), fst (snd (conn_send W e c rt)), snd (snd (conn_send W e c rt)))"
    by simp
  then have "\<not> bufferedAmount W (socket c) > maxBufferedAmountBytes c \<Longrightarrow> conn_send W e c rt =
      (deliverable W e c, fst (snd (conn_send W e c rt)), rt\<lparr>metricCalls := metricCalls rt @ send_metrics W e c\<rparr>)"
    by (simp only: fst_conn_send conn_send_runtime)
  then show ?thesis using assms by (auto simp: outbox_conn_send) (simp add: conn_send_def conn_close_def metric_def)
qed

text \<open>A concrete socket for the examples: its \<^verbatim>\<open>readyState\<close>, the unsent bytes and the close code.\<close>

record sim_socket =
  simReady :: nat
  simBuffered :: nat
  simClosed :: "nat option"

definition sim_ws :: "sim_socket ws" where
  "sim_ws = \<lparr>readyState = simReady, bufferedAmount = simBuffered,
     wsSend = (\<lambda>e s. Some (s\<lparr>simBuffered := simBuffered s + 100\<rparr>)),
     wsClose = (\<lambda>code reason s. Some (s\<lparr>simReady := 2, simClosed := Some code\<rparr>)),
     wsTerminate = (\<lambda>s. Some (s\<lparr>simReady := 3\<rparr>))\<rparr>"

definition sim_connection :: "string \<Rightarrow> string \<Rightarrow> nat \<Rightarrow> sim_socket connection" where
  "sim_connection cid u buffered =
     \<lparr>connectionId = cid, userId = u, roles = JArr [JStr ''user''], connectedAt = 1, lastSeenAt = 1, lastSeenSeq = 0,
      socket = \<lparr>simReady = 1, simBuffered = buffered, simClosed = None\<rparr>, remoteAddress = ''unknown'',
      maxBufferedAmountBytes = 1024, tokenBucket = new_TokenBucket 50 100 1, connRooms = [],
      isCleanedUp = False, isHeartbeatTimedOut = False, outbox = []\<rparr>"

theorem slow_consumer_is_closed_witness:
  "\<exists>c' rt'. conn_send sim_ws (system_envelope ''e'' SYS_PING 1 None None JNull) (sim_connection ''c1'' ''ada'' 2000)
      \<lparr>metricCalls = [], lastMs = 0, sequenceCounter = 0, draws = 0\<rparr> = (False, c', rt')
     \<and> simClosed (socket c') = Some 1008 \<and> outbox c' = []"
  using slow_consumer_is_closed [of sim_ws "sim_connection ''c1'' ''ada'' 2000"
      "''Policy Violation: Buffer overflow / slow consumer''"
      "\<lparr>simReady = 2, simBuffered = 2000, simClosed = Some 1008\<rparr>"
      "system_envelope ''e'' SYS_PING 1 None None JNull"
      "\<lparr>metricCalls = [], lastMs = 0, sequenceCounter = 0, draws = 0\<rparr>"]
  by (simp add: sim_ws_def sim_connection_def WS_OPEN_def)

end
