(* ===== verification/Connection_Manager.thy ===== *)
theory Connection_Manager
  imports Room_Manager Connection
begin

text \<open>
  \<^verbatim>\<open>src/core/ConnectionManager.ts\<close>: the registered connections, the index by user, and the admission
  slots. A \<^verbatim>\<open>Connection\<close> object is shared by the manager and by the handlers of its socket, which may
  still use it after it was unregistered: objects live in the store \<open>heap\<close>, addressed by their
  connection identifier, and the manager's map is the list of registered addresses in insertion
  order. \<open>maxConnections = None\<close> is \<^verbatim>\<open>Infinity\<close>.
\<close>

record 's conn_state = room_state +
  heap :: "string \<Rightarrow> 's connection option"
  connections :: "string list"
  userConnections :: "(string, string list) jsmap"
  pendingConnections :: nat
  maxConnections :: "nat option"

definition setMaxConnections :: "int \<Rightarrow> ('s, 'a) conn_state_scheme \<Rightarrow> ('s, 'a) conn_state_scheme" where
  "setMaxConnections mx st = st\<lparr>maxConnections := (if mx > 0 then Some (nat mx) else None)\<rparr>"

definition at_capacity :: "('s, 'a) conn_state_scheme \<Rightarrow> bool" where
  "at_capacity st =
     (case maxConnections st of None \<Rightarrow> False | Some m \<Rightarrow> length (connections st) + pendingConnections st \<ge> m)"

definition tryAcquireSlot :: "('s, 'a) conn_state_scheme \<Rightarrow> bool \<times> ('s, 'a) conn_state_scheme" where
  "tryAcquireSlot st =
     (if at_capacity st then (False, st) else (True, st\<lparr>pendingConnections := Suc (pendingConnections st)\<rparr>))"

definition releasePendingSlot :: "('s, 'a) conn_state_scheme \<Rightarrow> ('s, 'a) conn_state_scheme" where
  "releasePendingSlot st =
     (if pendingConnections st > 0 then st\<lparr>pendingConnections := pendingConnections st - 1\<rparr> else st)"

abbreviation connections_gauge :: "('s, 'a) conn_state_scheme \<Rightarrow> ('s, 'a) conn_state_scheme" where
  "connections_gauge st \<equiv> metric (MSet ''pulse_connections_active'' (int (length (connections st)))) st"

definition user_ids :: "string \<Rightarrow> ('s, 'a) conn_state_scheme \<Rightarrow> string list" where
  "user_ids u st = (case map_of (userConnections st) u of None \<Rightarrow> [] | Some ids \<Rightarrow> ids)"

definition addConnection :: "'s connection \<Rightarrow> ('s, 'a) conn_state_scheme \<Rightarrow> ('s, 'a) conn_state_scheme" where
  "addConnection c st =
     (let st1 = (if pendingConnections st > 0 then st\<lparr>pendingConnections := pendingConnections st - 1\<rparr> else st);
          st2 = st1\<lparr>heap := (heap st1)(connectionId c \<mapsto> c),
                    connections := set_add (connectionId c) (connections st1),
                    userConnections :=
                      js_set (userId c) (set_add (connectionId c) (user_ids (userId c) st1)) (userConnections st1)\<rparr>;
          st3 = (if chanEnabled st2 then subscribeUser (userId c) st2 else st2)
      in connections_gauge st3)"

definition getConnection :: "string \<Rightarrow> ('s, 'a) conn_state_scheme \<Rightarrow> 's connection option" where
  "getConnection cid st = (if cid \<in> set (connections st) then heap st cid else None)"

definition drop_user_entry ::
  "string \<Rightarrow> string \<Rightarrow> (string, string list) jsmap \<Rightarrow> (string, string list) jsmap" where
  "drop_user_entry u cid m =
     (case map_of m u of
        None \<Rightarrow> m
      | Some ids \<Rightarrow> if set_del cid ids = [] then js_delete u m else js_set u (set_del cid ids) m)"

definition removeConnection ::
  "string \<Rightarrow> ('s, 'a) conn_state_scheme \<Rightarrow> 's connection option \<times> ('s, 'a) conn_state_scheme" where
  "removeConnection cid st =
     (case getConnection cid st of
        None \<Rightarrow> (None, st)
      | Some c \<Rightarrow>
          let st1 = st\<lparr>connections := set_del cid (connections st),
                       userConnections := drop_user_entry (userId c) cid (userConnections st)\<rparr>;
              st2 = (if chanEnabled st1 then unsubscribeUser (userId c) st1 else st1);
              st3 = st2\<lparr>heap := (heap st2)(cid \<mapsto> markCleanedUp c)\<rparr>
          in (Some (markCleanedUp c), connections_gauge st3))"

definition getConnectionsByUserId :: "string \<Rightarrow> ('s, 'a) conn_state_scheme \<Rightarrow> string list" where
  "getConnectionsByUserId u st = filter (\<lambda>cid. getConnection cid st \<noteq> None) (user_ids u st)"

definition getAllConnections :: "('s, 'a) conn_state_scheme \<Rightarrow> string list" where
  "getAllConnections st = connections st"

definition getCount :: "('s, 'a) conn_state_scheme \<Rightarrow> nat" where
  "getCount st = length (connections st)"

definition getUserCount :: "('s, 'a) conn_state_scheme \<Rightarrow> nat" where
  "getUserCount st = length (userConnections st)"

definition clear_connections :: "('s, 'a) conn_state_scheme \<Rightarrow> ('s, 'a) conn_state_scheme" where
  "clear_connections st =
     metric (MSet ''pulse_connections_active'' 0) (st\<lparr>connections := [], userConnections := []\<rparr>)"

section \<open>Operations on stored connections\<close>

text \<open>A handler's update of a connection object, and a frame sent through it.\<close>

definition upd_conn :: "string \<Rightarrow> ('s connection \<Rightarrow> 's connection) \<Rightarrow> ('s, 'a) conn_state_scheme \<Rightarrow> ('s, 'a) conn_state_scheme" where
  "upd_conn cid f st = (case heap st cid of None \<Rightarrow> st | Some c \<Rightarrow> st\<lparr>heap := (heap st)(cid \<mapsto> f c)\<rparr>)"

definition send_to ::
  "'s ws \<Rightarrow> string \<Rightarrow> envelope \<Rightarrow> ('s, 'a) conn_state_scheme \<Rightarrow> bool \<times> ('s, 'a) conn_state_scheme" where
  "send_to W cid e st =
     (case heap st cid of
        None \<Rightarrow> (False, st)
      | Some c \<Rightarrow> (let (ok, c', st') = conn_send W e c st in (ok, st'\<lparr>heap := (heap st')(cid \<mapsto> c')\<rparr>)))"

text \<open>A loop that sends one frame to each connection of a list and counts the successes.\<close>

fun send_each :: "'s ws \<Rightarrow> string list \<Rightarrow> envelope \<Rightarrow> ('s, 'a) conn_state_scheme \<Rightarrow> nat \<times> ('s, 'a) conn_state_scheme" where
  "send_each W [] e st = (0, st)"
| "send_each W (cid # cids) e st =
     (let (ok, st1) = send_to W cid e st; (n, st2) = send_each W cids e st1
      in ((if ok then 1 else 0) + n, st2))"

section \<open>Frames\<close>

text \<open>Everything but the store and the metric log is untouched by a send.\<close>

definition same_but_heap :: "('s, 'a) conn_state_scheme \<Rightarrow> ('s, 'a) conn_state_scheme \<Rightarrow> bool" where
  "same_but_heap st st' \<longleftrightarrow> (\<exists>h ms. st' = st\<lparr>heap := h, metricCalls := ms\<rparr>)"

lemma same_but_heap_refl [simp]: "same_but_heap st st"
  unfolding same_but_heap_def by (intro exI [of _ "heap st"] exI [of _ "metricCalls st"]) simp

lemma same_but_heap_trans: "same_but_heap a b \<Longrightarrow> same_but_heap b c \<Longrightarrow> same_but_heap a c"
  unfolding same_but_heap_def by (clarsimp, intro exI, rule refl)

lemma send_to_eq:
  "send_to W cid e st =
     (case heap st cid of
        None \<Rightarrow> (False, st)
      | Some c \<Rightarrow> (deliverable W e c,
          st\<lparr>heap := (heap st)(cid \<mapsto> fst (snd (conn_send W e c st))),
             metricCalls := metricCalls st @ send_metrics W e c\<rparr>))"
  by (simp add: send_to_def case_prod_beta fst_conn_send conn_send_runtime split: option.splits)

lemma send_to_same: "same_but_heap st (snd (send_to W cid e st))"
proof (cases "heap st cid")
  case (Some c)
  then show ?thesis unfolding same_but_heap_def by (simp add: send_to_eq) (intro exI, rule refl)
qed (simp add: send_to_eq)

lemma send_each_Cons:
  "send_each W (cid # cids) e st =
     ((if fst (send_to W cid e st) then 1 else 0) + fst (send_each W cids e (snd (send_to W cid e st))),
      snd (send_each W cids e (snd (send_to W cid e st))))"
  by (simp add: case_prod_beta Let_def)

declare send_each.simps(2) [simp del]

lemma send_each_same: "same_but_heap st (snd (send_each W cids e st))"
  by (induction cids arbitrary: st) (auto simp: send_each_Cons intro: same_but_heap_trans send_to_same)

lemma same_but_heapD:
  assumes "same_but_heap st st'"
  shows "connections st' = connections st" "userConnections st' = userConnections st" "rooms st' = rooms st"
    "pendingConnections st' = pendingConnections st" "maxConnections st' = maxConnections st"
    "channelRefCounts st' = channelRefCounts st" "subscribedChannels st' = subscribedChannels st"
    "issued st' = issued st" "chanEnabled st' = chanEnabled st" "link_connected st' = link_connected st"
    "lastMs st' = lastMs st" "sequenceCounter st' = sequenceCounter st" "draws st' = draws st"
    "conn_state.more st' = conn_state.more st"
  using assms by (auto simp: same_but_heap_def link_connected_def)

section \<open>The invariant\<close>

definition user_of :: "('s, 'a) conn_state_scheme \<Rightarrow> string \<Rightarrow> string option" where
  "user_of st cid = map_option userId (getConnection cid st)"

definition user_channels :: "string set" where
  "user_channels = {c. \<exists>u. getUserChannel u = Some c}"

definition user_group :: "('s, 'a) conn_state_scheme \<Rightarrow> string \<Rightarrow> string list" where
  "user_group st ch =
     filter (\<lambda>cid. case user_of st cid of None \<Rightarrow> False | Some u \<Rightarrow> getUserChannel u = Some ch) (connections st)"

text \<open>Registered connections exist and the index by user lists exactly them.\<close>

definition index_ok :: "('s, 'a) conn_state_scheme \<Rightarrow> bool" where
  "index_ok st \<longleftrightarrow>
     distinct (connections st) \<and> wf_map (userConnections st)
     \<and> (\<forall>cid \<in> set (connections st). \<exists>c. heap st cid = Some c \<and> connectionId c = cid)
     \<and> (\<forall>(u, ids) \<in> set (userConnections st). ids \<noteq> [] \<and> distinct ids)
     \<and> (\<forall>u cid. cid \<in> set (user_ids u st) \<longleftrightarrow> user_of st cid = Some u)"

definition conn_inv :: "('s, 'a) conn_state_scheme \<Rightarrow> bool" where
  "conn_inv st \<longleftrightarrow> index_ok st \<and> (chanEnabled st \<longrightarrow> registry.counts_members (user_group st) user_channels st)"

lemma conn_registry [simp]:
  "heap (subscribeUser u st) = heap st" "connections (subscribeUser u st) = connections st"
  "userConnections (subscribeUser u st) = userConnections st"
  "heap (unsubscribeUser u st) = heap st" "connections (unsubscribeUser u st) = connections st"
  "userConnections (unsubscribeUser u st) = userConnections st"
  "heap (subscribeRoom u st) = heap st" "connections (subscribeRoom u st) = connections st"
  "userConnections (subscribeRoom u st) = userConnections st"
  "heap (unsubscribeRoom u st) = heap st" "connections (unsubscribeRoom u st) = connections st"
  "userConnections (unsubscribeRoom u st) = userConnections st"
  "pendingConnections (subscribeUser u st) = pendingConnections st"
  "pendingConnections (unsubscribeUser u st) = pendingConnections st"
  "maxConnections (subscribeUser u st) = maxConnections st" "maxConnections (unsubscribeUser u st) = maxConnections st"
  by (simp_all add: subscribeRoom_def unsubscribeRoom_def subscribeUser_def unsubscribeUser_def
      incrementSubscription_def decrementSubscription_def pubsub_subscribe_def pubsub_unsubscribe_def
      setChannelsActive_def metric_def issue_def Let_def split: option.splits)

lemma conn_metric [simp]:
  "heap (metric m st) = heap st" "connections (metric m st) = connections st"
  "userConnections (metric m st) = userConnections st" "pendingConnections (metric m st) = pendingConnections st"
  "maxConnections (metric m st) = maxConnections st"
  by (simp_all add: metric_def)

lemma refcount_subscribeUser:
  "getRefCount (subscribeUser u st) ch = (if getUserChannel u = Some ch then Suc (getRefCount st ch) else getRefCount st ch)"
  by (auto simp: subscribeUser_def getRefCount_increment split: option.splits)

lemma refcount_unsubscribeUser:
  "getRefCount (unsubscribeUser u st) ch = (if getUserChannel u = Some ch then getRefCount st ch - 1 else getRefCount st ch)"
  by (auto simp: unsubscribeUser_def getRefCount_decrement split: option.splits)

lemma getConnection_metric [simp]: "getConnection cid (metric m st) = getConnection cid st"
  by (simp add: getConnection_def)

lemma user_group_frame:
  "connections st' = connections st \<Longrightarrow> (\<And>cid. user_of st' cid = user_of st cid) \<Longrightarrow> user_group st' = user_group st"
  by (intro ext) (simp add: user_group_def)

lemma addConnection_fields:
  "connections (addConnection c st) = set_add (connectionId c) (connections st)"
  "heap (addConnection c st) = (heap st)(connectionId c \<mapsto> c)"
  "userConnections (addConnection c st) =
     js_set (userId c) (set_add (connectionId c) (user_ids (userId c) st)) (userConnections st)"
  "pendingConnections (addConnection c st) = pendingConnections st - 1"
  "maxConnections (addConnection c st) = maxConnections st"
  by (simp_all add: addConnection_def Let_def user_ids_def)

lemma user_of_add:
  "connectionId c \<notin> set (connections st) \<Longrightarrow>
   user_of (addConnection c st) cid = (if cid = connectionId c then Some (userId c) else user_of st cid)"
  by (simp add: user_of_def getConnection_def addConnection_fields)

lemma user_ids_add:
  "user_ids u (addConnection c st) =
     (if u = userId c then set_add (connectionId c) (user_ids u st) else user_ids u st)"
  by (simp add: user_ids_def [of u "addConnection c st"] addConnection_fields) (simp add: user_ids_def)

lemma index_ok_ids: "index_ok st \<Longrightarrow> distinct (user_ids u st)"
  by (auto simp: index_ok_def user_ids_def split: option.splits dest: map_of_SomeD)

lemma index_ok_add:
  assumes "index_ok st" "connectionId c \<notin> set (connections st)"
  shows "index_ok (addConnection c st)"
proof -
  let ?st = "addConnection c st"
  have "distinct (connections ?st)" "wf_map (userConnections ?st)"
    "\<forall>cid \<in> set (connections ?st). \<exists>c. heap ?st cid = Some c \<and> connectionId c = cid"
    using assms by (auto simp: addConnection_fields index_ok_def)
  moreover have "\<forall>(u, ids) \<in> set (userConnections ?st). ids \<noteq> [] \<and> distinct ids"
    using assms index_ok_ids [OF assms(1)] by (auto simp: addConnection_fields index_ok_def js_set_entries)
  moreover have "\<forall>u cid. cid \<in> set (user_ids u ?st) \<longleftrightarrow> user_of ?st cid = Some u"
    using assms by (auto simp: user_ids_add user_of_add index_ok_def) (simp add: user_of_def getConnection_def)
  ultimately show ?thesis unfolding index_ok_def by blast
qed

lemma refcount_addConnection:
  "getRefCount (addConnection c st) ch =
     (if chanEnabled st \<and> getUserChannel (userId c) = Some ch then Suc (getRefCount st ch) else getRefCount st ch)"
  by (simp add: addConnection_def Let_def refcount_subscribeUser) (simp add: getRefCount_def)

lemma chanEnabled_conn [simp]:
  "chanEnabled (addConnection c st) = chanEnabled st" "chanEnabled (snd (removeConnection cid st)) = chanEnabled st"
  by (simp_all add: addConnection_def removeConnection_def Let_def split: option.splits)

lemma conn_inv_add [keeps_inv]:
  assumes "conn_inv st" "connectionId c \<notin> set (connections st)"
  shows "conn_inv (addConnection c st)"
proof -
  let ?st = "addConnection c st"
  have grp: "user_group ?st ch = user_group st ch @ (if getUserChannel (userId c) = Some ch then [connectionId c] else [])" for ch
    using assms(2) by (auto simp: user_group_def addConnection_fields user_of_add set_add_def intro!: filter_cong)
  have "getRefCount ?st ch = length (user_group ?st ch)" if "chanEnabled st" "ch \<in> user_channels" for ch
    using assms(1) that by (auto simp: conn_inv_def registry.counts_members_def grp refcount_addConnection)
  then show ?thesis
    using assms by (simp add: conn_inv_def index_ok_add registry.counts_members_def)
qed

lemma removeConnection_None: "getConnection cid st = None \<Longrightarrow> removeConnection cid st = (None, st)"
  by (simp add: removeConnection_def)

lemma removeConnection_fields:
  assumes "getConnection cid st = Some c"
  shows "connections (snd (removeConnection cid st)) = set_del cid (connections st)"
    "heap (snd (removeConnection cid st)) = (heap st)(cid \<mapsto> markCleanedUp c)"
    "userConnections (snd (removeConnection cid st)) = drop_user_entry (userId c) cid (userConnections st)"
    "pendingConnections (snd (removeConnection cid st)) = pendingConnections st"
    "maxConnections (snd (removeConnection cid st)) = maxConnections st"
  using assms by (simp_all add: removeConnection_def Let_def)

lemma user_of_remove:
  "user_of (snd (removeConnection cid st)) cid' = (if cid' = cid then None else user_of st cid')"
  by (cases "getConnection cid st")
    (auto simp: user_of_def removeConnection_None getConnection_def removeConnection_fields)

lemma user_ids_remove:
  assumes "getConnection cid st = Some c"
  shows "user_ids u (snd (removeConnection cid st)) = (if u = userId c then set_del cid (user_ids u st) else user_ids u st)"
  by (auto simp: user_ids_def removeConnection_fields [OF assms] drop_user_entry_def set_del_def split: option.splits)

lemma markCleanedUp_sel [simp]: "connectionId (markCleanedUp c) = connectionId c" "userId (markCleanedUp c) = userId c"
  by (simp_all add: markCleanedUp_def)

lemma index_ok_remove:
  assumes "index_ok st" "getConnection cid st = Some c"
  shows "index_ok (snd (removeConnection cid st))"
proof -
  let ?st = "snd (removeConnection cid st)"
  note f = removeConnection_fields [OF assms(2)]
  have u: "user_of st cid = Some (userId c)" using assms(2) by (simp add: user_of_def)
  have "distinct (connections ?st)" using assms(1) by (simp add: f index_ok_def)
  moreover have "wf_map (userConnections ?st)"
    using assms(1) by (simp add: f drop_user_entry_def index_ok_def split: option.splits)
  moreover have "\<forall>cid \<in> set (connections ?st). \<exists>c. heap ?st cid = Some c \<and> connectionId c = cid"
    using assms(1) by (simp add: f index_ok_def)
  moreover have "\<forall>(u, ids) \<in> set (userConnections ?st). ids \<noteq> [] \<and> distinct ids"
    using assms(1) by (auto simp: f drop_user_entry_def index_ok_def js_set_entries js_delete_entries
        split: option.splits dest!: map_of_SomeD)
  moreover have "\<forall>u cid. cid \<in> set (user_ids u ?st) \<longleftrightarrow> user_of ?st cid = Some u"
    using assms(1) u by (auto simp: user_ids_remove [OF assms(2)] user_of_remove index_ok_def)
  ultimately show ?thesis unfolding index_ok_def by blast
qed

lemma refcount_removeConnection:
  "getConnection cid st = Some c \<Longrightarrow> getRefCount (snd (removeConnection cid st)) ch =
     (if chanEnabled st \<and> getUserChannel (userId c) = Some ch then getRefCount st ch - 1 else getRefCount st ch)"
  by (simp add: removeConnection_def Let_def) (simp add: getRefCount_def [of "_\<lparr>heap := _\<rparr>"]
      flip: getRefCount_def add: refcount_unsubscribeUser, simp add: getRefCount_def)

lemma conn_inv_remove [keeps_inv]:
  assumes "conn_inv st"
  shows "conn_inv (snd (removeConnection cid st))"
proof (cases "getConnection cid st")
  case (Some c)
  let ?st = "snd (removeConnection cid st)"
  have cid: "cid \<in> set (connections st)" "user_of st cid = Some (userId c)"
    using Some by (auto simp: getConnection_def user_of_def split: if_splits)
  have grp: "user_group ?st ch = (if getUserChannel (userId c) = Some ch then set_del cid (user_group st ch) else user_group st ch)" for ch
    using cid(2) by (auto simp: user_group_def removeConnection_fields [OF Some] set_del_def user_of_remove intro!: filter_cong)
  have dist: "distinct (user_group st ch)" for ch
    using assms by (simp add: user_group_def conn_inv_def index_ok_def)
  have "getRefCount ?st ch = length (user_group ?st ch)" if "chanEnabled st" "ch \<in> user_channels" for ch
  proof -
    have mem: "cid \<in> set (user_group st ch)" if "getUserChannel (userId c) = Some ch"
      using cid that by (simp add: user_group_def)
    show ?thesis
      using assms that mem by (auto simp: conn_inv_def registry.counts_members_def grp
          refcount_removeConnection [OF Some] length_set_del [OF dist])
  qed
  then show ?thesis
    using assms by (simp add: conn_inv_def index_ok_remove [OF _ Some] registry.counts_members_def)
qed (use assms in \<open>simp add: removeConnection_None\<close>)

text \<open>An update of stored connections that keeps identity and user keeps the invariant.\<close>

lemma conn_inv_frame:
  assumes "conn_inv st" "connections st' = connections st" "userConnections st' = userConnections st"
    "chanEnabled st' = chanEnabled st" "channelRefCounts st' = channelRefCounts st"
    and "\<And>cid. map_option (\<lambda>c. (connectionId c, userId c)) (heap st' cid) = map_option (\<lambda>c. (connectionId c, userId c)) (heap st cid)"
  shows "conn_inv st'"
proof -
  have h: "heap st' cid = None \<longleftrightarrow> heap st cid = None" for cid
    using assms(6) [of cid] by (cases "heap st' cid"; cases "heap st cid") simp_all
  have h2: "connectionId (the (heap st' cid)) = connectionId (the (heap st cid)) \<and> userId (the (heap st' cid)) = userId (the (heap st cid))"
    if "heap st cid \<noteq> None" for cid
    using assms(6) [of cid] h [of cid] that by auto
  have u: "user_of st' cid = user_of st cid" for cid
    using h [of cid] h2 [of cid] assms(2) by (auto simp: user_of_def getConnection_def)
  have "user_ids v st' = user_ids v st" for v by (simp add: user_ids_def assms(3))
  moreover have "\<forall>cid \<in> set (connections st). \<exists>c. heap st' cid = Some c \<and> connectionId c = cid"
  proof
    fix cid assume "cid \<in> set (connections st)"
    then obtain c where c: "heap st cid = Some c" "connectionId c = cid"
      using assms(1) by (auto simp: conn_inv_def index_ok_def)
    then obtain c' where "heap st' cid = Some c'" using h [of cid] by auto
    with c h2 [of cid] show "\<exists>c. heap st' cid = Some c \<and> connectionId c = cid" by auto
  qed
  ultimately have "index_ok st'"
    using assms(1-3) u by (simp add: conn_inv_def index_ok_def)
  moreover have "user_group st' = user_group st" by (rule user_group_frame) (use assms u in auto)
  ultimately show ?thesis
    using assms by (simp add: conn_inv_def registry.counts_members_def getRefCount_def)
qed

section \<open>Admission\<close>

text \<open>
  The manager as the server drives it: a slot is acquired before an upgrade, and either released or
  turned into a registration of a new connection; registered connections are removed; handlers
  update the stored objects without changing identity or user.
\<close>

inductive conn_step :: "('s, 'a) conn_state_scheme \<Rightarrow> ('s, 'a) conn_state_scheme \<Rightarrow> bool" where
  Acquire: "conn_step st (snd (tryAcquireSlot st))"
| Release: "conn_step st (releasePendingSlot st)"
| Register: "pendingConnections st > 0 \<Longrightarrow> connectionId c \<notin> set (connections st) \<Longrightarrow> conn_step st (addConnection c st)"
| Unregister: "conn_step st (snd (removeConnection cid st))"
| Update: "(\<And>c. connectionId (f c) = connectionId c \<and> userId (f c) = userId c) \<Longrightarrow> conn_step st (upd_conn cid f st)"
| Deliver: "conn_step st (snd (send_to W cid e st))"

definition within_limit :: "('s, 'a) conn_state_scheme \<Rightarrow> bool" where
  "within_limit st =
     (case maxConnections st of None \<Rightarrow> True | Some m \<Rightarrow> length (connections st) + pendingConnections st \<le> m)"

definition conn_sys_inv :: "('s, 'a) conn_state_scheme \<Rightarrow> bool" where
  "conn_sys_inv st \<longleftrightarrow> conn_inv st \<and> within_limit st"

definition conn_init :: "('s, 'a) conn_state_scheme \<Rightarrow> bool" where
  "conn_init st \<longleftrightarrow> connections st = [] \<and> userConnections st = [] \<and> pendingConnections st = 0 \<and> channelRefCounts st = []"

lemma conn_inv_upd [keeps_inv]:
  assumes "conn_inv st" "\<And>c. connectionId (f c) = connectionId c \<and> userId (f c) = userId c"
  shows "conn_inv (upd_conn cid f st)"
  by (rule conn_inv_frame [OF assms(1)]) (use assms(2) in \<open>auto simp: upd_conn_def split: option.splits\<close>)

lemma conn_inv_send [keeps_inv]: "conn_inv st \<Longrightarrow> conn_inv (snd (send_to W cid e st))"
  by (erule conn_inv_frame) (auto simp: send_to_eq split: option.splits)

lemma conn_inv_send_each [keeps_inv]: "conn_inv st \<Longrightarrow> conn_inv (snd (send_each W cids e st))"
  by (induction cids arbitrary: st) (simp_all add: send_each_Cons conn_inv_send)

lemma conn_inv_pending [simp]: "conn_inv (st\<lparr>pendingConnections := n\<rparr>) = conn_inv st"
proof
  show "conn_inv st \<Longrightarrow> conn_inv (st\<lparr>pendingConnections := n\<rparr>)" by (erule conn_inv_frame) simp_all
  show "conn_inv (st\<lparr>pendingConnections := n\<rparr>) \<Longrightarrow> conn_inv st" by (erule conn_inv_frame) simp_all
qed

lemma within_limit_cong:
  "connections st' = connections st \<Longrightarrow> pendingConnections st' = pendingConnections st \<Longrightarrow>
   maxConnections st' = maxConnections st \<Longrightarrow> within_limit st' = within_limit st"
  by (simp add: within_limit_def split: option.splits)

lemma conn_sys_inv_step: "conn_step st st' \<Longrightarrow> conn_sys_inv st \<Longrightarrow> conn_sys_inv st'"
proof (induction rule: conn_step.induct)
  case (Acquire st)
  then show ?case
    by (auto simp: conn_sys_inv_def tryAcquireSlot_def at_capacity_def within_limit_def split: option.splits)
next
  case (Release st)
  then show ?case by (auto simp: conn_sys_inv_def releasePendingSlot_def within_limit_def split: option.splits)
next
  case (Register st c)
  then show ?case
    by (auto simp: conn_sys_inv_def conn_inv_add within_limit_def addConnection_fields length_set_add split: option.splits)
next
  case (Unregister st cid)
  have "length (set_del cid (connections st)) \<le> length (connections st)" by (simp add: set_del_def)
  with Unregister show ?case
    by (cases "getConnection cid st")
      (auto simp: conn_sys_inv_def conn_inv_remove within_limit_def removeConnection_None removeConnection_fields
        split: option.splits)
next
  case (Update f st cid)
  have "within_limit (upd_conn cid f st) = within_limit st"
    by (rule within_limit_cong) (simp_all add: upd_conn_def split: option.splits)
  then show ?case using Update by (simp add: conn_sys_inv_def conn_inv_upd)
next
  case (Deliver st W cid e)
  have "within_limit (snd (send_to W cid e st)) = within_limit st"
    by (rule within_limit_cong) (simp_all add: same_but_heapD [OF send_to_same])
  with Deliver show ?case by (simp add: conn_sys_inv_def conn_inv_send)
qed

lemma conn_sys_inv_init: "conn_init st \<Longrightarrow> conn_sys_inv st"
  by (auto simp: conn_init_def conn_sys_inv_def conn_inv_def index_ok_def within_limit_def registry.counts_members_def
      getRefCount_def user_group_def user_ids_def user_of_def getConnection_def split: option.splits)

interpretation conn_sys: transition_system conn_init conn_step conn_sys_inv
  by unfold_locales (rule conn_sys_inv_init, assumption, rule conn_sys_inv_step)

lemma maxConnections_step: "conn_step st st' \<Longrightarrow> maxConnections st' = maxConnections st"
  by (induction rule: conn_step.induct)
    (auto simp: tryAcquireSlot_def releasePendingSlot_def addConnection_fields upd_conn_def removeConnection_def Let_def
      same_but_heapD [OF send_to_same] split: option.splits)

lemma maxConnections_steps: "conn_step\<^sup>*\<^sup>* st st' \<Longrightarrow> maxConnections st' = maxConnections st"
  by (induction rule: rtranclp_induct) (simp_all add: maxConnections_step)

lemma user_ids_group:
  assumes "index_ok st"
  shows "getConnectionsByUserId u st = user_ids u st"
    and "set (user_ids u st) = {cid \<in> set (connections st). user_of st cid = Some u}"
proof -
  have m: "cid \<in> set (user_ids u st) \<longleftrightarrow> user_of st cid = Some u" for cid
    using assms by (simp add: index_ok_def)
  then show "getConnectionsByUserId u st = user_ids u st"
    by (auto simp: getConnectionsByUserId_def user_of_def intro!: filter_True)
  show "set (user_ids u st) = {cid \<in> set (connections st). user_of st cid = Some u}"
    using m by (auto simp: user_of_def getConnection_def split: if_splits)
qed

text \<open>
  Admission control holds under concurrency. However slots are acquired, released and turned
  into registrations, and however connections come and go, the registered connections together
  with the pending upgrades never exceed the limit; and the connections found for a user are
  exactly the registered connections of that user, each once.
\<close>

theorem admission_and_index:
  assumes "conn_init st0" "maxConnections st0 = Some m" "conn_step\<^sup>*\<^sup>* st0 st"
  shows "getCount st + pendingConnections st \<le> m
     \<and> distinct (getConnectionsByUserId u st)
     \<and> set (getConnectionsByUserId u st) = {cid \<in> set (connections st). user_of st cid = Some u}"
proof -
  have inv: "conn_sys_inv st" using conn_sys.inv_reachable [OF assms(1,3)] .
  then have ix: "index_ok st" by (simp add: conn_sys_inv_def conn_inv_def)
  have "getCount st + pendingConnections st \<le> m"
    using inv maxConnections_steps [OF assms(3)] assms(2) by (simp add: conn_sys_inv_def within_limit_def getCount_def)
  then show ?thesis using user_ids_group [OF ix, of u] index_ok_ids [OF ix, of u] by simp
qed

definition conn0 :: "sim_socket conn_state" where
  "conn0 = room_state.extend room0 \<lparr>heap = (\<lambda>_. None), connections = [], userConnections = [],
     pendingConnections = 0, maxConnections = Some 1\<rparr>"

theorem admission_and_index_witness:
  "\<exists>st. conn_step\<^sup>*\<^sup>* conn0 st \<and> getCount st + pendingConnections st \<le> 1
     \<and> set (getConnectionsByUserId ''ada'' st) = {cid \<in> set (connections st). user_of st cid = Some ''ada''}
     \<and> connections st = [''c1''] \<and> \<not> fst (tryAcquireSlot st)"
proof -
  let ?c = "sim_connection ''c1'' ''ada'' 0"
  let ?st1 = "snd (tryAcquireSlot conn0)" and ?st2 = "addConnection ?c (snd (tryAcquireSlot conn0))"
  have i: "conn_init conn0" "maxConnections conn0 = Some 1"
    by (simp_all add: conn_init_def conn0_def room0_def chan0_def chan_state.defs room_state.defs)
  have p1: "pendingConnections ?st1 = 1" "connections ?st1 = []" by code_simp+
  have "conn_step conn0 ?st1" by (rule conn_step.Acquire)
  moreover have "conn_step ?st1 ?st2" by (rule conn_step.Register) (simp_all add: p1)
  ultimately have steps: "conn_step\<^sup>*\<^sup>* conn0 ?st2" by (meson converse_rtranclp_into_rtranclp r_into_rtranclp)
  have "connections ?st2 = [''c1'']" "fst (tryAcquireSlot ?st2) = False" by code_simp+
  with steps admission_and_index [OF i steps, of "''ada''"] show ?thesis by blast
qed

end
