(* ===== verification/Idempotency.thy ===== *)
theory Idempotency
  imports Types Cache_Spec
begin

text \<open>
  \<^verbatim>\<open>src/core/IdempotencyManager.ts\<close>: the cache of acknowledgements by event identifier. The
  platform functions are arguments: \<open>sha\<close> is the hex SHA-256 digest of a text, \<open>text\<close> is
  \<^verbatim>\<open>JSON.stringify\<close> and \<open>str\<close> is \<^verbatim>\<open>String\<close> on a primitive.
\<close>

record idem_entry =
  idemEventId :: string
  payloadHash :: string
  ackEnvelope :: envelope
  idemTimestamp :: int

record idem_state =
  idemCapacity :: nat
  idemTtlMs :: int
  idemCache :: "(string, idem_entry) jsmap"

definition new_IdempotencyManager :: "nat option \<Rightarrow> int option \<Rightarrow> idem_state" where
  "new_IdempotencyManager c ttl =
     \<lparr>idemCapacity = (case c of None \<Rightarrow> 10000 | Some n \<Rightarrow> n),
      idemTtlMs = (case ttl of None \<Rightarrow> 60000 | Some t \<Rightarrow> t), idemCache = []\<rparr>"

definition idem_size :: "idem_state \<Rightarrow> nat" where
  "idem_size st = length (idemCache st)"

text \<open>
  \<^verbatim>\<open>hashPayload\<close>: the second argument of \<^verbatim>\<open>JSON.stringify\<close> is the sorted list of the payload's own
  keys, which selects properties at every depth (\<open>json_select\<close>). The keys of an array are its
  indices.
\<close>

record hash_prims =
  sha256 :: "string \<Rightarrow> string"
  jsonText :: "json \<Rightarrow> string"
  stringOf :: "json \<Rightarrow> string"

definition object_keys :: "json \<Rightarrow> string list" where
  "object_keys j =
     (case j of JObj kvs \<Rightarrow> map fst kvs | JArr xs \<Rightarrow> map digits_of_nat [0..<length xs] | _ \<Rightarrow> [])"

definition hashPayload :: "hash_prims \<Rightarrow> json \<Rightarrow> string" where
  "hashPayload H p =
     (case p of
        JObj _ \<Rightarrow> sha256 H (jsonText H (json_select (sort (object_keys p)) p))
      | JArr _ \<Rightarrow> sha256 H (jsonText H (json_select (sort (object_keys p)) p))
      | _ \<Rightarrow> sha256 H (stringOf H p))"

datatype idem_result = NotDuplicate | DuplicateConflict | DuplicateAck envelope

definition idem_check :: "hash_prims \<Rightarrow> int \<Rightarrow> string \<Rightarrow> json \<Rightarrow> idem_state \<Rightarrow> idem_result \<times> idem_state" where
  "idem_check H now eid pl st =
     (case map_of (idemCache st) eid of
        None \<Rightarrow> (NotDuplicate, st)
      | Some e \<Rightarrow>
          if now - idemTimestamp e > idemTtlMs st
          then (NotDuplicate, st\<lparr>idemCache := js_delete eid (idemCache st)\<rparr>)
          else (if payloadHash e \<noteq> hashPayload H pl then DuplicateConflict else DuplicateAck (ackEnvelope e),
                st\<lparr>idemCache := touch eid e (idemCache st)\<rparr>))"

text \<open>Lines 115-120: the eviction is skipped when the oldest key is the (falsy) empty string.\<close>

definition idem_make_room :: "idem_state \<Rightarrow> (string, idem_entry) jsmap" where
  "idem_make_room st =
     (if length (idemCache st) \<ge> idemCapacity st
      then (case idemCache st of
              (k, _) # _ \<Rightarrow> if k \<noteq> [] then evict_oldest (idemCache st) else idemCache st
            | [] \<Rightarrow> [])
      else idemCache st)"

definition idem_put :: "string \<Rightarrow> idem_entry \<Rightarrow> idem_state \<Rightarrow> idem_state" where
  "idem_put eid entry st = st\<lparr>idemCache := js_set eid entry (idem_make_room st)\<rparr>"

definition recordAck :: "hash_prims \<Rightarrow> int \<Rightarrow> string \<Rightarrow> envelope \<Rightarrow> json \<Rightarrow> idem_state \<Rightarrow> idem_state" where
  "recordAck H now eid ack pl st =
     idem_put eid
       \<lparr>idemEventId = eid, payloadHash = hashPayload H pl, ackEnvelope = ack, idemTimestamp = now\<rparr> st"

text \<open>\<^verbatim>\<open>pruneExpired\<close>: the loop over the entries stops at the first unexpired one.\<close>

fun prune_loop :: "int \<Rightarrow> int \<Rightarrow> (string, idem_entry) jsmap \<Rightarrow> nat \<times> (string, idem_entry) jsmap" where
  "prune_loop now ttl [] = (0, [])"
| "prune_loop now ttl ((k, e) # r) =
     (if now - idemTimestamp e > ttl
      then (let (n, r') = prune_loop now ttl r in (Suc n, r'))
      else (0, (k, e) # r))"

definition pruneExpired :: "int \<Rightarrow> idem_state \<Rightarrow> nat \<times> idem_state" where
  "pruneExpired now st =
     (let (n, c) = prune_loop now (idemTtlMs st) (idemCache st) in (n, st\<lparr>idemCache := c\<rparr>))"

definition idem_clear :: "idem_state \<Rightarrow> idem_state" where
  "idem_clear st = st\<lparr>idemCache := []\<rparr>"

section \<open>The cache contract\<close>

text \<open>
  The invariant: distinct keys, none empty (the validator lets no empty identifier through), and at
  most \<open>capacity\<close> entries (one entry at capacity 0).
\<close>

definition idem_inv :: "idem_state \<Rightarrow> bool" where
  "idem_inv st \<longleftrightarrow> wf_map (idemCache st) \<and> [] \<notin> fst ` set (idemCache st)
     \<and> length (idemCache st) \<le> max (idemCapacity st) 1"

lemma idem_make_room_eq:
  "idem_inv st \<Longrightarrow>
   idem_make_room st = (if length (idemCache st) \<ge> idemCapacity st then tl (idemCache st) else idemCache st)"
  by (auto simp: idem_inv_def idem_make_room_def evict_oldest_tl split: list.splits)

lemma idem_inv_put [keeps_inv]:
  assumes "idem_inv st" "eid \<noteq> []"
  shows "idem_inv (idem_put eid entry st)"
proof -
  have "wf_map (idem_make_room st)" "[] \<notin> fst ` set (idem_make_room st)"
    using assms(1) keys_tl_subset [of "idemCache st"]
    by (auto simp: idem_make_room_eq idem_inv_def distinct_tl map_tl)
  moreover have "length (js_set eid entry (idem_make_room st)) \<le> max (idemCapacity st) 1"
    using assms(1) by (auto simp: idem_make_room_eq length_js_set idem_inv_def)
  ultimately show ?thesis
    using assms(2) by (simp add: idem_inv_def idem_put_def)
qed

lemma idem_inv_check [keeps_inv]: "idem_inv st \<Longrightarrow> idem_inv (snd (idem_check H now eid pl st))"
proof -
  assume i: "idem_inv st"
  have "length (touch eid e (idemCache st)) \<le> max (idemCapacity st) 1" if "map_of (idemCache st) eid = Some e" for e
    using i js_get_in_keys [OF that]
    by (simp add: touch_append length_js_delete idem_inv_def)
  with i js_get_in_keys [of "idemCache st" eid] show ?thesis
    by (auto simp: idem_check_def idem_inv_def touch_def le_trans [OF length_delete_le] split: option.splits)
qed

lemma map_of_tl: "map_of (tl m) k \<in> {None, map_of m k}" if "wf_map m"
  using that by (cases m) (auto simp: map_of_eq_None_iff [symmetric])

interpretation idem: bounded_cache idemCache idemCapacity idem_put "\<lambda>k. k \<noteq> []" idem_inv
proof unfold_locales
  fix st k v k'
  show "idem_inv st \<Longrightarrow> k \<noteq> [] \<Longrightarrow> idem_inv (idem_put k v st)" by (rule idem_inv_put)
  show "idem_inv st \<Longrightarrow> k' \<noteq> k \<Longrightarrow> map_of (idemCache (idem_put k v st)) k' \<in> {None, map_of (idemCache st) k'}"
    using map_of_tl [of "idemCache st" k'] by (auto simp: idem_put_def idem_make_room_eq idem_inv_def)
  show "idem_inv st \<Longrightarrow> k \<noteq> [] \<Longrightarrow>
      length (idemCache (idem_put k v st)) \<le> max (length (idemCache st)) (max (idemCapacity st) 1)"
    using idem_inv_put [of st k v] by (auto simp: idem_inv_def idem_put_def)
qed (auto simp: idem_inv_def idem_put_def idem_make_room_eq)

section \<open>Retried events\<close>

text \<open>
  The calls the dispatcher makes on the cache: a check, or the recording of an acknowledgement for
  an identifier whose check found no entry.
\<close>

datatype idem_call =
    CheckCall int string json
  | RecordCall int string envelope json

fun idem_call_id :: "idem_call \<Rightarrow> string" where
  "idem_call_id (CheckCall _ eid _) = eid"
| "idem_call_id (RecordCall _ eid _ _) = eid"

fun run_idem_call :: "hash_prims \<Rightarrow> idem_call \<Rightarrow> idem_state \<Rightarrow> idem_state" where
  "run_idem_call H (CheckCall now eid pl) st = snd (idem_check H now eid pl st)"
| "run_idem_call H (RecordCall now eid ack pl) st = recordAck H now eid ack pl st"

fun run_idem_calls :: "hash_prims \<Rightarrow> idem_call list \<Rightarrow> idem_state \<Rightarrow> idem_state" where
  "run_idem_calls H [] st = st"
| "run_idem_calls H (c # cs) st = run_idem_calls H cs (run_idem_call H c st)"

text \<open>Recordings only for absent, non-empty identifiers.\<close>

fun disciplined :: "hash_prims \<Rightarrow> idem_call list \<Rightarrow> idem_state \<Rightarrow> bool" where
  "disciplined H [] st \<longleftrightarrow> True"
| "disciplined H (c # cs) st \<longleftrightarrow>
     (case c of RecordCall _ eid _ _ \<Rightarrow> eid \<noteq> [] \<and> eid \<notin> fst ` set (idemCache st) | _ \<Rightarrow> True)
     \<and> disciplined H cs (run_idem_call H c st)"

text \<open>The entry of \<open>k\<close> is present and only keys of \<open>T\<close> are younger.\<close>

definition younger_within :: "string \<Rightarrow> idem_entry \<Rightarrow> string set \<Rightarrow> idem_state \<Rightarrow> bool" where
  "younger_within k e T st \<longleftrightarrow>
     (\<exists>old young. idemCache st = old @ (k, e) # young \<and> fst ` set young \<subseteq> T)"

lemma younger_get: "idem_inv st \<Longrightarrow> younger_within k e T st \<Longrightarrow> map_of (idemCache st) k = Some e"
  by (auto simp: younger_within_def idem_inv_def map_add_def map_of_eq_None_iff intro: rev_image_eqI split: option.splits)

lemma js_delete_append: "js_delete k (a @ b) = js_delete k a @ js_delete k b"
  by (simp add: AList.delete_eq)

lemma younger_check:
  assumes "idem_inv st" "younger_within k e T st" "eid \<noteq> k"
  shows "younger_within k e (insert eid T) (snd (idem_check H now eid pl st))"
proof -
  obtain old young where c: "idemCache st = old @ (k, e) # young" "fst ` set young \<subseteq> T"
    using assms(2) by (auto simp: younger_within_def)
  have d: "js_delete eid (idemCache st) = js_delete eid old @ (k, e) # js_delete eid young"
    using c(1) assms(3) by (simp add: js_delete_append AList.delete_eq)
  have y: "fst ` set (js_delete eid young) \<subseteq> insert eid T" using c(2) by auto
  have "younger_within k e (insert eid T) (st\<lparr>idemCache := js_delete eid (idemCache st)\<rparr>)"
    unfolding younger_within_def
    by (rule exI [of _ "js_delete eid old"], rule exI [of _ "js_delete eid young"]) (use y in \<open>simp add: d\<close>)
  moreover have "younger_within k e (insert eid T) (st\<lparr>idemCache := touch eid x (idemCache st)\<rparr>)" for x
    unfolding younger_within_def touch_append d
    by (rule exI [of _ "js_delete eid old"], rule exI [of _ "js_delete eid young @ [(eid, x)]"]) (use c(2) in \<open>simp add: subset_insertI2\<close>)
  moreover have "younger_within k e (insert eid T) st"
    using assms(2) by (auto simp: younger_within_def)
  ultimately show ?thesis by (simp add: idem_check_def split: option.splits)
qed

lemma younger_record:
  assumes inv: "idem_inv st" and y: "younger_within k e T st" and new: "eid \<noteq> k" "eid \<notin> fst ` set (idemCache st)"
    and T: "finite T" "card (insert eid T) < idemCapacity st"
  shows "younger_within k e (insert eid T) (recordAck H now eid ack pl st)"
proof -
  obtain old young where c: "idemCache st = old @ (k, e) # young" "fst ` set young \<subseteq> T"
    using y by (auto simp: younger_within_def)
  have room: "\<exists>old'. idem_make_room st = old' @ (k, e) # young"
  proof (cases old)
    case Nil
    have dist: "distinct (map fst young)" "eid \<notin> fst ` set young"
      using inv new(2) c(1) by (auto simp: idem_inv_def)
    have "Suc (length young) = card (insert eid (fst ` set young))"
      using dist distinct_card [of "map fst young"] by simp
    also have "\<dots> \<le> card (insert eid T)" using c(2) T(1) by (intro card_mono) auto
    finally have "length (idemCache st) < idemCapacity st" using T(2) Nil c(1) by simp
    then show ?thesis using Nil c(1) inv by (simp add: idem_make_room_eq)
  next
    case (Cons p old')
    then show ?thesis using c(1) inv by (auto simp: idem_make_room_eq)
  qed
  then obtain old' where r: "idem_make_room st = old' @ (k, e) # young" ..
  have "eid \<notin> fst ` set (idem_make_room st)"
    using new(2) keys_tl_subset [of "idemCache st"] inv by (auto simp: idem_make_room_eq)
  then have "idemCache (recordAck H now eid ack pl st) = old' @ (k, e) # young @ [(eid, \<lparr>idemEventId = eid,
      payloadHash = hashPayload H pl, ackEnvelope = ack, idemTimestamp = now\<rparr>)]"
    using r by (simp add: recordAck_def idem_put_def js_set_absent)
  moreover have "fst ` set (young @ [(eid, x)]) \<subseteq> insert eid T" for x :: idem_entry
    using c(2) by (simp add: subset_insertI2)
  ultimately show ?thesis unfolding younger_within_def by blast
qed

lemma capacity_run [simp]:
  "idemCapacity (run_idem_call H c st) = idemCapacity st" "idemTtlMs (run_idem_call H c st) = idemTtlMs st"
  by (cases c; simp add: idem_check_def recordAck_def idem_put_def split: option.splits)+

lemma younger_run:
  assumes "idem_inv st" "younger_within k e T st" "finite T" "disciplined H cs st"
    "k \<notin> idem_call_id ` set cs" "card (T \<union> idem_call_id ` set cs) < idemCapacity st"
  shows "idem_inv (run_idem_calls H cs st) \<and> map_of (idemCache (run_idem_calls H cs st)) k = Some e
     \<and> idemTtlMs (run_idem_calls H cs st) = idemTtlMs st"
  using assms
proof (induction cs arbitrary: st T)
  case Nil
  then show ?case by (simp add: younger_get)
next
  case (Cons c cs)
  let ?T = "insert (idem_call_id c) T" and ?st = "run_idem_call H c st"
  have sub: "card ?T < idemCapacity st"
    by (rule le_less_trans [OF card_mono Cons.prems(6)]) (use Cons.prems(3) in auto)
  have y: "younger_within k e ?T ?st"
  proof (cases c)
    case (CheckCall now eid pl)
    then show ?thesis using Cons.prems younger_check [OF Cons.prems(1,2)] by auto
  next
    case (RecordCall now eid ack pl)
    then show ?thesis using Cons.prems sub younger_record [OF Cons.prems(1,2)] by auto
  qed
  have i: "idem_inv ?st"
    using Cons.prems(1,4) by (cases c) (auto simp: recordAck_def intro: keeps_inv)
  have "card (?T \<union> idem_call_id ` set cs) < idemCapacity ?st"
    using Cons.prems(6) by (simp add: insert_commute Un_insert_left Un_insert_right)
  with Cons.IH [OF i y] Cons.prems show ?case by auto
qed

lemma younger_new:
  assumes "idem_inv st" "eid \<notin> fst ` set (idemCache st)"
  shows "younger_within eid \<lparr>idemEventId = eid, payloadHash = hashPayload H pl, ackEnvelope = ack, idemTimestamp = now\<rparr>
     {} (recordAck H now eid ack pl st)"
proof -
  have "eid \<notin> fst ` set (idem_make_room st)"
    using assms keys_tl_subset [of "idemCache st"] by (auto simp: idem_make_room_eq)
  then show ?thesis by (simp add: younger_within_def recordAck_def idem_put_def js_set_absent)
qed

text \<open>
  A retried event is answered from the cache. Once an event's acknowledgement is recorded, any
  further activity of the server that touches fewer other event identifiers than the capacity,
  checks and recordings in any order, leaves it in the cache: a retry of the event with the same
  payload within the time to live gets the recorded acknowledgement, and is not executed again.
\<close>

theorem retry_gets_cached_ack:
  assumes "idem_inv st" "eid \<noteq> []" "eid \<notin> fst ` set (idemCache st)"
    and "disciplined H cs (recordAck H now eid ack pl st)"
    and "eid \<notin> idem_call_id ` set cs" "card (idem_call_id ` set cs) < idemCapacity st"
    and "later - now \<le> idemTtlMs st"
  shows "fst (idem_check H later eid pl (run_idem_calls H cs (recordAck H now eid ack pl st))) = DuplicateAck ack"
proof -
  let ?st = "recordAck H now eid ack pl st"
  have "idem_inv ?st" using assms(1,2) by (simp add: recordAck_def keeps_inv)
  moreover have "idemCapacity ?st = idemCapacity st" "idemTtlMs ?st = idemTtlMs st"
    by (simp_all add: recordAck_def idem_put_def)
  ultimately show ?thesis
    using younger_run [OF _ younger_new [OF assms(1,3), of H pl ack now], of H cs] assms
    by (simp add: idem_check_def)
qed

definition sample_ack :: envelope where
  "sample_ack = system_envelope ''a1'' DELIVERY_ACK 5 None None JNull"

definition sample_hash :: hash_prims where
  "sample_hash = \<lparr>sha256 = id, jsonText = (\<lambda>j. case j of JObj ((_, JStr s) # _) \<Rightarrow> s | _ \<Rightarrow> []), stringOf = (\<lambda>_. [])\<rparr>"

theorem retry_gets_cached_ack_witness:
  "fst (idem_check sample_hash 900 ''e1'' JNull
     (run_idem_calls sample_hash [CheckCall 6 ''e2'' JNull, RecordCall 7 ''e2'' sample_ack JNull, CheckCall 8 ''e2'' JNull]
       (recordAck sample_hash 5 ''e1'' sample_ack JNull (new_IdempotencyManager (Some 2) None)))) = DuplicateAck sample_ack"
  by (rule retry_gets_cached_ack)
    (simp_all add: new_IdempotencyManager_def idem_inv_def idem_check_def recordAck_def idem_put_def
      idem_make_room_def)

text \<open>
  Conflicting payloads that differ only below the top level are not detected. The key list
  given to \<^verbatim>\<open>JSON.stringify\<close> filters nested objects too, so two payloads with the same top-level
  keys whose nested objects differ in other keys have the same hash, whatever the digest; a second
  event with the same identifier is then answered with the first one's acknowledgement.
\<close>

theorem nested_conflict_undetected:
  "fst (idem_check H (now + 1) ''e1'' (JObj [(''content'', JObj [(''text'', JStr b)])])
     (recordAck H now ''e1'' ack (JObj [(''content'', JObj [(''text'', JStr a)])]) (new_IdempotencyManager None None)))
   = DuplicateAck ack"
  by (simp add: idem_check_def recordAck_def idem_put_def idem_make_room_def new_IdempotencyManager_def
      hashPayload_def object_keys_def map_filter_simps)

text \<open>Recording an identifier that is already cached evicts the oldest entry although no room is needed.\<close>

lemma record_present_evicts:
  assumes "idem_inv st" "idemCache st = (k, e) # r" "length (idemCache st) = idemCapacity st" "eid \<in> fst ` set r"
  shows "map_of (idemCache (recordAck H now eid ack pl st)) k = None \<and>
    length (idemCache (recordAck H now eid ack pl st)) < idemCapacity st"
  using assms by (auto simp: recordAck_def idem_put_def idem_make_room_eq length_js_set idem_inv_def
      map_of_eq_None_iff image_iff)

end
