(* ===== verification/Presence_Scripts.thy ===== *)
theory Presence_Scripts
  imports Js_Value
begin

text \<open>
  \<^verbatim>\<open>src/redis/PresenceLuaScripts.ts\<close>: the keys of the presence data and the three Lua scripts that
  Redis runs atomically. Redis itself is outside the sources: its state is the type variable \<open>'r\<close>
  and the commands the scripts and the presence manager use are the arguments collected in
  \<open>redis_api\<close>. Scores are integer milliseconds.
\<close>

record 'r redis_api =
  zremrangebyscore :: "string \<Rightarrow> int \<Rightarrow> 'r \<Rightarrow> nat \<times> 'r"
  zcard :: "string \<Rightarrow> 'r \<Rightarrow> nat"
  zadd :: "string \<Rightarrow> int \<Rightarrow> string \<Rightarrow> 'r \<Rightarrow> 'r"
  zrem :: "string \<Rightarrow> string \<Rightarrow> 'r \<Rightarrow> 'r"
  zrangebyscore :: "string \<Rightarrow> int \<Rightarrow> 'r \<Rightarrow> string list"
  expire :: "string \<Rightarrow> int \<Rightarrow> 'r \<Rightarrow> 'r"
  del :: "string \<Rightarrow> 'r \<Rightarrow> 'r"
  smembers :: "string \<Rightarrow> 'r \<Rightarrow> string list"
  sadd :: "string \<Rightarrow> string \<Rightarrow> 'r \<Rightarrow> 'r"
  srem :: "string \<Rightarrow> string \<Rightarrow> 'r \<Rightarrow> 'r"

section \<open>Keys\<close>

definition PRESENCE_USER_KEY_PREFIX :: string where "PRESENCE_USER_KEY_PREFIX = ''pulse:presence:user:''"
definition PRESENCE_ROOM_MEMBERS_PREFIX :: string where "PRESENCE_ROOM_MEMBERS_PREFIX = ''pulse:room:''"
definition DEFAULT_KEY_SAFEGUARD_TTL_SEC :: int where "DEFAULT_KEY_SAFEGUARD_TTL_SEC = 120"

text \<open>\<open>None\<close> when the function throws.\<close>

definition getPresenceUserKey :: "string \<Rightarrow> string option" where
  "getPresenceUserKey u = (if js_trim u = [] then None else Some (PRESENCE_USER_KEY_PREFIX @ js_trim u))"

definition getRoomMembersKey :: "string \<Rightarrow> string option" where
  "getRoomMembersKey r =
     (if js_trim r = [] then None else Some (PRESENCE_ROOM_MEMBERS_PREFIX @ js_trim r @ '':members''))"

definition formatPresenceMember :: "string \<Rightarrow> string \<Rightarrow> string option" where
  "formatPresenceMember inst conn = (if inst = [] \<or> conn = [] then None else Some (inst @ '':'' @ conn))"

definition parsePresenceMember :: "string \<Rightarrow> (string \<times> string) option" where
  "parsePresenceMember m =
     (if CHR '':'' \<notin> set m then None
      else let inst = takeWhile (\<lambda>c. c \<noteq> CHR '':'') m; conn = tl (dropWhile (\<lambda>c. c \<noteq> CHR '':'') m)
           in if inst = [] \<or> conn = [] then None else Some (inst, conn))"

section \<open>The scripts\<close>

definition REGISTER_PRESENCE_LUA ::
  "'r redis_api \<Rightarrow> string \<Rightarrow> string \<Rightarrow> int \<Rightarrow> int \<Rightarrow> int \<Rightarrow> 'r \<Rightarrow> nat \<times> 'r" where
  "REGISTER_PRESENCE_LUA R key member expireAt now keyTtl r =
     (let r1 = snd (zremrangebyscore R key now r);
          countBefore = zcard R key r1;
          r2 = zadd R key expireAt member r1;
          r3 = expire R key keyTtl r2
      in (if countBefore = 0 then 1 else 0, r3))"

definition REMOVE_PRESENCE_LUA ::
  "'r redis_api \<Rightarrow> string \<Rightarrow> string \<Rightarrow> int \<Rightarrow> int \<Rightarrow> 'r \<Rightarrow> nat \<times> 'r" where
  "REMOVE_PRESENCE_LUA R key member now keyTtl r =
     (let r1 = zrem R key member r;
          r2 = snd (zremrangebyscore R key now r1);
          countAfter = zcard R key r2
      in if countAfter > 0 then (0, expire R key keyTtl r2) else (1, del R key r2))"

fun roster_loop :: "'r redis_api \<Rightarrow> string \<Rightarrow> int \<Rightarrow> string list \<Rightarrow> 'r \<Rightarrow> string list \<times> 'r" where
  "roster_loop R roomKey now [] r = ([], r)"
| "roster_loop R roomKey now (u # us) r =
     (let userKey = ''pulse:presence:user:'' @ u;
          r1 = snd (zremrangebyscore R userKey now r) in
      if zcard R userKey r1 > 0
      then (let (online, r2) = roster_loop R roomKey now us r1 in (u # online, r2))
      else roster_loop R roomKey now us (srem R roomKey u r1))"

text \<open>\<^verbatim>\<open>table.concat(onlineMembers, ',')\<close>.\<close>

fun join_comma :: "string list \<Rightarrow> string" where
  "join_comma [] = []"
| "join_comma [x] = x"
| "join_comma (x # y # r) = x @ '','' @ join_comma (y # r)"

definition GET_ROOM_PRESENCE_ROSTER_LUA :: "'r redis_api \<Rightarrow> string \<Rightarrow> int \<Rightarrow> 'r \<Rightarrow> string \<times> 'r" where
  "GET_ROOM_PRESENCE_ROSTER_LUA R roomKey now r =
     (let (online, r') = roster_loop R roomKey now (smembers R roomKey r) r in (join_comma online, r'))"

section \<open>The wrappers\<close>

text \<open>\<open>None\<close> when an argument is refused; a rejected reply is a matter of the caller.\<close>

definition executeRegisterPresence ::
  "'r redis_api \<Rightarrow> string \<Rightarrow> string \<Rightarrow> string \<Rightarrow> int \<Rightarrow> int \<Rightarrow> int \<Rightarrow> 'r \<Rightarrow> (nat \<times> 'r) option" where
  "executeRegisterPresence R user inst conn expireAtMs nowMs keyTtl r =
     (case (getPresenceUserKey user, formatPresenceMember inst conn) of
        (Some key, Some member) \<Rightarrow> Some (REGISTER_PRESENCE_LUA R key member expireAtMs nowMs keyTtl r)
      | _ \<Rightarrow> None)"

definition executeRemovePresence ::
  "'r redis_api \<Rightarrow> string \<Rightarrow> string \<Rightarrow> string \<Rightarrow> int \<Rightarrow> int \<Rightarrow> 'r \<Rightarrow> (nat \<times> 'r) option" where
  "executeRemovePresence R user inst conn nowMs keyTtl r =
     (case (getPresenceUserKey user, formatPresenceMember inst conn) of
        (Some key, Some member) \<Rightarrow> Some (REMOVE_PRESENCE_LUA R key member nowMs keyTtl r)
      | _ \<Rightarrow> None)"

definition executeGetRoomPresenceRoster ::
  "'r redis_api \<Rightarrow> string \<Rightarrow> int \<Rightarrow> 'r \<Rightarrow> (string list \<times> 'r) option" where
  "executeGetRoomPresenceRoster R room nowMs r =
     (case getRoomMembersKey room of
        None \<Rightarrow> None
      | Some key \<Rightarrow>
          let (result, r') = GET_ROOM_PRESENCE_ROSTER_LUA R key nowMs r in
          Some (if js_trim result = [] then [] else filter (\<lambda>s. s \<noteq> []) (split_char CHR '','' result), r'))"

section \<open>Documented behaviour of the commands\<close>

text \<open>
  \<open>Z r key\<close> is the content of a sorted set, member to score, and \<open>S r key\<close> of a set. Each command
  changes only the key it names; pruning removes the members whose score is at most the bound.
\<close>

definition unexpired :: "int \<Rightarrow> (string \<rightharpoonup> int) \<Rightarrow> (string \<rightharpoonup> int)" where
  "unexpired b z = (\<lambda>m. case z m of None \<Rightarrow> None | Some s \<Rightarrow> if s \<le> b then None else Some s)"

lemma unexpired_Some: "unexpired b z m = Some s \<longleftrightarrow> z m = Some s \<and> b < s"
  by (auto simp: unexpired_def split: option.splits if_splits)

definition redis_ok :: "'r redis_api \<Rightarrow> ('r \<Rightarrow> string \<Rightarrow> (string \<rightharpoonup> int)) \<Rightarrow> ('r \<Rightarrow> string \<Rightarrow> string set) \<Rightarrow> bool" where
  "redis_ok R Z S \<longleftrightarrow>
     (\<forall>r k. finite (dom (Z r k)))
     \<and> (\<forall>k b r. Z (snd (zremrangebyscore R k b r)) =
          (Z r)(k := unexpired b (Z r k)))
     \<and> (\<forall>k r. zcard R k r = card (dom (Z r k)))
     \<and> (\<forall>k s m r. Z (zadd R k s m r) = (Z r)(k := (Z r k)(m \<mapsto> s)))
     \<and> (\<forall>k m r. Z (zrem R k m r) = (Z r)(k := (Z r k)(m := None)))
     \<and> (\<forall>k t r. Z (expire R k t r) = Z r) \<and> (\<forall>k r. Z (del R k r) = (Z r)(k := Map.empty))
     \<and> (\<forall>k m r. Z (srem R k m r) = Z r) \<and> (\<forall>k m r. Z (sadd R k m r) = Z r)
     \<and> (\<forall>k b r. S (snd (zremrangebyscore R k b r)) = S r)
     \<and> (\<forall>k r. set (smembers R k r) = S r k \<and> distinct (smembers R k r))
     \<and> (\<forall>k m r. S (srem R k m r) = (S r)(k := S r k - {m}))
     \<and> (\<forall>k m r. S (sadd R k m r) = (S r)(k := insert m (S r k)))"

lemma redis_okD:
  assumes "redis_ok R Z S"
  shows "finite (dom (Z r k))"
    "Z (snd (zremrangebyscore R k b r)) =
       (Z r)(k := unexpired b (Z r k))"
    "zcard R k r = card (dom (Z r k))"
    "Z (zadd R k s m r) = (Z r)(k := (Z r k)(m \<mapsto> s))" "Z (zrem R k m r) = (Z r)(k := (Z r k)(m := None))"
    "Z (expire R k t r) = Z r" "Z (del R k r) = (Z r)(k := Map.empty)"
    "Z (srem R k m r) = Z r" "Z (sadd R k m r) = Z r" "S (snd (zremrangebyscore R k b r)) = S r"
    "set (smembers R k r) = S r k" "distinct (smembers R k r)"
    "S (srem R k m r) = (S r)(k := S r k - {m})" "S (sadd R k m r) = (S r)(k := insert m (S r k))"
  using assms unfolding redis_ok_def by simp_all

text \<open>The leases of a key that are alive at a time.\<close>

definition live :: "(string \<rightharpoonup> int) \<Rightarrow> int \<Rightarrow> string set" where
  "live z now = {m. \<exists>s. z m = Some s \<and> s > now}"

lemma dom_pruned: "dom (unexpired now z) = live z now"
  by (auto simp: live_def dom_def unexpired_Some)

lemma live_pruned: "live (unexpired b z) now = live z now \<inter> live z b"
  by (auto simp: live_def unexpired_Some)

lemma zcard_pruned:
  assumes "redis_ok R Z S"
  shows "zcard R k (snd (zremrangebyscore R k now r)) = 0 \<longleftrightarrow> live (Z r k) now = {}"
  using redis_okD(1) [OF assms, of "snd (zremrangebyscore R k now r)" k]
  by (simp add: redis_okD(2,3) [OF assms] dom_pruned)

lemma register_script:
  fixes key m :: string and ttl :: int and r :: 'r
  assumes ok: "redis_ok R Z S" and "expireAt > now"
  defines "reg \<equiv> REGISTER_PRESENCE_LUA R key m expireAt now ttl r"
  shows "fst reg = 1 \<longleftrightarrow> live (Z r key) now = {}"
    and "live (Z (snd reg) key) now = insert m (live (Z r key) now)"
    and "k \<noteq> key \<Longrightarrow> Z (snd reg) k = Z r k"
proof -
  note d = redis_okD [OF ok]
  show "fst reg = 1 \<longleftrightarrow> live (Z r key) now = {}"
    by (simp add: reg_def REGISTER_PRESENCE_LUA_def Let_def zcard_pruned [OF ok])
  have "Z (snd reg) key = (unexpired now (Z r key))(m \<mapsto> expireAt)"
    by (simp add: reg_def REGISTER_PRESENCE_LUA_def Let_def d)
  then show "live (Z (snd reg) key) now = insert m (live (Z r key) now)"
    using assms(2) by (auto simp: live_def unexpired_Some)
  show "Z (snd reg) k = Z r k" if "k \<noteq> key"
    using that by (simp add: reg_def REGISTER_PRESENCE_LUA_def Let_def d)
qed

lemma remove_script:
  fixes key m :: string and ttl now :: int and r :: 'r
  assumes ok: "redis_ok R Z S"
  defines "rem \<equiv> REMOVE_PRESENCE_LUA R key m now ttl r"
  shows "fst rem = 1 \<longleftrightarrow> live (Z r key) now - {m} = {}"
    and "live (Z (snd rem) key) now = live (Z r key) now - {m}"
    and "k \<noteq> key \<Longrightarrow> Z (snd rem) k = Z r k"
proof -
  note d = redis_okD [OF ok]
  have upd: "live ((Z r key)(m := None)) now = live (Z r key) now - {m}" by (auto simp: live_def)
  have rem: "rem = (if live (Z r key) now - {m} = {}
      then (1, del R key (snd (zremrangebyscore R key now (zrem R key m r))))
      else (0, expire R key ttl (snd (zremrangebyscore R key now (zrem R key m r)))))"
    using zcard_pruned [OF ok, of key now "zrem R key m r"]
    by (auto simp: rem_def REMOVE_PRESENCE_LUA_def Let_def d(5) upd simp flip: neq0_conv)
  then show "fst rem = 1 \<longleftrightarrow> live (Z r key) now - {m} = {}" by simp
  show "live (Z (snd rem) key) now = live (Z r key) now - {m}"
  proof (cases "live (Z r key) now - {m} = {}")
    case True
    then have "Z (snd rem) key = Map.empty" by (simp add: rem d(7))
    with True show ?thesis by (simp add: live_def)
  next
    case False
    then have "Z (snd rem) key = unexpired now ((Z r key)(m := None))" by (simp add: rem d(2,5,6))
    then show ?thesis by (simp add: live_pruned upd)
  qed
  show "Z (snd rem) k = Z r k" if "k \<noteq> key"
    using that by (simp add: rem_def REMOVE_PRESENCE_LUA_def Let_def d)
qed

text \<open>
  C18: presence transitions are exact. Run atomically by Redis, the registration script reports the
  ONLINE transition exactly when the user had no live lease on any instance, and afterwards the
  user's live leases are the previous ones and the new one; the removal script reports OFFLINE
  exactly when no other live lease is left, and removes that lease only. Neither script touches
  another user's leases.
\<close>

theorem presence_transitions_exact:
  assumes ok: "redis_ok R Z S" and "expireAt > now"
  shows "(fst (REGISTER_PRESENCE_LUA R key m expireAt now ttl r) = 1 \<longleftrightarrow> live (Z r key) now = {})
     \<and> live (Z (snd (REGISTER_PRESENCE_LUA R key m expireAt now ttl r)) key) now = insert m (live (Z r key) now)
     \<and> (fst (REMOVE_PRESENCE_LUA R key m now ttl r) = 1 \<longleftrightarrow> live (Z r key) now - {m} = {})
     \<and> live (Z (snd (REMOVE_PRESENCE_LUA R key m now ttl r)) key) now = live (Z r key) now - {m}
     \<and> (\<forall>k. k \<noteq> key \<longrightarrow> Z (snd (REGISTER_PRESENCE_LUA R key m expireAt now ttl r)) k = Z r k
                      \<and> Z (snd (REMOVE_PRESENCE_LUA R key m now ttl r)) k = Z r k)"
  using register_script(1,2) [OF assms] remove_script(1,2) [OF ok] register_script(3) [OF assms] remove_script(3) [OF ok]
  by simp

section \<open>A concrete store\<close>

text \<open>Sorted sets as association lists and sets as lists: the commands behave as documented.\<close>

record sim_redis =
  simZ :: "string \<Rightarrow> (string, int) jsmap"
  simS :: "string \<Rightarrow> string list"

definition sim_redis_api :: "sim_redis redis_api" where
  "sim_redis_api =
     \<lparr>zremrangebyscore = (\<lambda>k b r. (length (filter (\<lambda>p. snd p \<le> b) (AList.clearjunk (simZ r k))),
         r\<lparr>simZ := (simZ r)(k := filter (\<lambda>p. b < snd p) (AList.clearjunk (simZ r k)))\<rparr>)),
      zcard = (\<lambda>k r. length (AList.clearjunk (simZ r k))),
      zadd = (\<lambda>k s m r. r\<lparr>simZ := (simZ r)(k := AList.update m s (simZ r k))\<rparr>),
      zrem = (\<lambda>k m r. r\<lparr>simZ := (simZ r)(k := AList.delete m (simZ r k))\<rparr>),
      zrangebyscore = (\<lambda>k b r. map fst (filter (\<lambda>p. b \<le> snd p) (AList.clearjunk (simZ r k)))),
      expire = (\<lambda>k t r. r),
      del = (\<lambda>k r. r\<lparr>simZ := (simZ r)(k := [])\<rparr>),
      smembers = (\<lambda>k r. remdups (simS r k)),
      sadd = (\<lambda>k m r. r\<lparr>simS := (simS r)(k := m # simS r k)\<rparr>),
      srem = (\<lambda>k m r. r\<lparr>simS := (simS r)(k := filter (\<lambda>x. x \<noteq> m) (simS r k))\<rparr>)\<rparr>"

lemma map_of_filter_value:
  "distinct (map fst m) \<Longrightarrow> map_of (filter (\<lambda>p. b < snd p) m) = unexpired b (map_of m)"
proof (induction m)
  case (Cons p m)
  have "map_of m (fst p) = None" using Cons.prems by (simp add: map_of_eq_None_iff)
  with Cons show ?case by (intro ext) (auto simp: unexpired_def split: option.splits)
qed (simp add: unexpired_def)

lemma sim_redis_ok: "redis_ok sim_redis_api (\<lambda>r k. map_of (simZ r k)) (\<lambda>r k. set (simS r k))"
proof -
  have "length (AList.clearjunk m) = card (dom (map_of m))" for m :: "(string \<times> int) list"
    by (metis distinct_card distinct_clearjunk dom_clearjunk dom_map_of_conv_image_fst length_map set_map)
  moreover have "{x \<in> A. x \<noteq> m} = A - {m}" for A and m :: string by auto
  ultimately show ?thesis
    unfolding redis_ok_def sim_redis_api_def
    by (auto simp: fun_eq_iff finite_dom_map_of map_of_filter_value [OF distinct_clearjunk] map_of_clearjunk)
qed

definition empty_redis :: sim_redis where
  "empty_redis = \<lparr>simZ = (\<lambda>_. []), simS = (\<lambda>_. [])\<rparr>"

theorem presence_transitions_exact_witness:
  "fst (REGISTER_PRESENCE_LUA sim_redis_api ''k'' ''node-a:c1'' 60 5 120 empty_redis) = 1
   \<and> live (map_of (simZ (snd (REGISTER_PRESENCE_LUA sim_redis_api ''k'' ''node-a:c1'' 60 5 120 empty_redis)) ''k'')) 5
       = {''node-a:c1''}"
  using presence_transitions_exact [OF sim_redis_ok, of 5 60 "''k''" "''node-a:c1''" 120 empty_redis]
  by (simp add: empty_redis_def live_def)

section \<open>Rosters\<close>

lemma roster_loop_correct:
  assumes ok: "redis_ok R Z S" and "distinct us"
  shows "fst (roster_loop R key now us r) = filter (\<lambda>u. live (Z r (PRESENCE_USER_KEY_PREFIX @ u)) now \<noteq> {}) us
     \<and> S (snd (roster_loop R key now us r)) key =
          S r key - {u \<in> set us. live (Z r (PRESENCE_USER_KEY_PREFIX @ u)) now = {}}
     \<and> (\<forall>k. live (Z (snd (roster_loop R key now us r)) k) now = live (Z r k) now)"
  using assms(2)
proof (induction us arbitrary: r)
  case (Cons u us)
  note d = redis_okD [OF ok]
  let ?k = "PRESENCE_USER_KEY_PREFIX @ u"
  let ?r1 = "snd (zremrangebyscore R ?k now r)"
  have lv: "live (Z ?r1 k) now = live (Z r k) now" for k by (simp add: d(2) live_pruned)
  have S1: "S ?r1 = S r" by (simp add: d)
  have pos: "zcard R ?k ?r1 > 0 \<longleftrightarrow> live (Z r ?k) now \<noteq> {}"
    using zcard_pruned [OF ok, of ?k now r] by (simp flip: neq0_conv)
  show ?case
  proof (cases "live (Z r ?k) now = {}")
    case True
    let ?r2 = "srem R key u ?r1"
    have "roster_loop R key now (u # us) r = roster_loop R key now us ?r2"
      using True pos by (simp add: Let_def PRESENCE_USER_KEY_PREFIX_def)
    moreover have "Z ?r2 = Z ?r1" "S ?r2 key = S r key - {u}" by (simp_all add: d(8,13) S1)
    ultimately show ?thesis using Cons.IH [of ?r2] Cons.prems True lv by auto
  next
    case False
    then have "roster_loop R key now (u # us) r =
        (u # fst (roster_loop R key now us ?r1), snd (roster_loop R key now us ?r1))"
      using pos by (simp add: Let_def PRESENCE_USER_KEY_PREFIX_def case_prod_beta)
    then show ?thesis using Cons.IH [of ?r1] Cons.prems False lv S1 by auto
  qed
qed simp

lemma split_join_comma:
  "\<forall>u \<in> set us. CHR '','' \<notin> set u \<and> u \<noteq> [] \<Longrightarrow> filter (\<lambda>s. s \<noteq> []) (split_char CHR '','' (join_comma us)) = us"
  by (induction us rule: join_comma.induct) (auto simp: split_char_no_sep split_char_append)

lemma js_trim_Nil_iff: "js_trim s = [] \<longleftrightarrow> (\<forall>c \<in> set s. js_ws c)"
proof -
  have "js_trim s = [] \<longleftrightarrow> (\<forall>c \<in> set (dropWhile js_ws s). js_ws c)"
    by (simp add: js_trim_def dropWhile_eq_Nil_conv)
  also have "\<dots> \<longleftrightarrow> (\<forall>c \<in> set s. js_ws c)"
    by (induction s) auto
  finally show ?thesis .
qed

lemma set_join_comma: "u \<in> set us \<Longrightarrow> set u \<subseteq> set (join_comma us)"
  by (induction us rule: join_comma.induct) auto

text \<open>
  The roster of a room lists who is online. For room members whose identifiers contain neither
  commas nor only blanks, the roster is exactly the members of the room's set that have a live
  lease somewhere in the cluster, each once; the members without one are removed from the set, and
  no live lease of anyone is lost.
\<close>

theorem roster_lists_online_members:
  assumes ok: "redis_ok R Z S" and key: "getRoomMembersKey room = Some key"
    and names: "\<forall>u \<in> S r key. CHR '','' \<notin> set u \<and> js_trim u = u \<and> u \<noteq> []"
  shows "\<exists>members r'. executeGetRoomPresenceRoster R room now r = Some (members, r')
     \<and> set members = {u \<in> S r key. live (Z r (PRESENCE_USER_KEY_PREFIX @ u)) now \<noteq> {}} \<and> distinct members
     \<and> S r' key = set members \<and> (\<forall>k. live (Z r' k) now = live (Z r k) now)"
proof -
  note d = redis_okD [OF ok]
  let ?us = "smembers R key r"
  let ?on = "filter (\<lambda>u. live (Z r (PRESENCE_USER_KEY_PREFIX @ u)) now \<noteq> {}) ?us"
  have us: "set ?us = S r key" "distinct ?us" by (simp_all add: d)
  note loop = roster_loop_correct [OF ok us(2), of key now r]
  have ok_names: "\<forall>u \<in> set ?on. CHR '','' \<notin> set u \<and> u \<noteq> []" using names us by auto
  have blank: "js_trim (join_comma ?on) = [] \<longleftrightarrow> ?on = []"
  proof (cases "?on = []")
    case False
    then obtain u where u: "u \<in> set ?on" by (meson last_in_set)
    then have "js_trim u = u" "u \<noteq> []" using names us by auto
    then have "\<not> (\<forall>c \<in> set u. js_ws c)" using js_trim_Nil_iff [of u] by simp
    then show ?thesis using set_join_comma [OF u] False by (auto simp: js_trim_Nil_iff)
  qed simp
  let ?r' = "snd (roster_loop R key now ?us r)"
  have "executeGetRoomPresenceRoster R room now r = Some (?on, ?r')"
    using key loop blank split_join_comma [OF ok_names]
    by (simp add: executeGetRoomPresenceRoster_def GET_ROOM_PRESENCE_ROSTER_LUA_def case_prod_beta Let_def del: filter_filter)
  moreover have "S ?r' key = set ?on" using loop us by auto
  ultimately show ?thesis using loop us by (intro exI [of _ ?on] exI [of _ ?r']) auto
qed

theorem roster_lists_online_members_witness:
  "\<exists>members r'. executeGetRoomPresenceRoster sim_redis_api ''lobby'' 5
       (sadd sim_redis_api ''pulse:room:lobby:members'' ''bob''
         (snd (REGISTER_PRESENCE_LUA sim_redis_api ''pulse:presence:user:bob'' ''n:c'' 60 1 120 empty_redis)))
      = Some (members, r') \<and> set members = {''bob''}"
proof -
  let ?r = "sadd sim_redis_api ''pulse:room:lobby:members'' ''bob''
         (snd (REGISTER_PRESENCE_LUA sim_redis_api ''pulse:presence:user:bob'' ''n:c'' 60 1 120 empty_redis))"
  have key: "getRoomMembersKey ''lobby'' = Some ''pulse:room:lobby:members''" by code_simp
  have S: "simS ?r ''pulse:room:lobby:members'' = [''bob'']" by code_simp
  have Z: "simZ ?r ''pulse:presence:user:bob'' = [(''n:c'', 60)]" by code_simp
  have t: "js_trim ''bob'' = ''bob''" by code_simp
  have "live (map_of (simZ ?r (PRESENCE_USER_KEY_PREFIX @ ''bob''))) 5 = {''n:c''}"
    using Z by (auto simp: live_def PRESENCE_USER_KEY_PREFIX_def)
  then have on: "{u \<in> set (simS ?r ''pulse:room:lobby:members''). live (map_of (simZ ?r (PRESENCE_USER_KEY_PREFIX @ u))) 5 \<noteq> {}} = {''bob''}"
    unfolding S by auto
  have names: "\<forall>u \<in> set (simS ?r ''pulse:room:lobby:members''). CHR '','' \<notin> set u \<and> js_trim u = u \<and> u \<noteq> []"
    unfolding S by (simp add: t)
  show ?thesis
    using roster_lists_online_members [of sim_redis_api "\<lambda>r k. map_of (simZ r k)" "\<lambda>r k. set (simS r k)" "''lobby''"
        "''pulse:room:lobby:members''" ?r 5, OF sim_redis_ok key names]
    unfolding on by blast
qed

section \<open>Lease members\<close>

text \<open>The member text determines instance and connection when the instance has no colon.\<close>

lemma parse_format_member:
  "CHR '':'' \<notin> set inst \<Longrightarrow> formatPresenceMember inst conn = Some m \<Longrightarrow> parsePresenceMember m = Some (inst, conn)"
  by (auto simp: formatPresenceMember_def parsePresenceMember_def Let_def takeWhile_append dropWhile_append
      takeWhile_eq_all_conv split: if_splits)

end
