(* ===== verification/Presence_Tracker.thy ===== *)
theory Presence_Tracker
  imports Js_Value Cache_Spec
begin

text \<open>
  \<^verbatim>\<open>src/redis/PresenceEventTracker.ts\<close>: the last timestamp seen per user, bounded by evicting the
  user whose timestamp was recorded longest ago.
\<close>

record tracker =
  maxUsers :: nat
  lastSeenTimestamps :: "(string, jsnum) jsmap"

definition new_PresenceEventTracker :: "nat option \<Rightarrow> tracker" where
  "new_PresenceEventTracker mu =
     \<lparr>maxUsers = (case mu of None \<Rightarrow> 10000 | Some n \<Rightarrow> n), lastSeenTimestamps = []\<rparr>"

definition seen_before :: "string \<Rightarrow> jsnum \<Rightarrow> tracker \<Rightarrow> bool" where
  "seen_before u ts t =
     (case map_of (lastSeenTimestamps t) u of None \<Rightarrow> False | Some l \<Rightarrow> num_leq ts l)"

definition isStale :: "string \<Rightarrow> jsnum \<Rightarrow> tracker \<Rightarrow> bool" where
  "isStale u ts t = (if u = [] \<or> ts = NaN then True else seen_before u ts t)"

text \<open>Lines 69-80: the entry moves to the end, or the oldest user makes room.\<close>

definition track :: "string \<Rightarrow> jsnum \<Rightarrow> tracker \<Rightarrow> tracker" where
  "track u ts t =
     t\<lparr>lastSeenTimestamps :=
        js_set u ts
          (if js_has (lastSeenTimestamps t) u then js_delete u (lastSeenTimestamps t)
           else if length (lastSeenTimestamps t) \<ge> maxUsers t then evict_oldest (lastSeenTimestamps t)
           else lastSeenTimestamps t)\<rparr>"

definition recordEvent :: "string \<Rightarrow> jsnum \<Rightarrow> tracker \<Rightarrow> bool \<times> tracker" where
  "recordEvent u ts t =
     (if u = [] \<or> ts = NaN then (False, t)
      else if seen_before u ts t then (False, t)
      else (True, track u ts t))"

definition tracker_clear :: "tracker \<Rightarrow> tracker" where
  "tracker_clear t = t\<lparr>lastSeenTimestamps := []\<rparr>"

definition tracker_inv :: "tracker \<Rightarrow> bool" where
  "tracker_inv t \<longleftrightarrow> wf_map (lastSeenTimestamps t)"

lemma tracker_inv_track [keeps_inv]: "tracker_inv t \<Longrightarrow> tracker_inv (track u ts t)"
  by (simp add: tracker_inv_def track_def)

lemma track_keys:
  "tracker_inv t \<Longrightarrow> lastSeenTimestamps (track u ts t) =
     (if js_has (lastSeenTimestamps t) u then js_delete u (lastSeenTimestamps t)
      else if length (lastSeenTimestamps t) \<ge> maxUsers t then tl (lastSeenTimestamps t)
      else lastSeenTimestamps t) @ [(u, ts)]"
  using contra_subsetD [OF keys_tl_subset [of "lastSeenTimestamps t"], of u]
  by (simp add: track_def tracker_inv_def evict_oldest_tl js_has_iff map_of_eq_None_iff js_set_absent)

interpretation tracked: bounded_cache lastSeenTimestamps maxUsers track "\<lambda>_. True" tracker_inv
proof unfold_locales
  fix t u ts u'
  assume i: "tracker_inv t"
  have tl: "map_of (tl (lastSeenTimestamps t)) u' \<in> {None, map_of (lastSeenTimestamps t) u'}"
    using i map_of_evict [of "lastSeenTimestamps t" u'] by (simp add: tracker_inv_def evict_oldest_tl)
  show "u' \<noteq> u \<Longrightarrow> map_of (lastSeenTimestamps (track u ts t)) u' \<in> {None, map_of (lastSeenTimestamps t) u'}"
    using tl i by (auto simp: track_def tracker_inv_def evict_oldest_tl)
  show "length (lastSeenTimestamps (track u ts t)) \<le> max (length (lastSeenTimestamps t)) (max (maxUsers t) 1)"
    using i length_js_delete [of "lastSeenTimestamps t" u] by (auto simp: track_keys js_has_iff tracker_inv_def map_of_eq_None_iff)
qed (auto simp: track_def tracker_inv_def)

section \<open>Stale events\<close>

lemma recordEvent_inv [keeps_inv]: "tracker_inv t \<Longrightarrow> tracker_inv (snd (recordEvent u ts t))"
  by (simp add: recordEvent_def keeps_inv)

text \<open>A run of events: which are accepted.\<close>

fun record_run :: "(string \<times> jsnum) list \<Rightarrow> tracker \<Rightarrow> (string \<times> jsnum) list \<times> tracker" where
  "record_run [] t = ([], t)"
| "record_run ((u, ts) # es) t =
     (let (ok, t') = recordEvent u ts t; (acc, t'') = record_run es t'
      in ((if ok then [(u, ts)] else []) @ acc, t''))"

definition stamps :: "string \<Rightarrow> (string \<times> jsnum) list \<Rightarrow> jsnum list" where
  "stamps u es = map snd (filter (\<lambda>e. fst e = u) es)"

lemma track_get:
  "map_of (lastSeenTimestamps (track u ts t)) u = Some ts"
  by (simp add: track_def)

lemma track_keeps_others:
  assumes "tracker_inv t" "map_of (lastSeenTimestamps t) u' = Some l" "u' \<noteq> u"
    "fst ` set (lastSeenTimestamps t) \<union> {u} \<subseteq> S" "finite S" "card S \<le> maxUsers t"
  shows "map_of (lastSeenTimestamps (track u ts t)) u' = Some l"
proof (cases "js_has (lastSeenTimestamps t) u")
  case False
  have "card (insert u (fst ` set (lastSeenTimestamps t))) \<le> card S"
    using assms(4,5) by (intro card_mono) auto
  moreover have "card (fst ` set (lastSeenTimestamps t)) = length (lastSeenTimestamps t)"
    using assms(1) distinct_card [of "map fst (lastSeenTimestamps t)"] by (simp add: tracker_inv_def)
  ultimately have "length (lastSeenTimestamps t) < maxUsers t"
    using False assms(6) by (simp add: js_has_iff map_of_eq_None_iff)
  then show ?thesis using assms tracked.put_room [of t u' u ts] by simp
qed (use assms in \<open>simp add: track_def\<close>)

lemma track_keyset:
  "tracker_inv t \<Longrightarrow> fst ` set (lastSeenTimestamps (track u ts t)) \<subseteq> insert u (fst ` set (lastSeenTimestamps t))"
  using keys_tl_subset [of "lastSeenTimestamps t"] by (auto simp: track_keys)

lemma record_run_above:
  assumes "tracker_inv t" "finite S" "card S \<le> maxUsers t"
    "fst ` set (lastSeenTimestamps t) \<union> fst ` set es \<subseteq> S"
  shows "(\<forall>l. map_of (lastSeenTimestamps t) u = Some l \<and> l \<noteq> NaN \<longrightarrow>
            sorted_wrt num_less (l # stamps u (fst (record_run es t))))
       \<and> (map_of (lastSeenTimestamps t) u = None \<longrightarrow> sorted_wrt num_less (stamps u (fst (record_run es t))))"
  using assms
proof (induction es arbitrary: t)
  case Nil
  then show ?case by (simp add: stamps_def)
next
  case (Cons ev es)
  obtain v ts where ev: "ev = (v, ts)" by fastforce
  show ?case
  proof (cases "fst (recordEvent v ts t)")
    case False
    then have "record_run (ev # es) t = record_run es t"
      by (auto simp: ev recordEvent_def split: prod.splits if_splits)
    with Cons show ?thesis by auto
  next
    case True
    let ?t = "track v ts t"
    have rec: "recordEvent v ts t = (True, ?t)" "ts \<noteq> NaN" "\<not> seen_before v ts t"
      using True by (auto simp: recordEvent_def split: if_splits)
    have run: "fst (record_run (ev # es) t) = (v, ts) # fst (record_run es ?t)"
      by (simp add: ev rec split: prod.splits)
    have inv: "tracker_inv ?t" "maxUsers ?t = maxUsers t" using Cons.prems(1) by (simp_all add: keeps_inv tracked.put_cap)
    have keys: "fst ` set (lastSeenTimestamps ?t) \<union> fst ` set es \<subseteq> S"
      using track_keyset [OF Cons.prems(1), of v ts] Cons.prems(4) by (auto simp: ev)
    note IH = Cons.IH [OF inv(1) Cons.prems(2) _ keys, unfolded inv(2), OF Cons.prems(3)]
    show ?thesis
    proof (cases "u = v")
      case True
      from IH True have s: "sorted_wrt num_less (ts # stamps u (fst (record_run es ?t)))" using rec(2) by (simp add: track_get)
      have "num_less l ts" if "map_of (lastSeenTimestamps t) u = Some l" "l \<noteq> NaN" for l
        using that rec(2,3) True by (cases ts; cases l) (auto simp: seen_before_def)
      with s True show ?thesis by (auto simp: run stamps_def intro: num_less_trans)
    next
      case False
      have "map_of (lastSeenTimestamps ?t) u = map_of (lastSeenTimestamps t) u"
      proof (cases "map_of (lastSeenTimestamps t) u")
        case None
        then show ?thesis using tracked.put_other [OF Cons.prems(1), of u v ts] False by auto
      next
        case (Some l)
        then show ?thesis
          using track_keeps_others [OF Cons.prems(1) Some False _ Cons.prems(2,3)] Cons.prems(4) by (auto simp: ev)
      qed
      with IH False show ?thesis by (auto simp: run stamps_def)
    qed
  qed
qed

text \<open>
  Presence never goes back in time. Along any run of presence events that names at most as
  many users as the tracker holds, the timestamps accepted for each user are strictly increasing:
  a late, repeated or replayed event is refused, whatever the order of arrival.
\<close>

theorem accepted_presence_increases:
  assumes "card (fst ` set es) \<le> n"
  shows "sorted_wrt num_less (stamps u (fst (record_run es (new_PresenceEventTracker (Some n)))))"
  using record_run_above [of "new_PresenceEventTracker (Some n)" "fst ` set es" es u] assms
  by (simp add: new_PresenceEventTracker_def tracker_inv_def)

theorem accepted_presence_increases_witness:
  "sorted_wrt num_less (stamps ''ada'' (fst (record_run
     [(''ada'', FinNum 5), (''bob'', FinNum 9), (''ada'', FinNum 3), (''ada'', FinNum 7)] (new_PresenceEventTracker (Some 2)))))"
  by (rule accepted_presence_increases) (simp add: card_insert_if)

text \<open>
  The bound is needed. When more users are active than the tracker holds, the eviction of a
  user forgets its last timestamp and an older event for that user is accepted after a newer one.
\<close>

theorem eviction_forgets_order:
  "fst (record_run [(''ada'', FinNum 9), (''bob'', FinNum 1), (''ada'', FinNum 3)] (new_PresenceEventTracker (Some 1)))
     = [(''ada'', FinNum 9), (''bob'', FinNum 1), (''ada'', FinNum 3)]"
  by (simp add: recordEvent_def seen_before_def track_def new_PresenceEventTracker_def evict_oldest_def)

end
