(* ===== verification/Presence_Manager.thy ===== *)
theory Presence_Manager
  imports Presence_Scripts Presence_Tracker Channel_Registry
begin

text \<open>
  \<^verbatim>\<open>src/redis/PresenceManager.ts\<close>: the leases of the local connections in Redis, the published
  presence transitions, the room rosters. Each method is the composition of its segments in the
  order the code runs them; whether an awaited call resolves or rejects is the environment's
  choice, given by \<open>replies\<close>. A rejected call leaves the Redis state as it was.
\<close>

record replies =
  evalOk :: bool
  pruneOk :: bool
  cardOk :: bool
  publishOk :: bool
  execOk :: bool

record presence =
  presenceTtlMs :: int
  presenceFlushIntervalMs :: int
  keySafeguardTtlSec :: int
  eventTracker :: tracker
  localConnections :: "(string, string) jsmap"
  hasProvider :: bool
  hasPubSub :: bool
  isFlushing :: bool
  eventsPublished :: nat
  eventsReceived :: nat
  pruneLatencyMs :: int
  totalLeaseRenewals :: nat
  renewalRunning :: bool

definition new_PresenceManager :: "int option \<Rightarrow> int option \<Rightarrow> int option \<Rightarrow> nat option \<Rightarrow> bool \<Rightarrow> presence" where
  "new_PresenceManager ttl flush keyTtl maxTracked pubsub =
     \<lparr>presenceTtlMs = (case ttl of None \<Rightarrow> 60000 | Some t \<Rightarrow> t),
      presenceFlushIntervalMs = (case flush of None \<Rightarrow> 15000 | Some t \<Rightarrow> t),
      keySafeguardTtlSec = (case keyTtl of None \<Rightarrow> DEFAULT_KEY_SAFEGUARD_TTL_SEC | Some t \<Rightarrow> t),
      eventTracker = new_PresenceEventTracker maxTracked, localConnections = [], hasProvider = False,
      hasPubSub = pubsub, isFlushing = False, eventsPublished = 0, eventsReceived = 0, pruneLatencyMs = 0,
      totalLeaseRenewals = 0, renewalRunning = False\<rparr>"

definition isStalePresenceEvent :: "string \<Rightarrow> jsnum \<Rightarrow> presence \<Rightarrow> bool" where
  "isStalePresenceEvent u ts pm = isStale u ts (eventTracker pm)"

definition recordPresenceEvent :: "string \<Rightarrow> jsnum \<Rightarrow> presence \<Rightarrow> bool \<times> presence" where
  "recordPresenceEvent u ts pm =
     (let (ok, t) = recordEvent u ts (eventTracker pm) in (ok, pm\<lparr>eventTracker := t\<rparr>))"

definition updateActiveMetrics :: "presence \<Rightarrow> 'a chan_state_scheme \<Rightarrow> 'a chan_state_scheme" where
  "updateActiveMetrics pm st =
     (let onlineUsers = length (set_of_array (map snd (localConnections pm)));
          activeConns = length (localConnections pm);
          st1 = (if hasPubSub pm then setPresenceCounts onlineUsers activeConns st else st)
      in metric (MSet ''pulse_presence_connections_active'' (int activeConns))
           (metric (MSet ''pulse_presence_users_online'' (int onlineUsers)) st1))"

definition presence_op_metric :: "string \<Rightarrow> string \<Rightarrow> 'a chan_state_scheme \<Rightarrow> 'a chan_state_scheme" where
  "presence_op_metric operation status =
     metric (MInc ''pulse_presence_operations_total'' [(''operation'', operation), (''status'', status)] 1)"

section \<open>Presence events\<close>

datatype presence_status = ONLINE | OFFLINE

fun presence_status_name :: "presence_status \<Rightarrow> string" where
  "presence_status_name ONLINE = ''ONLINE''"
| "presence_status_name OFFLINE = ''OFFLINE''"

definition presence_payload :: "string \<Rightarrow> presence_status \<Rightarrow> nat \<Rightarrow> string list option \<Rightarrow> json" where
  "presence_payload u s n rms =
     JObj ([(''userId'', JStr u), (''status'', JStr (presence_status_name s)), (''activeConnections'', JNum (int_num (int n)))]
        @ opt_field ''rooms'' (map_option (\<lambda>rs. JArr (map JStr rs)) rms))"

definition publishPresenceUpdate ::
  "(nat \<Rightarrow> nat) \<Rightarrow> int \<Rightarrow> string \<Rightarrow> replies \<Rightarrow> string \<Rightarrow> presence_status \<Rightarrow> nat \<Rightarrow> string list option
     \<Rightarrow> presence \<times> 'a chan_state_scheme \<Rightarrow> presence \<times> 'a chan_state_scheme" where
  "publishPresenceUpdate rnd now inst ok u status n rms = (\<lambda>(pm, st).
     if \<not> hasPubSub pm \<or> \<not> link_connected st then (pm, st)
     else let (eid, st1) = freshId rnd now st;
              env = (system_envelope eid PRESENCE_UPDATE now None None (presence_payload u status n rms))
                      \<lparr>originInstanceId := Some inst, originTimestampMs := Some (int_num now)\<rparr>
          in case pubsub_publish CHANNEL_PRESENCE_EVENTS env st1 of
               (Inl _, st2) \<Rightarrow> (pm, st2)
             | (Inr _, st2) \<Rightarrow>
                 let st3 = publish_reply 0 (\<not> publishOk ok) st2 in
                 if publishOk ok
                 then (pm\<lparr>eventsPublished := Suc (eventsPublished pm)\<rparr>,
                       inc_metric ''pulse_presence_events_total'' ''direction'' ''published'' (recordPresenceEventPublished st3))
                 else (pm, st3))"

definition recordInboundEvent :: "presence \<times> 'a chan_state_scheme \<Rightarrow> presence \<times> 'a chan_state_scheme" where
  "recordInboundEvent = (\<lambda>(pm, st).
     let st1 = (if hasPubSub pm then recordPresenceEventReceived st else st)
     in (pm\<lparr>eventsReceived := Suc (eventsReceived pm)\<rparr>,
         inc_metric ''pulse_presence_events_total'' ''direction'' ''received'' st1))"

section \<open>Leases\<close>

definition getUserConnectionCount :: "'r redis_api \<Rightarrow> replies \<Rightarrow> string \<Rightarrow> int \<Rightarrow> 'r \<Rightarrow> nat \<times> 'r" where
  "getUserConnectionCount R ok u now r =
     (case getPresenceUserKey u of
        None \<Rightarrow> (0, r)
      | Some key \<Rightarrow>
          if \<not> pruneOk ok then (0, r)
          else let r1 = snd (zremrangebyscore R key now r) in
               if \<not> cardOk ok then (0, r1) else (zcard R key r1, r1))"

definition isUserOnline :: "'r redis_api \<Rightarrow> replies \<Rightarrow> string \<Rightarrow> int \<Rightarrow> 'r \<Rightarrow> bool \<times> 'r" where
  "isUserOnline R ok u now r = (let (n, r') = getUserConnectionCount R ok u now r in (n > 0, r'))"

definition getUserConnections :: "'r redis_api \<Rightarrow> replies \<Rightarrow> string \<Rightarrow> int \<Rightarrow> 'r \<Rightarrow> (string \<times> string) list \<times> 'r" where
  "getUserConnections R ok u now r =
     (case getPresenceUserKey u of
        None \<Rightarrow> ([], r)
      | Some key \<Rightarrow>
          if \<not> pruneOk ok then ([], r)
          else let r1 = snd (zremrangebyscore R key now r) in
               if \<not> cardOk ok then ([], r1)
               else (List.map_filter parsePresenceMember (zrangebyscore R key now r1), r1))"

text \<open>\<^verbatim>\<open>pruneExpired\<close>; \<open>latency\<close> is the elapsed time of the call.\<close>

definition pruneExpiredLeases ::
  "'r redis_api \<Rightarrow> replies \<Rightarrow> int \<Rightarrow> string \<Rightarrow> int \<Rightarrow> presence \<times> 'a chan_state_scheme \<times> 'r
     \<Rightarrow> nat \<times> presence \<times> 'a chan_state_scheme \<times> 'r" where
  "pruneExpiredLeases R ok latency u now = (\<lambda>(pm, st, r).
     case getPresenceUserKey u of
       None \<Rightarrow> (0, pm, st, r)
     | Some key \<Rightarrow>
         if \<not> pruneOk ok then (0, pm, st, r)
         else let (pruned, r1) = zremrangebyscore R key now r;
                  st1 = (if hasPubSub pm then recordPresencePruneLatency latency st else st)
              in (pruned, pm\<lparr>pruneLatencyMs := latency\<rparr>,
                  metric (MRecord ''pulse_presence_prune_duration_seconds'') st1, r1))"

text \<open>\<open>None\<close> when the method throws; \<open>roomsOf\<close> is the rooms provider.\<close>

definition registerConnection ::
  "'r redis_api \<Rightarrow> replies \<Rightarrow> (nat \<Rightarrow> nat) \<Rightarrow> int \<Rightarrow> string \<Rightarrow> (string \<Rightarrow> string list) option \<Rightarrow> string \<Rightarrow> string
     \<Rightarrow> presence \<times> 'a chan_state_scheme \<times> 'r \<Rightarrow> ((bool \<times> nat) \<times> presence \<times> 'a chan_state_scheme \<times> 'r) option" where
  "registerConnection R ok rnd now inst roomsOf u conn = (\<lambda>(pm, st, r).
     if u = [] \<or> conn = [] then None
     else case (if evalOk ok
                then executeRegisterPresence R u inst conn (now + presenceTtlMs pm) now (keySafeguardTtlSec pm) r
                else None) of
            None \<Rightarrow> Some ((False, 0), pm, presence_op_metric ''register'' ''error'' st, r)
          | Some (transition, r1) \<Rightarrow>
              let (n, r2) = getUserConnectionCount R ok u now r1;
                  pm1 = pm\<lparr>localConnections := js_set conn u (localConnections pm)\<rparr>;
                  st1 = presence_op_metric ''register'' ''success'' (updateActiveMetrics pm1 st);
                  (pm2, st2) = (if transition = 1
                                then publishPresenceUpdate rnd now inst ok u ONLINE n (map_option (\<lambda>f. f u) roomsOf) (pm1, st1)
                                else (pm1, st1))
              in Some ((transition = 1, n), pm2, st2, r2))"

definition removeConnectionLease ::
  "'r redis_api \<Rightarrow> replies \<Rightarrow> (nat \<Rightarrow> nat) \<Rightarrow> int \<Rightarrow> string \<Rightarrow> (string \<Rightarrow> string list) option \<Rightarrow> string \<Rightarrow> string
     \<Rightarrow> presence \<times> 'a chan_state_scheme \<times> 'r \<Rightarrow> ((bool \<times> nat) \<times> presence \<times> 'a chan_state_scheme \<times> 'r) option" where
  "removeConnectionLease R ok rnd now inst roomsOf u conn = (\<lambda>(pm, st, r).
     if u = [] \<or> conn = [] then None
     else let pm1 = pm\<lparr>localConnections := js_delete conn (localConnections pm)\<rparr>;
              st1 = updateActiveMetrics pm1 st in
          case (if evalOk ok then executeRemovePresence R u inst conn now (keySafeguardTtlSec pm) r else None) of
            None \<Rightarrow> Some ((False, 0), pm1, presence_op_metric ''remove'' ''error'' st1, r)
          | Some (transition, r1) \<Rightarrow>
              let (n, r2) = getUserConnectionCount R ok u now r1;
                  (pm2, st2) = (if transition = 1
                                then publishPresenceUpdate rnd now inst ok u OFFLINE n (map_option (\<lambda>f. f u) roomsOf) (pm1, st1)
                                else (pm1, st1))
              in Some ((transition = 1, n), pm2, presence_op_metric ''remove'' ''success'' st2, r2))"

section \<open>Renewal\<close>

definition getLocalActiveConnections :: "(string \<times> string) list \<Rightarrow> presence \<Rightarrow> (string \<times> string) list" where
  "getLocalActiveConnections provided pm =
     (if hasProvider pm then provided else map (\<lambda>(conn, u). (u, conn)) (localConnections pm))"

text \<open>The commands of the pipeline; \<open>None\<close> when a key or member is refused.\<close>

fun renewal_commands :: "string \<Rightarrow> (string \<times> string) list \<Rightarrow> (string \<times> string) list option" where
  "renewal_commands inst [] = Some []"
| "renewal_commands inst ((u, conn) # rest) =
     (case (getPresenceUserKey u, formatPresenceMember inst conn) of
        (Some key, Some member) \<Rightarrow> map_option (Cons (key, member)) (renewal_commands inst rest)
      | _ \<Rightarrow> None)"

definition run_renewals :: "'r redis_api \<Rightarrow> int \<Rightarrow> int \<Rightarrow> (string \<times> string) list \<Rightarrow> 'r \<Rightarrow> 'r" where
  "run_renewals R expireAt keyTtl cmds r =
     fold (\<lambda>key. expire R key keyTtl) (set_of_array (map fst cmds))
       (fold (\<lambda>(key, member). zadd R key expireAt member) cmds r)"

text \<open>
  \<^verbatim>\<open>flushLeaseRenewals\<close> up to the execution of the pipeline, with the flag that keeps a second flush
  out meanwhile, and after it.
\<close>

definition flush_begin :: "string \<Rightarrow> (string \<times> string) list \<Rightarrow> presence \<Rightarrow> (string \<times> string) list option \<times> presence" where
  "flush_begin inst provided pm =
     (if isFlushing pm then (None, pm)
      else let active = getLocalActiveConnections provided pm in
           if active = [] then (None, pm)
           else case renewal_commands inst active of
                  None \<Rightarrow> (None, pm)
                | Some cmds \<Rightarrow> (Some cmds, pm\<lparr>isFlushing := True\<rparr>))"

definition flush_finish ::
  "'r redis_api \<Rightarrow> replies \<Rightarrow> int \<Rightarrow> (string \<times> string) list \<Rightarrow> presence \<times> 'a chan_state_scheme \<times> 'r
     \<Rightarrow> nat \<times> presence \<times> 'a chan_state_scheme \<times> 'r" where
  "flush_finish R ok now cmds = (\<lambda>(pm, st, r).
     if \<not> execOk ok then (0, pm\<lparr>isFlushing := False\<rparr>, st, r)
     else let n = length cmds;
              st1 = (if hasPubSub pm then recordPresenceLeaseRenewals n st else st)
          in (n, pm\<lparr>totalLeaseRenewals := totalLeaseRenewals pm + n, isFlushing := False\<rparr>,
              metric (MInc ''pulse_presence_lease_renewals_total'' [] n) st1,
              run_renewals R (now + presenceTtlMs pm) (keySafeguardTtlSec pm) cmds r))"

definition flushLeaseRenewals ::
  "'r redis_api \<Rightarrow> replies \<Rightarrow> int \<Rightarrow> string \<Rightarrow> (string \<times> string) list \<Rightarrow> presence \<times> 'a chan_state_scheme \<times> 'r
     \<Rightarrow> nat \<times> presence \<times> 'a chan_state_scheme \<times> 'r" where
  "flushLeaseRenewals R ok now inst provided = (\<lambda>(pm, st, r).
     case flush_begin inst provided pm of
       (None, pm1) \<Rightarrow> (0, pm1, st, r)
     | (Some cmds, pm1) \<Rightarrow> flush_finish R ok now cmds (pm1, st, r))"

definition startRenewalLoop :: "bool \<Rightarrow> presence \<Rightarrow> presence" where
  "startRenewalLoop provider pm = pm\<lparr>hasProvider := provider \<or> hasProvider pm, renewalRunning := True\<rparr>"

definition stopRenewalLoop :: "presence \<Rightarrow> presence" where
  "stopRenewalLoop pm = pm\<lparr>renewalRunning := False\<rparr>"

section \<open>Rooms\<close>

definition addRoomMember :: "'r redis_api \<Rightarrow> bool \<Rightarrow> string \<Rightarrow> string \<Rightarrow> 'r \<Rightarrow> 'r" where
  "addRoomMember R ok room u r =
     (if js_trim room = [] \<or> js_trim u = [] then r
      else case getRoomMembersKey (js_trim room) of
             None \<Rightarrow> r
           | Some key \<Rightarrow> if ok then sadd R key (js_trim u) r else r)"

definition removeRoomMember :: "'r redis_api \<Rightarrow> bool \<Rightarrow> string \<Rightarrow> string \<Rightarrow> 'r \<Rightarrow> 'r" where
  "removeRoomMember R ok room u r =
     (if js_trim room = [] \<or> js_trim u = [] then r
      else case getRoomMembersKey (js_trim room) of
             None \<Rightarrow> r
           | Some key \<Rightarrow> if ok then srem R key (js_trim u) r else r)"

record roster =
  rosterRoom :: string
  rosterMembers :: "string list"
  rosterTotal :: nat

definition make_roster :: "string \<Rightarrow> string list \<Rightarrow> roster" where
  "make_roster room us =
     (let members = sort (set_of_array us)
      in \<lparr>rosterRoom = room, rosterMembers = members, rosterTotal = length members\<rparr>)"

definition getRoomRoster ::
  "'r redis_api \<Rightarrow> bool \<Rightarrow> int \<Rightarrow> int \<Rightarrow> (string \<Rightarrow> string list) option \<Rightarrow> string \<Rightarrow> presence \<times> 'a chan_state_scheme \<times> 'r
     \<Rightarrow> roster \<times> presence \<times> 'a chan_state_scheme \<times> 'r" where
  "getRoomRoster R ok latency now localRoster room = (\<lambda>(pm, st, r).
     if js_trim room = [] then (\<lparr>rosterRoom = [], rosterMembers = [], rosterTotal = 0\<rparr>, pm, st, r)
     else case (if ok then executeGetRoomPresenceRoster R (js_trim room) now r else None) of
            None \<Rightarrow> (make_roster (js_trim room) (case localRoster of None \<Rightarrow> [] | Some f \<Rightarrow> f (js_trim room)), pm, st, r)
          | Some (online, r1) \<Rightarrow>
              let st1 = (if hasPubSub pm then recordPresencePruneLatency latency st else st)
              in (make_roster (js_trim room) online, pm\<lparr>pruneLatencyMs := latency\<rparr>,
                  metric (MRecord ''pulse_presence_prune_duration_seconds'') st1, r1))"

section \<open>Renewal keeps the local connections online\<close>

lemma fold_zadd:
  assumes ok: "redis_ok R Z S"
  shows "Z (fold (\<lambda>(key, member). zadd R key e member) cmds r) key m =
     (if (key, m) \<in> set cmds then Some e else Z r key m)"
proof (induction cmds arbitrary: r)
  case (Cons c cmds)
  obtain k x where c: "c = (k, x)" by fastforce
  show ?case unfolding c fold_Cons comp_def using Cons.IH [of "zadd R k e x r"]
    by (auto simp: redis_okD(4) [OF ok])
qed simp

lemma fold_expire:
  assumes ok: "redis_ok R Z S"
  shows "Z (fold (\<lambda>key. expire R key t) keys r) = Z r"
  by (induction keys arbitrary: r) (simp_all add: redis_okD(6) [OF ok])

lemma run_renewals_leases:
  assumes ok: "redis_ok R Z S"
  shows "Z (run_renewals R e t cmds r) key m = (if (key, m) \<in> set cmds then Some e else Z r key m)"
  by (simp add: run_renewals_def fold_expire [OF ok] fold_zadd [OF ok])

lemma renewal_commands_set:
  "renewal_commands inst active = Some cmds \<Longrightarrow>
     set cmds = {(key, m). \<exists>(u, conn) \<in> set active. getPresenceUserKey u = Some key \<and> formatPresenceMember inst conn = Some m}
     \<and> length cmds = length active"
proof (induction inst active arbitrary: cmds rule: renewal_commands.induct)
  case (2 inst u conn rest)
  then obtain key m cs where "getPresenceUserKey u = Some key" "formatPresenceMember inst conn = Some m"
    "renewal_commands inst rest = Some cs" "cmds = (key, m) # cs"
    by (auto split: option.splits)
  with 2 show ?case by auto
qed simp

text \<open>
  A renewal keeps the instance's connections online. A flush that Redis executes gives every
  active local connection a lease that expires one time-to-live after the flush, whatever it was
  before, and changes no other lease; so until then each of their users has a live lease.
\<close>

theorem flush_renews_leases:
  assumes ok: "redis_ok R Z S" and "\<not> isFlushing pm" "execOk rep"
    and "renewal_commands inst (getLocalActiveConnections provided pm) = Some cmds"
    and "(u, conn) \<in> set (getLocalActiveConnections provided pm)"
    and "getPresenceUserKey u = Some key" "formatPresenceMember inst conn = Some m"
    and "flushLeaseRenewals R rep now inst provided (pm, st, r) = (n, pm', st', r')"
  shows "n = length (getLocalActiveConnections provided pm) \<and> Z r' key m = Some (now + presenceTtlMs pm)
     \<and> (\<forall>t < now + presenceTtlMs pm. live (Z r' key) t \<noteq> {})
     \<and> (\<forall>k x. (k, x) \<notin> set cmds \<longrightarrow> Z r' k x = Z r k x)"
proof -
  have cmds: "(key, m) \<in> set cmds" "length cmds = length (getLocalActiveConnections provided pm)"
    using renewal_commands_set [OF assms(4)] assms(5-7) by auto
  have "getLocalActiveConnections provided pm \<noteq> []" using assms(5) by auto
  then have r': "r' = run_renewals R (now + presenceTtlMs pm) (keySafeguardTtlSec pm) cmds r" "n = length cmds"
    using assms(2,3,4,8) by (auto simp: flushLeaseRenewals_def flush_begin_def flush_finish_def Let_def)
  note z = run_renewals_leases [OF ok, of "now + presenceTtlMs pm" "keySafeguardTtlSec pm" cmds r, folded r'(1)]
  have k: "Z r' key m = Some (now + presenceTtlMs pm)" using cmds(1) z by simp
  then have "\<forall>t < now + presenceTtlMs pm. live (Z r' key) t \<noteq> {}" by (auto simp: live_def)
  then show ?thesis using k z cmds(2) r'(2) by simp
qed

definition all_ok :: replies where
  "all_ok = \<lparr>evalOk = True, pruneOk = True, cardOk = True, publishOk = True, execOk = True\<rparr>"

theorem flush_renews_leases_witness:
  "\<exists>n pm' st' r'. flushLeaseRenewals sim_redis_api all_ok 1000 ''node-a'' [(''ada'', ''c1'')]
       (startRenewalLoop True (new_PresenceManager None None None None True), chan0, empty_redis) = (n, pm', st', r')
     \<and> n = 1 \<and> map_of (simZ r' ''pulse:presence:user:ada'') ''node-a:c1'' = Some 61000"
proof -
  let ?pm = "startRenewalLoop True (new_PresenceManager None None None None True)"
  obtain n pm' st' r' where f: "flushLeaseRenewals sim_redis_api all_ok 1000 ''node-a'' [(''ada'', ''c1'')] (?pm, chan0, empty_redis) = (n, pm', st', r')"
    by (metis prod_cases4)
  have a: "getLocalActiveConnections [(''ada'', ''c1'')] ?pm = [(''ada'', ''c1'')]" "\<not> isFlushing ?pm" "presenceTtlMs ?pm = 60000"
    by (simp_all add: getLocalActiveConnections_def startRenewalLoop_def new_PresenceManager_def)
  have c: "renewal_commands ''node-a'' [(''ada'', ''c1'')] = Some [(''pulse:presence:user:ada'', ''node-a:c1'')]"
    "getPresenceUserKey ''ada'' = Some ''pulse:presence:user:ada''" "formatPresenceMember ''node-a'' ''c1'' = Some ''node-a:c1''"
    by code_simp+
  have "n = 1 \<and> map_of (simZ r' ''pulse:presence:user:ada'') ''node-a:c1'' = Some 61000"
    using flush_renews_leases [of sim_redis_api "\<lambda>r k. map_of (simZ r k)" "\<lambda>r k. set (simS r k)" ?pm all_ok "''node-a''" "[(''ada'', ''c1'')]"
        _ "''ada''" "''c1''" "''pulse:presence:user:ada''" "''node-a:c1''", OF sim_redis_ok a(2) _ _ _ c(2,3) f] a c
    by (simp add: all_ok_def)
  with f show ?thesis by blast
qed

section \<open>Counting presence events\<close>

text \<open>The increments of a counter.\<close>

definition counted :: "string \<Rightarrow> (string \<times> string) list \<Rightarrow> metric_call list \<Rightarrow> nat" where
  "counted name labels cs =
     sum_list (map (\<lambda>c. case c of MInc nm l v \<Rightarrow> if nm = name \<and> l = labels then v else 0 | _ \<Rightarrow> 0) cs)"

text \<open>
  Presence events are counted twice. Receiving one presence event adds two to the counter
  \<^verbatim>\<open>pulse_presence_events_total\<close>: the manager increments it itself and the Redis metrics object it
  also notifies increments the same counter in the same registry.
\<close>

theorem presence_event_counted_twice:
  assumes "hasPubSub pm"
  shows "counted ''pulse_presence_events_total'' [(''direction'', ''received'')]
       (metricCalls (snd (recordInboundEvent (pm, st)))) =
     counted ''pulse_presence_events_total'' [(''direction'', ''received'')] (metricCalls st) + 2
     \<and> eventsReceived (fst (recordInboundEvent (pm, st))) = eventsReceived pm + 1"
  using assms by (simp add: recordInboundEvent_def recordPresenceEventReceived_def metric_def counted_def)

theorem presence_event_counted_twice_witness:
  "counted ''pulse_presence_events_total'' [(''direction'', ''received'')]
     (metricCalls (snd (recordInboundEvent (new_PresenceManager None None None None True, chan0)))) = 2"
  using presence_event_counted_twice [of "new_PresenceManager None None None None True" chan0]
  by (simp add: new_PresenceManager_def chan0_def counted_def)

end
