(* ===== verification/Dispatcher.thy ===== *)
theory Dispatcher
  imports Connection_Manager Idempotency Presence_Manager
begin

text \<open>
  \<^verbatim>\<open>src/core/MessageDispatcher.ts\<close>: the handling of client frames and of events received from Redis.
  \<open>node\<close> is the state of one server process as the dispatcher sees it. What the platform provides
  is the argument \<open>env\<close>: the WebSocket operations, the Redis commands, the digest, \<^verbatim>\<open>JSON.parse\<close> and
  the random source. One clock reading \<open>now\<close> is used per activation.

  The handlers that await Redis (\<^verbatim>\<open>handleRoomJoin\<close>, \<^verbatim>\<open>handleRoomBatchJoin\<close>, \<^verbatim>\<open>handleRoomLeave\<close>) are
  given by their segments between awaits, and by the composition of the segments when nothing
  else runs in between. \<open>execOk\<close> is the outcome of the room-set commands, \<open>evalOk\<close> of the roster
  script.
\<close>

record 's node = "'s conn_state" +
  idem :: idem_state
  presenceMgr :: "presence option"
  instanceId :: string
  maxRoomsPerConnection :: nat
  maxRoomIdLength :: nat
  hasRedis :: bool
  presenceEmits :: "envelope list"

record ('s, 'r) env =
  envWs :: "'s ws"
  envRedis :: "'r redis_api"
  envHash :: hash_prims
  envParse :: "string \<Rightarrow> json option"
  envRnd :: "nat \<Rightarrow> nat"

section \<open>Replies\<close>

text \<open>\<^verbatim>\<open>envelope.correlationId || envelope.eventId\<close>.\<close>

definition corr_of :: "envelope \<Rightarrow> string option" where
  "corr_of e = str_or (correlationId e) (Some (eventId e))"

text \<open>Create an envelope with a fresh identifier and send it through a connection.\<close>

definition reply ::
  "('s, 'r) env \<Rightarrow> int \<Rightarrow> string \<Rightarrow> event_type \<Rightarrow> string option \<Rightarrow> event_target option \<Rightarrow> json
     \<Rightarrow> ('s, 'a) node_scheme \<Rightarrow> ('s, 'a) node_scheme" where
  "reply E now cid ty corr tgt pl st =
     (let (eid, st1) = freshId (envRnd E) now st
      in snd (send_to (envWs E) cid (system_envelope eid ty now corr tgt pl) st1))"

abbreviation ack_metric :: "string \<Rightarrow> ('s, 'a) node_scheme \<Rightarrow> ('s, 'a) node_scheme" where
  "ack_metric status \<equiv> inc_metric ''pulse_acknowledgements_total'' ''status'' status"

text \<open>\<^verbatim>\<open>if (envelope.seq !== undefined) sender.lastSeenSeq = envelope.seq\<close>.\<close>

definition note_seq :: "string \<Rightarrow> envelope \<Rightarrow> ('s, 'a) node_scheme \<Rightarrow> ('s, 'a) node_scheme" where
  "note_seq cid e st =
     (case seq e of None \<Rightarrow> st | Some n \<Rightarrow> upd_conn cid (\<lambda>c. c\<lparr>lastSeenSeq := n\<rparr>) st)"

definition sender_user :: "string \<Rightarrow> ('s, 'a) node_scheme \<Rightarrow> string" where
  "sender_user cid st = (case heap st cid of None \<Rightarrow> [] | Some c \<Rightarrow> userId c)"

definition sender_has :: "string \<Rightarrow> string \<Rightarrow> ('s, 'a) node_scheme \<Rightarrow> bool" where
  "sender_has cid r st = (case heap st cid of None \<Rightarrow> False | Some c \<Rightarrow> hasRoom r c)"

definition sender_rooms :: "string \<Rightarrow> ('s, 'a) node_scheme \<Rightarrow> string list" where
  "sender_rooms cid st = (case heap st cid of None \<Rightarrow> [] | Some c \<Rightarrow> connRooms c)"

text \<open>The wiring of the local roster: the distinct users of a room's registered connections.\<close>

definition local_roster :: "('s, 'a) node_scheme \<Rightarrow> string \<Rightarrow> string list" where
  "local_roster st r =
     set_of_array (filter (\<lambda>u. u \<noteq> []) (List.map_filter (\<lambda>cid. map_option userId (getConnection cid st)) (getRoomConnectionIds r st)))"

section \<open>Joining and leaving rooms\<close>

definition room_char :: "char \<Rightarrow> bool" where
  "room_char c \<longleftrightarrow>
     (let n = of_char c :: nat in 97 \<le> n \<and> n \<le> 122 \<or> 65 \<le> n \<and> n \<le> 90 \<or> 48 \<le> n \<and> n \<le> 57) \<or> c \<in> set '':_.-''"

text \<open>Not blank, not too long, and \<^verbatim>\<open>/^[a-zA-Z0-9:_\.\-]+$/\<close>.\<close>

definition valid_room_id :: "nat \<Rightarrow> string \<Rightarrow> bool" where
  "valid_room_id mx r \<longleftrightarrow> r \<noteq> [] \<and> length r \<le> mx \<and> list_all room_char r"

definition invalid_room_message :: "('s, 'a) node_scheme \<Rightarrow> string" where
  "invalid_room_message st =
     ''Room ID exceeds maximum length ('' @ js_int_str (int (maxRoomIdLength st)) @ '') or contains invalid characters.''"

definition max_rooms_message :: "('s, 'a) node_scheme \<Rightarrow> string" where
  "max_rooms_message st =
     ''Maximum room subscription limit ('' @ js_int_str (int (maxRoomsPerConnection st)) @ '') exceeded for this connection.''"

text \<open>Lines 600-601.\<close>

definition enter_room :: "string \<Rightarrow> string \<Rightarrow> ('s, 'a) node_scheme \<Rightarrow> ('s, 'a) node_scheme" where
  "enter_room cid r st = upd_conn cid (conn_joinRoom r) (snd (joinRoom r cid st))"

text \<open>\<^verbatim>\<open>handleRoomJoin\<close> up to the first await: \<open>None\<close> when an error was sent.\<close>

definition room_join_enter ::
  "('s, 'r) env \<Rightarrow> int \<Rightarrow> string \<Rightarrow> envelope \<Rightarrow> ('s, 'a) node_scheme \<Rightarrow> string option \<times> ('s, 'a) node_scheme" where
  "room_join_enter E now cid e st =
     (let r = (case target_room (target e) of None \<Rightarrow> [] | Some r \<Rightarrow> r) in
      if \<not> valid_room_id (maxRoomIdLength st) r
      then (None, reply E now cid SYS_ERROR (corr_of e) (Some (room_target r))
                    (error_payload ''INVALID_ROOM_ID'' (invalid_room_message st)) st)
      else if \<not> sender_has cid r st \<and> length (sender_rooms cid st) \<ge> maxRoomsPerConnection st
      then (None, reply E now cid SYS_ERROR (corr_of e) (Some (room_target r))
                    (error_payload ''MAX_ROOMS_EXCEEDED'' (max_rooms_message st)) st)
      else (Some r, enter_room cid r st))"

definition add_room_member ::
  "('s, 'r) env \<Rightarrow> replies \<Rightarrow> string \<Rightarrow> string \<Rightarrow> ('s, 'a) node_scheme \<Rightarrow> 'r \<Rightarrow> 'r" where
  "add_room_member E ok cid r st rs =
     (if presenceMgr st \<noteq> None \<and> sender_user cid st \<noteq> []
      then addRoomMember (envRedis E) (execOk ok) r (sender_user cid st) rs else rs)"

text \<open>Lines 611-622: the roster, through the presence manager when there is one.\<close>

definition fetch_roster ::
  "('s, 'r) env \<Rightarrow> replies \<Rightarrow> int \<Rightarrow> string \<Rightarrow> ('s, 'a) node_scheme \<times> 'r \<Rightarrow> roster option \<times> ('s, 'a) node_scheme \<times> 'r" where
  "fetch_roster E ok now r = (\<lambda>(st, rs).
     case presenceMgr st of
       None \<Rightarrow> (None, st, rs)
     | Some pm \<Rightarrow>
         let (ros, pm', st', rs') = getRoomRoster (envRedis E) (evalOk ok) 0 now (Some (local_roster st)) r (pm, st, rs)
         in (Some ros, st'\<lparr>presenceMgr := Some pm'\<rparr>, rs'))"

definition roster_json :: "roster \<Rightarrow> json" where
  "roster_json ros =
     JObj [(''roomId'', JStr (rosterRoom ros)), (''members'', JArr (map JStr (rosterMembers ros))),
           (''totalOnline'', JNum (int_num (int (rosterTotal ros))))]"

definition join_ack_payload :: "string \<Rightarrow> nat \<Rightarrow> roster option \<Rightarrow> json" where
  "join_ack_payload r n ros =
     JObj ([(''roomId'', JStr r), (''status'', JStr ''JOINED''), (''memberCount'', JNum (int_num (int n)))]
        @ (case ros of
             None \<Rightarrow> []
           | Some x \<Rightarrow> [(''members'', JArr (map JStr (rosterMembers x))),
                        (''totalOnline'', JNum (int_num (int (rosterTotal x)))), (''roster'', roster_json x)]))"

definition room_join_ack ::
  "('s, 'r) env \<Rightarrow> int \<Rightarrow> string \<Rightarrow> envelope \<Rightarrow> string \<Rightarrow> roster option \<Rightarrow> ('s, 'a) node_scheme \<Rightarrow> ('s, 'a) node_scheme" where
  "room_join_ack E now cid e r ros st =
     ack_metric ''success''
       (reply E now cid ROOM_JOIN_ACK (corr_of e) (Some (room_target r))
          (join_ack_payload r (getConnectionCountInRoom r st) ros) st)"

definition handleRoomJoin ::
  "('s, 'r) env \<Rightarrow> replies \<Rightarrow> int \<Rightarrow> string \<Rightarrow> envelope \<Rightarrow> ('s, 'a) node_scheme \<times> 'r \<Rightarrow> ('s, 'a) node_scheme \<times> 'r" where
  "handleRoomJoin E ok now cid e = (\<lambda>(st, rs).
     case room_join_enter E now cid e st of
       (None, st1) \<Rightarrow> (st1, rs)
     | (Some r, st1) \<Rightarrow>
         let rs1 = add_room_member E ok cid r st1 rs;
             (ros, st2, rs2) = fetch_roster E ok now r (note_seq cid e st1, rs1)
         in (room_join_ack E now cid e r ros st2, rs2))"

text \<open>
  One iteration of the loop of \<^verbatim>\<open>handleRoomBatchJoin\<close>, up to its await. The result says whether the
  loop goes on without joining, stops, or joined a room.
\<close>

datatype batch_step = BatchSkip | BatchBreak | BatchJoined string nat

definition batch_body ::
  "string \<Rightarrow> nat \<Rightarrow> nat \<Rightarrow> json \<Rightarrow> ('s, 'a) node_scheme \<Rightarrow> batch_step \<times> ('s, 'a) node_scheme" where
  "batch_body cid currentCount newlyAdded j st =
     (let trimmed = (case j of JStr s \<Rightarrow> js_trim s | _ \<Rightarrow> []) in
      if \<not> valid_room_id (maxRoomIdLength st) trimmed then (BatchSkip, st)
      else if sender_has cid trimmed st then (BatchJoined trimmed newlyAdded, enter_room cid trimmed st)
      else if currentCount + newlyAdded \<ge> maxRoomsPerConnection st then (BatchBreak, st)
      else (BatchJoined trimmed (Suc newlyAdded), enter_room cid trimmed st))"

fun batch_loop ::
  "('s, 'r) env \<Rightarrow> replies \<Rightarrow> string \<Rightarrow> nat \<Rightarrow> nat \<Rightarrow> json list \<Rightarrow> ('s, 'a) node_scheme \<times> 'r
     \<Rightarrow> string list \<times> ('s, 'a) node_scheme \<times> 'r" where
  "batch_loop E ok cid currentCount newlyAdded [] (st, rs) = ([], st, rs)"
| "batch_loop E ok cid currentCount newlyAdded (j # js) (st, rs) =
     (case batch_body cid currentCount newlyAdded j st of
        (BatchSkip, st1) \<Rightarrow> batch_loop E ok cid currentCount newlyAdded js (st1, rs)
      | (BatchBreak, st1) \<Rightarrow> ([], st1, rs)
      | (BatchJoined r n, st1) \<Rightarrow>
          let (joined, st2, rs2) = batch_loop E ok cid currentCount n js (st1, add_room_member E ok cid r st1 rs)
          in (r # joined, st2, rs2))"

definition batch_ack ::
  "('s, 'r) env \<Rightarrow> int \<Rightarrow> string \<Rightarrow> envelope \<Rightarrow> string list \<Rightarrow> ('s, 'a) node_scheme \<Rightarrow> ('s, 'a) node_scheme" where
  "batch_ack E now cid e joined st =
     ack_metric ''success''
       (reply E now cid ROOM_BATCH_JOIN_ACK (corr_of e) None
          (JObj [(''joinedRooms'', JArr (map JStr joined)), (''totalJoined'', JNum (int_num (int (length joined))))])
          (note_seq cid e st))"

definition handleRoomBatchJoin ::
  "('s, 'r) env \<Rightarrow> replies \<Rightarrow> int \<Rightarrow> string \<Rightarrow> envelope \<Rightarrow> ('s, 'a) node_scheme \<times> 'r \<Rightarrow> ('s, 'a) node_scheme \<times> 'r" where
  "handleRoomBatchJoin E ok now cid e = (\<lambda>(st, rs).
     case as_arr (json_get (payload e) ''rooms'') of
       None \<Rightarrow> (st, rs)
     | Some js \<Rightarrow>
         if length (sender_rooms cid st) \<ge> maxRoomsPerConnection st
         then (reply E now cid SYS_ERROR (corr_of e) None
                 (error_payload ''MAX_ROOMS_EXCEEDED'' (max_rooms_message st)) st, rs)
         else let (joined, st1, rs1) = batch_loop E ok cid (length (sender_rooms cid st)) 0 js (st, rs)
              in (batch_ack E now cid e joined st1, rs1))"

text \<open>\<^verbatim>\<open>handleRoomLeave\<close>: up to the await, and after it.\<close>

definition leave_enter :: "string \<Rightarrow> string \<Rightarrow> ('s, 'a) node_scheme \<Rightarrow> ('s, 'a) node_scheme" where
  "leave_enter cid r st = upd_conn cid (conn_leaveRoom r) (snd (leaveRoom r cid st))"

definition has_other_in_room :: "string \<Rightarrow> string \<Rightarrow> ('s, 'a) node_scheme \<Rightarrow> bool" where
  "has_other_in_room cid r st =
     list_ex (\<lambda>i. i \<noteq> cid \<and> sender_has i r st) (getConnectionsByUserId (sender_user cid st) st)"

definition leave_ack ::
  "('s, 'r) env \<Rightarrow> int \<Rightarrow> string \<Rightarrow> envelope \<Rightarrow> string \<Rightarrow> ('s, 'a) node_scheme \<Rightarrow> ('s, 'a) node_scheme" where
  "leave_ack E now cid e r st =
     ack_metric ''success''
       (reply E now cid ROOM_LEAVE_ACK (corr_of e) (Some (room_target r))
          (JObj [(''roomId'', JStr r), (''status'', JStr ''LEFT'')]) (note_seq cid e st))"

definition handleRoomLeave ::
  "('s, 'r) env \<Rightarrow> replies \<Rightarrow> int \<Rightarrow> string \<Rightarrow> envelope \<Rightarrow> ('s, 'a) node_scheme \<times> 'r \<Rightarrow> ('s, 'a) node_scheme \<times> 'r" where
  "handleRoomLeave E ok now cid e = (\<lambda>(st, rs).
     let r = the (target_room (target e));
         st1 = leave_enter cid r st;
         rs1 = (if presenceMgr st1 \<noteq> None \<and> sender_user cid st1 \<noteq> [] \<and> \<not> has_other_in_room cid r st1
                then removeRoomMember (envRedis E) (execOk ok) r (sender_user cid st1) rs else rs)
     in (leave_ack E now cid e r st1, rs1))"

section \<open>Messages\<close>

text \<open>The publication of an accepted event for the other instances.\<close>

definition publish_event :: "int \<Rightarrow> string \<Rightarrow> envelope \<Rightarrow> ('s, 'a) node_scheme \<Rightarrow> ('s, 'a) node_scheme" where
  "publish_event now ch e st =
     (if hasRedis st \<and> link_connected st
      then snd (pubsub_publish ch (stampForDistribution e (instanceId st) now) st) else st)"

text \<open>Lines 793-800: the other members of the room that are registered.\<close>

definition room_recipients :: "string \<Rightarrow> string \<Rightarrow> ('s, 'a) node_scheme \<Rightarrow> string list" where
  "room_recipients cid r st =
     filter (\<lambda>i. i \<noteq> cid \<and> getConnection i st \<noteq> None) (getRoomConnectionIds r st)"

text \<open>Create the acknowledgement, record it, send it.\<close>

definition ack_and_record ::
  "('s, 'r) env \<Rightarrow> int \<Rightarrow> string \<Rightarrow> envelope \<Rightarrow> event_target \<Rightarrow> json \<Rightarrow> ('s, 'a) node_scheme \<Rightarrow> ('s, 'a) node_scheme" where
  "ack_and_record E now cid e tgt pl st =
     (let (eid, st1) = freshId (envRnd E) now st;
          ack = system_envelope eid DELIVERY_ACK now (corr_of e) (Some tgt) pl;
          st2 = st1\<lparr>idem := recordAck (envHash E) now (eventId e) ack (payload e) (idem st1)\<rparr>
      in ack_metric ''success'' (snd (send_to (envWs E) cid ack st2)))"

definition handleRoomMessage ::
  "('s, 'r) env \<Rightarrow> int \<Rightarrow> string \<Rightarrow> envelope \<Rightarrow> ('s, 'a) node_scheme \<Rightarrow> ('s, 'a) node_scheme" where
  "handleRoomMessage E now cid e st =
     (let r = the (target_room (target e)) in
      if \<not> sender_has cid r st
      then ack_metric ''error''
             (reply E now cid SYS_ERROR (corr_of e) (Some (room_target r))
                (error_payload ''UNAUTHORIZED_ROOM_ACCESS''
                   (''Cannot send message: Connection is not a member of room '' @ quoted r)) st)
      else let st1 = note_seq cid e st;
               (n, st2) = send_each (envWs E) (room_recipients cid r st1) e st1;
               st3 = ack_and_record E now cid e (room_target r)
                       (JObj [(''targetEventId'', JStr (eventId e)), (''status'', JStr ''ACCEPTED''),
                              (''recipientCount'', JNum (int_num (int n)))]) st2
           in publish_event now (''pulse:room:'' @ r) e st3)"

definition handleDirectMessage ::
  "('s, 'r) env \<Rightarrow> int \<Rightarrow> string \<Rightarrow> envelope \<Rightarrow> ('s, 'a) node_scheme \<Rightarrow> ('s, 'a) node_scheme" where
  "handleDirectMessage E now cid e st =
     (let u = the (target_recipient (target e));
          st1 = note_seq cid e st;
          (n, st2) = send_each (envWs E) (getConnectionsByUserId u st1) e st1;
          st3 = ack_and_record E now cid e (recipient_target u)
                  (JObj [(''targetEventId'', JStr (eventId e)), (''status'', JStr ''ACCEPTED''),
                         (''delivered'', JBool (n > 0)), (''recipientConnectionCount'', JNum (int_num (int n)))]) st2
      in publish_event now (''pulse:user:'' @ u) e st3)"

definition handlePing ::
  "('s, 'r) env \<Rightarrow> int \<Rightarrow> string \<Rightarrow> envelope \<Rightarrow> ('s, 'a) node_scheme \<Rightarrow> ('s, 'a) node_scheme" where
  "handlePing E now cid e st =
     reply E now cid SYS_PONG (corr_of e) None
       (JObj [(''instanceId'', JStr (instanceId st)), (''receivedAt'', JNum (int_num now))]) (note_seq cid e st)"

definition handlePong :: "int \<Rightarrow> string \<Rightarrow> envelope \<Rightarrow> ('s, 'a) node_scheme \<Rightarrow> ('s, 'a) node_scheme" where
  "handlePong now cid e st = upd_conn cid (conn_touch now) (note_seq cid e st)"

section \<open>Dispatching a client frame\<close>

text \<open>A method of the connection object that returns a boolean.\<close>

definition call_conn ::
  "string \<Rightarrow> ('s connection \<Rightarrow> bool \<times> 's connection) \<Rightarrow> ('s, 'a) node_scheme \<Rightarrow> bool \<times> ('s, 'a) node_scheme" where
  "call_conn cid f st =
     (case heap st cid of
        None \<Rightarrow> (False, st)
      | Some c \<Rightarrow> (fst (f c), st\<lparr>heap := (heap st)(cid \<mapsto> snd (f c))\<rparr>))"

abbreviation dropped_metric :: "string \<Rightarrow> ('s, 'a) node_scheme \<Rightarrow> ('s, 'a) node_scheme" where
  "dropped_metric reason \<equiv> inc_metric ''pulse_messages_dropped_total'' ''reason'' reason"

text \<open>Lines 390-415: the frame is over the rate limit.\<close>

definition over_limit :: "('s, 'r) env \<Rightarrow> int \<Rightarrow> string \<Rightarrow> ('s, 'a) node_scheme \<Rightarrow> ('s, 'a) node_scheme" where
  "over_limit E now cid st =
     (let st1 = dropped_metric ''rate_limit_exceeded''
                  (inc_metric ''pulse_rate_limit_exceeded_total'' ''direction'' ''inbound'' st);
          st2 = reply E now cid SYS_ERROR None None
                  (error_payload ''RATE_LIMIT_EXCEEDED'' ''Inbound message rate limit exceeded. Slow down.'') st1;
          (abuse, st3) = call_conn cid (recordRateViolation now) st2
      in if abuse then upd_conn cid (conn_close (envWs E) 1008 ''Rate limit abuse threshold exceeded'') st3 else st3)"

text \<open>Lines 420-445: the frame is not a valid event.\<close>

definition reject_frame ::
  "('s, 'r) env \<Rightarrow> int \<Rightarrow> string \<Rightarrow> validation_error \<Rightarrow> ('s, 'a) node_scheme \<Rightarrow> ('s, 'a) node_scheme" where
  "reject_frame E now cid err st =
     reply E now cid SYS_ERROR (errCorrelationId err) None
       (error_payload (the (str_or (Some (errCode err)) (Some ''INVALID_EVENT'')))
                      (the (str_or (Some (errMessage err)) (Some ''Invalid event payload''))))
       (inc_metric ''pulse_messages_received_total'' ''event_type'' ''SYS_ERROR''
         (dropped_metric ''malformed_frame'' st))"

text \<open>Lines 453-489: the check against the cache of acknowledged events, and the answer to a duplicate.\<close>

definition check_duplicate ::
  "('s, 'r) env \<Rightarrow> int \<Rightarrow> envelope \<Rightarrow> ('s, 'a) node_scheme \<Rightarrow> idem_result \<times> ('s, 'a) node_scheme" where
  "check_duplicate E now e st =
     (if evType e = ROOM_MESSAGE \<or> evType e = DIRECT_MESSAGE
      then let (res, i) = idem_check (envHash E) now (eventId e) (payload e) (idem st) in (res, st\<lparr>idem := i\<rparr>)
      else (NotDuplicate, st))"

definition conflict_reply ::
  "('s, 'r) env \<Rightarrow> int \<Rightarrow> string \<Rightarrow> envelope \<Rightarrow> ('s, 'a) node_scheme \<Rightarrow> ('s, 'a) node_scheme" where
  "conflict_reply E now cid e st =
     reply E now cid SYS_ERROR (corr_of e) None
       (error_payload ''EVENT_ID_CONFLICT''
          (''Event ID '' @ quoted (eventId e) @ '' has already been processed with a different payload''))
       (dropped_metric ''duplicate'' st)"

definition replay_ack ::
  "('s, 'r) env \<Rightarrow> string \<Rightarrow> envelope \<Rightarrow> envelope \<Rightarrow> ('s, 'a) node_scheme \<Rightarrow> ('s, 'a) node_scheme" where
  "replay_ack E cid e ack st =
     ack_metric ''success''
       (snd (send_to (envWs E) cid (ack\<lparr>correlationId := str_or (correlationId e) (correlationId ack)\<rparr>)
          (dropped_metric ''duplicate'' st)))"

text \<open>Lines 491-517: the order of sequence numbers.\<close>

definition last_seq :: "string \<Rightarrow> ('s, 'a) node_scheme \<Rightarrow> int" where
  "last_seq cid st = (case heap st cid of None \<Rightarrow> 0 | Some c \<Rightarrow> lastSeenSeq c)"

definition in_order :: "string \<Rightarrow> envelope \<Rightarrow> ('s, 'a) node_scheme \<Rightarrow> bool" where
  "in_order cid e st = (case seq e of None \<Rightarrow> True | Some n \<Rightarrow> n \<ge> last_seq cid st)"

definition reject_order ::
  "('s, 'r) env \<Rightarrow> int \<Rightarrow> string \<Rightarrow> envelope \<Rightarrow> ('s, 'a) node_scheme \<Rightarrow> ('s, 'a) node_scheme" where
  "reject_order E now cid e st =
     reply E now cid SYS_ERROR (corr_of e) None
       (error_payload ''INVALID_SEQUENCE_ORDER''
          (''Sequence number '' @ js_int_str (case seq e of None \<Rightarrow> 0 | Some n \<Rightarrow> n)
             @ '' is out of order (expected >= '' @ js_int_str (last_seq cid st) @ '')''))
       (dropped_metric ''invalid_format'' st)"

text \<open>The switch of lines 519-554; the other types are logged and ignored.\<close>

definition handle_event ::
  "('s, 'r) env \<Rightarrow> replies \<Rightarrow> int \<Rightarrow> string \<Rightarrow> envelope \<Rightarrow> ('s, 'a) node_scheme \<times> 'r \<Rightarrow> ('s, 'a) node_scheme \<times> 'r" where
  "handle_event E ok now cid e = (\<lambda>(st, rs).
     case evType e of
       ROOM_JOIN \<Rightarrow> handleRoomJoin E ok now cid e (st, rs)
     | ROOM_BATCH_JOIN \<Rightarrow> handleRoomBatchJoin E ok now cid e (st, rs)
     | ROOM_LEAVE \<Rightarrow> handleRoomLeave E ok now cid e (st, rs)
     | ROOM_MESSAGE \<Rightarrow> (handleRoomMessage E now cid e st, rs)
     | DIRECT_MESSAGE \<Rightarrow> (handleDirectMessage E now cid e st, rs)
     | SYS_PING \<Rightarrow> (handlePing E now cid e st, rs)
     | SYS_PONG \<Rightarrow> (handlePong now cid e st, rs)
     | _ \<Rightarrow> (st, rs))"

text \<open>Lines 447-554, for a valid envelope.\<close>

definition dispatch_event ::
  "('s, 'r) env \<Rightarrow> replies \<Rightarrow> int \<Rightarrow> string \<Rightarrow> envelope \<Rightarrow> ('s, 'a) node_scheme \<times> 'r \<Rightarrow> ('s, 'a) node_scheme \<times> 'r" where
  "dispatch_event E ok now cid e = (\<lambda>(st, rs).
     let st1 = inc_metric ''pulse_messages_received_total'' ''event_type'' (event_type_name (evType e)) st in
     case check_duplicate E now e st1 of
       (DuplicateConflict, st2) \<Rightarrow> (conflict_reply E now cid e st2, rs)
     | (DuplicateAck ack, st2) \<Rightarrow> (replay_ack E cid e ack st2, rs)
     | (NotDuplicate, st2) \<Rightarrow>
         if in_order cid e st2 then handle_event E ok now cid e (st2, rs)
         else (reject_order E now cid e st2, rs))"

definition dispatchRawMessage ::
  "('s, 'r) env \<Rightarrow> replies \<Rightarrow> int \<Rightarrow> string \<Rightarrow> string \<Rightarrow> ('s, 'a) node_scheme \<times> 'r \<Rightarrow> ('s, 'a) node_scheme \<times> 'r" where
  "dispatchRawMessage E ok now cid raw = (\<lambda>(st, rs).
     let (allowed, st1) = call_conn cid (consumeRateLimit now) (upd_conn cid (conn_touch now) st) in
     if \<not> allowed then (over_limit E now cid st1, rs)
     else let (st3, rs3) =
                (case validateIncoming (envParse E) (envRnd E) now raw (JStr (sender_user cid st1)) st1 of
                   (Inl err, st2) \<Rightarrow> (reject_frame E now cid err st2, rs)
                 | (Inr e, st2) \<Rightarrow> dispatch_event E ok now cid e (st2, rs))
          in (metric (MRecord ''pulse_message_processing_duration_seconds'') st3, rs3))"

section \<open>Events from other instances\<close>

text \<open>
  \<^verbatim>\<open>deliverRoomScopedPresence\<close>. \<open>None\<close> for the hint means that \<^verbatim>\<open>hintRooms && hintRooms.length > 0\<close>
  is false.
\<close>

definition user_present :: "string \<Rightarrow> string \<Rightarrow> ('s, 'a) node_scheme \<Rightarrow> bool" where
  "user_present u r st =
     list_ex (\<lambda>cid. map_option userId (getConnection cid st) = Some u) (getRoomConnectionIds r st)"

definition presence_targets :: "string \<Rightarrow> string list option \<Rightarrow> ('s, 'a) node_scheme \<Rightarrow> string list" where
  "presence_targets u hint st =
     (case hint of
        Some rs \<Rightarrow> set_of_array (concat (map (\<lambda>r. getRoomConnectionIds r st) rs))
      | None \<Rightarrow> set_of_array (concat (map (\<lambda>r. getRoomConnectionIds r st)
                  (filter (\<lambda>r. user_present u r st) (getAllRoomIds st)))))"

definition takes_presence :: "('s, 'a) node_scheme \<Rightarrow> string \<Rightarrow> bool" where
  "takes_presence st cid =
     (case getConnection cid st of None \<Rightarrow> False | Some c \<Rightarrow> userId c \<noteq> [] \<and> userId c \<noteq> ''anonymous'')"

definition deliverRoomScopedPresence ::
  "'s ws \<Rightarrow> string \<Rightarrow> envelope \<Rightarrow> string list option \<Rightarrow> ('s, 'a) node_scheme \<Rightarrow> nat \<times> ('s, 'a) node_scheme" where
  "deliverRoomScopedPresence W u e hint st =
     send_each W (filter (takes_presence st) (presence_targets u hint st)) e st"

text \<open>
  The fields of a presence payload, which the code reads through a type assertion. \<open>rooms\<close> may be
  any JSON value: a non-string entry of an array names no room, and a string is iterated by
  characters.
\<close>

definition hint_rooms :: "json option \<Rightarrow> string list option" where
  "hint_rooms j =
     (case j of
        Some (JArr xs) \<Rightarrow> if xs = [] then None else Some (List.map_filter (\<lambda>x. as_str (Some x)) xs)
      | Some (JStr s) \<Rightarrow> if s = [] then None else Some (map (\<lambda>c. [c]) s)
      | _ \<Rightarrow> None)"

text \<open>
  \<open>IllTyped\<close> stands for an event outside the declared type of the payload: an identifier that is
  truthy and not a string, or an object for \<open>rooms\<close>.
\<close>

datatype inbound_outcome = Dropped | Processed | IllTyped

definition inbound_presence ::
  "'s ws \<Rightarrow> envelope \<Rightarrow> ('s, 'a) node_scheme \<Rightarrow> inbound_outcome \<times> ('s, 'a) node_scheme" where
  "inbound_presence W e st =
     (if \<not> truthy (json_get (payload e) ''userId'') \<or> \<not> truthy (json_get (payload e) ''status'') then (Dropped, st)
      else case (as_str (json_get (payload e) ''userId''), as_obj (json_get (payload e) ''rooms'')) of
        (Some u, None) \<Rightarrow>
          if (case presenceMgr st of None \<Rightarrow> False | Some pm \<Rightarrow> isStalePresenceEvent u (timestamp e) pm)
          then (Dropped, st)
          else
            let st1 = st\<lparr>presenceMgr := map_option (\<lambda>pm. snd (recordPresenceEvent u (timestamp e) pm)) (presenceMgr st)\<rparr>;
                st2 = snd (deliverRoomScopedPresence W u e (hint_rooms (json_get (payload e) ''rooms'')) st1);
                st3 = (case presenceMgr st2 of
                         None \<Rightarrow> st2
                       | Some pm \<Rightarrow> let (pm', st') = recordInboundEvent (pm, st2) in st'\<lparr>presenceMgr := Some pm'\<rparr>);
                st4 = (if hasRedis st3 then recordInbound 0 st3 else st3)
            in (Processed, st4\<lparr>presenceEmits := presenceEmits st4 @ [e]\<rparr>)
      | _ \<Rightarrow> (IllTyped, st))"

definition inbound_message ::
  "'s ws \<Rightarrow> string list \<Rightarrow> envelope \<Rightarrow> ('s, 'a) node_scheme \<Rightarrow> ('s, 'a) node_scheme" where
  "inbound_message W cids e st =
     (let st1 = snd (send_each W cids e st) in if hasRedis st1 then recordInbound 0 st1 else st1)"

text \<open>Lines 203-318: delivery by type, once the event is accepted.\<close>

definition inbound_deliver ::
  "'s ws \<Rightarrow> string \<Rightarrow> envelope \<Rightarrow> ('s, 'a) node_scheme \<Rightarrow> inbound_outcome \<times> ('s, 'a) node_scheme" where
  "inbound_deliver W ch e st =
     (if evType e = ROOM_MESSAGE
      then let r = str_or (target_room (target e)) (extractRoomId ch) in
           if \<not> str_truthy r then (Dropped, st)
           else (Processed, inbound_message W
                   (filter (\<lambda>i. getConnection i st \<noteq> None) (getRoomConnectionIds (the r) st)) e st)
      else if evType e = DIRECT_MESSAGE
      then let u = str_or (target_recipient (target e)) (extractUserId ch) in
           if \<not> str_truthy u then (Dropped, st)
           else (Processed, inbound_message W (getConnectionsByUserId (the u) st) e st)
      else if evType e = PRESENCE_UPDATE then inbound_presence W e st
      else (Processed, st))"

definition inbound_ack :: "string \<Rightarrow> int \<Rightarrow> envelope \<Rightarrow> envelope" where
  "inbound_ack eid now e =
     system_envelope eid DELIVERY_ACK now None None
       (JObj [(''targetEventId'', JStr (eventId e)), (''status'', JStr ''DISTRIBUTED_ACCEPTED'')])"

definition accept_inbound ::
  "('s, 'r) env \<Rightarrow> int \<Rightarrow> envelope \<Rightarrow> ('s, 'a) node_scheme \<Rightarrow> bool \<times> ('s, 'a) node_scheme" where
  "accept_inbound E now e st =
     (let st1 = (if originTimestampMs e \<noteq> None then metric (MRecord ''pulse_cross_node_transit_seconds'') st else st) in
      case idem_check (envHash E) now (eventId e) (payload e) (idem st1) of
        (NotDuplicate, i) \<Rightarrow>
          let (eid, st2) = freshId (envRnd E) now (st1\<lparr>idem := i\<rparr>)
          in (True, st2\<lparr>idem := recordAck (envHash E) now (eventId e) (inbound_ack eid now e) (payload e) (idem st2)\<rparr>)
      | (_, i) \<Rightarrow>
          let st2 = st1\<lparr>idem := i\<rparr> in (False, if hasRedis st2 then recordDuplicateSuppressed st2 else st2))"

text \<open>\<^verbatim>\<open>handleInboundRedisEvent\<close>: a message is the text of an event, or an event object.\<close>

datatype raw_message = RawText string | RawObject json

definition handleInboundRedisEvent ::
  "('s, 'r) env \<Rightarrow> int \<Rightarrow> string \<Rightarrow> raw_message \<Rightarrow> ('s, 'a) node_scheme \<Rightarrow> inbound_outcome \<times> ('s, 'a) node_scheme" where
  "handleInboundRedisEvent E now ch raw st =
     (case (case raw of RawText s \<Rightarrow> envParse E s | RawObject j \<Rightarrow> Some j) of
        None \<Rightarrow> (Dropped, st)
      | Some parsed \<Rightarrow>
          (case validateDistributed (envRnd E) now parsed st of
             (Inl err, st1) \<Rightarrow> (Dropped, st1)
           | (Inr e, st1) \<Rightarrow>
               if originInstanceId e = Some (instanceId st1)
               then (Dropped, if hasRedis st1 then recordEchoSuppressed st1 else st1)
               else case accept_inbound E now e st1 of
                      (False, st2) \<Rightarrow> (Dropped, st2)
                    | (True, st2) \<Rightarrow> inbound_deliver (envWs E) ch e st2))"

section \<open>A sample node\<close>

text \<open>Two connections, of Ada and of Bob, in one room; and a message from Ada.\<close>

definition node0 :: "sim_socket node" where
  "node0 = conn_state.extend (conn0\<lparr>maxConnections := Some 10\<rparr>)
     \<lparr>idem = new_IdempotencyManager None None, presenceMgr = None, instanceId = ''node-b'',
      maxRoomsPerConnection = 100, maxRoomIdLength = 128, hasRedis = True, presenceEmits = []\<rparr>"

definition lobby :: "sim_socket node" where
  "lobby = enter_room ''c2'' ''lobby'' (enter_room ''c1'' ''lobby''
     (addConnection (sim_connection ''c2'' ''bob'' 0) (addConnection (sim_connection ''c1'' ''ada'' 0) node0)))"

definition env0 :: "(sim_socket, sim_redis) env" where
  "env0 = \<lparr>envWs = sim_ws, envRedis = sim_redis_api, envHash = sample_hash, envParse = (\<lambda>_. Some sample_frame),
     envRnd = (\<lambda>_. 0)\<rparr>"

definition hello :: envelope where
  "hello = \<lparr>eventId = ''e1'', evType = ROOM_MESSAGE, timestamp = int_num 5, senderId = JStr ''ada'', seq = Some 3,
     target = Some (room_target ''lobby''), payload = JObj [(''content'', JStr ''hi'')], correlationId = None,
     ackRequired = Some False, originInstanceId = None, originTimestampMs = None\<rparr>"

definition whisper :: envelope where
  "whisper = hello\<lparr>evType := DIRECT_MESSAGE, target := Some (recipient_target ''bob'')\<rparr>"

end
