(* ===== verification/Delivery.thy ===== *)
theory Delivery
  imports Dispatcher
begin

text \<open>
  What the dispatcher guarantees about deliveries: who receives a message, how often, and what the
  sender is told; what a refused frame leaves untouched; and the events exchanged by instances.
\<close>

section \<open>Frames\<close>

text \<open>The part of a connection, and of a node, that replies and deliveries leave alone.\<close>

definition ident :: "'s connection \<Rightarrow> string \<times> string \<times> string list" where
  "ident c = (connectionId c, userId c, connRooms c)"

definition core where
  "core st = ((\<lambda>i. map_option ident (heap st i)), connections st, userConnections st, rooms st, channelRefCounts st,
     subscribedChannels st, chanEnabled st, link_connected st, instanceId st, maxRoomsPerConnection st,
     maxRoomIdLength st, hasRedis st, pendingConnections st, maxConnections st)"

lemma core_eqD:
  assumes "core st' = core st"
  shows "map_option ident (heap st' i) = map_option ident (heap st i)"
    "connections st' = connections st" "userConnections st' = userConnections st" "rooms st' = rooms st"
    "channelRefCounts st' = channelRefCounts st" "subscribedChannels st' = subscribedChannels st"
    "chanEnabled st' = chanEnabled st" "link_connected st' = link_connected st" "instanceId st' = instanceId st"
    "maxRoomsPerConnection st' = maxRoomsPerConnection st" "maxRoomIdLength st' = maxRoomIdLength st"
    "hasRedis st' = hasRedis st" "pendingConnections st' = pendingConnections st" "maxConnections st' = maxConnections st"
  using assms by (auto simp: core_def dest: fun_cong [of _ _ i])

definition outbox_of :: "string \<Rightarrow> ('s, 'a) conn_state_scheme \<Rightarrow> envelope list" where
  "outbox_of i st = (case heap st i of None \<Rightarrow> [] | Some c \<Rightarrow> outbox c)"

text \<open>The connection exists and would take the frame now.\<close>

definition can_take :: "'s ws \<Rightarrow> envelope \<Rightarrow> ('s, 'a) conn_state_scheme \<Rightarrow> string \<Rightarrow> bool" where
  "can_take W e st i = (case heap st i of None \<Rightarrow> False | Some c \<Rightarrow> deliverable W e c)"

lemma fresh_frame [simp]:
  "core (snd (freshId rnd now st)) = core st" "heap (snd (freshId rnd now st)) = heap st"
  "issued (snd (freshId rnd now st)) = issued st" "idem (snd (freshId rnd now st)) = idem st"
  "presenceMgr (snd (freshId rnd now st)) = presenceMgr st" "inFlightPublishes (snd (freshId rnd now st)) = inFlightPublishes st"
  "maxInFlightPublishes (snd (freshId rnd now st)) = maxInFlightPublishes st"
  by (simp_all add: freshId_def advance_uuid_def Let_def case_prod_beta core_def link_connected_def)

lemma metric_node_frame [simp]:
  "core (metric m st) = core st" "idem (metric m st) = idem st" "presenceMgr (metric m st) = presenceMgr st"
  "inFlightPublishes (metric m st) = inFlightPublishes st" "maxInFlightPublishes (metric m st) = maxInFlightPublishes st"
  by (simp_all add: metric_def core_def link_connected_def)

lemma heap_send_to:
  "heap (snd (send_to W cid e st)) i =
     (if i = cid then map_option (\<lambda>c. fst (snd (conn_send W e c st))) (heap st cid) else heap st i)"
  by (simp add: send_to_eq split: option.splits)

lemma ident_conn_send [simp]: "ident (fst (snd (conn_send W e c rt))) = ident c"
  by (simp add: ident_def)

lemma send_frame [simp]:
  "core (snd (send_to W cid e st)) = core st" "idem (snd (send_to W cid e st)) = idem st"
  "presenceMgr (snd (send_to W cid e st)) = presenceMgr st" "issued (snd (send_to W cid e st)) = issued st"
  "inFlightPublishes (snd (send_to W cid e st)) = inFlightPublishes st"
  "maxInFlightPublishes (snd (send_to W cid e st)) = maxInFlightPublishes st"
  by (auto simp: core_def send_to_eq link_connected_def split: option.splits)

lemma send_each_frame [simp]:
  "core (snd (send_each W cids e st)) = core st" "idem (snd (send_each W cids e st)) = idem st"
  "presenceMgr (snd (send_each W cids e st)) = presenceMgr st" "issued (snd (send_each W cids e st)) = issued st"
  "inFlightPublishes (snd (send_each W cids e st)) = inFlightPublishes st"
  "maxInFlightPublishes (snd (send_each W cids e st)) = maxInFlightPublishes st"
  by (induction cids arbitrary: st) (simp_all add: send_each_Cons)

lemma core_upd_conn: "(\<And>c. ident (f c) = ident c) \<Longrightarrow> core (upd_conn cid f st) = core st"
  by (auto simp: core_def upd_conn_def link_connected_def split: option.splits)

lemma upd_conn_frame [simp]:
  "idem (upd_conn cid f st) = idem st" "presenceMgr (upd_conn cid f st) = presenceMgr st"
  "issued (upd_conn cid f st) = issued st" "inFlightPublishes (upd_conn cid f st) = inFlightPublishes st"
  "maxInFlightPublishes (upd_conn cid f st) = maxInFlightPublishes st"
  by (simp_all add: upd_conn_def split: option.splits)

lemma heap_upd_conn: "heap (upd_conn cid f st) i = (if i = cid then map_option f (heap st cid) else heap st i)"
  by (simp add: upd_conn_def split: option.splits)

lemma note_seq_frame [simp]:
  "core (note_seq cid e st) = core st" "idem (note_seq cid e st) = idem st" "presenceMgr (note_seq cid e st) = presenceMgr st"
  "issued (note_seq cid e st) = issued st" "inFlightPublishes (note_seq cid e st) = inFlightPublishes st"
  "maxInFlightPublishes (note_seq cid e st) = maxInFlightPublishes st"
  by (simp_all add: note_seq_def core_upd_conn ident_def split: option.splits)

lemma reply_frame [simp]:
  "core (reply E now cid ty corr tgt pl st) = core st" "idem (reply E now cid ty corr tgt pl st) = idem st"
  "presenceMgr (reply E now cid ty corr tgt pl st) = presenceMgr st" "issued (reply E now cid ty corr tgt pl st) = issued st"
  by (simp_all add: reply_def case_prod_beta)

lemma core_idem [simp]: "core (st\<lparr>idem := i\<rparr>) = core st" "core (st\<lparr>presenceMgr := pm\<rparr>) = core st"
  by (simp_all add: core_def link_connected_def)

section \<open>Outboxes\<close>

lemma outbox_send_to:
  "outbox_of i (snd (send_to W cid e st)) = outbox_of i st @ (if i = cid \<and> can_take W e st i then [e] else [])"
  by (simp add: outbox_of_def heap_send_to can_take_def outbox_conn_send split: option.splits)

lemma fst_send_to: "fst (send_to W cid e st) = can_take W e st cid"
  by (simp add: send_to_eq can_take_def split: option.splits)

lemma can_take_send_to: "i \<noteq> cid \<Longrightarrow> can_take W e (snd (send_to W cid e' st)) i = can_take W e st i"
  by (simp add: can_take_def heap_send_to)

lemma heap_send_each_other: "i \<notin> set cids \<Longrightarrow> heap (snd (send_each W cids e st)) i = heap st i"
  by (induction cids arbitrary: st) (simp_all add: send_each_Cons heap_send_to)

lemma outbox_send_each:
  "distinct cids \<Longrightarrow>
   outbox_of i (snd (send_each W cids e st)) = outbox_of i st @ (if i \<in> set cids \<and> can_take W e st i then [e] else [])"
proof (induction cids arbitrary: st)
  case (Cons cid cids)
  then show ?case
    by (cases "i = cid") (auto simp: send_each_Cons outbox_send_to can_take_send_to)
qed simp

lemma count_send_each:
  "distinct cids \<Longrightarrow> fst (send_each W cids e st) = length (filter (can_take W e st) cids)"
proof (induction cids arbitrary: st)
  case (Cons cid cids)
  have "filter (can_take W e (snd (send_to W cid e st))) cids = filter (can_take W e st) cids"
    using Cons.prems by (intro filter_cong refl can_take_send_to) auto
  with Cons show ?case by (simp add: send_each_Cons fst_send_to)
qed simp

lemma note_seq_view [simp]:
  "outbox_of i (note_seq cid e st) = outbox_of i st" "can_take W x (note_seq cid e st) = can_take W x st"
  by (auto simp: note_seq_def outbox_of_def can_take_def heap_upd_conn deliverable_def fun_eq_iff split: option.splits if_splits)

lemma metric_view [simp]:
  "outbox_of i (metric m st) = outbox_of i st" "can_take W x (metric m st) i = can_take W x st i"
  by (simp_all add: outbox_of_def can_take_def)

lemma fresh_view [simp]:
  "outbox_of i (snd (freshId rnd now st)) = outbox_of i (st :: ('s, 'a) node_scheme)"
  "can_take W x (snd (freshId rnd now st)) i = can_take W x (st :: ('s, 'a) node_scheme) i"
  by (simp_all add: outbox_of_def can_take_def)

lemma idem_view [simp]:
  "outbox_of i (st\<lparr>idem := x\<rparr>) = outbox_of i st" "can_take W e (st\<lparr>idem := x\<rparr>) i = can_take W e st i"
  by (simp_all add: outbox_of_def can_take_def)

lemma outbox_reply_other: "i \<noteq> cid \<Longrightarrow> outbox_of i (reply E now cid ty corr tgt pl st) = outbox_of i st"
  by (simp add: reply_def case_prod_beta outbox_send_to)

lemma outbox_reply:
  "\<exists>eid. outbox_of i (reply E now cid ty corr tgt pl st) =
     outbox_of i st @ (if i = cid \<and> can_take (envWs E) (system_envelope eid ty now corr tgt pl) st i
                       then [system_envelope eid ty now corr tgt pl] else [])"
  by (intro exI [of _ "fst (freshId (envRnd E) now st)"]) (simp add: reply_def case_prod_beta outbox_send_to Let_def)

text \<open>The envelope a reply sends.\<close>

definition reply_env where
  "reply_env E now ty corr tgt pl st = system_envelope (fst (freshId (envRnd E) now st)) ty now corr tgt pl"

lemma outbox_reply_env:
  "outbox_of i (reply E now cid ty corr tgt pl st) = outbox_of i st
     @ (if i = cid \<and> can_take (envWs E) (reply_env E now ty corr tgt pl st) st cid
        then [reply_env E now ty corr tgt pl st] else [])"
  by (auto simp: reply_def case_prod_beta Let_def outbox_send_to reply_env_def)

lemma reply_env_sel [simp]:
  "evType (reply_env E now ty corr tgt pl st) = ty" "payload (reply_env E now ty corr tgt pl st) = pl"
  by (simp_all add: reply_env_def)

section \<open>Acknowledge and publish\<close>

definition new_ack :: "('s, 'r) env \<Rightarrow> int \<Rightarrow> envelope \<Rightarrow> event_target \<Rightarrow> json \<Rightarrow> ('s, 'a) node_scheme \<Rightarrow> envelope" where
  "new_ack E now e tgt pl st =
     system_envelope (fst (freshId (envRnd E) now st)) DELIVERY_ACK now (corr_of e) (Some tgt) pl"

lemma ack_and_record_frame [simp]:
  "core (ack_and_record E now cid e tgt pl st) = core st" "issued (ack_and_record E now cid e tgt pl st) = issued st"
  "presenceMgr (ack_and_record E now cid e tgt pl st) = presenceMgr st"
  "inFlightPublishes (ack_and_record E now cid e tgt pl st) = inFlightPublishes st"
  "maxInFlightPublishes (ack_and_record E now cid e tgt pl st) = maxInFlightPublishes st"
  by (simp_all add: ack_and_record_def case_prod_beta Let_def)

lemma idem_ack_and_record:
  "idem (ack_and_record E now cid e tgt pl st) =
     recordAck (envHash E) now (eventId e) (new_ack E now e tgt pl st) (payload e) (idem st)"
  by (simp add: ack_and_record_def case_prod_beta Let_def new_ack_def)

lemma outbox_ack_and_record:
  "outbox_of i (ack_and_record E now cid e tgt pl st) = outbox_of i st
     @ (if i = cid \<and> can_take (envWs E) (new_ack E now e tgt pl st) st i then [new_ack E now e tgt pl st] else [])"
  by (auto simp: ack_and_record_def case_prod_beta Let_def new_ack_def outbox_send_to)

lemma publish_frame_node [simp]:
  "core (publish_event now ch e st) = core st" "heap (publish_event now ch e st) = heap st"
  "idem (publish_event now ch e st) = idem st" "presenceMgr (publish_event now ch e st) = presenceMgr st"
  by (simp_all add: publish_event_def pubsub_publish_def recordPublishRejected_def recordPublishStart_def issue_def
      metric_def core_def link_connected_def Let_def)

lemma outbox_publish [simp]: "outbox_of i (publish_event now ch e st) = outbox_of i st"
  by (simp add: outbox_of_def)

text \<open>Whether a publication goes out: Redis is configured and connected, and not too many are in flight.\<close>

definition publishes :: "('s, 'a) node_scheme \<Rightarrow> bool" where
  "publishes st \<longleftrightarrow> hasRedis st \<and> link_connected st \<and> inFlightPublishes st < maxInFlightPublishes st"

lemma publishes_cong:
  "core st' = core st \<Longrightarrow> inFlightPublishes st' = inFlightPublishes st \<Longrightarrow>
   maxInFlightPublishes st' = maxInFlightPublishes st \<Longrightarrow> publishes st' = publishes st"
  using core_eqD(8,12) [of st' st] by (simp add: publishes_def)

lemma issued_publish_event:
  "issued (publish_event now ch e st) =
     issued st @ (if publishes st then [PUBLISH ch (stampForDistribution e (instanceId st) now)] else [])"
  by (simp add: publish_event_def pubsub_publish_def publishes_def recordPublishRejected_def recordPublishStart_def
      issue_def metric_def Let_def)

section \<open>Room messages\<close>

lemma core_getters:
  assumes "core st' = core st"
  shows "getRoomConnectionIds r st' = getRoomConnectionIds r st"
    "(getConnection i st' = None) = (getConnection i st = None)"
    "sender_has i r st' = sender_has i r st" "sender_user i st' = sender_user i st"
    "sender_rooms i st' = sender_rooms i st" "user_ids u st' = user_ids u st"
proof -
  note d = core_eqD [OF assms]
  show "getRoomConnectionIds r st' = getRoomConnectionIds r st" by (simp add: getRoomConnectionIds_def d)
  have h: "map_option ident (heap st' i) = map_option ident (heap st i)" by (rule d)
  then show "(getConnection i st' = None) = (getConnection i st = None)"
    by (cases "heap st i"; cases "heap st' i") (auto simp: getConnection_def d)
  from h show "sender_has i r st' = sender_has i r st" "sender_user i st' = sender_user i st"
    "sender_rooms i st' = sender_rooms i st"
    by (cases "heap st i"; cases "heap st' i";
        simp add: sender_has_def sender_user_def sender_rooms_def hasRoom_def ident_def)+
  show "user_ids u st' = user_ids u st" by (simp add: user_ids_def d)
qed

lemma room_recipients_core: "core st' = core st \<Longrightarrow> room_recipients cid r st' = room_recipients cid r st"
  by (simp add: room_recipients_def core_getters(1,2) [of st' st])

lemma room_recipients_distinct: "rooms_wf st \<Longrightarrow> distinct (room_recipients cid r st)"
  by (simp add: room_recipients_def members_distinct)

lemma set_room_recipients:
  "set (room_recipients cid r st) = {i \<in> set (getRoomConnectionIds r st). i \<noteq> cid \<and> getConnection i st \<noteq> None}"
  by (auto simp: room_recipients_def)

definition room_ack_payload :: "envelope \<Rightarrow> nat \<Rightarrow> json" where
  "room_ack_payload e n =
     JObj [(''targetEventId'', JStr (eventId e)), (''status'', JStr ''ACCEPTED''), (''recipientCount'', JNum (int_num (int n)))]"

lemma handleRoomMessage_member:
  assumes "target_room (target e) = Some r" "sender_has cid r st"
  shows "handleRoomMessage E now cid e st =
     (let st1 = note_seq cid e st; sent = send_each (envWs E) (room_recipients cid r st1) e st1
      in publish_event now (''pulse:room:'' @ r) e
           (ack_and_record E now cid e (room_target r) (room_ack_payload e (fst sent)) (snd sent)))"
  using assms by (simp add: handleRoomMessage_def case_prod_beta Let_def room_ack_payload_def)

text \<open>The common part of the two message handlers: deliver to a list of connections, acknowledge, publish.\<close>

lemma fan_out:
  fixes E :: "('s, 'r) env" and st :: "('s, 'a) node_scheme" and e :: envelope and pl :: "nat \<Rightarrow> json"
    and now :: int and tgt :: event_target and ch :: string
  assumes "distinct cids" "cid \<notin> set cids"
  defines "sent \<equiv> send_each (envWs E) cids e (note_seq cid e st)"
  defines "ack \<equiv> new_ack E now e tgt (pl (fst sent)) (snd sent)"
  defines "st' \<equiv> publish_event now ch e (ack_and_record E now cid e tgt (pl (fst sent)) (snd sent))"
  shows "fst sent = length (filter (can_take (envWs E) e st) cids)
     \<and> (\<forall>i. outbox_of i st' = outbox_of i st
          @ (if i = cid then (if can_take (envWs E) ack st cid then [ack] else [])
             else if i \<in> set cids \<and> can_take (envWs E) e st i then [e] else []))
     \<and> idem st' = recordAck (envHash E) now (eventId e) ack (payload e) (idem st)
     \<and> issued st' = issued st @ (if publishes st then [PUBLISH ch (stampForDistribution e (instanceId st) now)] else [])
     \<and> core st' = core st"
proof (intro conjI allI)
  let ?a = "ack_and_record E now cid e tgt (pl (fst sent)) (snd sent)"
  show "fst sent = length (filter (can_take (envWs E) e st) cids)"
    unfolding sent_def using assms(1) by (simp add: count_send_each)
  have cs: "core (snd sent) = core st" by (simp add: sent_def)
  show "core st' = core st" by (simp add: st'_def cs)
  have "heap (snd sent) cid = heap (note_seq cid e st) cid"
    unfolding sent_def using assms(2) by (rule heap_send_each_other)
  then have "can_take W x (snd sent) cid = can_take W x (note_seq cid e st) cid" for W x
    by (simp add: can_take_def del: note_seq_view)
  then have self: "can_take W x (snd sent) cid = can_take W x st cid" for W x by simp
  fix i
  have "outbox_of i (snd sent) = outbox_of i st @ (if i \<in> set cids \<and> can_take (envWs E) e st i then [e] else [])"
    unfolding sent_def using assms(1) by (simp add: outbox_send_each)
  then show "outbox_of i st' = outbox_of i st
          @ (if i = cid then (if can_take (envWs E) ack st cid then [ack] else [])
             else if i \<in> set cids \<and> can_take (envWs E) e st i then [e] else [])"
    using assms(2) self by (auto simp: st'_def outbox_ack_and_record ack_def)
  show "idem st' = recordAck (envHash E) now (eventId e) ack (payload e) (idem st)"
    by (simp add: st'_def idem_ack_and_record flip: ack_def) (simp add: sent_def)
  have "publishes ?a = publishes st" by (rule publishes_cong) (simp_all add: cs, simp_all add: sent_def)
  then show "issued st' = issued st @ (if publishes st then [PUBLISH ch (stampForDistribution e (instanceId st) now)] else [])"
    using core_eqD(9) [of ?a st] cs by (simp add: st'_def issued_publish_event) (simp add: sent_def)
qed

lemma room_message_effect:
  assumes "rooms_wf st" "target_room (target e) = Some r" "sender_has cid r st"
  shows "\<exists>ack. evType ack = DELIVERY_ACK \<and> correlationId ack = corr_of e
     \<and> json_get (payload ack) ''targetEventId'' = Some (JStr (eventId e))
     \<and> json_get (payload ack) ''recipientCount'' =
         Some (JNum (int_num (int (length (filter (can_take (envWs E) e st) (room_recipients cid r st))))))
     \<and> (\<forall>i. outbox_of i (handleRoomMessage E now cid e st) = outbox_of i st
          @ (if i = cid then (if can_take (envWs E) ack st cid then [ack] else [])
             else if i \<in> set (getRoomConnectionIds r st) \<and> getConnection i st \<noteq> None \<and> can_take (envWs E) e st i
             then [e] else []))
     \<and> idem (handleRoomMessage E now cid e st) = recordAck (envHash E) now (eventId e) ack (payload e) (idem st)
     \<and> issued (handleRoomMessage E now cid e st) = issued st
          @ (if publishes st then [PUBLISH (''pulse:room:'' @ r) (stampForDistribution e (instanceId st) now)] else [])"
proof -
  define cids where "cids = room_recipients cid r st"
  have "distinct cids" "cid \<notin> set cids"
    using assms(1) by (simp_all add: cids_def room_recipients_distinct set_room_recipients)
  note f = fan_out [OF this, where E = E and e = e and st = st and now = now and tgt = "room_target r" and pl = "room_ack_payload e" and ch = "''pulse:room:'' @ r"]
  define sent where "sent = send_each (envWs E) cids e (note_seq cid e st)"
  define ack where "ack = new_ack E now e (room_target r) (room_ack_payload e (fst sent)) (snd sent)"
  have rec: "room_recipients cid r (note_seq cid e st) = cids"
    unfolding cids_def by (rule room_recipients_core) simp
  have eq: "handleRoomMessage E now cid e st = publish_event now (''pulse:room:'' @ r) e
      (ack_and_record E now cid e (room_target r) (room_ack_payload e (fst sent)) (snd sent))"
    using assms(2,3) by (simp add: handleRoomMessage_member Let_def rec sent_def)
  note g = f [folded sent_def, folded ack_def, folded eq]
  show ?thesis
  proof (intro exI [of _ ack] conjI allI)
    fix i
    show "outbox_of i (handleRoomMessage E now cid e st) = outbox_of i st
          @ (if i = cid then (if can_take (envWs E) ack st cid then [ack] else [])
             else if i \<in> set (getRoomConnectionIds r st) \<and> getConnection i st \<noteq> None \<and> can_take (envWs E) e st i
             then [e] else [])"
      using g by (auto simp: cids_def set_room_recipients)
  qed (use g in \<open>simp_all add: cids_def\<close>, simp_all add: ack_def new_ack_def room_ack_payload_def)
qed

section \<open>The sample node\<close>

lemma subscribe_node [simp]:
  "idem (subscribeRoom r st) = idem st" "idem (subscribeUser r st) = idem st"
  "hasRedis (subscribeRoom r st) = hasRedis st" "hasRedis (subscribeUser r st) = hasRedis st"
  "instanceId (subscribeRoom r st) = instanceId st" "instanceId (subscribeUser r st) = instanceId st"
  "maxRoomsPerConnection (subscribeRoom r st) = maxRoomsPerConnection st"
  "maxRoomsPerConnection (subscribeUser r st) = maxRoomsPerConnection st"
  "maxRoomIdLength (subscribeRoom r st) = maxRoomIdLength st" "maxRoomIdLength (subscribeUser r st) = maxRoomIdLength st"
  "inFlightPublishes (subscribeRoom r st) = inFlightPublishes st" "inFlightPublishes (subscribeUser r st) = inFlightPublishes st"
  "maxInFlightPublishes (subscribeRoom r st) = maxInFlightPublishes st"
  "maxInFlightPublishes (subscribeUser r st) = maxInFlightPublishes st"
  "link_connected (subscribeRoom r st) = link_connected st" "link_connected (subscribeUser r st) = link_connected st"
  by (simp_all add: subscribeRoom_def subscribeUser_def incrementSubscription_def pubsub_subscribe_def setChannelsActive_def metric_def issue_def
      link_connected_def Let_def split: option.splits)

lemma link_updates [simp]:
  "link_connected (st\<lparr>heap := x1\<rparr>) = link_connected st" "link_connected (st\<lparr>connections := x2\<rparr>) = link_connected st"
  "link_connected (st\<lparr>userConnections := x3\<rparr>) = link_connected st" "link_connected (st\<lparr>pendingConnections := x4\<rparr>) = link_connected st"
  "link_connected (st\<lparr>rooms := x5\<rparr>) = link_connected st" "link_connected (st\<lparr>metricCalls := x6\<rparr>) = link_connected st"
  by (simp_all add: link_connected_def)

lemma enter_node [simp]:
  "idem (enter_room cid r st) = idem st" "hasRedis (enter_room cid r st) = hasRedis st"
  "instanceId (enter_room cid r st) = instanceId st" "maxRoomsPerConnection (enter_room cid r st) = maxRoomsPerConnection st"
  "maxRoomIdLength (enter_room cid r st) = maxRoomIdLength st" "inFlightPublishes (enter_room cid r st) = inFlightPublishes st"
  "maxInFlightPublishes (enter_room cid r st) = maxInFlightPublishes st" "link_connected (enter_room cid r st) = link_connected st"
  "connections (enter_room cid r st) = connections st" "userConnections (enter_room cid r st) = userConnections st"
  "rooms (enter_room cid r st) = js_set r (set_add cid (getRoomConnectionIds r st)) (rooms st)"
  by (simp_all add: enter_room_def upd_conn_def joinRoom_def Let_def metric_def split: option.splits)

lemma add_node [simp]:
  "idem (addConnection c st) = idem st" "hasRedis (addConnection c st) = hasRedis st"
  "instanceId (addConnection c st) = instanceId st" "maxRoomsPerConnection (addConnection c st) = maxRoomsPerConnection st"
  "maxRoomIdLength (addConnection c st) = maxRoomIdLength st" "inFlightPublishes (addConnection c st) = inFlightPublishes st"
  "maxInFlightPublishes (addConnection c st) = maxInFlightPublishes st" "link_connected (addConnection c st) = link_connected st"
  "rooms (addConnection c st) = rooms st"
  by (simp_all add: addConnection_def Let_def metric_def)

lemma sample_node0: "rooms node0 = []" "connections node0 = []" "userConnections node0 = []" "heap node0 = (\<lambda>_. None)"
  "hasRedis node0" "link_connected node0" "inFlightPublishes node0 = 0" "maxInFlightPublishes node0 = 1000"
  "instanceId node0 = ''node-b''" "maxRoomsPerConnection node0 = 100" "maxRoomIdLength node0 = 128"
  by (simp_all add: node0_def conn0_def room0_def chan0_def link_connected_def conn_state.defs room_state.defs chan_state.defs)

lemma sample_rooms: "rooms lobby = [(''lobby'', [''c1'', ''c2''])]"
  by (simp add: lobby_def getRoomConnectionIds_def sample_node0 set_add_def)

lemma room_name_lobby: "room_name ''lobby''"
  by (simp add: room_name_def) code_simp

lemma heap_joinRoom: "heap (snd (joinRoom r c st)) = heap (st :: ('s, 'a) conn_state_scheme)"
  by (simp add: joinRoom_def Let_def)

lemma sample_heap:
  "heap lobby = (\<lambda>_. None)(''c1'' \<mapsto> conn_joinRoom ''lobby'' (sim_connection ''c1'' ''ada'' 0),
     ''c2'' \<mapsto> conn_joinRoom ''lobby'' (sim_connection ''c2'' ''bob'' 0))"
  by (simp add: lobby_def enter_room_def upd_conn_def heap_joinRoom addConnection_fields sim_connection_def fun_upd_twist sample_node0)

lemma sample_connections: "connections lobby = [''c1'', ''c2'']"
  by (simp add: lobby_def addConnection_fields sample_node0 sim_connection_def set_add_def)

lemma sample_users: "userConnections lobby = [(''ada'', [''c1'']), (''bob'', [''c2''])]"
  by (simp add: lobby_def addConnection_fields sample_node0 sim_connection_def set_add_def user_ids_def)

lemma sample_index: "index_ok lobby"
  by (auto simp: index_ok_def user_ids_def user_of_def getConnection_def sample_heap conn_joinRoom_def sim_connection_def
      sample_connections sample_users)

lemma sample_take: "can_take sim_ws e lobby ''c1''" "can_take sim_ws e lobby ''c2''"
  by (simp_all add: can_take_def deliverable_def sim_ws_def WS_OPEN_def sample_heap conn_joinRoom_def sim_connection_def)

lemma sample_outbox: "outbox_of ''c1'' lobby = []" "outbox_of ''c2'' lobby = []"
  by (simp_all add: outbox_of_def sample_heap conn_joinRoom_def sim_connection_def)

lemma sample_registered: "getConnection ''c2'' lobby \<noteq> None"
  by (simp add: getConnection_def sample_heap sample_connections)

lemma sample_settings:
  "hasRedis lobby" "link_connected lobby" "inFlightPublishes lobby = 0" "maxInFlightPublishes lobby = 1000"
  "maxRoomsPerConnection lobby = 100" "maxRoomIdLength lobby = 128"
  by (simp_all add: lobby_def sample_node0)

lemma sample_publishes: "publishes lobby"
  by (simp add: publishes_def sample_settings)

lemma sample_instance: "instanceId lobby = ''node-b''"
  by (simp add: lobby_def sample_node0)

lemma sample_members: "getRoomConnectionIds ''lobby'' lobby = [''c1'', ''c2'']"
  by (simp add: getRoomConnectionIds_def sample_rooms)

lemma sample_env: "envWs env0 = sim_ws"
  by (simp add: env0_def)

lemmas sample_facts = sample_take sample_outbox sample_registered sample_publishes sample_instance sample_members sample_env

lemma sample_has: "sender_has ''c1'' ''lobby'' lobby" "\<not> sender_has ''c1'' ''attic'' lobby"
  by (simp_all add: sender_has_def hasRoom_def sample_heap conn_joinRoom_def sim_connection_def)

lemma sample_user: "user_of lobby ''c1'' \<noteq> Some ''bob''" "user_of lobby ''c2'' = Some ''bob''"
  by (simp_all add: user_of_def getConnection_def sample_heap conn_joinRoom_def sim_connection_def sample_connections)

text \<open>
  C4: a room message reaches every other member of the room, once. When the sender is a member,
  each other member that is registered and able to take a frame gets the event appended to its
  outbox exactly once, nobody else gets anything, and the sender gets an acknowledgement that names
  the event and counts the recipients exactly; the acknowledgement is recorded for the event's
  identifier, and the event is published on the room's channel, stamped with this instance, when
  Redis takes publications.
\<close>

theorem room_message_delivery:
  assumes "rooms_wf st" "target_room (target e) = Some r" "sender_has cid r st"
  shows "\<exists>ack. evType ack = DELIVERY_ACK \<and> correlationId ack = corr_of e
     \<and> json_get (payload ack) ''targetEventId'' = Some (JStr (eventId e))
     \<and> json_get (payload ack) ''recipientCount'' =
         Some (JNum (int_num (int (card {i \<in> set (getRoomConnectionIds r st).
             i \<noteq> cid \<and> getConnection i st \<noteq> None \<and> can_take (envWs E) e st i}))))
     \<and> (\<forall>i. outbox_of i (handleRoomMessage E now cid e st) = outbox_of i st
          @ (if i = cid then (if can_take (envWs E) ack st cid then [ack] else [])
             else if i \<in> set (getRoomConnectionIds r st) \<and> getConnection i st \<noteq> None \<and> can_take (envWs E) e st i
             then [e] else []))
     \<and> map_of (idemCache (idem (handleRoomMessage E now cid e st))) (eventId e) =
         Some \<lparr>idemEventId = eventId e, payloadHash = hashPayload (envHash E) (payload e), ackEnvelope = ack, idemTimestamp = now\<rparr>
     \<and> issued (handleRoomMessage E now cid e st) = issued st
          @ (if publishes st then [PUBLISH (''pulse:room:'' @ r) (stampForDistribution e (instanceId st) now)] else [])"
proof -
  have "length (filter (can_take (envWs E) e st) (room_recipients cid r st)) =
      card {i \<in> set (getRoomConnectionIds r st). i \<noteq> cid \<and> getConnection i st \<noteq> None \<and> can_take (envWs E) e st i}"
    using assms(1) by (subst distinct_card [symmetric])
      (auto simp: room_recipients_distinct set_room_recipients intro!: arg_cong [where f = card])
  with room_message_effect [OF assms, of E now] show ?thesis
    by (elim exE) (intro exI, auto simp: recordAck_def idem_put_def)
qed

theorem room_message_delivery_witness:
  "\<exists>ack :: envelope. evType ack = DELIVERY_ACK
     \<and> outbox_of ''c2'' (handleRoomMessage env0 5 ''c1'' hello lobby) = [hello]
     \<and> outbox_of ''c1'' (handleRoomMessage env0 5 ''c1'' hello lobby) = [ack]
     \<and> issued (handleRoomMessage env0 5 ''c1'' hello lobby) = issued lobby
          @ [PUBLISH ''pulse:room:lobby'' (stampForDistribution hello ''node-b'' 5)]"
proof -
  have h: "target_room (target hello) = Some ''lobby''" by (simp add: hello_def room_target_def)
  have w: "rooms_wf lobby" by (simp add: sample_rooms rooms_wf_def room_name_lobby)
  show ?thesis
    using room_message_delivery [OF w h sample_has(1), of env0 5] sample_facts by auto
qed

section \<open>Direct messages\<close>

definition direct_ack_payload :: "envelope \<Rightarrow> nat \<Rightarrow> json" where
  "direct_ack_payload e n =
     JObj [(''targetEventId'', JStr (eventId e)), (''status'', JStr ''ACCEPTED''),
           (''delivered'', JBool (n > 0)), (''recipientConnectionCount'', JNum (int_num (int n)))]"

lemma getConnectionsByUserId_core: "core st' = core st \<Longrightarrow> getConnectionsByUserId u st' = getConnectionsByUserId u st"
  by (simp add: getConnectionsByUserId_def core_getters(2,6) [of st' st])



section \<open>Refused frames\<close>

text \<open>
  C6: only members speak in a room. A room message from a connection that has not joined the room
  is answered with \<^verbatim>\<open>UNAUTHORIZED_ROOM_ACCESS\<close> to its sender and changes nothing else: no other
  connection receives anything, nothing is published, no acknowledgement is recorded, and the
  sender's sequence number is not consumed.
\<close>

theorem non_member_cannot_speak:
  assumes "target_room (target e) = Some r" "\<not> sender_has cid r st"
  shows "\<exists>err. evType err = SYS_ERROR \<and> json_get (payload err) ''code'' = Some (JStr ''UNAUTHORIZED_ROOM_ACCESS'')
     \<and> (\<forall>i. outbox_of i (handleRoomMessage E now cid e st) =
              outbox_of i st @ (if i = cid \<and> can_take (envWs E) err st cid then [err] else []))
     \<and> core (handleRoomMessage E now cid e st) = core st \<and> idem (handleRoomMessage E now cid e st) = idem st
     \<and> issued (handleRoomMessage E now cid e st) = issued st \<and> last_seq cid (handleRoomMessage E now cid e st) = last_seq cid st"
proof -
  let ?pl = "error_payload ''UNAUTHORIZED_ROOM_ACCESS''
                   (''Cannot send message: Connection is not a member of room '' @ quoted r)"
  let ?err = "system_envelope (fst (freshId (envRnd E) now st)) SYS_ERROR now (corr_of e) (Some (room_target r)) ?pl"
  have eq: "handleRoomMessage E now cid e st = ack_metric ''error'' (reply E now cid SYS_ERROR (corr_of e) (Some (room_target r)) ?pl st)"
    using assms by (simp add: handleRoomMessage_def)
  have "last_seq cid (reply E now cid ty corr tgt pl st) = last_seq cid st" for ty corr tgt pl
    by (simp add: last_seq_def reply_def case_prod_beta Let_def heap_send_to split: option.splits)
  moreover have "outbox_of i (reply E now cid SYS_ERROR (corr_of e) (Some (room_target r)) ?pl st) =
      outbox_of i st @ (if i = cid \<and> can_take (envWs E) ?err st cid then [?err] else [])" for i
    by (auto simp: reply_def case_prod_beta Let_def outbox_send_to)
  ultimately show ?thesis
    by (intro exI [of _ ?err]) (simp add: eq, simp add: last_seq_def)
qed

theorem non_member_cannot_speak_witness:
  "\<exists>err :: envelope. json_get (payload err) ''code'' = Some (JStr ''UNAUTHORIZED_ROOM_ACCESS'')
     \<and> outbox_of ''c1'' (handleRoomMessage env0 5 ''c1'' (hello\<lparr>target := Some (room_target ''attic'')\<rparr>) lobby) = [err]
     \<and> outbox_of ''c2'' (handleRoomMessage env0 5 ''c1'' (hello\<lparr>target := Some (room_target ''attic'')\<rparr>) lobby) = []"
proof -
  have h: "target_room (target (hello\<lparr>target := Some (room_target ''attic'')\<rparr>)) = Some ''attic''"
    by (simp add: room_target_def)
  show ?thesis using non_member_cannot_speak [OF h sample_has(2), of env0 5] sample_facts by auto
qed

end
