(* ===== verification/Dispatch_Rules.thy ===== *)
theory Dispatch_Rules
  imports Delivery
begin

text \<open>
  The rules \<^verbatim>\<open>dispatchRawMessage\<close> enforces before any handler runs: the rate limit, the answer to a
  retried event, the order of sequence numbers.
\<close>

section \<open>Frames of the checks\<close>

lemma last_seq_frame [simp]:
  "last_seq i (metric m st) = last_seq i st" "last_seq i (st\<lparr>idem := x\<rparr>) = last_seq i st"
  "last_seq i (st\<lparr>presenceMgr := y\<rparr>) = last_seq i st" "last_seq i (snd (freshId rnd now st)) = last_seq i st"
  "last_seq i (publish_event now ch e st) = last_seq i st"
  by (simp_all add: last_seq_def)

lemma last_seq_send_to [simp]: "last_seq i (snd (send_to W cid e st)) = last_seq i st"
  by (simp add: last_seq_def heap_send_to split: option.splits)

lemma last_seq_send_each [simp]: "last_seq i (snd (send_each W cids e st)) = last_seq i st"
  by (induction cids arbitrary: st) (simp_all add: send_each_Cons)

lemma last_seq_reply [simp]: "last_seq i (reply E now cid ty corr tgt pl st) = last_seq i st"
  by (simp add: reply_def case_prod_beta)

lemma last_seq_ack [simp]: "last_seq i (ack_and_record E now cid e tgt pl st) = last_seq i st"
  by (simp add: ack_and_record_def case_prod_beta Let_def)

lemma last_seq_upd: "(\<And>c. lastSeenSeq (f c) = lastSeenSeq c) \<Longrightarrow> last_seq i (upd_conn cid f st) = last_seq i st"
  by (simp add: last_seq_def heap_upd_conn split: option.splits)

lemma in_order_frame [simp]:
  "in_order cid e (metric m st) = in_order cid e st" "in_order cid e (st\<lparr>idem := x\<rparr>) = in_order cid e st"
  by (simp_all add: in_order_def split: option.splits)

lemma heap_call_conn:
  "heap (snd (call_conn cid f st)) i = (if i = cid then map_option (\<lambda>c. snd (f c)) (heap st cid) else heap st i)"
  by (simp add: call_conn_def split: option.splits)

lemma call_conn_frame [simp]:
  "idem (snd (call_conn cid f st)) = idem st" "issued (snd (call_conn cid f st)) = issued st"
  "presenceMgr (snd (call_conn cid f st)) = presenceMgr st"
  by (simp_all add: call_conn_def split: option.splits)

lemma core_call_conn: "(\<And>c. ident (snd (f c)) = ident c) \<Longrightarrow> core (snd (call_conn cid f st)) = core st"
  by (auto simp: core_def call_conn_def link_connected_def split: option.splits)

lemma bucket_ident [simp]:
  "ident (conn_touch now c) = ident c" "ident (snd (consumeRateLimit now c)) = ident c"
  "ident (snd (recordRateViolation now c)) = ident c" "ident (conn_close W code reason c) = ident c"
  by (simp_all add: ident_def conn_touch_def consumeRateLimit_def recordRateViolation_def case_prod_beta Let_def)

lemma bucket_seq [simp]:
  "lastSeenSeq (conn_touch now c) = lastSeenSeq c" "lastSeenSeq (snd (consumeRateLimit now c)) = lastSeenSeq c"
  "lastSeenSeq (snd (recordRateViolation now c)) = lastSeenSeq c"
  by (simp_all add: conn_touch_def consumeRateLimit_def recordRateViolation_def case_prod_beta Let_def)

lemma bucket_outbox [simp]:
  "outbox (conn_touch now c) = outbox c" "outbox (snd (consumeRateLimit now c)) = outbox c"
  "outbox (snd (recordRateViolation now c)) = outbox c"
  by (simp_all add: conn_touch_def consumeRateLimit_def recordRateViolation_def case_prod_beta Let_def)

lemma last_seq_call: "(\<And>c. lastSeenSeq (snd (f c)) = lastSeenSeq c) \<Longrightarrow> last_seq i (snd (call_conn cid f st)) = last_seq i st"
  by (simp add: last_seq_def heap_call_conn split: option.splits)

section \<open>The rate limit\<close>

text \<open>The state when the limiter has been asked.\<close>

definition admit :: "int \<Rightarrow> string \<Rightarrow> ('s, 'a) node_scheme \<Rightarrow> bool \<times> ('s, 'a) node_scheme" where
  "admit now cid st = call_conn cid (consumeRateLimit now) (upd_conn cid (conn_touch now) st)"

lemma admit_frame [simp]:
  "core (snd (admit now cid st)) = core st" "idem (snd (admit now cid st)) = idem st"
  "issued (snd (admit now cid st)) = issued st" "presenceMgr (snd (admit now cid st)) = presenceMgr st"
  "last_seq i (snd (admit now cid st)) = last_seq i st"
  by (simp_all add: admit_def core_call_conn core_upd_conn last_seq_call last_seq_upd)

lemma heap_admit_other: "i \<noteq> cid \<Longrightarrow> heap (snd (admit now cid st)) i = heap st i"
  by (simp add: admit_def heap_call_conn heap_upd_conn)

lemma outbox_admit [simp]: "outbox_of i (snd (admit now cid st)) = outbox_of i st"
  by (simp add: outbox_of_def admit_def heap_call_conn heap_upd_conn split: option.splits)

lemma fst_admit: "heap st cid = Some c \<Longrightarrow> fst (admit now cid st) = fst (tryConsume 1 now (tokenBucket c))"
  by (simp add: admit_def call_conn_def heap_upd_conn consumeRateLimit_def conn_touch_def case_prod_beta Let_def)

lemma dispatch_eq:
  "dispatchRawMessage E ok now cid raw (st, rs) =
     (let st1 = snd (admit now cid st) in
      if \<not> fst (admit now cid st) then (over_limit E now cid st1, rs)
      else let p = (case validateIncoming (envParse E) (envRnd E) now raw (JStr (sender_user cid st1)) st1 of
                      (Inl err, st2) \<Rightarrow> (reject_frame E now cid err st2, rs)
                    | (Inr e, st2) \<Rightarrow> dispatch_event E ok now cid e (st2, rs))
           in (metric (MRecord ''pulse_message_processing_duration_seconds'') (fst p), snd p))"
  by (simp add: dispatchRawMessage_def admit_def case_prod_beta Let_def)

lemma over_limit_frame:
  "core (over_limit E now cid st) = core st" "idem (over_limit E now cid st) = idem st"
  "issued (over_limit E now cid st) = issued st" "presenceMgr (over_limit E now cid st) = presenceMgr st"
  "last_seq i (over_limit E now cid st) = last_seq i st"
  by (simp_all add: over_limit_def case_prod_beta Let_def core_call_conn core_upd_conn last_seq_call last_seq_upd)

lemma outbox_over_limit:
  "\<exists>eid. outbox_of i (over_limit E now cid st) = outbox_of i st
     @ (if i = cid \<and> can_take (envWs E) (system_envelope eid SYS_ERROR now None None
              (error_payload ''RATE_LIMIT_EXCEEDED'' ''Inbound message rate limit exceeded. Slow down.'')) st i
        then [system_envelope eid SYS_ERROR now None None
              (error_payload ''RATE_LIMIT_EXCEEDED'' ''Inbound message rate limit exceeded. Slow down.'')] else [])"
proof -
  let ?pl = "error_payload ''RATE_LIMIT_EXCEEDED'' ''Inbound message rate limit exceeded. Slow down.''"
  let ?st1 = "dropped_metric ''rate_limit_exceeded'' (inc_metric ''pulse_rate_limit_exceeded_total'' ''direction'' ''inbound'' st)"
  have "outbox_of i (over_limit E now cid st) = outbox_of i (reply E now cid SYS_ERROR None None ?pl ?st1)"
    by (auto simp: over_limit_def case_prod_beta Let_def outbox_of_def heap_call_conn heap_upd_conn split: option.splits)
  then show ?thesis using outbox_reply [of i E now cid SYS_ERROR None None ?pl ?st1] by simp
qed

text \<open>
  A frame over the rate limit is not processed. Whatever the frame holds, when the sender's
  bucket has no token the only effects are on the sender: it gets at most one
  \<^verbatim>\<open>RATE_LIMIT_EXCEEDED\<close> error and may be closed. No other connection changes, rooms, registrations
  and subscriptions stay as they are, nothing is published or recorded, and the sequence number is
  not consumed.
\<close>

theorem over_limit_frame_ignored:
  fixes E :: "('s, 'r) env" and st :: "('s, 'a) node_scheme" and raw :: string and ok :: replies and rs :: 'r
  assumes "heap st cid = Some c" "\<not> fst (tryConsume 1 now (tokenBucket c))"
  defines "st' \<equiv> fst (dispatchRawMessage E ok now cid raw (st, rs))"
  shows "core st' = core st \<and> idem st' = idem st \<and> issued st' = issued st \<and> last_seq cid st' = last_seq cid st
     \<and> (\<forall>i. i \<noteq> cid \<longrightarrow> outbox_of i st' = outbox_of i st)
     \<and> (outbox_of cid st' = outbox_of cid st \<or>
        (\<exists>err. outbox_of cid st' = outbox_of cid st @ [err] \<and> evType err = SYS_ERROR
           \<and> json_get (payload err) ''code'' = Some (JStr ''RATE_LIMIT_EXCEEDED'')))
     \<and> snd (dispatchRawMessage E ok now cid raw (st, rs)) = rs"
proof -
  let ?st1 = "snd (admit now cid st)"
  have eq: "dispatchRawMessage E ok now cid raw (st, rs) = (over_limit E now cid ?st1, rs)"
    using assms(1,2) by (simp add: dispatch_eq fst_admit Let_def)
  have "outbox_of i (over_limit E now cid ?st1) = outbox_of i st" if "i \<noteq> cid" for i
    using outbox_over_limit [of i E now cid ?st1] that by simp
  moreover have "outbox_of cid (over_limit E now cid ?st1) = outbox_of cid st \<or>
      (\<exists>err. outbox_of cid (over_limit E now cid ?st1) = outbox_of cid st @ [err] \<and> evType err = SYS_ERROR
         \<and> json_get (payload err) ''code'' = Some (JStr ''RATE_LIMIT_EXCEEDED''))"
    using outbox_over_limit [of cid E now cid ?st1] by (auto simp: outbox_admit)
  ultimately show ?thesis by (simp add: st'_def eq over_limit_frame)
qed

definition broke :: "sim_socket connection" where
  "broke = (sim_connection ''c1'' ''ada'' 0)\<lparr>tokenBucket := (new_TokenBucket 50 100 1)\<lparr>tokens := 0\<rparr>\<rparr>"

theorem over_limit_frame_ignored_witness:
  "core (fst (dispatchRawMessage env0 all_ok 1 ''c1'' ''x'' (addConnection broke node0, empty_redis))) = core (addConnection broke node0)
   \<and> outbox_of ''c1'' (fst (dispatchRawMessage env0 all_ok 1 ''c1'' ''x'' (addConnection broke node0, empty_redis))) \<noteq> [hello]"
proof -
  have h: "heap (addConnection broke node0) ''c1'' = Some broke" by (simp add: addConnection_fields broke_def sim_connection_def)
  have t: "\<not> fst (tryConsume 1 1 (tokenBucket broke))" by code_simp
  have o: "outbox_of ''c1'' (addConnection broke node0) = []" using h by (simp add: outbox_of_def broke_def sim_connection_def)
  show ?thesis using over_limit_frame_ignored [OF h t, where E = env0 and ok = all_ok and raw = "''x''" and rs = empty_redis] o by (auto simp: hello_def)
qed

section \<open>Retried events\<close>

lemma check_duplicate_eq:
  "evType e = ROOM_MESSAGE \<or> evType e = DIRECT_MESSAGE \<Longrightarrow>
   check_duplicate E now e st =
     (fst (idem_check (envHash E) now (eventId e) (payload e) (idem st)),
      st\<lparr>idem := snd (idem_check (envHash E) now (eventId e) (payload e) (idem st))\<rparr>)"
  by (auto simp: check_duplicate_def case_prod_beta Let_def)

abbreviation received :: "envelope \<Rightarrow> ('s, 'a) node_scheme \<Rightarrow> ('s, 'a) node_scheme" where
  "received e st \<equiv> inc_metric ''pulse_messages_received_total'' ''event_type'' (event_type_name (evType e)) st"

lemma dispatch_new_room:
  assumes "evType e = ROOM_MESSAGE" "in_order cid e st"
    and "fst (idem_check (envHash E) now (eventId e) (payload e) (idem st)) = NotDuplicate"
  shows "dispatch_event E ok now cid e (st, rs) =
     (handleRoomMessage E now cid e
        ((received e st)\<lparr>idem := snd (idem_check (envHash E) now (eventId e) (payload e) (idem st))\<rparr>), rs)"
  using assms by (simp add: dispatch_event_def check_duplicate_eq handle_event_def Let_def)

lemma dispatch_replay:
  assumes "evType e = ROOM_MESSAGE \<or> evType e = DIRECT_MESSAGE"
    and "fst (idem_check (envHash E) now (eventId e) (payload e) (idem st)) = DuplicateAck ack"
  shows "dispatch_event E ok now cid e (st, rs) =
     (replay_ack E cid e ack
        ((received e st)\<lparr>idem := snd (idem_check (envHash E) now (eventId e) (payload e) (idem st))\<rparr>), rs)"
  using assms by (simp add: dispatch_event_def check_duplicate_eq Let_def)

lemma replay_frame [simp]:
  "core (replay_ack E cid e ack st) = core st" "issued (replay_ack E cid e ack st) = issued st"
  "idem (replay_ack E cid e ack st) = idem st" "presenceMgr (replay_ack E cid e ack st) = presenceMgr st"
  by (simp_all add: replay_ack_def)

lemma outbox_replay:
  "outbox_of i (replay_ack E cid e ack st) = outbox_of i st
     @ (let a = ack\<lparr>correlationId := str_or (correlationId e) (correlationId ack)\<rparr>
        in if i = cid \<and> can_take (envWs E) a st cid then [a] else [])"
  by (auto simp: replay_ack_def outbox_send_to Let_def)

lemma check_recorded:
  "later - now \<le> idemTtlMs st \<Longrightarrow> fst (idem_check H later eid pl (recordAck H now eid ack pl st)) = DuplicateAck ack"
  by (simp add: idem_check_def recordAck_def idem_put_def)

lemma idem_check_ttl [simp]: "idemTtlMs (snd (idem_check H now eid pl st)) = idemTtlMs st"
  by (simp add: idem_check_def split: option.splits)

text \<open>
  A retried room message is delivered once. A client that sends the same event again within the
  cache's time to live gets the first acknowledgement back (with the correlation identifier of the
  retry); after both frames every other member has received the event exactly once, and the retry
  publishes nothing.
\<close>

theorem retry_delivers_once:
  fixes E :: "('s, 'r) env" and st :: "('s, 'a) node_scheme" and ok ok' :: replies and rs :: 'r
  assumes "rooms_wf st" "evType e = ROOM_MESSAGE" "target_room (target e) = Some r" "sender_has cid r st"
    and "in_order cid e st" "fst (idem_check (envHash E) now (eventId e) (payload e) (idem st)) = NotDuplicate"
    and "evType e' = ROOM_MESSAGE" "eventId e' = eventId e" "payload e' = payload e" "later - now \<le> idemTtlMs (idem st)"
  defines "p1 \<equiv> dispatch_event E ok now cid e (st, rs)"
  defines "p2 \<equiv> dispatch_event E ok' later cid e' p1"
  shows "\<exists>ack. evType ack = DELIVERY_ACK \<and> correlationId ack = corr_of e
     \<and> (\<forall>i. i \<noteq> cid \<longrightarrow> outbox_of i (fst p2) = outbox_of i st
          @ (if i \<in> set (getRoomConnectionIds r st) \<and> getConnection i st \<noteq> None \<and> can_take (envWs E) e st i then [e] else []))
     \<and> outbox_of cid (fst p1) = outbox_of cid st @ (if can_take (envWs E) ack st cid then [ack] else [])
     \<and> outbox_of cid (fst p2) = outbox_of cid (fst p1)
          @ (let a = ack\<lparr>correlationId := str_or (correlationId e') (correlationId ack)\<rparr>
             in if can_take (envWs E) a (fst p1) cid then [a] else [])
     \<and> issued (fst p2) = issued (fst p1) \<and> core (fst p2) = core (fst p1)"
proof -
  define st0 where "st0 = (received e st)\<lparr>idem := snd (idem_check (envHash E) now (eventId e) (payload e) (idem st))\<rparr>"
  have c0: "core st0 = core st" by (simp add: st0_def)
  have p1: "p1 = (handleRoomMessage E now cid e st0, rs)"
    unfolding p1_def st0_def by (rule dispatch_new_room) fact+
  have w: "rooms_wf st0" using assms(1) by (simp add: rooms_wf_def st0_def)
  have h: "sender_has cid r st0" using assms(4) core_getters(3) [OF c0] by simp
  have view: "outbox_of i st0 = outbox_of i st" "can_take W x st0 i = can_take W x st i"
    "(getConnection i st0 = None) = (getConnection i st = None)" "getRoomConnectionIds r st0 = getRoomConnectionIds r st" for i W x
    using core_getters(1,2) [OF c0] by (simp_all add: st0_def)
  obtain ack where a: "evType ack = DELIVERY_ACK" "correlationId ack = corr_of e"
    "\<And>i. outbox_of i (fst p1) = outbox_of i st
          @ (if i = cid then (if can_take (envWs E) ack st cid then [ack] else [])
             else if i \<in> set (getRoomConnectionIds r st) \<and> getConnection i st \<noteq> None \<and> can_take (envWs E) e st i
             then [e] else [])"
    "idem (fst p1) = recordAck (envHash E) now (eventId e) ack (payload e) (idem st0)"
    using room_message_effect [OF w assms(3) h, of E now] by (auto simp: view p1)
  have "fst (idem_check (envHash E) later (eventId e') (payload e') (idem (fst p1))) = DuplicateAck ack"
    using assms(8-10) by (simp add: a(4) check_recorded st0_def)
  then have "p2 = (replay_ack E cid e' ack ((received e' (fst p1))\<lparr>idem :=
      snd (idem_check (envHash E) later (eventId e') (payload e') (idem (fst p1)))\<rparr>), snd p1)"
    unfolding p2_def using dispatch_replay [of e' E later "fst p1" ack ok' cid "snd p1"] assms(7) by simp
  then show ?thesis using a by (intro exI [of _ ack]) (simp add: outbox_replay Let_def)
qed

lemma sample_idem: "idemCache (idem lobby) = []" and sample_ttl: "idemTtlMs (idem lobby) = 60000"
  by (simp_all add: lobby_def node0_def new_IdempotencyManager_def conn_state.defs)

lemma sample_wf: "rooms_wf lobby"
  by (simp add: sample_rooms rooms_wf_def room_name_lobby)

lemma sample_last: "last_seq ''c1'' lobby = 0"
  by (simp add: last_seq_def sample_heap conn_joinRoom_def sim_connection_def)

theorem retry_delivers_once_witness:
  "\<exists>ack :: envelope. evType ack = DELIVERY_ACK
     \<and> outbox_of ''c2'' (fst (dispatch_event env0 all_ok 10 ''c1'' hello (dispatch_event env0 all_ok 5 ''c1'' hello (lobby, empty_redis)))) = [hello]
     \<and> outbox_of ''c1'' (fst (dispatch_event env0 all_ok 5 ''c1'' hello (lobby, empty_redis))) = [ack]"
proof -
  have h: "evType hello = ROOM_MESSAGE" "target_room (target hello) = Some ''lobby''" "in_order ''c1'' hello lobby"
    by (simp_all add: hello_def room_target_def in_order_def sample_last)
  have i: "fst (idem_check (envHash env0) 5 (eventId hello) (payload hello) (idem lobby)) = NotDuplicate"
    "10 - 5 \<le> idemTtlMs (idem lobby)"
    by (simp_all add: sample_idem idem_check_def sample_ttl)
  show ?thesis
    using retry_delivers_once [OF sample_wf h(1,2) sample_has(1) h(3) i(1) h(1) refl refl i(2),
        where ok = all_ok and ok' = all_ok and rs = empty_redis] sample_facts
    by auto
qed

section \<open>Sequence numbers\<close>

lemma registry_node [simp]:
  "heap (subscribeRoom r st) = heap (st :: ('s, 'a) node_scheme)" "idem (subscribeRoom r st) = idem (st :: ('s, 'a) node_scheme)"
  "presenceMgr (subscribeRoom r st) = presenceMgr (st :: ('s, 'a) node_scheme)"
  "maxRoomsPerConnection (subscribeRoom r st) = maxRoomsPerConnection (st :: ('s, 'a) node_scheme)"
  "maxRoomIdLength (subscribeRoom r st) = maxRoomIdLength (st :: ('s, 'a) node_scheme)"
  "heap (unsubscribeRoom r st) = heap (st :: ('s, 'a) node_scheme)" "idem (unsubscribeRoom r st) = idem (st :: ('s, 'a) node_scheme)"
  "presenceMgr (unsubscribeRoom r st) = presenceMgr (st :: ('s, 'a) node_scheme)"
  "maxRoomsPerConnection (unsubscribeRoom r st) = maxRoomsPerConnection (st :: ('s, 'a) node_scheme)"
  "maxRoomIdLength (unsubscribeRoom r st) = maxRoomIdLength (st :: ('s, 'a) node_scheme)"
  by (simp_all add: subscribeRoom_def unsubscribeRoom_def incrementSubscription_def decrementSubscription_def
      pubsub_subscribe_def pubsub_unsubscribe_def setChannelsActive_def metric_def issue_def Let_def split: option.splits)

lemma metric_limits [simp]:
  "maxRoomsPerConnection (metric m st) = maxRoomsPerConnection st" "maxRoomIdLength (metric m st) = maxRoomIdLength st"
  by (simp_all add: metric_def)

lemma joinRoom_node [simp]:
  "heap (snd (joinRoom r c st)) = heap (st :: ('s, 'a) node_scheme)" "idem (snd (joinRoom r c st)) = idem (st :: ('s, 'a) node_scheme)"
  "presenceMgr (snd (joinRoom r c st)) = presenceMgr (st :: ('s, 'a) node_scheme)"
  "maxRoomsPerConnection (snd (joinRoom r c st)) = maxRoomsPerConnection (st :: ('s, 'a) node_scheme)"
  "maxRoomIdLength (snd (joinRoom r c st)) = maxRoomIdLength (st :: ('s, 'a) node_scheme)"
  "connections (snd (joinRoom r c st)) = connections (st :: ('s, 'a) node_scheme)"
  "userConnections (snd (joinRoom r c st)) = userConnections (st :: ('s, 'a) node_scheme)"
  by (simp_all add: joinRoom_def Let_def)

lemma leaveRoom_node [simp]:
  "heap (snd (leaveRoom r c st)) = heap (st :: ('s, 'a) node_scheme)" "idem (snd (leaveRoom r c st)) = idem (st :: ('s, 'a) node_scheme)"
  "presenceMgr (snd (leaveRoom r c st)) = presenceMgr (st :: ('s, 'a) node_scheme)"
  "maxRoomsPerConnection (snd (leaveRoom r c st)) = maxRoomsPerConnection (st :: ('s, 'a) node_scheme)"
  "maxRoomIdLength (snd (leaveRoom r c st)) = maxRoomIdLength (st :: ('s, 'a) node_scheme)"
  "connections (snd (leaveRoom r c st)) = connections (st :: ('s, 'a) node_scheme)"
  "userConnections (snd (leaveRoom r c st)) = userConnections (st :: ('s, 'a) node_scheme)"
  by (simp_all add: leaveRoom_def Let_def split: option.splits)

lemma heap_enter_room: "heap (enter_room cid r st) i = (if i = cid then map_option (conn_joinRoom r) (heap st cid) else heap st i)"
  by (simp add: enter_room_def heap_upd_conn)

lemma heap_leave_enter: "heap (leave_enter cid r st) i = (if i = cid then map_option (conn_leaveRoom r) (heap st cid) else heap st i)"
  by (simp add: leave_enter_def heap_upd_conn)

lemma last_seq_rooms [simp]:
  "last_seq i (enter_room cid r st) = last_seq i st" "last_seq i (leave_enter cid r st) = last_seq i st"
  by (simp_all add: last_seq_def heap_enter_room heap_leave_enter conn_joinRoom_def conn_leaveRoom_def split: option.splits)

lemma last_seq_batch_body [simp]: "last_seq i (snd (batch_body cid n k j st)) = last_seq i st"
  by (simp add: batch_body_def Let_def)

lemma batch_loop_Cons:
  "batch_loop E ok cid n k (j # js) (st, rs) =
     (let b = batch_body cid n k j st in
      case fst b of
        BatchSkip \<Rightarrow> batch_loop E ok cid n k js (snd b, rs)
      | BatchBreak \<Rightarrow> ([], snd b, rs)
      | BatchJoined r k' \<Rightarrow>
          let q = batch_loop E ok cid n k' js (snd b, add_room_member E ok cid r (snd b) rs) in (r # fst q, snd q))"
  by (simp add: case_prod_beta Let_def split: batch_step.splits)

declare batch_loop.simps(2) [simp del]

lemma last_seq_batch_loop [simp]: "last_seq i (fst (snd (batch_loop E ok cid n k js (st, rs)))) = last_seq i st"
  by (induction js arbitrary: k st rs) (simp_all add: batch_loop_Cons Let_def split: batch_step.splits)

lemma getRoomRoster_node:
  fixes st :: "('s, 'a) node_scheme"
  shows "heap (fst (snd (snd (getRoomRoster R ok lat now prov r (pm, st, rs))))) = heap st"
    and "core (fst (snd (snd (getRoomRoster R ok lat now prov r (pm, st, rs))))) = core st"
    and "idem (fst (snd (snd (getRoomRoster R ok lat now prov r (pm, st, rs))))) = idem st"
    and "issued (fst (snd (snd (getRoomRoster R ok lat now prov r (pm, st, rs))))) = issued st"
  by (simp_all add: getRoomRoster_def recordPresencePruneLatency_def presence_op_metric_def metric_def core_def link_connected_def
      case_prod_beta Let_def split: option.splits sum.splits)

lemma fetch_roster_node [simp]:
  "heap (fst (snd (fetch_roster E ok now r (st, rs)))) = heap st" "core (fst (snd (fetch_roster E ok now r (st, rs)))) = core st"
  "idem (fst (snd (fetch_roster E ok now r (st, rs)))) = idem st" "issued (fst (snd (fetch_roster E ok now r (st, rs)))) = issued st"
  by (simp_all add: fetch_roster_def case_prod_beta getRoomRoster_node Let_def split: option.splits)

lemma last_seq_fetch [simp]: "last_seq i (fst (snd (fetch_roster E ok now r (st, rs)))) = last_seq i st"
  by (simp add: last_seq_def)

text \<open>The number a connection's counter has after noting an event.\<close>

lemma last_seq_note:
  "last_seq i (note_seq cid e st) =
     (if i = cid \<and> heap st cid \<noteq> None then (case seq e of None \<Rightarrow> last_seq i st | Some n \<Rightarrow> n) else last_seq i st)"
  by (auto simp: last_seq_def note_seq_def heap_upd_conn split: option.splits)

lemma note_seq_mono:
  assumes "in_order cid e st" "\<And>j. last_seq j st' = last_seq j st"
  shows "last_seq i st \<le> last_seq i (note_seq cid e st')"
  using assms by (auto simp: last_seq_note in_order_def split: option.splits)

lemma handleRoomJoin_seq:
  assumes "in_order cid e st"
  shows "last_seq i st \<le> last_seq i (fst (handleRoomJoin E ok now cid e (st, rs)))"
proof (cases "fst (room_join_enter E now cid e st)")
  case None
  then obtain st1 where "room_join_enter E now cid e st = (None, st1)" by (cases "room_join_enter E now cid e st") auto
  then show ?thesis
    by (auto simp: handleRoomJoin_def room_join_enter_def Let_def split: if_splits)
next
  case (Some r)
  then have e: "room_join_enter E now cid e st = (Some r, enter_room cid r st)"
    by (auto simp: room_join_enter_def Let_def split: if_splits)
  have "last_seq i st \<le> last_seq i (note_seq cid e (enter_room cid r st))" using assms by (rule note_seq_mono) simp
  then show ?thesis by (simp add: handleRoomJoin_def e case_prod_beta Let_def room_join_ack_def)
qed

lemma handleRoomBatchJoin_seq:
  assumes "in_order cid e st"
  shows "last_seq i st \<le> last_seq i (fst (handleRoomBatchJoin E ok now cid e (st, rs)))"
proof (cases "as_arr (json_get (payload e) ''rooms'')")
  case (Some js)
  let ?st1 = "fst (snd (batch_loop E ok cid (length (sender_rooms cid st)) 0 js (st, rs)))"
  have "last_seq i st \<le> last_seq i (note_seq cid e ?st1)" using assms by (rule note_seq_mono) simp
  with Some show ?thesis by (simp add: handleRoomBatchJoin_def case_prod_beta Let_def batch_ack_def)
qed (simp add: handleRoomBatchJoin_def)

lemma handle_event_seq:
  assumes "in_order cid e st"
  shows "last_seq i st \<le> last_seq i (fst (handle_event E ok now cid e (st, rs)))"
proof -
  have n: "last_seq i st \<le> last_seq i (note_seq cid e st)" using assms by (rule note_seq_mono) simp
  have l: "last_seq i st \<le> last_seq i (note_seq cid e (leave_enter cid r st))" for r using assms by (rule note_seq_mono) simp
  have t: "last_seq i (upd_conn cid (conn_touch now) st') = last_seq i st'" for st' :: "('a, 'b) node_scheme" by (rule last_seq_upd) simp
  show ?thesis
    using n l [of "the (target_room (target e))"] handleRoomJoin_seq [OF assms] handleRoomBatchJoin_seq [OF assms]
    by (cases "evType e") (simp_all add: handle_event_def handleRoomLeave_def leave_ack_def handleRoomMessage_def
        handleDirectMessage_def handlePing_def handlePong_def t case_prod_beta Let_def)
qed

lemma check_duplicate_frame [simp]:
  "core (snd (check_duplicate E now e st)) = core st" "heap (snd (check_duplicate E now e st)) = heap st"
  "issued (snd (check_duplicate E now e st)) = issued st" "last_seq i (snd (check_duplicate E now e st)) = last_seq i st"
  "in_order cid e' (snd (check_duplicate E now e st)) = in_order cid e' st"
  "outbox_of i (snd (check_duplicate E now e st)) = outbox_of i st"
  by (simp_all add: check_duplicate_def case_prod_beta Let_def)

lemma dispatch_event_eq:
  "dispatch_event E ok now cid e (st, rs) =
     (let d = check_duplicate E now e (received e st) in
      case fst d of
        DuplicateConflict \<Rightarrow> (conflict_reply E now cid e (snd d), rs)
      | DuplicateAck ack \<Rightarrow> (replay_ack E cid e ack (snd d), rs)
      | NotDuplicate \<Rightarrow>
          if in_order cid e st then handle_event E ok now cid e (snd d, rs) else (reject_order E now cid e (snd d), rs))"
  by (simp add: dispatch_event_def case_prod_beta Let_def split: idem_result.splits)

lemma dispatch_event_seq: "last_seq i st \<le> last_seq i (fst (dispatch_event E ok now cid e (st, rs)))"
proof -
  let ?st = "snd (check_duplicate E now e (received e st))"
  have "last_seq i ?st \<le> last_seq i (fst (handle_event E ok now cid e (?st, rs)))" if "in_order cid e st"
    by (rule handle_event_seq) (use that in simp)
  then show ?thesis
    by (simp add: dispatch_event_eq Let_def conflict_reply_def replay_ack_def reject_order_def split: idem_result.splits)
qed

lemma validate_state:
  "snd (validateIncoming parse rnd now raw sender st) = st \<or>
   snd (validateIncoming parse rnd now raw sender st) = snd (freshId rnd now st)"
  by (auto simp: validateIncoming_def validateParsed_def pick_event_id_def Let_def case_prod_beta
      split: option.splits json.splits)

lemma validate_node [simp]:
  fixes st :: "('s, 'a) node_scheme"
  shows "heap (snd (validateIncoming parse rnd now raw sender st)) = heap st"
    "core (snd (validateIncoming parse rnd now raw sender st)) = core st"
    "idem (snd (validateIncoming parse rnd now raw sender st)) = idem st"
    "issued (snd (validateIncoming parse rnd now raw sender st)) = issued st"
    "last_seq i (snd (validateIncoming parse rnd now raw sender st)) = last_seq i st"
    "outbox_of i (snd (validateIncoming parse rnd now raw sender st)) = outbox_of i st"
  using validate_state [of parse rnd now raw sender st] by auto

lemma reject_frame_node [simp]:
  "core (reject_frame E now cid err st) = core st" "idem (reject_frame E now cid err st) = idem st"
  "issued (reject_frame E now cid err st) = issued st" "last_seq i (reject_frame E now cid err st) = last_seq i st"
  by (simp_all add: reject_frame_def)

lemma dispatch_cases:
  obtains (Limited) "\<not> fst (admit now cid st)" "dispatchRawMessage E ok now cid raw (st, rs) = (over_limit E now cid (snd (admit now cid st)), rs)"
  | (Invalid) err st2 where "fst (admit now cid st)"
      "validateIncoming (envParse E) (envRnd E) now raw (JStr (sender_user cid (snd (admit now cid st)))) (snd (admit now cid st)) = (Inl err, st2)"
      "dispatchRawMessage E ok now cid raw (st, rs) =
         (metric (MRecord ''pulse_message_processing_duration_seconds'') (reject_frame E now cid err st2), rs)"
  | (Valid) e st2 where "fst (admit now cid st)"
      "validateIncoming (envParse E) (envRnd E) now raw (JStr (sender_user cid (snd (admit now cid st)))) (snd (admit now cid st)) = (Inr e, st2)"
      "dispatchRawMessage E ok now cid raw (st, rs) =
         (metric (MRecord ''pulse_message_processing_duration_seconds'') (fst (dispatch_event E ok now cid e (st2, rs))),
          snd (dispatch_event E ok now cid e (st2, rs)))"
proof (cases "fst (admit now cid st)")
  case True
  let ?v = "validateIncoming (envParse E) (envRnd E) now raw (JStr (sender_user cid (snd (admit now cid st)))) (snd (admit now cid st))"
  show ?thesis
  proof (cases "fst ?v")
    case (Inl err)
    then obtain st2 where v: "?v = (Inl err, st2)" by (cases ?v) simp
    show ?thesis by (rule Invalid [OF True v]) (simp add: dispatch_eq True Let_def v)
  next
    case (Inr e)
    then obtain st2 where v: "?v = (Inr e, st2)" by (cases ?v) simp
    show ?thesis by (rule Valid [OF True v]) (simp add: dispatch_eq True Let_def v)
  qed
qed (auto simp: dispatch_eq Let_def intro: Limited)

text \<open>
  C17: sequence numbers never go back. Whatever a client sends, processing one of its frames to the
  end never lowers the last sequence number seen on any connection.
\<close>

theorem sequence_never_regresses:
  "last_seq i st \<le> last_seq i (fst (dispatchRawMessage E ok now cid raw (st, rs)))"
proof (cases rule: dispatch_cases [of now cid st E ok raw rs])
  case Limited
  then show ?thesis by (simp add: over_limit_frame)
next
  case (Invalid err st2)
  then have "last_seq i st2 = last_seq i st"
    using validate_node(5) [of i "envParse E" "envRnd E" now raw "JStr (sender_user cid (snd (admit now cid st)))" "snd (admit now cid st)"]
    by simp
  with Invalid show ?thesis by simp
next
  case (Valid e st2)
  then have "last_seq i st2 = last_seq i st"
    using validate_node(5) [of i "envParse E" "envRnd E" now raw "JStr (sender_user cid (snd (admit now cid st)))" "snd (admit now cid st)"]
    by simp
  with Valid dispatch_event_seq [of i st2 E ok now cid e rs] show ?thesis by simp
qed

text \<open>
  An out-of-order event is refused. When an event's sequence number is below the last one seen
  on its connection and the event is not a retry, its sender gets \<^verbatim>\<open>INVALID_SEQUENCE_ORDER\<close> and the
  event is not handled: no room, registration or subscription changes, nobody else receives
  anything, nothing is published, and the counter stays.
\<close>

theorem stale_sequence_refused:
  assumes "seq e = Some n" "n < last_seq cid st"
    and "fst (check_duplicate E now e (received e st)) = NotDuplicate"
  shows "\<exists>err st'. dispatch_event E ok now cid e (st, rs) = (st', rs)
     \<and> json_get (payload err) ''code'' = Some (JStr ''INVALID_SEQUENCE_ORDER'') \<and> evType err = SYS_ERROR
     \<and> (\<forall>i. outbox_of i st' = outbox_of i st @ (if i = cid \<and> can_take (envWs E) err st cid then [err] else []))
     \<and> core st' = core st \<and> issued st' = issued st \<and> last_seq cid st' = last_seq cid st"
proof -
  define d where "d = snd (check_duplicate E now e (received e st))"
  let ?d' = "dropped_metric ''invalid_format'' d"
  have d: "core d = core st" "issued d = issued st" "last_seq cid d = last_seq cid st"
    "outbox_of i d = outbox_of i st" "can_take W x d i = can_take W x st i" for W x i
    by (simp_all add: d_def) (simp add: can_take_def)
  have "\<not> in_order cid e st" using assms(1,2) by (simp add: in_order_def)
  then have eq: "dispatch_event E ok now cid e (st, rs) = (reject_order E now cid e d, rs)"
    using assms(3) by (simp add: dispatch_event_eq Let_def d_def)
  obtain pl where pl: "reject_order E now cid e d = reply E now cid SYS_ERROR (corr_of e) None pl ?d'"
    "json_get pl ''code'' = Some (JStr ''INVALID_SEQUENCE_ORDER'')"
    unfolding reject_order_def using error_payload_code by blast
  show ?thesis
    unfolding eq pl(1)
    by (intro exI [of _ "reply_env E now SYS_ERROR (corr_of e) None pl ?d'"]
          exI [of _ "reply E now cid SYS_ERROR (corr_of e) None pl ?d'"] conjI allI refl)
      (simp_all only: outbox_reply_env reply_env_sel pl(2), simp_all add: d)
qed

theorem stale_sequence_refused_witness:
  "\<exists>err :: envelope. json_get (payload err) ''code'' = Some (JStr ''INVALID_SEQUENCE_ORDER'')
     \<and> core (fst (dispatch_event env0 all_ok 5 ''c1'' hello (note_seq ''c1'' (hello\<lparr>seq := Some 7\<rparr>) lobby, empty_redis))) = core lobby"
proof -
  let ?st = "note_seq ''c1'' (hello\<lparr>seq := Some 7\<rparr>) lobby"
  have h: "seq hello = Some 3" "3 < last_seq ''c1'' ?st" by (simp_all add: hello_def last_seq_note sample_heap)
  have d: "fst (check_duplicate env0 5 hello (received hello ?st)) = NotDuplicate"
    by (simp add: check_duplicate_def case_prod_beta Let_def sample_idem idem_check_def)
  show ?thesis
    using stale_sequence_refused [OF h d, where ok = all_ok and rs = empty_redis]
  proof (elim exE conjE)
    fix err :: envelope and st'
    assume "dispatch_event env0 all_ok 5 ''c1'' hello (?st, empty_redis) = (st', empty_redis)"
      "json_get (payload err) ''code'' = Some (JStr ''INVALID_SEQUENCE_ORDER'')" "core st' = core ?st"
    then show ?thesis by (intro exI [of _ err]) simp
  qed
qed

text \<open>
  A frame that waits for Redis can lower the counter. The frames of a connection are not
  serialised: a join that is suspended while its room set is updated notes its own sequence
  number when it resumes, after a later frame has been accepted. The counter then goes back from
  the later number to the earlier one, and numbers in between would be accepted again.
\<close>

theorem suspended_join_lowers_sequence:
  fixes E :: "('s, 'r) env" and st :: "('s, 'a) node_scheme" and ok :: replies and rs :: 'r and now :: int
  assumes "heap st cid = Some c" "valid_room_id (maxRoomIdLength st) r" "length (connRooms c) < maxRoomsPerConnection st"
    and "target_room (target e1) = Some r" "seq e1 = Some n1" "seq e2 = Some n2" "evType e2 = SYS_PING" "n1 < n2"
    and "lastSeenSeq c \<le> n1"
  defines "suspended \<equiv> snd (room_join_enter E now cid e1 st)"
  defines "later \<equiv> fst (dispatch_event E ok now cid e2 (suspended, rs))"
  shows "last_seq cid later = n2 \<and> last_seq cid (note_seq cid e1 later) = n1"
proof -
  have s: "suspended = enter_room cid r st"
    using assms(1-4) by (simp add: suspended_def room_join_enter_def sender_rooms_def)
  have h: "heap suspended cid \<noteq> None" using assms(1) by (simp add: s heap_enter_room)
  have l: "last_seq cid suspended = lastSeenSeq c" using assms(1) by (simp add: s) (simp add: last_seq_def)
  have nd: "fst (check_duplicate E now e2 st) = NotDuplicate" for st :: "('s, 'a) node_scheme"
    using assms(7) by (simp add: check_duplicate_def)
  have o: "in_order cid e2 suspended" using assms(6,8,9) l by (simp add: in_order_def)
  have lat: "later = handlePing E now cid e2 (snd (check_duplicate E now e2 (received e2 suspended)))"
    using o nd assms(7) by (simp add: later_def dispatch_event_eq Let_def handle_event_def)
  have "last_seq cid later = n2"
    using h assms(6) by (simp add: lat handlePing_def last_seq_note)
  moreover have "heap later cid \<noteq> None"
    using h by (auto simp: lat handlePing_def reply_def case_prod_beta Let_def heap_send_to note_seq_def heap_upd_conn split: option.splits)
  ultimately show ?thesis using assms(5) by (simp add: last_seq_note)
qed

theorem suspended_join_lowers_sequence_witness:
  "last_seq ''c1'' (note_seq ''c1'' (hello\<lparr>target := Some (room_target ''attic''), evType := ROOM_JOIN\<rparr>)
     (fst (dispatch_event env0 all_ok 5 ''c1'' (hello\<lparr>evType := SYS_PING, seq := Some 4\<rparr>)
       (snd (room_join_enter env0 5 ''c1'' (hello\<lparr>target := Some (room_target ''attic''), evType := ROOM_JOIN\<rparr>) lobby), empty_redis)))) = 3"
proof -
  let ?c = "conn_joinRoom ''lobby'' (sim_connection ''c1'' ''ada'' 0)"
  have h: "heap lobby ''c1'' = Some ?c" by (simp add: sample_heap)
  have v: "valid_room_id (maxRoomIdLength lobby) ''attic''" by (simp add: sample_settings) code_simp
  have m: "length (connRooms ?c) < maxRoomsPerConnection lobby"
    by (simp add: sample_settings conn_joinRoom_def sim_connection_def set_add_def)
  show ?thesis
    using suspended_join_lowers_sequence [OF h v m,
        where ?e1.0 = "hello\<lparr>target := Some (room_target ''attic''), evType := ROOM_JOIN\<rparr>" and ?n1.0 = 3
          and ?e2.0 = "hello\<lparr>evType := SYS_PING, seq := Some 4\<rparr>" and ?n2.0 = 4 and E = env0 and now = 5
          and ok = all_ok and rs = empty_redis]
    by (simp add: hello_def room_target_def conn_joinRoom_def sim_connection_def)
qed

end
