(* ===== verification/Node_Inv.thy ===== *)
theory Node_Inv
  imports Dispatch_Rules
begin

text \<open>
  The invariant of one server process: the registries agree with each other. The room index, the
  rooms each connection lists, the user index, the reference counts of the channels and the cache
  of acknowledgements are consistent, and no connection is in more rooms than allowed.
\<close>

definition rooms_agree :: "('s, 'a) node_scheme \<Rightarrow> bool" where
  "rooms_agree st \<longleftrightarrow> (\<forall>r i. (r, i) \<in> membership st \<longleftrightarrow> i \<in> set (connections st) \<and> sender_has i r st)"

definition rooms_bounded :: "('s, 'a) node_scheme \<Rightarrow> bool" where
  "rooms_bounded st \<longleftrightarrow>
     (\<forall>i \<in> set (connections st). distinct (sender_rooms i st) \<and> length (sender_rooms i st) \<le> maxRoomsPerConnection st)"

definition node_inv :: "('s, 'a) node_scheme \<Rightarrow> bool" where
  "node_inv st \<longleftrightarrow> room_inv st \<and> conn_inv st \<and> idem_inv (idem st) \<and> rooms_agree st \<and> rooms_bounded st"

lemma core_conn_inv:
  assumes "core st' = core st" "conn_inv st"
  shows "conn_inv st'"
proof (rule conn_inv_frame [OF assms(2)])
  fix cid
  from core_eqD(1) [OF assms(1), of cid]
  show "map_option (\<lambda>c. (connectionId c, userId c)) (heap st' cid) = map_option (\<lambda>c. (connectionId c, userId c)) (heap st cid)"
    by (cases "heap st' cid"; cases "heap st cid") (auto simp: ident_def)
qed (rule core_eqD [OF assms(1)])+

lemma membership_rooms: "rooms st' = rooms st \<Longrightarrow> membership st' = membership st"
  by (auto simp: membership_def isConnectionInRoom_def split: option.splits)

lemma node_inv_core:
  assumes "node_inv st" "core st' = core st" "idem_inv (idem st')"
  shows "node_inv st'"
proof -
  note d = core_eqD [OF assms(2)] and g = core_getters [OF assms(2)]
  have "room_inv st'" by (rule room_inv_frame [of st]) (use assms(1) d in \<open>auto simp: node_inv_def\<close>)
  moreover have "conn_inv st'" using assms by (auto simp: node_inv_def intro: core_conn_inv)
  moreover have "rooms_agree st'"
    using assms(1) membership_rooms [OF d(4)] by (simp add: node_inv_def rooms_agree_def d(2) g)
  moreover have "rooms_bounded st'" using assms(1) by (simp add: node_inv_def rooms_bounded_def d g)
  ultimately show ?thesis using assms(3) by (simp add: node_inv_def)
qed

section \<open>Rooms and users have separate channels\<close>

lemma channel_sets_disjoint: "ch \<in> user_channels \<Longrightarrow> ch \<notin> room_channels"
  using channel_kinds_disjoint by (fastforce simp: user_channels_def room_channels_def)

lemma conn_inv_counts:
  assumes "conn_inv st" "connections st' = connections st" "userConnections st' = userConnections st"
    "chanEnabled st' = chanEnabled st" "\<And>ch. ch \<in> user_channels \<Longrightarrow> getRefCount st' ch = getRefCount st ch"
    and "\<And>cid. map_option (\<lambda>c. (connectionId c, userId c)) (heap st' cid) = map_option (\<lambda>c. (connectionId c, userId c)) (heap st cid)"
  shows "conn_inv st'"
proof -
  let ?st = "st'\<lparr>channelRefCounts := channelRefCounts st\<rparr>"
  have "conn_inv ?st" by (rule conn_inv_frame [OF assms(1)]) (use assms in simp_all)
  moreover have "index_ok ?st = index_ok st'"
    by (simp add: index_ok_def user_ids_def user_of_def getConnection_def)
  moreover have "user_group ?st = user_group st'"
    by (rule user_group_frame) (simp_all add: user_of_def getConnection_def)
  moreover have "getRefCount ?st ch = getRefCount st ch" for ch by (simp add: getRefCount_def)
  ultimately show ?thesis
    using assms(4,5) by (simp add: conn_inv_def registry.counts_members_def)
qed

lemma room_inv_counts:
  assumes "room_inv st" "rooms st' = rooms st" "chanEnabled st' = chanEnabled st"
    "\<And>ch. ch \<in> room_channels \<Longrightarrow> getRefCount st' ch = getRefCount st ch"
  shows "room_inv st'"
proof -
  have "room_group st' = room_group st"
    by (intro ext) (simp add: room_group_def getRoomConnectionIds_def assms(2) cong: option.case_cong)
  with assms show ?thesis by (simp add: room_inv_def rooms_wf_def registry.counts_members_def)
qed

lemma refcount_room_ops:
  "ch \<notin> room_channels \<Longrightarrow> getRefCount (subscribeRoom r st) ch = getRefCount st ch"
  "ch \<notin> room_channels \<Longrightarrow> getRefCount (unsubscribeRoom r st) ch = getRefCount st ch"
  by (auto simp: subscribeRoom_def unsubscribeRoom_def room_channels_def getRefCount_increment getRefCount_decrement
      split: option.splits)

lemma refcount_join: "ch \<notin> room_channels \<Longrightarrow> getRefCount (snd (joinRoom r c st)) ch = getRefCount st ch"
  by (simp add: joinRoom_def Let_def refcount_room_ops)

lemma refcount_leave: "ch \<notin> room_channels \<Longrightarrow> getRefCount (snd (leaveRoom r c st)) ch = getRefCount st ch"
  by (simp add: leaveRoom_def Let_def refcount_room_ops split: option.splits)

section \<open>Joining and leaving\<close>

lemma room_char_ws: "room_char c \<Longrightarrow> \<not> js_ws c"
  by (auto simp: room_char_def js_ws_def Let_def)

lemma valid_room_name: "valid_room_id mx r \<Longrightarrow> room_name r"
  by (auto simp: valid_room_id_def room_name_def list_all_iff room_char_ws intro!: js_trim_id)

lemma registered_heap: "conn_inv st \<Longrightarrow> cid \<in> set (connections st) \<Longrightarrow> \<exists>c. heap st cid = Some c"
  by (auto simp: conn_inv_def index_ok_def)

lemma enter_room_presence [simp]: "presenceMgr (enter_room cid r st) = presenceMgr st"
  by (simp_all add: enter_room_def upd_conn_def split: option.splits)

lemma leave_enter_fields [simp]:
  "connections (leave_enter cid r st) = connections st" "idem (leave_enter cid r st) = idem st"
  "maxRoomsPerConnection (leave_enter cid r st) = maxRoomsPerConnection st"
  by (simp_all add: leave_enter_def upd_conn_def split: option.splits)

lemma membership_upd [simp]: "membership (upd_conn cid f st) = membership st"
  by (rule membership_rooms) (simp add: upd_conn_def split: option.splits)

lemma sender_rooms_enter:
  "heap st cid \<noteq> None \<Longrightarrow>
   sender_rooms i (enter_room cid r st) = (if i = cid then set_add r (sender_rooms i st) else sender_rooms i st)"
  by (auto simp: sender_rooms_def heap_enter_room conn_joinRoom_def split: option.splits)

lemma sender_rooms_leave:
  "sender_rooms i (leave_enter cid r st) = (if i = cid then set_del r (sender_rooms i st) else sender_rooms i st)"
  by (auto simp: sender_rooms_def heap_leave_enter conn_leaveRoom_def set_del_def split: option.splits)

lemma sender_has_rooms: "sender_has i r st \<longleftrightarrow> r \<in> set (sender_rooms i st)"
  by (simp add: sender_has_def sender_rooms_def hasRoom_def split: option.splits)

lemma refcount_upd: "getRefCount (upd_conn cid f st) ch = getRefCount st ch"
  by (cases "heap st cid") (simp_all add: upd_conn_def getRefCount_def)

lemma node_inv_enter:
  assumes inv: "node_inv st" and cid: "cid \<in> set (connections st)" and name: "room_name r"
    and room: "sender_has cid r st \<or> length (sender_rooms cid st) < maxRoomsPerConnection st"
  shows "node_inv (enter_room cid r st)"
proof -
  let ?st = "enter_room cid r st"
  have h: "heap st cid \<noteq> None" using inv cid registered_heap by (auto simp: node_inv_def)
  have "room_inv ?st"
    by (rule room_inv_frame [OF room_inv_join [OF _ name, of st cid]])
      (use inv in \<open>auto simp: node_inv_def enter_room_def upd_conn_def split: option.splits\<close>)
  moreover have "conn_inv ?st"
  proof (rule conn_inv_counts [of st])
    show "getRefCount ?st ch = getRefCount st ch" if "ch \<in> user_channels" for ch
      using refcount_join [OF channel_sets_disjoint [OF that], of r cid st] by (simp add: enter_room_def refcount_upd)
  qed (use inv in \<open>auto simp: node_inv_def heap_enter_room conn_joinRoom_def enter_room_def upd_conn_def split: option.splits\<close>)
  moreover have "membership ?st = insert (r, cid) (membership st)"
    by (simp add: enter_room_def membership_join)
  then have "rooms_agree ?st"
    using inv cid h by (auto simp: node_inv_def rooms_agree_def sender_has_rooms sender_rooms_enter)
  moreover have "rooms_bounded ?st"
    using inv cid h room
    by (auto simp: node_inv_def rooms_bounded_def sender_rooms_enter length_set_add sender_has_rooms Suc_le_eq)
  ultimately show ?thesis using inv by (simp add: node_inv_def)
qed

lemma node_inv_leave:
  assumes inv: "node_inv st"
  shows "node_inv (leave_enter cid r st)"
proof -
  let ?st = "leave_enter cid r st"
  have "room_inv ?st"
    by (rule room_inv_frame [OF room_inv_leave [of st r cid]])
      (use inv in \<open>auto simp: node_inv_def leave_enter_def upd_conn_def split: option.splits\<close>)
  moreover have "conn_inv ?st"
  proof (rule conn_inv_counts [of st])
    show "getRefCount ?st ch = getRefCount st ch" if "ch \<in> user_channels" for ch
      using refcount_leave [OF channel_sets_disjoint [OF that], of r cid st]
      by (simp add: leave_enter_def refcount_upd)
  qed (use inv in \<open>auto simp: node_inv_def heap_leave_enter conn_leaveRoom_def leave_enter_def upd_conn_def split: option.splits\<close>)
  moreover have "membership ?st = membership st - {(r, cid)}"
    by (simp add: leave_enter_def membership_leave)
  then have "rooms_agree ?st"
    using inv by (auto simp: node_inv_def rooms_agree_def sender_has_rooms sender_rooms_leave)
  moreover have "rooms_bounded ?st"
    using inv by (auto simp: node_inv_def rooms_bounded_def sender_rooms_leave set_del_def
        intro: le_trans [OF length_filter_le])
  ultimately show ?thesis using inv by (simp add: node_inv_def)
qed

section \<open>Handlers\<close>

lemma node_inv_same: "node_inv st \<Longrightarrow> core st' = core st \<Longrightarrow> idem st' = idem st \<Longrightarrow> node_inv st'"
  by (rule node_inv_core) (simp_all add: node_inv_def)

lemma node_inv_handleRoomJoin:
  assumes "node_inv st" "cid \<in> set (connections st)"
  shows "node_inv (fst (handleRoomJoin E ok now cid e (st, rs)))"
proof (cases "room_join_enter E now cid e st")
  case (Pair x st1)
  show ?thesis
  proof (cases x)
    case None
    with Pair have "node_inv st1"
      by (intro node_inv_same [OF assms(1)]) (auto simp: room_join_enter_def Let_def split: if_splits)
    with Pair None show ?thesis by (simp add: handleRoomJoin_def)
  next
    case (Some r)
    with Pair have st1: "st1 = enter_room cid r st" and ok: "valid_room_id (maxRoomIdLength st) r"
      "sender_has cid r st \<or> length (sender_rooms cid st) < maxRoomsPerConnection st"
      by (auto simp: room_join_enter_def Let_def split: if_splits)
    have "node_inv st1" unfolding st1 by (rule node_inv_enter [OF assms valid_room_name [OF ok(1)] ok(2)])
    then show ?thesis
      by (rule node_inv_same) (simp_all add: handleRoomJoin_def Pair Some case_prod_beta Let_def room_join_ack_def)
  qed
qed

lemma batch_body_inv:
  fixes j :: json
  assumes "node_inv st" "cid \<in> set (connections st)" "length (sender_rooms cid st) = n + k"
  defines "b \<equiv> batch_body cid n k j st"
  shows "node_inv (snd b)" "connections (snd b) = connections st"
    and "case fst b of BatchJoined r k' \<Rightarrow> length (sender_rooms cid (snd b)) = n + k' | _ \<Rightarrow> snd b = st"
proof -
  let ?t = "case j of JStr s \<Rightarrow> js_trim s | _ \<Rightarrow> []"
  have h: "heap st cid \<noteq> None" using assms(1,2) registered_heap by (auto simp: node_inv_def)
  have "node_inv (enter_room cid ?t st)"
    if "valid_room_id (maxRoomIdLength st) ?t" "sender_has cid ?t st \<or> n + k < maxRoomsPerConnection st"
    by (rule node_inv_enter [OF assms(1,2) valid_room_name [OF that(1)]]) (use that(2) assms(3) in simp)
  then show "node_inv (snd b)" using assms(1) by (simp add: b_def batch_body_def Let_def not_le)
  show "connections (snd b) = connections st" by (simp add: b_def batch_body_def Let_def)
  show "case fst b of BatchJoined r k' \<Rightarrow> length (sender_rooms cid (snd b)) = n + k' | _ \<Rightarrow> snd b = st"
    using h assms(3) by (simp add: b_def batch_body_def Let_def sender_rooms_enter length_set_add flip: sender_has_rooms)
qed

lemma batch_loop_inv:
  assumes "node_inv st" "cid \<in> set (connections st)" "length (sender_rooms cid st) = n + k"
  shows "node_inv (fst (snd (batch_loop E ok cid n k js (st, rs))))"
  using assms
proof (induction js arbitrary: k st rs)
  case (Cons j js)
  let ?b = "batch_body cid n k j st"
  note b = batch_body_inv [OF Cons.prems, of j]
  show ?case
  proof (cases "fst ?b")
    case BatchSkip
    with b Cons show ?thesis by (simp add: batch_loop_Cons Let_def)
  next
    case BatchBreak
    with b show ?thesis by (simp add: batch_loop_Cons Let_def)
  next
    case (BatchJoined r k')
    have "node_inv (fst (snd (batch_loop E ok cid n k' js (snd ?b, add_room_member E ok cid r (snd ?b) rs))))"
      by (rule Cons.IH) (use b Cons.prems BatchJoined in auto)
    with BatchJoined show ?thesis by (simp add: batch_loop_Cons Let_def)
  qed
qed simp

lemma node_inv_handleRoomBatchJoin:
  assumes "node_inv st" "cid \<in> set (connections st)"
  shows "node_inv (fst (handleRoomBatchJoin E ok now cid e (st, rs)))"
proof (cases "as_arr (json_get (payload e) ''rooms'')")
  case (Some js)
  let ?st1 = "fst (snd (batch_loop E ok cid (length (sender_rooms cid st)) 0 js (st, rs)))"
  have "node_inv ?st1" using assms by (rule batch_loop_inv) simp
  then have "node_inv (batch_ack E now cid e joined ?st1)" for joined by (rule node_inv_same) (simp_all add: batch_ack_def)
  moreover have "node_inv (reply E now cid SYS_ERROR (corr_of e) None (error_payload ''MAX_ROOMS_EXCEEDED'' (max_rooms_message st)) st)"
    using assms(1) by (rule node_inv_same) simp_all
  ultimately show ?thesis using Some by (simp add: handleRoomBatchJoin_def case_prod_beta Let_def)
qed (simp add: handleRoomBatchJoin_def assms)

lemma node_inv_handleRoomLeave:
  assumes "node_inv st"
  shows "node_inv (fst (handleRoomLeave E ok now cid e (st, rs)))"
proof -
  have "node_inv (leave_enter cid r st)" for r using assms by (rule node_inv_leave)
  then have "node_inv (leave_ack E now cid e r (leave_enter cid r st))" for r
    by (rule node_inv_same) (simp_all add: leave_ack_def)
  then show ?thesis by (simp add: handleRoomLeave_def Let_def)
qed

lemma idem_inv_record: "idem_inv i \<Longrightarrow> eid \<noteq> [] \<Longrightarrow> idem_inv (recordAck H now eid ack pl i)"
  by (simp add: recordAck_def idem_inv_put)

lemma node_inv_messages:
  assumes "node_inv st" "eventId e \<noteq> []"
  shows "node_inv (handleRoomMessage E now cid e st)" "node_inv (handleDirectMessage E now cid e st)"
proof -
  have i: "idem_inv (idem st)" using assms(1) by (simp add: node_inv_def)
  show "node_inv (handleRoomMessage E now cid e st)"
    by (rule node_inv_core [OF assms(1)])
      (simp_all add: handleRoomMessage_def case_prod_beta Let_def idem_ack_and_record idem_inv_record i assms(2))
  show "node_inv (handleDirectMessage E now cid e st)"
    by (rule node_inv_core [OF assms(1)])
      (simp_all add: handleDirectMessage_def case_prod_beta Let_def idem_ack_and_record idem_inv_record i assms(2))
qed

lemma node_inv_handle_event:
  assumes "node_inv st" "cid \<in> set (connections st)" "eventId e \<noteq> []"
  shows "node_inv (fst (handle_event E ok now cid e (st, rs)))"
proof -
  have "node_inv (handlePing E now cid e st)" "node_inv (handlePong now cid e st)"
    by (rule node_inv_same [OF assms(1)], simp_all add: handlePing_def handlePong_def core_upd_conn)+
  then show ?thesis
    using assms node_inv_messages [OF assms(1,3)] node_inv_handleRoomJoin [OF assms(1,2)]
      node_inv_handleRoomBatchJoin [OF assms(1,2)] node_inv_handleRoomLeave [OF assms(1)]
    by (cases "evType e") (simp_all add: handle_event_def)
qed

lemma idem_check_duplicate: "idem_inv (idem st) \<Longrightarrow> idem_inv (idem (snd (check_duplicate E now e st)))"
  by (simp add: check_duplicate_def case_prod_beta Let_def idem_inv_check)

lemma node_inv_dispatch_event:
  assumes "node_inv st" "cid \<in> set (connections st)" "eventId e \<noteq> []"
  shows "node_inv (fst (dispatch_event E ok now cid e (st, rs)))"
proof -
  let ?st = "snd (check_duplicate E now e (received e st))"
  have inv: "node_inv ?st"
    by (rule node_inv_core [OF assms(1)]) (use assms(1) in \<open>simp_all add: idem_check_duplicate node_inv_def\<close>)
  have c: "core ?st = core st" by simp
  have "node_inv (fst (handle_event E ok now cid e (?st, rs)))"
    by (rule node_inv_handle_event [OF inv _ assms(3)]) (use assms(2) core_eqD(2) [OF c] in simp)
  moreover have "node_inv (conflict_reply E now cid e ?st)" "node_inv (reject_order E now cid e ?st)"
    "\<And>ack. node_inv (replay_ack E cid e ack ?st)"
    by (rule node_inv_same [OF inv], simp_all add: conflict_reply_def reject_order_def)+
  ultimately show ?thesis by (simp add: dispatch_event_eq Let_def split: idem_result.splits)
qed

lemma validateParsed_id:
  assumes "fst (validateParsed rnd now p sender st) = Inr e"
  shows "eventId e \<noteq> []"
proof -
  from assms obtain st' where "validateParsed rnd now p sender st = (Inr e, st')" by (cases "validateParsed rnd now p sender st") simp
  then obtain src ty eid where b: "build_envelope now sender src ty eid = Inr e" and "eid \<noteq> []" by (rule validateParsed_Inr)
  with build_envelope_Inr(1) [OF b] show ?thesis by simp
qed

lemma validateIncoming_id:
  assumes "validateIncoming parse rnd now raw sender st = (Inr e, st')"
  shows "eventId e \<noteq> []"
proof (cases "parse raw")
  case (Some p)
  with assms have "fst (validateParsed rnd now p sender st) = Inr e" by (simp add: validateIncoming_def)
  then show ?thesis by (rule validateParsed_id)
qed (use assms in \<open>simp add: validateIncoming_def\<close>)

lemma node_inv_dispatchRawMessage:
  assumes "node_inv st" "cid \<in> set (connections st)"
  shows "node_inv (fst (dispatchRawMessage E ok now cid raw (st, rs)))"
proof (cases rule: dispatch_cases [of now cid st E ok raw rs])
  case Limited
  then show ?thesis using assms(1) by (simp add: node_inv_same [OF assms(1)] over_limit_frame)
next
  case (Invalid err st2)
  then have "core st2 = core st" "idem st2 = idem st"
    using validate_node(2,3) [of "envParse E" "envRnd E" now raw "JStr (sender_user cid (snd (admit now cid st)))" "snd (admit now cid st)"]
    by simp_all
  with Invalid show ?thesis by (simp add: node_inv_same [OF assms(1)])
next
  case (Valid e st2)
  then have c: "core st2 = core st" and i: "idem st2 = idem st"
    using validate_node(2,3) [of "envParse E" "envRnd E" now raw "JStr (sender_user cid (snd (admit now cid st)))" "snd (admit now cid st)"]
    by simp_all
  have "node_inv (fst (dispatch_event E ok now cid e (st2, rs)))"
    by (rule node_inv_dispatch_event [OF node_inv_same [OF assms(1) c i]])
      (use assms(2) core_eqD(2) [OF c] validateIncoming_id [OF Valid(2)] in simp_all)
  then show ?thesis using Valid(3) by (auto intro: node_inv_same)
qed

section \<open>Events from other instances\<close>

lemma metrics_node [simp]:
  "core (recordInbound d st) = core st" "idem (recordInbound d st) = idem st" "heap (recordInbound d st) = heap st"
  "core (recordEchoSuppressed st) = core st" "idem (recordEchoSuppressed st) = idem st" "heap (recordEchoSuppressed st) = heap st"
  "core (recordDuplicateSuppressed st) = core st" "idem (recordDuplicateSuppressed st) = idem st"
  "heap (recordDuplicateSuppressed st) = heap st"
  "issued (recordInbound d st) = issued st" "issued (recordEchoSuppressed st) = issued st"
  "issued (recordDuplicateSuppressed st) = issued st"
  by (simp_all add: recordInbound_def recordEchoSuppressed_def recordDuplicateSuppressed_def core_def link_connected_def)

lemma inbound_event_node [simp]:
  "core (snd (recordInboundEvent (pm, st))) = core st" "idem (snd (recordInboundEvent (pm, st))) = idem st"
  by (simp_all add: recordInboundEvent_def recordPresenceEventReceived_def metric_def core_def link_connected_def Let_def)

lemma core_emits [simp]: "core (st\<lparr>presenceEmits := x\<rparr>) = core st"
  by (simp add: core_def link_connected_def)

lemma inbound_presence_node [simp]:
  "core (snd (inbound_presence W e st)) = core st" "idem (snd (inbound_presence W e st)) = idem st"
  by (simp_all add: inbound_presence_def deliverRoomScopedPresence_def case_prod_beta Let_def split: option.splits)

lemma inbound_deliver_node [simp]:
  "core (snd (inbound_deliver W ch e st)) = core st" "idem (snd (inbound_deliver W ch e st)) = idem st"
  by (simp_all add: inbound_deliver_def inbound_message_def Let_def)

lemma accept_inbound_eq:
  "accept_inbound E now e st =
     (let st1 = (if originTimestampMs e \<noteq> None then metric (MRecord ''pulse_cross_node_transit_seconds'') st else st);
          d = idem_check (envHash E) now (eventId e) (payload e) (idem st);
          st2 = st1\<lparr>idem := snd d\<rparr>;
          st3 = snd (freshId (envRnd E) now st2) in
      if fst d = NotDuplicate
      then (True, st3\<lparr>idem := recordAck (envHash E) now (eventId e)
              (inbound_ack (fst (freshId (envRnd E) now st2)) now e) (payload e) (snd d)\<rparr>)
      else (False, if hasRedis st2 then recordDuplicateSuppressed st2 else st2))"
  by (simp add: accept_inbound_def case_prod_beta Let_def split: idem_result.splits)

lemma accept_inbound_node [simp]:
  "core (snd (accept_inbound E now e st)) = core st" "heap (snd (accept_inbound E now e st)) = heap st"
  "issued (snd (accept_inbound E now e st)) = issued st"
  by (simp_all add: accept_inbound_eq Let_def)

lemma accept_inbound_idem:
  "idem_inv (idem st) \<Longrightarrow> eventId e \<noteq> [] \<Longrightarrow> idem_inv (idem (snd (accept_inbound E now e st)))"
  by (simp add: accept_inbound_eq Let_def idem_inv_record idem_inv_check)

lemma validateDistributed_state:
  "snd (validateDistributed rnd now raw st) = st \<or> snd (validateDistributed rnd now raw st) = snd (freshId rnd now st)"
  by (auto simp: validateDistributed_def validateParsed_def pick_event_id_def Let_def case_prod_beta
      split: option.splits json.splits sum.splits)

lemma validateDistributed_id: "validateDistributed rnd now raw st = (Inr e, st') \<Longrightarrow> eventId e \<noteq> []"
  by (auto simp: validateDistributed_def Let_def case_prod_beta split: option.splits json.splits sum.splits if_splits
      dest!: validateParsed_id)

lemma node_inv_inbound:
  assumes "node_inv st"
  shows "node_inv (snd (handleInboundRedisEvent E now ch raw st))"
proof (cases "case raw of RawText s \<Rightarrow> envParse E s | RawObject j \<Rightarrow> Some j")
  case None
  then show ?thesis using assms by (simp add: handleInboundRedisEvent_def)
next
  case (Some j)
  let ?v = "validateDistributed (envRnd E) now j st"
  have st1: "core (snd ?v) = core st" "idem (snd ?v) = idem st"
    using validateDistributed_state [of "envRnd E" now j st] by auto
  have inv1: "node_inv (snd ?v)" by (rule node_inv_same [OF assms st1])
  show ?thesis
  proof (cases "fst ?v")
    case (Inl err)
    then have "?v = (Inl err, snd ?v)" by (cases ?v) simp
    with Some inv1 show ?thesis unfolding handleInboundRedisEvent_def by (metis (no_types, lifting) case_prod_conv option.simps(5) old.sum.simps(5) snd_conv)
  next
    case (Inr e)
    then obtain s1 where v: "?v = (Inr e, s1)" by (cases ?v) simp
    have i: "node_inv s1" "eventId e \<noteq> []" using inv1 v validateDistributed_id [OF v] by simp_all
    have a: "node_inv (snd (accept_inbound E now e s1))"
      by (rule node_inv_core [OF i(1)]) (use i in \<open>simp_all add: accept_inbound_idem node_inv_def\<close>)
    have "node_inv (snd (inbound_deliver (envWs E) ch e (snd (accept_inbound E now e s1))))"
      by (rule node_inv_same [OF a]) simp_all
    moreover have "node_inv (recordEchoSuppressed s1)" by (rule node_inv_same [OF i(1)]) simp_all
    ultimately show ?thesis using Some v i(1) a
      by (simp add: handleInboundRedisEvent_def case_prod_beta split: bool.splits)
  qed
qed

end
