(* ===== verification/Cluster.thy ===== *)
theory Cluster
  imports Node_Inv
begin

text \<open>
  Instances that exchange events through Redis. An instance publishes the stamped event; every
  subscribed instance, the publisher included, receives the text and runs \<^verbatim>\<open>handleInboundRedisEvent\<close>
  on it. \<open>wire\<close> is the JSON value a peer parses from the text of a stamped event.
\<close>

definition wire :: "envelope \<Rightarrow> string \<Rightarrow> int \<Rightarrow> json" where
  "wire e inst ts = json_reparse (envelope_json (stampForDistribution e inst ts))"

definition remote_copy :: "envelope \<Rightarrow> string \<Rightarrow> int \<Rightarrow> envelope" where
  "remote_copy e inst ts =
     e\<lparr>seq := None, payload := json_reparse (payload e), originInstanceId := Some (js_trim inst),
       originTimestampMs := Some (int_num ts)\<rparr>"

lemma inbound_validated:
  assumes "envParse E s = Some j" "validateDistributed (envRnd E) now j st = (Inr e, st)"
  shows "handleInboundRedisEvent E now ch (RawText s) st =
     (if originInstanceId e = Some (instanceId st)
      then (Dropped, if hasRedis st then recordEchoSuppressed st else st)
      else if fst (accept_inbound E now e st) then inbound_deliver (envWs E) ch e (snd (accept_inbound E now e st))
      else (Dropped, snd (accept_inbound E now e st)))"
  using assms by (simp add: handleInboundRedisEvent_def case_prod_beta split: bool.splits)

lemma view_heap:
  "heap st' = heap st \<Longrightarrow> outbox_of i st' = outbox_of i st"
  "heap st' = heap st \<Longrightarrow> can_take W e st' = can_take W e st"
  by (simp_all add: outbox_of_def can_take_def fun_eq_iff)

lemma fst_accept: "fst (accept_inbound E now e st) \<longleftrightarrow> fst (idem_check (envHash E) now (eventId e) (payload e) (idem st)) = NotDuplicate"
  by (simp add: accept_inbound_eq Let_def)

lemma idem_accept:
  assumes "fst (accept_inbound E now e st)"
  shows "\<exists>ack. idem (snd (accept_inbound E now e st)) =
     recordAck (envHash E) now (eventId e) ack (payload e) (snd (idem_check (envHash E) now (eventId e) (payload e) (idem st)))"
  using assms by (auto simp: accept_inbound_eq Let_def)

lemma outbox_inbound_message:
  assumes "distinct cids"
  shows "outbox_of i (inbound_message W cids e st) = outbox_of i st @ (if i \<in> set cids \<and> can_take W e st i then [e] else [])"
  using outbox_send_each [OF assms, of i W e st] by (simp add: inbound_message_def Let_def outbox_of_def)

lemma issued_inbound_message [simp]: "issued (inbound_message W cids e st) = issued st" "idem (inbound_message W cids e st) = idem st"
  by (simp_all add: inbound_message_def Let_def)

lemma deliver_room:
  assumes "evType e = ROOM_MESSAGE" "target_room (target e) = Some r" "r \<noteq> []"
  shows "inbound_deliver W ch e st =
     (Processed, inbound_message W (filter (\<lambda>i. getConnection i st \<noteq> None) (getRoomConnectionIds r st)) e st)"
  using assms by (simp add: inbound_deliver_def str_or_def)

text \<open>
  C13: the instance that publishes an event does not deliver it a second time. Its own event, coming
  back from Redis, is dropped without any effect except the counter of suppressed echoes.
\<close>

theorem own_echo_suppressed:
  assumes "validateParsed rnd now0 parsed (JStr user) rt = (Inr e, rt')" "now0 > 0" "is_finite (timestamp e)" "user \<noteq> []"
    and "js_trim (instanceId st) = instanceId st" "instanceId st \<noteq> []"
    and "envParse E s = Some (wire e (instanceId st) ts)"
  shows "handleInboundRedisEvent E now ch (RawText s) st =
     (Dropped, if hasRedis st then st\<lparr>echoesSuppressed := Suc (echoesSuppressed st)\<rparr> else st)"
proof -
  have "validateDistributed (envRnd E) now (wire e (instanceId st) ts) st = (Inr (remote_copy e (instanceId st) ts), st)"
    unfolding wire_def remote_copy_def by (rule stamped_event_accepted [OF assms(1-4)]) (use assms(5,6) in simp)
  then show ?thesis
    using inbound_validated [OF assms(7), of now st _ ch] assms(5) by (simp add: remote_copy_def recordEchoSuppressed_def)
qed

lemma sample_accepted:
  "\<exists>e. validateParsed (\<lambda>_. 0) 5 sample_frame (JStr ''ada'') runtime0 = (Inr e, runtime0) \<and> is_finite (timestamp e)
     \<and> evType e = ROOM_MESSAGE \<and> target_room (target e) = Some ''lobby''"
  by (simp add: validateParsed_def sample_frame_def find_event_type_def VALID_EVENT_TYPES_def
      pick_event_id_def build_envelope_def pick_seq_def pick_timestamp_def pick_payload_def resolve_target_def
      base_target_def fill_room_def fill_recipient_def type_requirements_def pick_origin_def pick_origin_ts_def
      js_trim_def js_ws_def)

lemma sample_registered1: "getConnection ''c1'' lobby \<noteq> None"
  by (simp add: getConnection_def sample_heap sample_connections)

theorem own_echo_suppressed_witness:
  "\<exists>E :: (sim_socket, sim_redis) env. handleInboundRedisEvent E 10 ''pulse:room:lobby'' (RawText ''x'') lobby =
     (Dropped, lobby\<lparr>echoesSuppressed := Suc (echoesSuppressed lobby)\<rparr>)"
proof -
  obtain e where e: "validateParsed (\<lambda>_. 0) 5 sample_frame (JStr ''ada'') runtime0 = (Inr e, runtime0)" "is_finite (timestamp e)"
    using sample_accepted by auto
  have n: "js_trim ''node-b'' = ''node-b''" by code_simp
  show ?thesis
    using own_echo_suppressed [OF e(1) _ e(2), of lobby "env0\<lparr>envParse := (\<lambda>_. Some (wire e ''node-b'' 7))\<rparr>" "''x''" 7 10 "''pulse:room:lobby''"]
    by (intro exI [of _ "env0\<lparr>envParse := (\<lambda>_. Some (wire e ''node-b'' 7))\<rparr>"]) (simp add: sample_instance n sample_settings)
qed

text \<open>
  C3: a room message crosses instances and arrives once. The text that one instance publishes for a
  message it accepted is delivered by another instance to every registered member of the room that
  can take a frame, exactly once, with nothing published again; when Redis delivers the same
  message a second time within the cache's time to live, nobody receives it again.
\<close>

theorem cross_instance_delivery:
  fixes E :: "('s, 'r) env" and st :: "('s, 'a) node_scheme"
  assumes acc: "validateParsed rnd now0 parsed (JStr user) rt = (Inr e, rt')" "now0 > 0" "is_finite (timestamp e)" "user \<noteq> []"
    and room: "evType e = ROOM_MESSAGE" "target_room (target e) = Some r"
    and inst: "js_trim inst = inst" "inst \<noteq> []" "inst \<noteq> instanceId st"
    and parse: "envParse E s = Some (wire e inst ts)"
    and st: "rooms_wf st" "fst (idem_check (envHash E) now (eventId e) (json_reparse (payload e)) (idem st)) = NotDuplicate"
    and again: "later - now \<le> idemTtlMs (idem st)"
  shows "\<exists>st1 st2. handleInboundRedisEvent E now ch (RawText s) st = (Processed, st1)
     \<and> (\<forall>i. outbox_of i st1 = outbox_of i st
          @ (if i \<in> set (getRoomConnectionIds r st) \<and> getConnection i st \<noteq> None \<and> can_take (envWs E) (remote_copy e inst ts) st i
             then [remote_copy e inst ts] else []))
     \<and> issued st1 = issued st \<and> core st1 = core st
     \<and> handleInboundRedisEvent E later ch (RawText s) st1 = (Dropped, st2) \<and> (\<forall>i. outbox_of i st2 = outbox_of i st1)"
proof -
  let ?e = "remote_copy e inst ts"
  have val: "validateDistributed (envRnd E) t (wire e inst ts) s' = (Inr ?e, s')" for t and s' :: "('s, 'a) node_scheme"
    unfolding wire_def remote_copy_def by (rule stamped_event_accepted [OF acc]) (use inst in simp)
  have sel: "evType ?e = ROOM_MESSAGE" "target_room (target ?e) = Some r" "eventId ?e = eventId e"
    "payload ?e = json_reparse (payload e)" "originInstanceId ?e = Some inst"
    using room inst(1) by (simp_all add: remote_copy_def)
  have rne: "r \<noteq> []"
  proof -
    from acc(1) obtain src ty eid where b: "build_envelope now0 (JStr user) src ty eid = Inr e" by (rule validateParsed_Inr)
    from build_envelope_Inr(2,8) [OF b] room show ?thesis by (auto simp: type_requirements_def split: if_splits)
  qed
  define a where "a = snd (accept_inbound E now ?e st)"
  define cids where "cids = filter (\<lambda>i. getConnection i a \<noteq> None) (getRoomConnectionIds r a)"
  define st1 where "st1 = inbound_message (envWs E) cids ?e a"
  have ca: "core a = core st" and ha: "heap a = heap st" by (simp_all add: a_def)
  have fa: "fst (accept_inbound E now ?e st)" using st(2) by (simp add: fst_accept sel)
  have one: "handleInboundRedisEvent E now ch (RawText s) st = (Processed, st1)"
    using inbound_validated [OF parse val] inst(3) fa deliver_room [OF sel(1,2) rne]
    by (simp add: sel(5) st1_def cids_def flip: a_def)
  have g: "getRoomConnectionIds r a = getRoomConnectionIds r st" "\<And>i. (getConnection i a = None) = (getConnection i st = None)"
    using core_getters(1,2) [OF ca] by simp_all
  have "distinct cids" using members_distinct [OF st(1), of r] by (simp add: cids_def g)
  note om = outbox_inbound_message [OF this]
  have mem: "i \<in> set cids \<longleftrightarrow> i \<in> set (getRoomConnectionIds r st) \<and> getConnection i st \<noteq> None" for i
    by (simp add: cids_def g)
  have out: "outbox_of i st1 = outbox_of i st
          @ (if i \<in> set (getRoomConnectionIds r st) \<and> getConnection i st \<noteq> None \<and> can_take (envWs E) ?e st i then [?e] else [])" for i
    using om [of i "envWs E" ?e a] view_heap [OF ha] by (simp add: st1_def mem)
  have c1: "core st1 = core st" by (simp add: st1_def inbound_message_def Let_def ca)
  have i1: "issued st1 = issued st" by (simp add: st1_def a_def)
  obtain ack where i: "idem st1 = recordAck (envHash E) now (eventId ?e) ack (payload ?e)
      (snd (idem_check (envHash E) now (eventId ?e) (payload ?e) (idem st)))"
    using idem_accept [OF fa] by (auto simp: st1_def a_def)
  have "\<not> fst (accept_inbound E later ?e st1)" using again by (simp add: fst_accept i check_recorded)
  then have two: "handleInboundRedisEvent E later ch (RawText s) st1 = (Dropped, snd (accept_inbound E later ?e st1))"
    using inbound_validated [OF parse val] inst(3) core_eqD(9) [OF c1] by (simp add: sel(5))
  have "outbox_of i (snd (accept_inbound E later ?e st1)) = outbox_of i st1" for i by (rule view_heap) simp
  then show ?thesis using one two out i1 c1 by blast
qed

theorem cross_instance_delivery_witness:
  "\<exists>e (E :: (sim_socket, sim_redis) env) st1. handleInboundRedisEvent E 10 ''pulse:room:lobby'' (RawText ''x'') lobby = (Processed, st1)
     \<and> outbox_of ''c1'' st1 = [remote_copy e ''node-a'' 7] \<and> outbox_of ''c2'' st1 = [remote_copy e ''node-a'' 7]"
proof -
  obtain e where e: "validateParsed (\<lambda>_. 0) 5 sample_frame (JStr ''ada'') runtime0 = (Inr e, runtime0)" "is_finite (timestamp e)"
    "evType e = ROOM_MESSAGE" "target_room (target e) = Some ''lobby''"
    using sample_accepted by auto
  let ?E = "env0\<lparr>envParse := (\<lambda>_. Some (wire e ''node-a'' 7))\<rparr>"
  have n: "js_trim ''node-a'' = ''node-a''" by code_simp
  have i: "fst (idem_check (envHash ?E) 10 (eventId e) (json_reparse (payload e)) (idem lobby)) = NotDuplicate" "12 - 10 \<le> idemTtlMs (idem lobby)"
    by (simp_all add: sample_idem idem_check_def sample_ttl)
  have "\<exists>st1. handleInboundRedisEvent ?E 10 ''pulse:room:lobby'' (RawText ''x'') lobby = (Processed, st1)
     \<and> outbox_of ''c1'' st1 = [remote_copy e ''node-a'' 7] \<and> outbox_of ''c2'' st1 = [remote_copy e ''node-a'' 7]"
    using cross_instance_delivery [OF e(1) _ e(2) _ e(3,4) n _ _ _ sample_wf i(1) i(2), of "''x''" 7 "''pulse:room:lobby''"] sample_facts
    by (auto simp: sample_registered1)
  then show ?thesis by blast
qed

section \<open>Presence events\<close>

lemma set_presence_targets_fallback:
  "set (presence_targets u None st) = {i. \<exists>r. (r, i) \<in> membership st \<and> user_present u r st}"
proof (rule set_eqI)
  fix i
  have "i \<in> set (presence_targets u None st) \<longleftrightarrow>
      (\<exists>r \<in> set (js_keys (rooms st)). user_present u r st \<and> (r, i) \<in> membership st)"
    unfolding presence_targets_def mem_membership getAllRoomIds_def option.case set_set_of_array set_concat set_map [of "\<lambda>r. getRoomConnectionIds r st"] set_filter
    by blast
  then show "i \<in> set (presence_targets u None st) \<longleftrightarrow> i \<in> {i. \<exists>r. (r, i) \<in> membership st \<and> user_present u r st}"
    using membership_keys [of _ i st] by blast
qed

text \<open>
  C19: a presence change is seen only by those who share a room with the user. Without a list of
  rooms in the event, it goes to exactly the connections that are in some room where the user is
  present, belong to an authenticated user and can take a frame; each gets one copy however many
  rooms they share.
\<close>

theorem presence_stays_in_shared_rooms:
  "outbox_of i (snd (deliverRoomScopedPresence W u e None st)) = outbox_of i st
     @ (if (\<exists>r. (r, i) \<in> membership st \<and> user_present u r st) \<and> takes_presence st i \<and> can_take W e st i then [e] else [])"
proof -
  have "distinct (filter (takes_presence st) (presence_targets u None st))"
    by (simp add: presence_targets_def)
  from outbox_send_each [OF this, of i W e st] show ?thesis
    by (auto simp: deliverRoomScopedPresence_def set_presence_targets_fallback)
qed

end
