(* ===== verification/Authenticator.thy ===== *)
theory Authenticator
  imports Js_Value
begin

text \<open>
  \<^verbatim>\<open>src/auth/Authenticator.ts\<close>: token generation, extraction and verification. The platform's
  primitives are arguments: \<open>hmac secret text\<close> is the base64url HMAC-SHA256 digest, \<open>enc\<close> and
  \<open>dec\<close> are the base64url codec on strings, \<open>stringify\<close> and \<open>parse\<close> are JSON (\<open>None\<close> when
  \<^verbatim>\<open>JSON.parse\<close> throws), \<open>toNum\<close> is the numeric coercion of a non-number, \<open>query\<close> reads the
  \<^verbatim>\<open>token\<close> parameter of the request URL (\<open>None\<close> when absent or malformed).
\<close>

record auth_prims =
  hmac :: "string \<Rightarrow> string \<Rightarrow> string"
  enc :: "string \<Rightarrow> string"
  dec :: "string \<Rightarrow> string"
  stringify :: "json \<Rightarrow> string"
  parse :: "string \<Rightarrow> json option"
  toNum :: "json \<Rightarrow> jsnum"
  queryToken :: "string \<Rightarrow> string option"

datatype auth_error =
    MissingToken
  | MalformedToken
  | InvalidSignature
  | MissingUserId
  | TokenExpired
  | DecodeFailed

text \<open>\<^verbatim>\<open>AuthResult\<close>: the error, or the user id and the roles of the token.\<close>

type_synonym auth_result = "auth_error + (string \<times> json)"

definition token_payload :: "string \<Rightarrow> string list option \<Rightarrow> int \<Rightarrow> int \<Rightarrow> json" where
  "token_payload user roles iat expt =
     JObj [(''userId'', JStr user),
           (''roles'', JArr (map JStr (case roles of None \<Rightarrow> [''user''] | Some rs \<Rightarrow> rs))),
           (''iat'', JNum (int_num iat)), (''exp'', JNum (int_num expt))]"

definition generateToken ::
  "auth_prims \<Rightarrow> string \<Rightarrow> string \<Rightarrow> string list option \<Rightarrow> int option \<Rightarrow> int \<Rightarrow> string" where
  "generateToken P secret user roles expiresInMs now =
     (let iat = now;
          expt = iat + (case expiresInMs of None \<Rightarrow> 3600 * 1000 | Some ms \<Rightarrow> ms);
          encodedPayload = enc P (stringify P (token_payload user roles iat expt));
          signature = hmac P secret encodedPayload
      in encodedPayload @ ''.'' @ signature)"

text \<open>An upgrade request: the URL and the three headers that are read.\<close>

record request =
  reqUrl :: "string option"
  authorization :: "string option"
  secWebSocketProtocol :: "string option"

fun find_token_protocol :: "string list \<Rightarrow> string option" where
  "find_token_protocol [] = None"
| "find_token_protocol (p # ps) =
     (if starts_with ''token.'' p then Some (drop 6 p) else find_token_protocol ps)"

definition extractToken :: "auth_prims \<Rightarrow> request \<Rightarrow> string option" where
  "extractToken P req =
     (let fromQuery = (if str_truthy (reqUrl req) then queryToken P (the (reqUrl req)) else None) in
      if str_truthy fromQuery then fromQuery
      else case authorization req of
        Some h \<Rightarrow>
          if h \<noteq> [] \<and> starts_with ''Bearer '' h then Some (js_trim (drop 7 h))
          else (case secWebSocketProtocol req of
                  None \<Rightarrow> None
                | Some p \<Rightarrow> if p = [] then None
                            else find_token_protocol (map js_trim (split_char CHR '','' p)))
      | None \<Rightarrow>
          (case secWebSocketProtocol req of
             None \<Rightarrow> None
           | Some p \<Rightarrow> if p = [] then None
                       else find_token_protocol (map js_trim (split_char CHR '','' p))))"

text \<open>\<^verbatim>\<open>Date.now() > payload.exp\<close>: an absent \<^verbatim>\<open>exp\<close> compares as \<^verbatim>\<open>NaN\<close>.\<close>

definition exp_number :: "auth_prims \<Rightarrow> json option \<Rightarrow> jsnum" where
  "exp_number P e =
     (case e of None \<Rightarrow> NaN
      | Some JNull \<Rightarrow> FinNum 0
      | Some (JBool b) \<Rightarrow> FinNum (if b then 1 else 0)
      | Some (JNum n) \<Rightarrow> n
      | Some j \<Rightarrow> toNum P j)"

text \<open>
  Lines 132-161: a property read of a \<^verbatim>\<open>null\<close> payload throws and is caught; a payload that is not
  an object has no \<^verbatim>\<open>userId\<close>.
\<close>

definition check_payload :: "auth_prims \<Rightarrow> int \<Rightarrow> json option \<Rightarrow> auth_result" where
  "check_payload P now pl =
     (case pl of
        None \<Rightarrow> Inl DecodeFailed
      | Some JNull \<Rightarrow> Inl DecodeFailed
      | Some j \<Rightarrow>
          (case json_get j ''userId'' of
             Some (JStr u) \<Rightarrow>
               if u = [] then Inl MissingUserId
               else if num_less (exp_number P (json_get j ''exp'')) (int_num now) then Inl TokenExpired
               else Inr (u, case json_get j ''roles'' of
                              None \<Rightarrow> JArr [JStr ''user'']
                            | Some JNull \<Rightarrow> JArr [JStr ''user'']
                            | Some r \<Rightarrow> r)
           | _ \<Rightarrow> Inl MissingUserId))"

definition verifyToken :: "auth_prims \<Rightarrow> string \<Rightarrow> int \<Rightarrow> string option \<Rightarrow> auth_result" where
  "verifyToken P secret now token =
     (if \<not> str_truthy token then Inl MissingToken
      else case split_char CHR ''.'' (the token) of
        [encodedPayload, providedSignature] \<Rightarrow>
          if providedSignature \<noteq> hmac P secret encodedPayload then Inl InvalidSignature
          else check_payload P now (parse P (dec P encodedPayload))
      | _ \<Rightarrow> Inl MalformedToken)"

definition authenticateRequest :: "auth_prims \<Rightarrow> string \<Rightarrow> int \<Rightarrow> request \<Rightarrow> auth_result" where
  "authenticateRequest P secret now req = verifyToken P secret now (extractToken P req)"

section \<open>Only signed, unexpired tokens pass\<close>

lemma split_char_two:
  "split_char c s = [a, b] \<Longrightarrow> s = a @ [c] @ b \<and> c \<notin> set a \<and> c \<notin> set b"
proof (induction s arbitrary: a)
  case (Cons x xs)
  show ?case
  proof (cases "x = c")
    case True
    with Cons.prems have "a = []" "split_char c xs = [b]" by auto
    moreover have "split_char c xs = [b] \<Longrightarrow> xs = b \<and> c \<notin> set b"
    proof (induction xs arbitrary: b)
      case (Cons y ys)
      then show ?case by (auto split: if_splits list.splits)
    qed simp
    ultimately show ?thesis using True by simp
  next
    case False
    with Cons.prems obtain p where "split_char c xs = [p, b]" "a = x # p"
      by (auto split: list.splits)
    with Cons.IH [of p] False show ?thesis by auto
  qed
qed simp

text \<open>
  C8: authentication is sound. A request is admitted only with a token \<open>body.signature\<close> whose
  signature is the HMAC of the body under the server's secret, whose body decodes to a payload
  with the returned non-empty user id, and whose expiry, when it is a number, has not passed.
\<close>

theorem authenticate_sound:
  assumes "authenticateRequest P secret now req = Inr (user, roles)"
  shows "\<exists>body sig j. extractToken P req = Some (body @ ''.'' @ sig) \<and> sig = hmac P secret body
     \<and> parse P (dec P body) = Some j \<and> json_get j ''userId'' = Some (JStr user) \<and> user \<noteq> []
     \<and> (\<forall>e. json_get j ''exp'' = Some (JNum (FinNum e)) \<longrightarrow> of_int now \<le> e)"
proof -
  obtain t where t: "extractToken P req = Some t" "t \<noteq> []"
    using assms by (cases "extractToken P req") (auto simp: authenticateRequest_def verifyToken_def split: if_splits)
  then obtain body sig where s: "split_char CHR ''.'' t = [body, sig]" "sig = hmac P secret body"
    "check_payload P now (parse P (dec P body)) = Inr (user, roles)"
    using assms by (auto simp: authenticateRequest_def verifyToken_def split: if_splits list.splits)
  obtain j where j: "parse P (dec P body) = Some j" "j \<noteq> JNull"
    using s(3) by (auto simp: check_payload_def split: option.splits json.splits)
  have c: "json_get j ''userId'' = Some (JStr user) \<and> user \<noteq> []
      \<and> \<not> num_less (exp_number P (json_get j ''exp'')) (int_num now)"
    using s(3) j by (auto simp: check_payload_def split: option.splits json.splits if_splits)
  then have "\<forall>e. json_get j ''exp'' = Some (JNum (FinNum e)) \<longrightarrow> of_int now \<le> e"
    by (auto simp: exp_number_def)
  with c j t(1) s(2) split_char_two [OF s(1)] show ?thesis by auto
qed

text \<open>
  Concrete primitives for the witnesses: the text codec replaces a dot by an escape, the digest is
  the key, and the JSON codec knows one token payload.
\<close>

primrec esc :: "string \<Rightarrow> string" where
  "esc [] = []"
| "esc (c # cs) = (if c = CHR ''.'' then ''~d'' else if c = CHR ''~'' then ''~~'' else [c]) @ esc cs"

fun unesc :: "string \<Rightarrow> string" where
  "unesc [] = []"
| "unesc [c] = [c]"
| "unesc (c # d # cs) =
     (if c = CHR ''~'' then (if d = CHR ''d'' then CHR ''.'' else d) # unesc cs else c # unesc (d # cs))"

definition sample_payload :: json where
  "sample_payload = token_payload ''ada'' None 1000 3601000"

definition sample_prims :: auth_prims where
  "sample_prims = \<lparr>hmac = (\<lambda>k s. esc k @ esc s), enc = esc, dec = unesc, stringify = (\<lambda>_. ''payload''),
     parse = (\<lambda>s. if s = ''payload'' then Some sample_payload else None),
     toNum = (\<lambda>_. NaN), queryToken = (\<lambda>u. Some (drop 8 u))\<rparr>"

lemma unesc_esc: "unesc (esc s) = s"
proof (induction s)
  case (Cons c cs)
  show ?case
  proof (cases "c = CHR ''.'' \<or> c = CHR ''~''")
    case False
    then show ?thesis using Cons by (cases "esc cs") auto
  qed (use Cons in auto)
qed simp

lemma esc_no_dot: "CHR ''.'' \<notin> set (esc s)"
  by (induction s) auto

theorem authenticate_sound_witness:
  "\<exists>body sig j. extractToken sample_prims \<lparr>reqUrl = Some ''/?token=payload.keypayload'', authorization = None,
       secWebSocketProtocol = None\<rparr> = Some (body @ ''.'' @ sig)
     \<and> sig = hmac sample_prims ''key'' body
     \<and> parse sample_prims (dec sample_prims body) = Some j \<and> json_get j ''userId'' = Some (JStr ''ada'')
     \<and> ''ada'' \<noteq> [] \<and> (\<forall>e. json_get j ''exp'' = Some (JNum (FinNum e)) \<longrightarrow> of_int 2000 \<le> e)"
proof -
  have "authenticateRequest sample_prims ''key'' 2000
      \<lparr>reqUrl = Some ''/?token=payload.keypayload'', authorization = None, secWebSocketProtocol = None\<rparr>
    = Inr (''ada'', JArr [JStr ''user''])"
    by (simp add: authenticateRequest_def extractToken_def verifyToken_def sample_prims_def Let_def
        check_payload_def sample_payload_def token_payload_def exp_number_def)
  from authenticate_sound [OF this] show ?thesis .
qed

text \<open>
  Documented behaviour of the platform's codecs that the round trip of a payload relies on:
  base64url text contains no dot and decodes to its source, JSON text parses to its value.
\<close>

definition codecs_ok :: "auth_prims \<Rightarrow> json \<Rightarrow> bool" where
  "codecs_ok P j \<longleftrightarrow>
     (\<forall>s. dec P (enc P s) = s) \<and> (\<forall>s. CHR ''.'' \<notin> set (enc P s))
     \<and> (\<forall>k s. CHR ''.'' \<notin> set (hmac P k s)) \<and> parse P (stringify P j) = Some j"

text \<open>
  Tokens round-trip. A token generated for a non-empty user id verifies under the same
  secret, with the same user and roles, at every time up to its expiry, and is rejected as
  expired after it.
\<close>

theorem token_roundtrip:
  assumes "codecs_ok P (token_payload user roles now
     (now + (case expiresIn of None \<Rightarrow> 3600000 | Some ms \<Rightarrow> ms)))" and "user \<noteq> []"
  shows "verifyToken P secret t (Some (generateToken P secret user roles expiresIn now)) =
     (if t \<le> now + (case expiresIn of None \<Rightarrow> 3600000 | Some ms \<Rightarrow> ms)
      then Inr (user, JArr (map JStr (case roles of None \<Rightarrow> [''user''] | Some rs \<Rightarrow> rs)))
      else Inl TokenExpired)"
proof -
  let ?e = "now + (case expiresIn of None \<Rightarrow> 3600000 | Some ms \<Rightarrow> ms)"
  let ?body = "enc P (stringify P (token_payload user roles now ?e))"
  have tok: "generateToken P secret user roles expiresIn now = ?body @ CHR ''.'' # hmac P secret ?body"
    by (cases expiresIn) (simp_all add: generateToken_def Let_def)
  have "split_char CHR ''.'' (?body @ CHR ''.'' # hmac P secret ?body) = [?body, hmac P secret ?body]"
    using assms(1) by (simp add: codecs_ok_def split_char_append split_char_no_sep)
  moreover have "parse P (dec P ?body) = Some (token_payload user roles now ?e)"
    using assms(1) by (simp add: codecs_ok_def)
  moreover have "check_payload P t (Some (token_payload user roles now ?e)) =
     (if t \<le> ?e then Inr (user, JArr (map JStr (case roles of None \<Rightarrow> [''user''] | Some rs \<Rightarrow> rs)))
      else Inl TokenExpired)"
    using assms(2) by (auto simp: check_payload_def token_payload_def exp_number_def not_le)
  ultimately show ?thesis by (simp add: verifyToken_def tok)
qed

theorem token_roundtrip_witness:
  "verifyToken sample_prims ''key'' 2000 (Some (generateToken sample_prims ''key'' ''ada'' None None 1000))
     = Inr (''ada'', JArr [JStr ''user''])"
proof -
  have "codecs_ok sample_prims (token_payload ''ada'' None 1000
      (1000 + (case None of None \<Rightarrow> 3600000 | Some ms \<Rightarrow> ms)))"
    by (simp add: codecs_ok_def sample_prims_def sample_payload_def unesc_esc esc_no_dot)
  from token_roundtrip [OF this, of "''key''" 2000] show ?thesis by simp
qed

text \<open>
  C0: a token whose payload carries no \<^verbatim>\<open>exp\<close> never expires: the comparison with \<^verbatim>\<open>undefined\<close>
  is false at every time.
\<close>

theorem token_without_exp_never_expires:
  assumes "json_get j ''exp'' = None" "json_get j ''userId'' = Some (JStr user)" "user \<noteq> []"
  shows "\<exists>roles. check_payload P now (Some j) = Inr (user, roles)"
  using assms by (cases j) (auto simp: check_payload_def exp_number_def split: option.splits)

theorem token_without_exp_never_expires_witness:
  "\<exists>roles. check_payload sample_prims 99999999999 (Some (JObj [(''userId'', JStr ''ada'')])) = Inr (''ada'', roles)"
  by (rule token_without_exp_never_expires) simp_all

end
