(* ===== verification/Origin_Matcher.thy ===== *)
theory Origin_Matcher
  imports Prelude
begin

text \<open>
  \<^verbatim>\<open>src/utils/OriginMatcher.ts\<close>: the check of the Origin header against the configured allow
  list. \<open>URL\<close> is the platform's URL constructor: \<open>None\<close> when it throws.
\<close>

record url =
  protocol :: string
  hostname :: string
  port :: string

definition strip_slashes :: "string \<Rightarrow> string" where
  "strip_slashes s = rev (dropWhile (\<lambda>c. c = CHR ''/'') (rev s))"

definition normalizeOrigin :: "(string \<Rightarrow> url option) \<Rightarrow> string \<Rightarrow> string" where
  "normalizeOrigin URL origin =
     (let trimmed = strip_slashes (js_lower (js_trim origin)) in
      case URL trimmed of
        None \<Rightarrow> trimmed
      | Some u \<Rightarrow>
          if protocol u = ''http:'' \<and> port u = ''80'' \<or> protocol u = ''https:'' \<and> port u = ''443'' \<or> port u = []
          then protocol u @ ''//'' @ hostname u
          else protocol u @ ''//'' @ hostname u @ '':'' @ port u)"

text \<open>The text before and after the first occurrence of a separator.\<close>

fun split_first :: "string \<Rightarrow> string \<Rightarrow> (string \<times> string) option" where
  "split_first sep [] = None"
| "split_first sep (c # cs) =
     (if starts_with sep (c # cs) then Some ([], drop (length sep) (c # cs))
      else map_option (\<lambda>(a, b). (c # a, b)) (split_first sep cs))"

text \<open>
  Lines 63-72: \<^verbatim>\<open>normalizedAllowed.split('://*.')\<close> destructured into its first two parts, and the
  comparison of the header's host with the domain pattern.
\<close>

definition wildcard_match :: "string \<Rightarrow> string \<Rightarrow> bool" where
  "wildcard_match header allowed =
     (case split_first ''://*.'' allowed of
        None \<Rightarrow> False
      | Some (proto, rest) \<Rightarrow>
          let domainPattern = (case split_first ''://*.'' rest of None \<Rightarrow> rest | Some (d, _) \<Rightarrow> d) in
          starts_with (proto @ ''://'') header \<and>
          (let hostPart = hd (split_char CHR '':'' (drop (length (proto @ ''://'')) header))
           in ends_with (''.'' @ domainPattern) hostPart \<and> length hostPart > length domainPattern + 1))"

fun match_loop :: "(string \<Rightarrow> url option) \<Rightarrow> string \<Rightarrow> string list \<Rightarrow> bool" where
  "match_loop URL header [] = False"
| "match_loop URL header (allowed # rest) =
     (if allowed = ''*'' then True
      else if header = normalizeOrigin URL allowed then True
      else if wildcard_match header (normalizeOrigin URL allowed) then True
      else match_loop URL header rest)"

definition isAllowed :: "(string \<Rightarrow> url option) \<Rightarrow> string option \<Rightarrow> string list option \<Rightarrow> bool" where
  "isAllowed URL originHeader allowedOrigins =
     (case allowedOrigins of
        None \<Rightarrow> True
      | Some allowed \<Rightarrow>
          if ''*'' \<in> set allowed then True
          else case originHeader of
                 None \<Rightarrow> True
               | Some h \<Rightarrow>
                   if js_trim h = [] then True
                   else if allowed = [] then False
                   else match_loop URL (normalizeOrigin URL h) allowed)"

lemma split_first_Some: "split_first sep s = Some (a, b) \<Longrightarrow> s = a @ sep @ b"
proof (induction s arbitrary: a)
  case (Cons c cs)
  show ?case
  proof (cases "starts_with sep (c # cs)")
    case True
    then have ab: "a = [] \<and> b = drop (length sep) (c # cs)" using Cons.prems by simp
    obtain r where "c # cs = sep @ r" using True by (auto simp: starts_with_iff)
    then show ?thesis using ab by (metis append.left_neutral append_eq_conv_conj)
  next
    case False
    with Cons show ?thesis by auto
  qed
qed simp

lemma hd_split_char: "hd (split_char c s) = takeWhile (\<lambda>x. x \<noteq> c) s"
  by (induction s) (auto split: list.splits)

lemma wildcard_matchD:
  assumes "wildcard_match header allowed"
  shows "\<exists>proto domain sub rest. sub \<noteq> [] \<and> (\<exists>tail. allowed = proto @ ''://*.'' @ domain @ tail)
      \<and> header = proto @ ''://'' @ sub @ ''.'' @ domain @ rest \<and> (rest = [] \<or> hd rest = CHR '':'')"
proof -
  obtain proto rest where s: "split_first ''://*.'' allowed = Some (proto, rest)"
    using assms by (auto simp: wildcard_match_def split: option.splits)
  define d where "d = (case split_first ''://*.'' rest of None \<Rightarrow> rest | Some (d, _) \<Rightarrow> d)"
  define h where "h = drop (length (proto @ ''://'')) header"
  have hh: "header = (proto @ ''://'') @ h"
    using assms s by (auto simp: wildcard_match_def h_def starts_with_iff Let_def)
  have e: "ends_with (''.'' @ d) (takeWhile (\<lambda>x. x \<noteq> CHR '':'') h)"
    and l: "length (takeWhile (\<lambda>x. x \<noteq> CHR '':'') h) > length d + 1"
    using assms s by (auto simp: wildcard_match_def d_def h_def hd_split_char Let_def)
  obtain sub where sub: "takeWhile (\<lambda>x. x \<noteq> CHR '':'') h = sub @ ''.'' @ d"
    using e by (auto simp: ends_with_iff)
  have "sub \<noteq> []" using l sub by auto
  moreover have "\<exists>tail. rest = d @ tail"
    using split_first_Some [of "''://*.''" rest] by (auto simp: d_def split: option.splits)
  moreover have "h = sub @ ''.'' @ d @ dropWhile (\<lambda>x. x \<noteq> CHR '':'') h"
    using sub by (metis append.assoc takeWhile_dropWhile_id)
  moreover have "dropWhile (\<lambda>x. x \<noteq> CHR '':'') h = [] \<or> hd (dropWhile (\<lambda>x. x \<noteq> CHR '':'') h) = CHR '':''"
    using hd_dropWhile [of "\<lambda>x. x \<noteq> CHR '':''" h] by blast
  ultimately show ?thesis
    using split_first_Some [OF s] hh by (metis append.assoc)
qed

lemma match_loop_iff:
  "match_loop URL header as \<longleftrightarrow>
     (\<exists>a \<in> set as. a = ''*'' \<or> header = normalizeOrigin URL a \<or> wildcard_match header (normalizeOrigin URL a))"
  by (induction as) auto

text \<open>
  Cross-site protection. With an allow list that does not contain the global wildcard, a
  non-blank Origin header is accepted only if its normal form is the normal form of a listed
  origin, or a listed origin is a pattern \<open>proto://*.domain\<close> and the header's host is a proper
  subdomain of \<open>domain\<close> under the same protocol (so a host that merely ends in the same letters
  is refused).
\<close>

theorem origin_allowed_sound:
  assumes "isAllowed URL (Some h) (Some allowed)" "''*'' \<notin> set allowed" "js_trim h \<noteq> []"
  shows "\<exists>a \<in> set allowed.
     normalizeOrigin URL h = normalizeOrigin URL a \<or>
     (\<exists>proto domain sub rest. sub \<noteq> [] \<and> (\<exists>tail. normalizeOrigin URL a = proto @ ''://*.'' @ domain @ tail)
        \<and> normalizeOrigin URL h = proto @ ''://'' @ sub @ ''.'' @ domain @ rest
        \<and> (rest = [] \<or> hd rest = CHR '':''))"
proof -
  have "match_loop URL (normalizeOrigin URL h) allowed"
    using assms by (auto simp: isAllowed_def split: if_splits)
  then obtain a where "a \<in> set allowed"
    "normalizeOrigin URL h = normalizeOrigin URL a \<or> wildcard_match (normalizeOrigin URL h) (normalizeOrigin URL a)"
    using assms(2) by (auto simp: match_loop_iff)
  then show ?thesis using wildcard_matchD by blast
qed

theorem origin_allowed_sound_witness:
  "isAllowed (\<lambda>_. None) (Some ''https://app.pulse.io/'') (Some [''https://*.pulse.io''])
   \<and> (\<exists>a \<in> set [''https://*.pulse.io''].
     normalizeOrigin (\<lambda>_. None) ''https://app.pulse.io/'' = normalizeOrigin (\<lambda>_. None) a \<or>
     (\<exists>proto domain sub rest. sub \<noteq> []
        \<and> (\<exists>tail. normalizeOrigin (\<lambda>_. None) a = proto @ ''://*.'' @ domain @ tail)
        \<and> normalizeOrigin (\<lambda>_. None) ''https://app.pulse.io/'' = proto @ ''://'' @ sub @ ''.'' @ domain @ rest
        \<and> (rest = [] \<or> hd rest = CHR '':'')))"
proof -
  have a: "isAllowed (\<lambda>_. None) (Some ''https://app.pulse.io/'') (Some [''https://*.pulse.io''])"
    by code_simp
  have b: "''*'' \<notin> set [''https://*.pulse.io'']" by simp
  have c: "js_trim ''https://app.pulse.io/'' \<noteq> []" by code_simp
  from origin_allowed_sound [OF a b c] a show ?thesis by blast
qed

text \<open>
  An empty allow list (the production default) refuses every non-blank Origin header, while
  requests without the header pass; the comment above \<open>isAllowed\<close> says an empty list allows all.
\<close>

theorem empty_allow_list_refuses:
  "isAllowed URL originHeader (Some []) \<longleftrightarrow>
     (case originHeader of None \<Rightarrow> True | Some h \<Rightarrow> js_trim h = [])"
  by (simp add: isAllowed_def split: option.splits)

end
