(* ===== verification/Heartbeat.thy ===== *)
theory Heartbeat
  imports Connection_Manager
begin

text \<open>
  \<^verbatim>\<open>src/core/HeartbeatManager.ts\<close>: the periodic sweep that pings quiet connections and reaps silent
  ones. The interval timer itself is the environment; a sweep is \<open>checkHeartbeats\<close>, whose result
  lists the connections for which the 150 ms fallback timer was set, and \<open>fallback_fired\<close> is the
  callback of such a timer.
\<close>

record heartbeat =
  intervalMs :: int
  timeoutMs :: int
  sweepTickMs :: int
  hbRunning :: bool

definition new_HeartbeatManager :: "int \<Rightarrow> int \<Rightarrow> int option \<Rightarrow> heartbeat" where
  "new_HeartbeatManager i t tick =
     \<lparr>intervalMs = i, timeoutMs = t,
      sweepTickMs = (case tick of Some k \<Rightarrow> k | None \<Rightarrow> max 20 (min i t div 2)), hbRunning = False\<rparr>"

definition hb_start :: "heartbeat \<Rightarrow> heartbeat" where
  "hb_start hb = (if hbRunning hb then hb else hb\<lparr>hbRunning := True\<rparr>)"

definition hb_stop :: "heartbeat \<Rightarrow> heartbeat" where
  "hb_stop hb = hb\<lparr>hbRunning := False\<rparr>"

definition ping_envelope :: "string \<Rightarrow> int \<Rightarrow> envelope" where
  "ping_envelope eid now = system_envelope eid SYS_PING now None None (JObj [(''timestamp'', JNum (int_num now))])"

definition hb_reap :: "'s ws \<Rightarrow> 's connection \<Rightarrow> 's connection" where
  "hb_reap W c = conn_close W 1002 ''Heartbeat timeout: connection unresponsive'' (c\<lparr>isHeartbeatTimedOut := True\<rparr>)"

text \<open>The body of the loop, for one connection.\<close>

definition check_one ::
  "'s ws \<Rightarrow> (nat \<Rightarrow> nat) \<Rightarrow> int \<Rightarrow> heartbeat \<Rightarrow> string \<Rightarrow> ('s, 'a) conn_state_scheme
     \<Rightarrow> string list \<times> ('s, 'a) conn_state_scheme" where
  "check_one W rnd now hb cid st =
     (case heap st cid of
        None \<Rightarrow> ([], st)
      | Some c \<Rightarrow>
          if now - lastSeenAt c > intervalMs hb + timeoutMs hb
          then (if isHeartbeatTimedOut c then ([], upd_conn cid (conn_terminate W) st)
                else ([cid], upd_conn cid (hb_reap W) st))
          else if now - lastSeenAt c \<ge> intervalMs hb
          then (let (eid, st') = freshId rnd now st in ([], snd (send_to W cid (ping_envelope eid now) st')))
          else ([], st))"

fun check_each ::
  "'s ws \<Rightarrow> (nat \<Rightarrow> nat) \<Rightarrow> int \<Rightarrow> heartbeat \<Rightarrow> string list \<Rightarrow> ('s, 'a) conn_state_scheme
     \<Rightarrow> string list \<times> ('s, 'a) conn_state_scheme" where
  "check_each W rnd now hb [] st = ([], st)"
| "check_each W rnd now hb (cid # cids) st =
     (let (t1, st1) = check_one W rnd now hb cid st; (t2, st2) = check_each W rnd now hb cids st1
      in (t1 @ t2, st2))"

definition checkHeartbeats ::
  "'s ws \<Rightarrow> (nat \<Rightarrow> nat) \<Rightarrow> int \<Rightarrow> heartbeat \<Rightarrow> ('s, 'a) conn_state_scheme
     \<Rightarrow> string list \<times> ('s, 'a) conn_state_scheme" where
  "checkHeartbeats W rnd now hb st = check_each W rnd now hb (getAllConnections st) st"

definition fallback_fired :: "'s ws \<Rightarrow> string \<Rightarrow> ('s, 'a) conn_state_scheme \<Rightarrow> ('s, 'a) conn_state_scheme" where
  "fallback_fired W cid st =
     (case heap st cid of
        None \<Rightarrow> st
      | Some c \<Rightarrow> if readyState W (socket c) = WS_CLOSING \<or> readyState W (socket c) = WS_OPEN
                  then upd_conn cid (conn_terminate W) st else st)"

section \<open>What a sweep does to each connection\<close>

text \<open>What becomes of a connection object: only its own elapsed time matters.\<close>

definition hb_outcome :: "'s ws \<Rightarrow> int \<Rightarrow> heartbeat \<Rightarrow> 's connection \<Rightarrow> 's connection \<Rightarrow> bool" where
  "hb_outcome W now hb c c' \<longleftrightarrow>
     (if now - lastSeenAt c > intervalMs hb + timeoutMs hb
      then c' = (if isHeartbeatTimedOut c then conn_terminate W c else hb_reap W c)
      else if now - lastSeenAt c \<ge> intervalMs hb
      then (\<exists>eid rt. c' = fst (snd (conn_send W (ping_envelope eid now) c (rt :: runtime))))
      else c' = c)"

lemma conn_send_conn: "fst (snd (conn_send W e c rt)) = fst (snd (conn_send W e c rt'))"
  by (simp add: conn_send_def split: option.splits)

lemma heap_freshId [simp]: "heap (snd (freshId rnd now st)) = heap st"
  by (simp add: freshId_def advance_uuid_def case_prod_beta Let_def)

lemma check_one_other: "cid' \<noteq> cid \<Longrightarrow> heap (snd (check_one W rnd now hb cid st)) cid' = heap st cid'"
  by (simp add: check_one_def upd_conn_def send_to_eq case_prod_beta split: option.splits)

lemma check_one_self:
  assumes "heap st cid = Some c"
  shows "\<exists>c'. heap (snd (check_one W rnd now hb cid st)) cid = Some c' \<and> hb_outcome W now hb c c'"
proof (cases "now - lastSeenAt c > intervalMs hb + timeoutMs hb \<or> now - lastSeenAt c < intervalMs hb")
  case True
  with assms show ?thesis by (auto simp: check_one_def upd_conn_def hb_outcome_def)
next
  case False
  let ?st = "snd (freshId rnd now st)" and ?e = "ping_envelope (fst (freshId rnd now st)) now"
  have "heap (snd (check_one W rnd now hb cid st)) cid = Some (fst (snd (conn_send W ?e c ?st)))"
    using False assms by (simp add: check_one_def send_to_eq case_prod_beta)
  moreover have "hb_outcome W now hb c (fst (snd (conn_send W ?e c ?st)))"
    using False unfolding hb_outcome_def by (auto intro: conn_send_conn)
  ultimately show ?thesis by blast
qed

lemma check_each_Cons:
  "fst (check_each W rnd now hb (cid # cids) st) =
     fst (check_one W rnd now hb cid st) @ fst (check_each W rnd now hb cids (snd (check_one W rnd now hb cid st)))"
  "snd (check_each W rnd now hb (cid # cids) st) = snd (check_each W rnd now hb cids (snd (check_one W rnd now hb cid st)))"
  by (simp_all add: case_prod_beta Let_def)

declare check_each.simps(2) [simp del]

lemma check_each_other: "cid \<notin> set cids \<Longrightarrow> heap (snd (check_each W rnd now hb cids st)) cid = heap st cid"
  by (induction cids arbitrary: st) (simp_all add: check_each_Cons check_one_other)

lemma check_each_self:
  assumes "distinct cids" "cid \<in> set cids" "heap st cid = Some c"
  shows "\<exists>c'. heap (snd (check_each W rnd now hb cids st)) cid = Some c' \<and> hb_outcome W now hb c c'"
  using assms
proof (induction cids arbitrary: st)
  case (Cons d ds)
  show ?case
  proof (cases "d = cid")
    case True
    with Cons.prems check_one_self [of st cid c W rnd now hb] show ?thesis
      by (simp add: check_each_Cons check_each_other)
  next
    case False
    with Cons show ?thesis by (simp add: check_each_Cons check_one_other)
  qed
qed simp

text \<open>The connections found silent for the first time get the fallback timer.\<close>

lemma check_one_timers:
  "fst (check_one W rnd now hb cid st) =
     (case heap st cid of None \<Rightarrow> []
      | Some c \<Rightarrow> if now - lastSeenAt c > intervalMs hb + timeoutMs hb \<and> \<not> isHeartbeatTimedOut c then [cid] else [])"
  by (simp add: check_one_def case_prod_beta split: option.splits)

lemma check_each_timers:
  assumes "distinct cids"
  shows "set (fst (check_each W rnd now hb cids st)) =
     {cid \<in> set cids. \<exists>c. heap st cid = Some c \<and> now - lastSeenAt c > intervalMs hb + timeoutMs hb \<and> \<not> isHeartbeatTimedOut c}"
  using assms
proof (induction cids arbitrary: st)
  case (Cons d ds)
  have "heap (snd (check_one W rnd now hb d st)) cid = heap st cid" if "cid \<in> set ds" for cid
    using Cons.prems that by (auto intro: check_one_other)
  with Cons show ?case
    by (cases "heap st d") (auto simp: check_each_Cons check_one_timers)
qed simp

text \<open>
  The sweep pings the quiet, reaps the silent and leaves the others alone. Every registered
  connection is treated by its own silence: within the interval its object is unchanged; between
  the interval and the timeout it is sent a \<^verbatim>\<open>SYS_PING\<close> (and nothing else happens to it); beyond the
  timeout it is marked and closed with code 1002 at the first sweep, with a fallback timer set for
  exactly these, and terminated at the next one. Connections that are not registered are untouched.
\<close>

theorem heartbeat_sweep_effect:
  assumes "index_ok st" "sweep = checkHeartbeats W rnd now hb st"
  shows "(\<forall>cid \<in> set (connections st). \<exists>c c'. heap st cid = Some c \<and> heap (snd sweep) cid = Some c' \<and> hb_outcome W now hb c c')
     \<and> (\<forall>cid. cid \<notin> set (connections st) \<longrightarrow> heap (snd sweep) cid = heap st cid)
     \<and> set (fst sweep) = {cid \<in> set (connections st). \<exists>c. heap st cid = Some c
          \<and> now - lastSeenAt c > intervalMs hb + timeoutMs hb \<and> \<not> isHeartbeatTimedOut c}"
proof -
  have d: "distinct (connections st)" and ex: "\<forall>cid \<in> set (connections st). \<exists>c. heap st cid = Some c"
    using assms(1) by (auto simp: index_ok_def)
  have "\<exists>c c'. heap st cid = Some c \<and> heap (snd sweep) cid = Some c' \<and> hb_outcome W now hb c c'"
    if cid: "cid \<in> set (connections st)" for cid
  proof -
    from ex cid obtain c where "heap st cid = Some c" by auto
    with check_each_self [OF d cid this, of W rnd now hb] assms(2) show ?thesis
      by (auto simp: checkHeartbeats_def getAllConnections_def)
  qed
  then show ?thesis
    using check_each_timers [OF d, of W rnd now hb st] assms(2)
    by (auto simp: checkHeartbeats_def getAllConnections_def check_each_other)
qed

theorem heartbeat_sweep_effect_witness:
  "\<exists>c'. heap (snd (checkHeartbeats sim_ws (\<lambda>_. 0) 1000 (new_HeartbeatManager 100 50 None)
       (addConnection (sim_connection ''c1'' ''ada'' 0) conn0))) ''c1'' = Some c'
     \<and> simClosed (socket c') = Some 1002 \<and> isHeartbeatTimedOut c'"
proof -
  let ?st = "addConnection (sim_connection ''c1'' ''ada'' 0) conn0"
  have "conn_inv conn0"
    using conn_sys_inv_init [of conn0]
    by (simp add: conn_sys_inv_def conn_init_def conn0_def room0_def chan0_def chan_state.defs room_state.defs)
  moreover have "connections conn0 = []" by (simp add: conn0_def room_state.defs)
  ultimately have "index_ok ?st" by (intro index_ok_add) (simp_all add: conn_inv_def)
  moreover have "connections ?st = [''c1'']" "heap ?st ''c1'' = Some (sim_connection ''c1'' ''ada'' 0)"
    by (simp_all add: addConnection_fields sim_connection_def conn0_def room_state.defs set_add_def)
  ultimately obtain c' where "heap (snd (checkHeartbeats sim_ws (\<lambda>_. 0) 1000 (new_HeartbeatManager 100 50 None) ?st)) ''c1'' = Some c'"
    "hb_outcome sim_ws 1000 (new_HeartbeatManager 100 50 None) (sim_connection ''c1'' ''ada'' 0) c'"
    using heartbeat_sweep_effect [of ?st _ sim_ws "\<lambda>_. 0" 1000 "new_HeartbeatManager 100 50 None", OF _ refl] by auto
  then show ?thesis
    by (auto simp: hb_outcome_def new_HeartbeatManager_def sim_connection_def hb_reap_def conn_close_def sim_ws_def WS_OPEN_def)
qed

end
