(* ===== verification/Config.thy ===== *)
theory Config
  imports Js_Value
begin

text \<open>
  \<^verbatim>\<open>src/config/index.ts\<close>: the server's settings, from the caller's overrides, the environment variables
  and the defaults, and their validation. \<^verbatim>\<open>process.env\<close> (after \<^verbatim>\<open>dotenv\<close>) is the argument \<open>penv\<close>.
\<close>

section \<open>Reading numbers\<close>

text \<open>\<^verbatim>\<open>parseInt(s, 10)\<close>: leading white space, a sign, the longest run of digits.\<close>

definition is_digit :: "char \<Rightarrow> bool" where
  "is_digit c \<longleftrightarrow> (let n = of_char c :: nat in 48 \<le> n \<and> n \<le> 57)"

definition digits_value :: "string \<Rightarrow> int" where
  "digits_value ds = foldl (\<lambda>n c. 10 * n + (of_char c - 48)) 0 ds"

definition unsigned_prefix :: "string \<Rightarrow> int option" where
  "unsigned_prefix s = (let ds = takeWhile is_digit s in if ds = [] then None else Some (digits_value ds))"

definition js_parseInt :: "string \<Rightarrow> jsnum" where
  "js_parseInt s =
     (let t = dropWhile js_ws s;
          v = (case t of
                 [] \<Rightarrow> None
               | c # u \<Rightarrow> if c = CHR ''-'' then map_option uminus (unsigned_prefix u)
                          else if c = CHR ''+'' then unsigned_prefix u else unsigned_prefix t)
      in case v of None \<Rightarrow> NaN | Some i \<Rightarrow> int_num i)"

section \<open>The settings\<close>

record pulse_config =
  cfgPort :: jsnum
  cfgHost :: string
  cfgNodeEnv :: string
  cfgInstanceId :: string
  cfgHeartbeatIntervalMs :: jsnum
  cfgHeartbeatTimeoutMs :: jsnum
  cfgMaxPayloadBytes :: jsnum
  cfgMaxBufferedAmountBytes :: jsnum
  cfgAuthSecret :: string
  cfgIdempotencyCapacity :: jsnum
  cfgIdempotencyTtlMs :: jsnum
  cfgRedisEnabled :: bool
  cfgRedisUrl :: "string option"
  cfgRedisHost :: string
  cfgRedisPort :: jsnum
  cfgRedisPassword :: "string option"
  cfgRedisRetryMaxAttempts :: jsnum
  cfgRedisRetryInitialDelayMs :: jsnum
  cfgRedisRetryMaxDelayMs :: jsnum
  cfgPresenceTtlMs :: jsnum
  cfgPresenceFlushIntervalMs :: jsnum
  cfgMetricsEnabled :: bool
  cfgMetricsPath :: string
  cfgEventLoopMonitorIntervalMs :: jsnum
  cfgMaxConnections :: jsnum
  cfgMaxRoomsPerConnection :: jsnum
  cfgMaxRoomIdLength :: jsnum
  cfgAllowedOrigins :: "string list"
  cfgInboundRateLimitMax :: jsnum
  cfgInboundRateLimitBurst :: jsnum
  cfgDrainTimeoutMs :: jsnum
  cfgTrustProxy :: bool
  cfgTrustedProxies :: "string list"

text \<open>\<^verbatim>\<open>PulseServerOptions = Partial<PulseConfig>\<close>: each setting may be given by the caller.\<close>

record server_options =
  optPort :: "jsnum option"
  optHost :: "string option"
  optNodeEnv :: "string option"
  optInstanceId :: "string option"
  optHeartbeatIntervalMs :: "jsnum option"
  optHeartbeatTimeoutMs :: "jsnum option"
  optMaxPayloadBytes :: "jsnum option"
  optMaxBufferedAmountBytes :: "jsnum option"
  optAuthSecret :: "string option"
  optIdempotencyCapacity :: "jsnum option"
  optIdempotencyTtlMs :: "jsnum option"
  optRedisEnabled :: "bool option"
  optRedisUrl :: "string option"
  optRedisHost :: "string option"
  optRedisPort :: "jsnum option"
  optRedisPassword :: "string option"
  optRedisRetryMaxAttempts :: "jsnum option"
  optRedisRetryInitialDelayMs :: "jsnum option"
  optRedisRetryMaxDelayMs :: "jsnum option"
  optPresenceTtlMs :: "jsnum option"
  optPresenceFlushIntervalMs :: "jsnum option"
  optMetricsEnabled :: "bool option"
  optMetricsPath :: "string option"
  optEventLoopMonitorIntervalMs :: "jsnum option"
  optMaxConnections :: "jsnum option"
  optMaxRoomsPerConnection :: "jsnum option"
  optMaxRoomIdLength :: "jsnum option"
  optAllowedOrigins :: "string list option"
  optInboundRateLimitMax :: "jsnum option"
  optInboundRateLimitBurst :: "jsnum option"
  optDrainTimeoutMs :: "jsnum option"
  optTrustProxy :: "bool option"
  optTrustedProxies :: "string list option"

text \<open>\<^verbatim>\<open>a ?? b\<close>.\<close>

definition given :: "'a option \<Rightarrow> 'a \<Rightarrow> 'a" where
  "given a b = (case a of Some v \<Rightarrow> v | None \<Rightarrow> b)"

text \<open>\<^verbatim>\<open>parseInt(process.env.NAME || 'default', 10)\<close>.\<close>

definition env_int :: "(string \<Rightarrow> string option) \<Rightarrow> string \<Rightarrow> string \<Rightarrow> jsnum" where
  "env_int penv name d = js_parseInt (the (str_or (penv name) (Some d)))"

text \<open>\<^verbatim>\<open>process.env.NAME !== undefined ? process.env.NAME === 'true' : default\<close>.\<close>

definition env_bool :: "(string \<Rightarrow> string option) \<Rightarrow> string \<Rightarrow> bool \<Rightarrow> bool" where
  "env_bool penv name d = (case penv name of Some v \<Rightarrow> v = ''true'' | None \<Rightarrow> d)"

text \<open>\<^verbatim>\<open>process.env.NAME ? NAME.split(',').map((s) => s.trim()).filter(Boolean) : default\<close>.\<close>

definition env_list :: "(string \<Rightarrow> string option) \<Rightarrow> string \<Rightarrow> string list \<Rightarrow> string list" where
  "env_list penv name d =
     (if str_truthy (penv name)
      then filter (\<lambda>s. s \<noteq> []) (map js_trim (split_char CHR '','' (the (penv name)))) else d)"

definition read_config :: "(string \<Rightarrow> string option) \<Rightarrow> server_options \<Rightarrow> pulse_config" where
  "read_config penv opts =
     (let nodeEnv = given (optNodeEnv opts) (given (penv ''NODE_ENV'') ''development'')
      in \<lparr>cfgPort = given (optPort opts) (env_int penv ''PORT'' ''8080''),
          cfgHost = given (optHost opts) (given (penv ''HOST'') ''0.0.0.0''),
          cfgNodeEnv = nodeEnv,
          cfgInstanceId = given (optInstanceId opts) (given (penv ''INSTANCE_ID'') ''pulse-node-1''),
          cfgHeartbeatIntervalMs = given (optHeartbeatIntervalMs opts) (env_int penv ''HEARTBEAT_INTERVAL_MS'' ''30000''),
          cfgHeartbeatTimeoutMs = given (optHeartbeatTimeoutMs opts) (env_int penv ''HEARTBEAT_TIMEOUT_MS'' ''10000''),
          cfgMaxPayloadBytes = given (optMaxPayloadBytes opts) (env_int penv ''MAX_PAYLOAD_BYTES'' ''65536''),
          cfgMaxBufferedAmountBytes =
            given (optMaxBufferedAmountBytes opts) (env_int penv ''MAX_BUFFERED_AMOUNT_BYTES'' ''1048576''),
          cfgAuthSecret = given (optAuthSecret opts) (given (penv ''AUTH_SECRET'') ''pulse-dev-secret-key-32chars-min''),
          cfgIdempotencyCapacity = given (optIdempotencyCapacity opts) (env_int penv ''IDEMPOTENCY_CAPACITY'' ''10000''),
          cfgIdempotencyTtlMs = given (optIdempotencyTtlMs opts) (env_int penv ''IDEMPOTENCY_TTL_MS'' ''60000''),
          cfgRedisEnabled = given (optRedisEnabled opts) (env_bool penv ''REDIS_ENABLED'' (str_truthy (penv ''REDIS_URL''))),
          cfgRedisUrl = (case optRedisUrl opts of Some u \<Rightarrow> Some u | None \<Rightarrow> penv ''REDIS_URL''),
          cfgRedisHost = given (optRedisHost opts) (given (penv ''REDIS_HOST'') ''127.0.0.1''),
          cfgRedisPort = given (optRedisPort opts) (env_int penv ''REDIS_PORT'' ''6379''),
          cfgRedisPassword = (case optRedisPassword opts of Some p \<Rightarrow> Some p | None \<Rightarrow> penv ''REDIS_PASSWORD''),
          cfgRedisRetryMaxAttempts =
            given (optRedisRetryMaxAttempts opts) (env_int penv ''REDIS_RETRY_MAX_ATTEMPTS'' ''10''),
          cfgRedisRetryInitialDelayMs =
            given (optRedisRetryInitialDelayMs opts) (env_int penv ''REDIS_RETRY_INITIAL_DELAY_MS'' ''100''),
          cfgRedisRetryMaxDelayMs =
            given (optRedisRetryMaxDelayMs opts) (env_int penv ''REDIS_RETRY_MAX_DELAY_MS'' ''3000''),
          cfgPresenceTtlMs = given (optPresenceTtlMs opts) (env_int penv ''PRESENCE_TTL_MS'' ''60000''),
          cfgPresenceFlushIntervalMs =
            given (optPresenceFlushIntervalMs opts) (env_int penv ''PRESENCE_FLUSH_INTERVAL_MS'' ''15000''),
          cfgMetricsEnabled = given (optMetricsEnabled opts) (env_bool penv ''METRICS_ENABLED'' True),
          cfgMetricsPath = given (optMetricsPath opts) (given (penv ''METRICS_PATH'') ''/metrics''),
          cfgEventLoopMonitorIntervalMs =
            given (optEventLoopMonitorIntervalMs opts) (env_int penv ''EVENT_LOOP_MONITOR_INTERVAL_MS'' ''10000''),
          cfgMaxConnections = given (optMaxConnections opts) (env_int penv ''MAX_CONNECTIONS'' ''10000''),
          cfgMaxRoomsPerConnection =
            given (optMaxRoomsPerConnection opts) (env_int penv ''MAX_ROOMS_PER_CONNECTION'' ''100''),
          cfgMaxRoomIdLength = given (optMaxRoomIdLength opts) (env_int penv ''MAX_ROOM_ID_LENGTH'' ''128''),
          cfgAllowedOrigins =
            given (optAllowedOrigins opts)
              (env_list penv ''ALLOWED_ORIGINS'' (if nodeEnv = ''production'' then [] else [''*''])),
          cfgInboundRateLimitMax = given (optInboundRateLimitMax opts) (env_int penv ''INBOUND_RATE_LIMIT_MAX'' ''100''),
          cfgInboundRateLimitBurst =
            given (optInboundRateLimitBurst opts) (env_int penv ''INBOUND_RATE_LIMIT_BURST'' ''50''),
          cfgDrainTimeoutMs = given (optDrainTimeoutMs opts) (env_int penv ''DRAIN_TIMEOUT_MS'' ''2000''),
          cfgTrustProxy = given (optTrustProxy opts) (env_bool penv ''TRUST_PROXY'' False),
          cfgTrustedProxies = given (optTrustedProxies opts) (env_list penv ''TRUSTED_PROXIES'' [])\<rparr>)"

section \<open>Validation\<close>

datatype config_error =
    DefaultSecret | ShortSecret | InvalidPort | InvalidMaxBufferedAmount | InvalidPresenceTtl
  | InvalidPresenceFlush | InvalidMaxConnections | InvalidMaxRooms | InvalidMaxRoomIdLength
  | InvalidRateLimitMax | InvalidRateLimitBurst | InvalidDrainTimeout | InvalidRedisPort
  | InvalidRetryMaxAttempts | InvalidRetryInitialDelay | InvalidRetryMaxDelay

text \<open>\<^verbatim>\<open>isNaN(x) || x < b\<close>.\<close>

definition below :: "jsnum \<Rightarrow> jsnum \<Rightarrow> bool" where
  "below x b \<longleftrightarrow> x = NaN \<or> num_less x b"

definition knownDefaults :: "string list" where
  "knownDefaults = [''pulse-dev-secret-key-32chars-min'', ''pulse-distributed-realtime-secret-key-32chars!'']"

text \<open>The guarded throws of lines 120-190, in order.\<close>

definition config_checks :: "pulse_config \<Rightarrow> (bool \<times> config_error) list" where
  "config_checks c =
     (if cfgNodeEnv c = ''production''
      then [(cfgAuthSecret c = [] \<or> cfgAuthSecret c \<in> set knownDefaults, DefaultSecret),
            (length (cfgAuthSecret c) < 32, ShortSecret)]
      else [])
   @ [(below (cfgPort c) (int_num 0) \<or> num_less (int_num 65535) (cfgPort c), InvalidPort),
      (below (cfgMaxBufferedAmountBytes c) (int_num 1024), InvalidMaxBufferedAmount),
      (below (cfgPresenceTtlMs c) (int_num 1000), InvalidPresenceTtl),
      (below (cfgPresenceFlushIntervalMs c) (int_num 500)
         \<or> num_leq (cfgPresenceTtlMs c) (cfgPresenceFlushIntervalMs c), InvalidPresenceFlush),
      (below (cfgMaxConnections c) (int_num 1), InvalidMaxConnections),
      (below (cfgMaxRoomsPerConnection c) (int_num 1), InvalidMaxRooms),
      (below (cfgMaxRoomIdLength c) (int_num 8), InvalidMaxRoomIdLength),
      (below (cfgInboundRateLimitMax c) (int_num 1), InvalidRateLimitMax),
      (below (cfgInboundRateLimitBurst c) (int_num 1), InvalidRateLimitBurst),
      (below (cfgDrainTimeoutMs c) (int_num 100), InvalidDrainTimeout)]
   @ (if cfgRedisEnabled c
      then [(below (cfgRedisPort c) (int_num 1) \<or> num_less (int_num 65535) (cfgRedisPort c), InvalidRedisPort),
            (below (cfgRedisRetryMaxAttempts c) (int_num 1), InvalidRetryMaxAttempts),
            (below (cfgRedisRetryInitialDelayMs c) (int_num 0), InvalidRetryInitialDelay),
            (below (cfgRedisRetryMaxDelayMs c) (cfgRedisRetryInitialDelayMs c), InvalidRetryMaxDelay)]
      else [])"

fun first_error :: "(bool \<times> config_error) list \<Rightarrow> config_error option" where
  "first_error [] = None"
| "first_error ((bad, err) # rest) = (if bad then Some err else first_error rest)"

definition loadConfig :: "(string \<Rightarrow> string option) \<Rightarrow> server_options \<Rightarrow> config_error + pulse_config" where
  "loadConfig penv opts =
     (let c = read_config penv opts
      in case first_error (config_checks c) of Some err \<Rightarrow> Inl err | None \<Rightarrow> Inr c)"

section \<open>Decimal texts are read back\<close>

lemma of_char_digit: "k < 10 \<Longrightarrow> (of_char (char_of (k + 48 :: nat)) :: nat) = k + 48"
  by (simp add: of_char_of)

lemma is_digit_char [simp]: "k < 10 \<Longrightarrow> is_digit (char_of (k + 48 :: nat))"
  by (simp add: is_digit_def of_char_digit Let_def)

lemma digits_value_snoc: "digits_value (ds @ [c]) = 10 * digits_value ds + (of_char c - 48)"
  by (simp add: digits_value_def)

lemma digit_value: "k < 10 \<Longrightarrow> (of_char (char_of (k + 48 :: nat)) :: int) = int k + 48"
  using of_char_digit [of k] of_nat_of_char [of "char_of (k + 48 :: nat)", where 'a = int] by simp

lemma digits_of_nat_digits: "list_all is_digit (digits_of_nat n) \<and> digits_of_nat n \<noteq> []"
proof (induction n rule: digits_of_nat.induct)
  case (1 n)
  then show ?case by (subst digits_of_nat.simps, subst (2) digits_of_nat.simps) simp
qed

lemma digits_value_digits [simp]: "digits_value (digits_of_nat n) = int n"
proof (induction n rule: digits_of_nat.induct)
  case (1 m)
  have split: "10 * int (m div 10) + int (m mod 10) = int m" by presburger
  show ?case
    using 1 split by (subst digits_of_nat.simps) (simp add: digits_value_def digit_value digits_value_snoc [unfolded digits_value_def])
qed

lemma unsigned_prefix_digits: "unsigned_prefix (digits_of_nat n) = Some (int n)"
proof -
  have t: "takeWhile is_digit (digits_of_nat n) = digits_of_nat n"
    using digits_of_nat_digits [of n] by (simp add: list_all_iff takeWhile_eq_all_conv)
  show ?thesis unfolding unsigned_prefix_def t using digits_of_nat_digits [of n] by (simp add: Let_def)
qed

lemma digit_not_special: "is_digit c \<Longrightarrow> \<not> js_ws c \<and> c \<noteq> CHR ''-'' \<and> c \<noteq> CHR ''+''"
  by (auto simp: is_digit_def js_ws_def)

lemma js_parseInt_int_str: "js_parseInt (js_int_str i) = int_num i"
proof -
  have d: "\<exists>c u. digits_of_nat n = c # u \<and> is_digit c" for n
    using digits_of_nat_digits [of n] by (cases "digits_of_nat n") auto
  show ?thesis
  proof (cases "i < 0")
    case True
    then show ?thesis using unsigned_prefix_digits [of "nat (- i)"]
      by (simp add: js_parseInt_def js_int_str_def js_ws_def)
  next
    case False
    obtain c u where cu: "digits_of_nat (nat i) = c # u" "is_digit c" using d by blast
    then show ?thesis using False unsigned_prefix_digits [of "nat i"] digit_not_special [OF cu(2)]
      by (simp add: js_parseInt_def js_int_str_def)
  qed
qed

lemma digits_of_nat_ne [simp]: "digits_of_nat n \<noteq> []"
  using digits_of_nat_digits by blast

text \<open>A variable set to the decimal text of an integer is read as that integer.\<close>

lemma env_int_decimal:
  assumes "penv name = Some (js_int_str i)"
  shows "env_int penv name d = int_num i"
proof -
  have "js_int_str i \<noteq> []" by (simp add: js_int_str_def)
  then show ?thesis by (simp add: env_int_def assms str_or_def js_parseInt_int_str)
qed

section \<open>What an accepted configuration satisfies\<close>

lemma first_error_None: "first_error cs = None \<longleftrightarrow> list_all (\<lambda>check. \<not> fst check) cs"
  by (induction cs rule: first_error.induct) auto

lemma not_below: "b \<noteq> NaN \<Longrightarrow> \<not> below x b \<longleftrightarrow> num_leq b x"
  by (cases x; cases b) (auto simp: below_def)

lemma loadConfig_Inr: "loadConfig penv opts = Inr c \<Longrightarrow> first_error (config_checks c) = None"
  by (auto simp: loadConfig_def Let_def split: option.splits)
text \<open>
  A configuration that is accepted is within the bounds the components rely on: a port, buffers and
  limits that are numbers of at least the documented minimum, a presence flush interval below
  the lease time, in production a secret of at least 32 characters that is not one of the published
  defaults, and with Redis a valid port and retry delays.
\<close>

theorem accepted_config_bounds:
  assumes "loadConfig penv opts = Inr c"
  shows "num_leq (int_num 0) (cfgPort c) \<and> num_leq (cfgPort c) (int_num 65535)
    \<and> num_leq (int_num 1024) (cfgMaxBufferedAmountBytes c)
    \<and> num_leq (int_num 500) (cfgPresenceFlushIntervalMs c)
    \<and> num_less (cfgPresenceFlushIntervalMs c) (cfgPresenceTtlMs c)
    \<and> num_leq (int_num 1) (cfgMaxConnections c)
    \<and> num_leq (int_num 1) (cfgMaxRoomsPerConnection c)
    \<and> num_leq (int_num 8) (cfgMaxRoomIdLength c)
    \<and> num_leq (int_num 1) (cfgInboundRateLimitMax c)
    \<and> num_leq (int_num 1) (cfgInboundRateLimitBurst c)
    \<and> num_leq (int_num 100) (cfgDrainTimeoutMs c)
    \<and> (cfgNodeEnv c = ''production'' \<longrightarrow> 32 \<le> length (cfgAuthSecret c) \<and> cfgAuthSecret c \<notin> set knownDefaults)
    \<and> (cfgRedisEnabled c \<longrightarrow>
         num_leq (int_num 1) (cfgRedisPort c) \<and> num_leq (cfgRedisPort c) (int_num 65535)
         \<and> num_leq (int_num 1) (cfgRedisRetryMaxAttempts c)
         \<and> num_leq (int_num 0) (cfgRedisRetryInitialDelayMs c)
         \<and> num_leq (cfgRedisRetryInitialDelayMs c) (cfgRedisRetryMaxDelayMs c))"
proof -
  have ok: "list_all (\<lambda>check. \<not> fst check) (config_checks c)"
    using loadConfig_Inr [OF assms] by (simp add: first_error_None)
  have upper: "\<not> below x a \<Longrightarrow> \<not> num_less b x \<Longrightarrow> b \<noteq> NaN \<Longrightarrow> num_leq x b" for x a b
    by (cases x; cases b) (auto simp: below_def)
  have order: "\<not> below x a \<Longrightarrow> \<not> below y b \<Longrightarrow> \<not> num_leq x y \<Longrightarrow> num_less y x" for x y a b
    using not_num_leq [of x y] by (auto simp: below_def)
  have delay: "\<not> below x a \<Longrightarrow> \<not> below y x \<Longrightarrow> num_leq x y" for x y a
    by (cases x; cases y) (auto simp: below_def)
  show ?thesis
    using ok upper [of "cfgPort c" "int_num 0" "int_num 65535"] upper [of "cfgRedisPort c" "int_num 1" "int_num 65535"]
      order [of "cfgPresenceTtlMs c" "int_num 1000" "cfgPresenceFlushIntervalMs c" "int_num 500"]
      delay [of "cfgRedisRetryInitialDelayMs c" "int_num 0" "cfgRedisRetryMaxDelayMs c"]
    unfolding config_checks_def by (simp add: not_below split: if_splits)
qed

definition no_options :: server_options where
  "no_options = \<lparr>optPort = None, optHost = None, optNodeEnv = None, optInstanceId = None,
     optHeartbeatIntervalMs = None, optHeartbeatTimeoutMs = None, optMaxPayloadBytes = None,
     optMaxBufferedAmountBytes = None, optAuthSecret = None, optIdempotencyCapacity = None,
     optIdempotencyTtlMs = None, optRedisEnabled = None, optRedisUrl = None, optRedisHost = None,
     optRedisPort = None, optRedisPassword = None, optRedisRetryMaxAttempts = None,
     optRedisRetryInitialDelayMs = None, optRedisRetryMaxDelayMs = None, optPresenceTtlMs = None,
     optPresenceFlushIntervalMs = None, optMetricsEnabled = None, optMetricsPath = None,
     optEventLoopMonitorIntervalMs = None, optMaxConnections = None, optMaxRoomsPerConnection = None,
     optMaxRoomIdLength = None, optAllowedOrigins = None, optInboundRateLimitMax = None,
     optInboundRateLimitBurst = None, optDrainTimeoutMs = None, optTrustProxy = None,
     optTrustedProxies = None\<rparr>"

definition production_env :: "string \<Rightarrow> string option" where
  "production_env = map_of [(''NODE_ENV'', ''production''), (''REDIS_URL'', ''redis://r''),
     (''AUTH_SECRET'', ''a-secret-of-forty-characters-in-this-env''), (''MAX_CONNECTIONS'', ''250'')]"

theorem accepted_config_bounds_witness:
  "\<exists>c. loadConfig production_env no_options = Inr c
     \<and> cfgNodeEnv c = ''production'' \<and> cfgRedisEnabled c \<and> 32 \<le> length (cfgAuthSecret c)
     \<and> num_leq (int_num 1) (cfgRedisPort c) \<and> num_less (cfgPresenceFlushIntervalMs c) (cfgPresenceTtlMs c)"
proof -
  let ?c = "read_config production_env no_options"
  have "first_error (config_checks ?c) = None" by code_simp
  then have l: "loadConfig production_env no_options = Inr ?c" by (simp add: loadConfig_def)
  have "cfgNodeEnv ?c = ''production''" by code_simp
  moreover have "cfgRedisEnabled ?c" by code_simp
  ultimately show ?thesis using l accepted_config_bounds [OF l] by blast
qed

text \<open>
  A heartbeat interval that is not a number is accepted: the settings of the heartbeat, of the payload
  size, of the event-loop monitor and of the idempotency cache are not validated.
\<close>

lemma unparsed_heartbeat_accepted:
  "\<exists>c. loadConfig (map_of [(''HEARTBEAT_INTERVAL_MS'', ''30s?''), (''HEARTBEAT_TIMEOUT_MS'', ''ten'')]) no_options = Inr c
     \<and> cfgHeartbeatIntervalMs c = int_num 30 \<and> cfgHeartbeatTimeoutMs c = NaN"
proof -
  let ?c = "read_config (map_of [(''HEARTBEAT_INTERVAL_MS'', ''30s?''), (''HEARTBEAT_TIMEOUT_MS'', ''ten'')]) no_options"
  have "first_error (config_checks ?c) = None" by code_simp
  moreover have "cfgHeartbeatIntervalMs ?c = int_num 30" by code_simp
  moreover have "cfgHeartbeatTimeoutMs ?c = NaN" by code_simp
  ultimately show ?thesis by (simp add: loadConfig_def)
qed

text \<open>The list of trusted proxies is always set, to the empty list when nobody configures it.\<close>

lemma trusted_proxies_default: "penv ''TRUSTED_PROXIES'' = None \<Longrightarrow> cfgTrustedProxies (read_config penv no_options) = []"
  by (simp add: read_config_def env_list_def given_def no_options_def Let_def)

end
