(* ===== verification/Server.thy ===== *)
theory Server
  imports Authenticator Origin_Matcher Heartbeat Node_Inv Config
begin

text \<open>
  \<^verbatim>\<open>src/core/PulseServer.ts\<close>: construction, the upgrade of HTTP requests to connections, the life of a
  connection, reconnection to Redis, draining and shutdown. The state contains the node of the
  dispatcher. A handshake between the grant of a slot and its completion is an entry of \<open>claims\<close>,
  keyed by its TCP socket: the closure variable \<^verbatim>\<open>slotClaimed\<close> is true as long as the entry exists.

  The embedded gateway and the hooks are given by the embedding program: the gateway's answer is an
  argument, the hooks observe and are not called here. Settings are used as integers: \<open>num_int\<close> reads
  them, and \<open>integral_config\<close> says that they are (a number of \<^verbatim>\<open>parseInt\<close> always is, unless it is
  \<^verbatim>\<open>NaN\<close>).
\<close>

section \<open>State\<close>

record upgrade_request = request +
  originHeader :: "string option"
  forwardedFor :: "string option"
  remoteAddr :: "string option"

record 's server =
  srvNode :: "'s node"
  serverConfig :: pulse_config
  heartbeatMgr :: heartbeat
  isRunning :: bool
  isShuttingDown :: bool
  claims :: "(nat, (string \<times> json) \<times> upgrade_request) jsmap"

definition on_node :: "('s node \<Rightarrow> 's node) \<Rightarrow> 's server \<Rightarrow> 's server" where
  "on_node f sv = sv\<lparr>srvNode := f (srvNode sv)\<rparr>"

text \<open>An operation of the node that also talks to Redis.\<close>

definition on_node_redis :: "('s node \<times> 'r \<Rightarrow> 's node \<times> 'r) \<Rightarrow> 's server \<times> 'r \<Rightarrow> 's server \<times> 'r" where
  "on_node_redis f = (\<lambda>(sv, rs). let (st, rs') = f (srvNode sv, rs) in (sv\<lparr>srvNode := st\<rparr>, rs'))"

record http_prims =
  urlOf :: "string \<Rightarrow> url option"
  authOf :: auth_prims

definition num_int :: "jsnum \<Rightarrow> int" where
  "num_int n = (case as_integer n of Some i \<Rightarrow> i | None \<Rightarrow> 0)"

definition integral_config :: "pulse_config \<Rightarrow> bool" where
  "integral_config c \<longleftrightarrow> (\<forall>n \<in> {cfgHeartbeatIntervalMs c, cfgHeartbeatTimeoutMs c, cfgMaxBufferedAmountBytes c,
     cfgIdempotencyCapacity c, cfgIdempotencyTtlMs c, cfgPresenceTtlMs c, cfgPresenceFlushIntervalMs c,
     cfgMaxConnections c, cfgMaxRoomsPerConnection c, cfgMaxRoomIdLength c, cfgInboundRateLimitMax c,
     cfgInboundRateLimitBurst c, cfgDrainTimeoutMs c}. as_integer n \<noteq> None)"

lemma num_int_faithful: "as_integer n \<noteq> None \<Longrightarrow> int_num (num_int n) = n"
  using quotient_of_div by (cases n rule: as_integer.cases) (fastforce simp: num_int_def prod_eq_iff split: if_splits)+

text \<open>
  The constructor, once \<^verbatim>\<open>loadConfig\<close> accepted the options. \<open>injected\<close> says whether a pub/sub manager is
  passed in \<open>deps\<close>; a presence manager is not passed, the server creates its own.
\<close>

definition new_node :: "pulse_config \<Rightarrow> bool \<Rightarrow> 's node" where
  "new_node c redis =
     \<lparr>metricCalls = [], lastMs = 0, sequenceCounter = 0, draws = 0,
      publishCount = 0, publishErrors = 0, publishLatencyTotalMs = 0, publishLatencyMaxMs = 0,
      inFlightPublishes = 0, inboundCount = 0, inboundLatencyTotalMs = 0, inboundLatencyMaxMs = 0,
      echoesSuppressed = 0, duplicatesSuppressed = 0, channelsActive = 0, connectionState = ''disconnected'',
      presenceUsersOnline = 0, presenceConnectionsActive = 0, presenceEventsPublished = 0,
      presenceEventsReceived = 0, presencePruneLatencyMs = 0, presenceLeaseRenewals = 0,
      hasPublisher = False, hasSubscriber = False, publisherStatus = Idle, subscriberStatus = Idle,
      linkShuttingDown = False, emitted = [], chanEnabled = redis, channelRefCounts = [],
      subscribedChannels = [], listenerAttached = False, maxInFlightPublishes = 1000, issued = [], rooms = [],
      heap = (\<lambda>_. None), connections = [], userConnections = [], pendingConnections = 0, maxConnections = None,
      idem = new_IdempotencyManager (Some (nat (num_int (cfgIdempotencyCapacity c)))) (Some (num_int (cfgIdempotencyTtlMs c))),
      presenceMgr = None, instanceId = cfgInstanceId c,
      maxRoomsPerConnection = nat (num_int (cfgMaxRoomsPerConnection c)),
      maxRoomIdLength = nat (num_int (cfgMaxRoomIdLength c)), hasRedis = redis, presenceEmits = []\<rparr>"

definition new_PulseServer :: "pulse_config \<Rightarrow> bool \<Rightarrow> 's server" where
  "new_PulseServer c injected =
     \<lparr>srvNode = setMaxConnections (num_int (cfgMaxConnections c)) (new_node c (injected \<or> cfgRedisEnabled c)),
      serverConfig = c,
      heartbeatMgr = new_HeartbeatManager (num_int (cfgHeartbeatIntervalMs c)) (num_int (cfgHeartbeatTimeoutMs c)) None,
      isRunning = False, isShuttingDown = False, claims = []\<rparr>"

section \<open>Admission\<close>

datatype gateway_reply = GatewayHandled | GatewayPassed | GatewayThrew

datatype upgrade_outcome =
    RefusedDraining
  | RefusedOrigin
  | TakenByGateway
  | SocketDestroyed
  | RefusedCapacity
  | RefusedAuth auth_error
  | Admitted

abbreviation rejected_metric :: "string \<Rightarrow> ('s, 'a) node_scheme \<Rightarrow> ('s, 'a) node_scheme" where
  "rejected_metric reason \<equiv> inc_metric ''pulse_connections_rejected_total'' ''reason'' reason"

abbreviation connections_metric :: "string \<Rightarrow> ('s, 'a) node_scheme \<Rightarrow> ('s, 'a) node_scheme" where
  "connections_metric status \<equiv> inc_metric ''pulse_connections_total'' ''status'' status"

text \<open>The upgrade listener up to the gateway's answer: \<open>None\<close> when the request goes on.\<close>

definition upgrade_check :: "http_prims \<Rightarrow> upgrade_request \<Rightarrow> 's server \<Rightarrow> upgrade_outcome option \<times> 's server" where
  "upgrade_check H req sv =
     (if isShuttingDown sv then (Some RefusedDraining, on_node (rejected_metric ''draining'') sv)
      else if \<not> isAllowed (urlOf H) (originHeader req) (Some (cfgAllowedOrigins (serverConfig sv)))
      then (Some RefusedOrigin, on_node (rejected_metric ''origin_forbidden'') sv)
      else (None, sv))"

text \<open>After the gateway passed the request on: the slot, the token, and the claim of the slot.\<close>

definition upgrade_admit ::
  "http_prims \<Rightarrow> int \<Rightarrow> nat \<Rightarrow> upgrade_request \<Rightarrow> 's server \<Rightarrow> upgrade_outcome \<times> 's server" where
  "upgrade_admit H now sock req sv =
     (case tryAcquireSlot (srvNode sv) of
        (False, st) \<Rightarrow> (RefusedCapacity, sv\<lparr>srvNode := rejected_metric ''max_connections'' st\<rparr>)
      | (True, st) \<Rightarrow>
          (case authenticateRequest (authOf H) (cfgAuthSecret (serverConfig sv)) now (request.truncate req) of
             Inl err \<Rightarrow>
               (RefusedAuth err,
                sv\<lparr>srvNode := rejected_metric ''auth_failed'' (connections_metric ''rejected'' (releasePendingSlot st))\<rparr>)
           | Inr who \<Rightarrow>
               (Admitted,
                sv\<lparr>srvNode := connections_metric ''success'' st, claims := js_set sock (who, req) (claims sv)\<rparr>)))"

definition upgrade ::
  "http_prims \<Rightarrow> gateway_reply option \<Rightarrow> int \<Rightarrow> nat \<Rightarrow> upgrade_request \<Rightarrow> 's server \<Rightarrow> upgrade_outcome \<times> 's server" where
  "upgrade H gw now sock req sv =
     (case upgrade_check H req sv of
        (Some out, sv1) \<Rightarrow> (out, sv1)
      | (None, sv1) \<Rightarrow>
          (case gw of
             Some GatewayHandled \<Rightarrow> (TakenByGateway, sv1)
           | Some GatewayThrew \<Rightarrow> (SocketDestroyed, sv1)
           | _ \<Rightarrow> upgrade_admit H now sock req sv1))"

text \<open>The listener \<^verbatim>\<open>onEarlyClose\<close>, for the socket's close and error events.\<close>

definition onEarlyClose :: "nat \<Rightarrow> 's server \<Rightarrow> 's server" where
  "onEarlyClose sock sv =
     (if js_has (claims sv) sock
      then on_node releasePendingSlot (sv\<lparr>claims := js_delete sock (claims sv)\<rparr>) else sv)"

section \<open>A new connection\<close>

definition strip_mapped :: "string \<Rightarrow> string" where
  "strip_mapped ip = (if starts_with ''::ffff:'' ip then drop 7 ip else ip)"

text \<open>
  Lines 869-891. \<^verbatim>\<open>config.trustedProxies\<close> is always set by \<^verbatim>\<open>loadConfig\<close>, so that the fallback
  \<^verbatim>\<open>defaultTrusted\<close> is never taken.
\<close>

definition client_address :: "pulse_config \<Rightarrow> 'q upgrade_request_scheme \<Rightarrow> string" where
  "client_address c req =
     (let immediateRemote = the (str_or (remoteAddr req) (Some ''127.0.0.1''));
          trusted = map strip_mapped (cfgTrustedProxies c)
      in if cfgTrustProxy c \<and> (strip_mapped immediateRemote \<in> set trusted \<or> immediateRemote \<in> set trusted)
         then (case forwardedFor req of
                 None \<Rightarrow> immediateRemote
               | Some f \<Rightarrow>
                   let firstToken = js_trim (hd (split_char CHR '','' f))
                   in if js_trim f \<noteq> [] \<and> firstToken \<noteq> [] then firstToken else immediateRemote)
         else immediateRemote)"

text \<open>The provider of a user's rooms, given to the presence manager.\<close>

definition roomsProvider :: "('s, 'a) node_scheme \<Rightarrow> string \<Rightarrow> string list" where
  "roomsProvider st u = set_of_array (concat (map (\<lambda>cid. sender_rooms cid st) (getConnectionsByUserId u st)))"

text \<open>The calls of the presence manager for a connection; a rejection is logged.\<close>

definition register_lease ::
  "('s, 'r) env \<Rightarrow> replies \<Rightarrow> int \<Rightarrow> string \<Rightarrow> string \<Rightarrow> ('s, 'a) node_scheme \<times> 'r \<Rightarrow> ('s, 'a) node_scheme \<times> 'r" where
  "register_lease E ok now u cid = (\<lambda>(st, rs).
     case presenceMgr st of
       None \<Rightarrow> (st, rs)
     | Some pm \<Rightarrow>
         (case registerConnection (envRedis E) ok (envRnd E) now (instanceId st) (Some (roomsProvider st)) u cid (pm, st, rs) of
            None \<Rightarrow> (st, rs)
          | Some (_, pm', st', rs') \<Rightarrow> (st'\<lparr>presenceMgr := Some pm'\<rparr>, rs')))"

definition remove_lease ::
  "('s, 'r) env \<Rightarrow> replies \<Rightarrow> int \<Rightarrow> string \<Rightarrow> string \<Rightarrow> ('s, 'a) node_scheme \<times> 'r \<Rightarrow> ('s, 'a) node_scheme \<times> 'r" where
  "remove_lease E ok now u cid = (\<lambda>(st, rs).
     case presenceMgr st of
       None \<Rightarrow> (st, rs)
     | Some pm \<Rightarrow>
         if u = [] then (st, rs)
         else (case removeConnectionLease (envRedis E) ok (envRnd E) now (instanceId st) (Some (roomsProvider st)) u cid (pm, st, rs) of
                 None \<Rightarrow> (st, rs)
               | Some (_, pm', st', rs') \<Rightarrow> (st'\<lparr>presenceMgr := Some pm'\<rparr>, rs')))"

definition connect_ack_payload :: "string \<Rightarrow> string \<Rightarrow> string \<Rightarrow> int \<Rightarrow> json" where
  "connect_ack_payload cid u inst since =
     JObj [(''connectionId'', JStr cid), (''userId'', JStr u), (''instanceId'', JStr inst),
           (''connectedAt'', JNum (int_num since))]"

definition server_connection ::
  "(nat \<Rightarrow> nat) \<Rightarrow> int \<Rightarrow> pulse_config \<Rightarrow> 's \<Rightarrow> upgrade_request \<Rightarrow> string \<times> json \<Rightarrow> 's node \<Rightarrow> 's connection \<times> 's node" where
  "server_connection rnd now c ws req who st =
     (let (cid, st1) = freshId rnd now st
      in new_Connection rnd now
           \<lparr>optConnectionId = Some cid, optUserId = fst who,
            optRoles = Some (if truthy (Some (snd who)) then snd who else JArr [JStr ''user'']),
            optSocket = ws, optRemoteAddress = Some (client_address c req),
            optMaxBuffered = Some (nat (num_int (cfgMaxBufferedAmountBytes c))),
            optBurst = Some (of_int (num_int (cfgInboundRateLimitBurst c))),
            optRate = Some (of_int (num_int (cfgInboundRateLimitMax c)))\<rparr> st1)"

definition handleAuthenticatedConnection ::
  "('s, 'r) env \<Rightarrow> replies \<Rightarrow> int \<Rightarrow> pulse_config \<Rightarrow> 's \<Rightarrow> upgrade_request \<Rightarrow> string \<times> json
     \<Rightarrow> 's node \<times> 'r \<Rightarrow> 's node \<times> 'r" where
  "handleAuthenticatedConnection E ok now c ws req who = (\<lambda>(st, rs).
     let (conn, st1) = server_connection (envRnd E) now c ws req who st;
         cid = connectionId conn;
         st2 = addConnection conn st1;
         st3 = reply E now cid SYS_CONNECT_ACK None None
                 (connect_ack_payload cid (fst who) (instanceId st2) (connectedAt conn)) st2
     in register_lease E ok now (fst who) cid (st3, rs))"

text \<open>The callback of \<^verbatim>\<open>wss.handleUpgrade\<close>: the claim is dropped, not released.\<close>

definition upgraded ::
  "('s, 'r) env \<Rightarrow> replies \<Rightarrow> int \<Rightarrow> nat \<Rightarrow> 's \<Rightarrow> 's server \<times> 'r \<Rightarrow> 's server \<times> 'r" where
  "upgraded E ok now sock ws = (\<lambda>(sv, rs).
     case map_of (claims sv) sock of
       None \<Rightarrow> (sv, rs)
     | Some (who, req) \<Rightarrow>
         on_node_redis (handleAuthenticatedConnection E ok now (serverConfig sv) ws req who)
           (sv\<lparr>claims := js_delete sock (claims sv)\<rparr>, rs))"

section \<open>The events of a connection\<close>

text \<open>The listeners of the protocol-level ping and pong frames.\<close>

definition on_ping :: "int \<Rightarrow> string \<Rightarrow> ('s, 'a) node_scheme \<Rightarrow> ('s, 'a) node_scheme" where
  "on_ping now cid st = upd_conn cid (conn_touch now) st"

definition close_label :: "nat \<Rightarrow> bool \<Rightarrow> string \<Rightarrow> string" where
  "close_label code timedOut reason =
     (if code = 1008 then ''slow_consumer''
      else if code = 1001 then ''server_shutdown''
      else if code = 4000 \<or> timedOut \<or> includes_str ''heartbeat'' (js_lower reason) then ''heartbeat_timeout''
      else ''client_close'')"

definition on_close ::
  "('s, 'r) env \<Rightarrow> replies \<Rightarrow> int \<Rightarrow> string \<Rightarrow> nat \<Rightarrow> string \<Rightarrow> ('s, 'a) node_scheme \<times> 'r \<Rightarrow> ('s, 'a) node_scheme \<times> 'r" where
  "on_close E ok now cid code reason = (\<lambda>(st, rs).
     let timedOut = (case heap st cid of None \<Rightarrow> False | Some c \<Rightarrow> isHeartbeatTimedOut c);
         st1 = inc_metric ''pulse_connections_closed_total'' ''reason'' (close_label code timedOut reason) st;
         st2 = snd (removeConnection cid st1);
         st3 = snd (removeConnectionFromAllRooms cid (sender_rooms cid st2) st2)
     in remove_lease E ok now (sender_user cid st3) cid (st3, rs))"

section \<open>Redis is back\<close>

text \<open>Lines 1203-1238 (and 292-321 of \<^verbatim>\<open>start\<close>): the presence manager is created when Redis is first reachable.\<close>

definition create_presence :: "pulse_config \<Rightarrow> ('s, 'a) node_scheme \<Rightarrow> ('s, 'a) node_scheme" where
  "create_presence c st =
     (if presenceMgr st = None \<and> hasRedis st \<and> link_connected st
      then st\<lparr>presenceMgr := Some (new_PresenceManager (Some (num_int (cfgPresenceTtlMs c)))
                (Some (num_int (cfgPresenceFlushIntervalMs c))) None None True)\<rparr>
      else st)"

definition start_renewal :: "('s, 'a) node_scheme \<Rightarrow> ('s, 'a) node_scheme" where
  "start_renewal st = st\<lparr>presenceMgr := map_option (startRenewalLoop True) (presenceMgr st)\<rparr>"

fun resync_each ::
  "('s, 'r) env \<Rightarrow> replies \<Rightarrow> int \<Rightarrow> string list \<Rightarrow> ('s, 'a) node_scheme \<times> 'r \<Rightarrow> ('s, 'a) node_scheme \<times> 'r" where
  "resync_each E ok now [] (st, rs) = (st, rs)"
| "resync_each E ok now (cid # cids) (st, rs) =
     resync_each E ok now cids
       (case heap st cid of
          None \<Rightarrow> (st, rs)
        | Some c \<Rightarrow> if userId c \<noteq> [] \<and> isAlive (envWs E) c then register_lease E ok now (userId c) cid (st, rs) else (st, rs))"

definition handleRedisReconnect ::
  "('s, 'r) env \<Rightarrow> replies \<Rightarrow> int \<Rightarrow> pulse_config \<Rightarrow> ('s, 'a) node_scheme \<times> 'r \<Rightarrow> ('s, 'a) node_scheme \<times> 'r" where
  "handleRedisReconnect E ok now c = (\<lambda>(st, rs).
     let st1 = (if presenceMgr st = None then start_renewal (create_presence c st) else st)
     in if presenceMgr st1 = None then (st1, rs)
        else resync_each E ok now (getAllConnections st1) (st1, rs))"

text \<open>The connections whose leases the renewal loop keeps.\<close>

definition active_leases :: "'s ws \<Rightarrow> ('s, 'a) node_scheme \<Rightarrow> (string \<times> string) list" where
  "active_leases W st =
     List.map_filter (\<lambda>cid. case heap st cid of
         None \<Rightarrow> None
       | Some c \<Rightarrow> if userId c \<noteq> [] \<and> isAlive W c then Some (userId c, connectionId c) else None)
       (getAllConnections st)"

section \<open>Start and stop\<close>

text \<open>
  \<^verbatim>\<open>start\<close> after the attempt to connect to Redis, up to the call of \<^verbatim>\<open>listen\<close>, and its callback.
  \<open>None\<close> when the server is already running.
\<close>

definition start_prepare :: "'s server \<Rightarrow> 's server option" where
  "start_prepare sv =
     (if isRunning sv then None else Some (on_node (\<lambda>st. start_renewal (create_presence (serverConfig sv) st)) sv))"

definition start_listening :: "'s server \<Rightarrow> 's server" where
  "start_listening sv = sv\<lparr>isRunning := True, heartbeatMgr := hb_start (heartbeatMgr sv)\<rparr>"

definition shutdown_payload :: "string \<Rightarrow> int \<Rightarrow> json" where
  "shutdown_payload inst timeout =
     JObj [(''reason'', JStr ''Server shutting down gracefully''), (''instanceId'', JStr inst),
           (''drainTimeoutMs'', JNum (int_num timeout))]"

definition announce_shutdown :: "('s, 'r) env \<Rightarrow> int \<Rightarrow> int \<Rightarrow> ('s, 'a) node_scheme \<Rightarrow> ('s, 'a) node_scheme" where
  "announce_shutdown E now timeout st =
     (let (eid, st1) = freshId (envRnd E) now st
      in snd (send_each (envWs E) (getAllConnections st1)
           (system_envelope eid SYS_SHUTDOWN now None None (shutdown_payload (instanceId st1) timeout)) st1))"

definition drain_timeout :: "int option \<Rightarrow> 's server \<Rightarrow> int" where
  "drain_timeout ms sv = (case ms of Some t \<Rightarrow> t | None \<Rightarrow> num_int (cfgDrainTimeoutMs (serverConfig sv)))"

definition drain :: "('s, 'r) env \<Rightarrow> int \<Rightarrow> int option \<Rightarrow> 's server \<Rightarrow> 's server" where
  "drain E now drainTimeoutMs sv =
     (if isShuttingDown sv then sv
      else on_node (announce_shutdown E now (drain_timeout drainTimeoutMs sv)) (sv\<lparr>isShuttingDown := True\<rparr>))"

text \<open>\<^verbatim>\<open>stop\<close> up to the handoff window, with the grace period: \<open>None\<close> when the server does not run.\<close>

definition stop_begin :: "('s, 'r) env \<Rightarrow> int \<Rightarrow> int option \<Rightarrow> 's server \<Rightarrow> (int \<times> 's server) option" where
  "stop_begin E now gracePeriodMs sv =
     (if \<not> isRunning sv then None
      else let grace = drain_timeout gracePeriodMs sv; sv1 = drain E now (Some grace) sv
           in Some (grace, sv1\<lparr>heartbeatMgr := hb_stop (heartbeatMgr sv1)\<rparr>))"

text \<open>
  The handoff window: every 50 ms (and \<open>late n\<close> more, for the n-th tick) the interval callback looks at
  the number of connections, \<open>count t\<close> at time \<open>t\<close>. The result is the time it resolves.
\<close>

function handoff_wait :: "(nat \<Rightarrow> nat) \<Rightarrow> (int \<Rightarrow> nat) \<Rightarrow> int \<Rightarrow> int \<Rightarrow> nat \<Rightarrow> int \<Rightarrow> nat \<times> int" where
  "handoff_wait late count startTime grace n now =
     (let t = now + 50 + int (late n)
      in if count t = 0 \<or> t - startTime \<ge> grace then (Suc n, t)
         else handoff_wait late count startTime grace (Suc n) t)"
  by pat_completeness auto
termination
  by (relation "measure (\<lambda>(late, count, startTime, grace, n, now). nat (startTime + grace - now))") auto

text \<open>After the window: the connections that remain are closed with 1001.\<close>

definition stop_close :: "'s ws \<Rightarrow> ('s, 'a) node_scheme \<Rightarrow> ('s, 'a) node_scheme" where
  "stop_close W st = fold (\<lambda>cid. upd_conn cid (conn_close W 1001 ''Server shutting down'')) (getAllConnections st) st"

definition cleanup_node :: "('s, 'a) node_scheme \<Rightarrow> ('s, 'a) node_scheme" where
  "cleanup_node st =
     (let st1 = st\<lparr>presenceMgr := map_option stopRenewalLoop (presenceMgr st)\<rparr>;
          st2 = (if chanEnabled st1 then clear_channels st1 else st1);
          st3 = (if hasRedis st2 then with_reactions link_disconnect_end (pubsub_disconnect st2) else st2);
          st4 = clear_rooms (clear_connections st3)
      in st4\<lparr>idem := idem_clear (idem st4)\<rparr>)"

definition cleanupAndFinalize :: "'s server \<Rightarrow> 's server" where
  "cleanupAndFinalize sv = (on_node cleanup_node sv)\<lparr>isRunning := False, isShuttingDown := False\<rparr>"

end
