(* ===== verification/Server_Inv.thy ===== *)
theory Server_Inv
  imports Server
begin

text \<open>
  The invariant of a running server, over every sequence of the events its listeners handle: the
  admission limit, one pending slot per handshake under way, and the agreement of the registries.
  Each handler runs to its end before the next; what an interleaving at an await can break is
  stated separately.
\<close>

section \<open>Presence leaves the registries alone\<close>

lemma presence_metrics_node [simp]:
  "core (updateActiveMetrics pm st) = core st" "idem (updateActiveMetrics pm st) = idem st"
  "core (presence_op_metric a b st) = core st" "idem (presence_op_metric a b st) = idem st"
  by (simp_all add: updateActiveMetrics_def presence_op_metric_def setPresenceCounts_def metric_def core_def link_connected_def
      Let_def)

lemma pubsub_node [simp]:
  "core (snd (pubsub_publish ch e st)) = core st" "idem (snd (pubsub_publish ch e st)) = idem st"
  "core (publish_reply d err st) = core st" "idem (publish_reply d err st) = idem st"
  "core (recordPresenceEventPublished st) = core st" "idem (recordPresenceEventPublished st) = idem st"
  by (simp_all add: pubsub_publish_def recordPublishRejected_def recordPublishStart_def issue_def publish_reply_def
      recordPublishEnd_def recordPresenceEventPublished_def metric_def core_def link_connected_def Let_def)

lemma publish_presence_node [simp]:
  "core (snd (publishPresenceUpdate rnd now inst ok u status n rms (pm, st))) = core st"
  "idem (snd (publishPresenceUpdate rnd now inst ok u status n rms (pm, st))) = idem st"
  by (simp_all add: publishPresenceUpdate_def case_prod_beta Let_def split: sum.splits)

lemma register_lease_node [simp]:
  "core (fst (register_lease E ok now u cid (st, rs))) = core st"
  "idem (fst (register_lease E ok now u cid (st, rs))) = idem st"
  by (simp_all add: register_lease_def registerConnection_def case_prod_beta Let_def split: option.splits)

lemma remove_lease_node [simp]:
  "core (fst (remove_lease E ok now u cid (st, rs))) = core st"
  "idem (fst (remove_lease E ok now u cid (st, rs))) = idem st"
  by (simp_all add: remove_lease_def removeConnectionLease_def case_prod_beta Let_def split: option.splits)


section \<open>Frames do not move slots\<close>

definition slots :: "('s, 'a) conn_state_scheme \<Rightarrow> string list \<times> nat \<times> nat option" where
  "slots st = (connections st, pendingConnections st, maxConnections st)"

lemma slots_core: "core st' = core st \<Longrightarrow> slots st' = slots st"
  using core_eqD [of st' st] by (simp add: slots_def)

lemma pending_registry [simp]:
  "pendingConnections (subscribeRoom r st) = pendingConnections st" "maxConnections (subscribeRoom r st) = maxConnections st"
  "pendingConnections (unsubscribeRoom r st) = pendingConnections st" "maxConnections (unsubscribeRoom r st) = maxConnections st"
  by (simp_all add: subscribeRoom_def unsubscribeRoom_def incrementSubscription_def decrementSubscription_def
      pubsub_subscribe_def pubsub_unsubscribe_def setChannelsActive_def metric_def issue_def Let_def split: option.splits)

lemma slots_room [simp]:
  "slots (snd (joinRoom r c st)) = slots st" "slots (snd (leaveRoom r c st)) = slots st"
  "slots (upd_conn cid f st) = slots st"
  by (simp_all add: slots_def joinRoom_def leaveRoom_def upd_conn_def metric_def Let_def split: option.splits)

lemma slots_enter [simp]: "slots (enter_room cid r st) = slots st" "slots (leave_enter cid r st) = slots st"
  by (simp_all add: enter_room_def leave_enter_def)

lemma slots_frames [simp]:
  "slots (reply E now cid ty corr tgt pl st) = slots st" "slots (note_seq cid e st) = slots st" "slots (metric m st) = slots st"
  "slots (fst (snd (fetch_roster E ok now r (st, rs)))) = slots st"
  by (rule slots_core, simp)+

lemma slots_handleRoomJoin [simp]: "slots (fst (handleRoomJoin E ok now cid e (st, rs))) = slots st"
  by (simp add: handleRoomJoin_def room_join_enter_def room_join_ack_def case_prod_beta Let_def split: option.splits)

lemma slots_batch_loop [simp]: "slots (fst (snd (batch_loop E ok cid n k js (st, rs)))) = slots st"
proof (induction js arbitrary: k st rs)
  case (Cons j js)
  have "slots (snd (batch_body cid n k j st)) = slots st" by (simp add: batch_body_def Let_def)
  with Cons show ?case by (simp add: batch_loop_Cons Let_def split: batch_step.splits)
qed simp

lemma slots_handleRoomBatchJoin [simp]: "slots (fst (handleRoomBatchJoin E ok now cid e (st, rs))) = slots st"
  by (simp add: handleRoomBatchJoin_def batch_ack_def case_prod_beta Let_def split: option.splits)

lemma slots_handleRoomLeave [simp]: "slots (fst (handleRoomLeave E ok now cid e (st, rs))) = slots st"
  by (simp add: handleRoomLeave_def leave_ack_def Let_def)


lemma slots_handle_event [simp]: "slots (fst (handle_event E ok now cid e (st, rs))) = slots st"
proof -
  have "core (handleRoomMessage E now cid e st) = core st" "core (handleDirectMessage E now cid e st) = core st"
    by (simp_all add: handleRoomMessage_def handleDirectMessage_def case_prod_beta Let_def)
  then have "slots (handleRoomMessage E now cid e st) = slots st" "slots (handleDirectMessage E now cid e st) = slots st"
    by (auto intro: slots_core)
  moreover have "slots (handlePing E now cid e st) = slots st" "slots (handlePong now cid e st) = slots st"
    by (simp_all add: handlePing_def handlePong_def)
  ultimately show ?thesis by (cases "evType e") (simp_all add: handle_event_def)
qed

lemma slots_dispatch_event [simp]: "slots (fst (dispatch_event E ok now cid e (st, rs))) = slots st"
proof -
  let ?st = "snd (check_duplicate E now e (received e st))"
  have c: "slots ?st = slots st" by (rule slots_core) simp
  moreover have "slots (conflict_reply E now cid e ?st) = slots ?st" "slots (reject_order E now cid e ?st) = slots ?st"
    by (simp_all add: conflict_reply_def reject_order_def)
  moreover have "slots (replay_ack E cid e ack ?st) = slots ?st" for ack by (rule slots_core) simp
  ultimately show ?thesis by (simp add: dispatch_event_eq Let_def split: idem_result.splits)
qed

lemma slots_dispatchRawMessage [simp]: "slots (fst (dispatchRawMessage E ok now cid raw (st, rs))) = slots st"
proof (cases rule: dispatch_cases [of now cid st E ok raw rs])
  case Limited
  have "core (over_limit E now cid (snd (admit now cid st))) = core st" by (simp add: over_limit_frame)
  with Limited show ?thesis by (simp add: slots_core [of "over_limit E now cid (snd (admit now cid st))" st])
next
  case (Invalid err st2)
  then have "core st2 = core st"
    using validate_node(2) [of "envParse E" "envRnd E" now raw "JStr (sender_user cid (snd (admit now cid st)))" "snd (admit now cid st)"]
    by simp
  then have "core (reject_frame E now cid err st2) = core st" by simp
  then have "slots (reject_frame E now cid err st2) = slots st" by (rule slots_core)
  with Invalid show ?thesis by simp
next
  case (Valid e st2)
  then have "core st2 = core st"
    using validate_node(2) [of "envParse E" "envRnd E" now raw "JStr (sender_user cid (snd (admit now cid st)))" "snd (admit now cid st)"]
    by simp
  then have "slots st2 = slots st" by (rule slots_core)
  with Valid show ?thesis by simp
qed

section \<open>Connections come and go\<close>

lemma removeAll_keeps:
  assumes "\<And>r st. f (snd (leaveRoom r c st)) = f st"
  shows "f (snd (removeConnectionFromAllRooms c rs st)) = f st"
proof -
  have "f (snd (leave_each rs c st)) = f st" for st
    by (induction rs arbitrary: st) (simp_all add: leave_each_Cons assms)
  moreover have "f (snd (sweep_rooms rs c st)) = f st" for rs st
    by (induction rs arbitrary: st) (simp_all add: sweep_rooms_Cons assms)
  ultimately show ?thesis by (simp add: removeAll_eq Let_def)
qed

lemma removeAll_node [simp]:
  fixes st :: "('s, 'a) node_scheme"
  shows "heap (snd (removeConnectionFromAllRooms c rs st)) = heap st"
    "connections (snd (removeConnectionFromAllRooms c rs st)) = connections st"
    "userConnections (snd (removeConnectionFromAllRooms c rs st)) = userConnections st"
    "idem (snd (removeConnectionFromAllRooms c rs st)) = idem st"
    "maxRoomsPerConnection (snd (removeConnectionFromAllRooms c rs st)) = maxRoomsPerConnection st"
    "slots (snd (removeConnectionFromAllRooms c rs st)) = slots st"
  by (rule removeAll_keeps, simp)+

lemma refcount_removeAll:
  "ch \<notin> room_channels \<Longrightarrow> getRefCount (snd (removeConnectionFromAllRooms c rs st)) ch = getRefCount st ch"
  by (rule removeAll_keeps) (rule refcount_leave)

lemma user_channel_not_room: "getUserChannel u = Some ch \<Longrightarrow> ch \<notin> room_channels"
  using channel_sets_disjoint by (auto simp: user_channels_def)

lemma sender_rooms_heap: "heap st i = heap st' i \<Longrightarrow> sender_rooms i st = sender_rooms i st'"
  by (simp add: sender_rooms_def)

lemma node_inv_add:
  assumes inv: "node_inv st" and new: "connectionId c \<notin> set (connections st)" and empty: "connRooms c = []"
  shows "node_inv (addConnection c st)"
proof -
  let ?st = "addConnection c st"
  have "room_inv ?st"
    by (rule room_inv_counts [of st])
      (use inv in \<open>auto simp: node_inv_def refcount_addConnection dest: user_channel_not_room\<close>)
  moreover have "conn_inv ?st" using inv new by (simp add: node_inv_def conn_inv_add)
  moreover have s: "sender_rooms i ?st = (if i = connectionId c then [] else sender_rooms i st)" for i
    by (simp add: sender_rooms_def addConnection_fields empty)
  have "membership ?st = membership st" by (rule membership_rooms) simp
  then have "rooms_agree ?st"
    using inv new by (auto simp: node_inv_def rooms_agree_def sender_has_rooms s addConnection_fields)
  moreover have "rooms_bounded ?st"
    using inv by (auto simp: node_inv_def rooms_bounded_def s addConnection_fields)
  ultimately show ?thesis using inv by (simp add: node_inv_def)
qed

lemma removeConnection_node [simp]:
  fixes st :: "('s, 'a) node_scheme"
  shows "idem (snd (removeConnection cid st)) = idem st" "rooms (snd (removeConnection cid st)) = rooms st"
    "maxRoomsPerConnection (snd (removeConnection cid st)) = maxRoomsPerConnection st"
  by (simp_all add: removeConnection_def unsubscribeUser_def decrementSubscription_def pubsub_unsubscribe_def setChannelsActive_def
      metric_def issue_def Let_def split: option.splits)

lemma connections_remove:
  "conn_inv st \<Longrightarrow> set (connections (snd (removeConnection cid st))) = set (connections st) - {cid}"
  using registered_heap [of st cid]
  by (cases "getConnection cid st")
    (auto simp: removeConnection_None removeConnection_fields getConnection_def split: if_splits)

lemma sender_rooms_remove: "sender_rooms i (snd (removeConnection cid st)) = sender_rooms i st"
  by (cases "getConnection cid st")
    (auto simp: sender_rooms_def removeConnection_None removeConnection_fields markCleanedUp_def getConnection_def split: if_splits)

lemma node_inv_close:
  assumes inv: "node_inv st"
  shows "node_inv (snd (removeConnectionFromAllRooms cid rs (snd (removeConnection cid st))))"
proof -
  let ?st1 = "snd (removeConnection cid st)" and ?st = "snd (removeConnectionFromAllRooms cid rs (snd (removeConnection cid st)))"
  have c: "conn_inv st" using inv by (simp add: node_inv_def)
  have r1: "room_inv ?st1"
    by (rule room_inv_counts [of st], use inv in \<open>simp_all add: node_inv_def\<close>)
      (cases "getConnection cid st", auto simp: removeConnection_None refcount_removeConnection dest: user_channel_not_room)
  have "conn_inv ?st"
    by (rule conn_inv_counts [of ?st1]) (simp_all add: conn_inv_remove c refcount_removeAll channel_sets_disjoint)
  moreover have "membership ?st = {m \<in> membership st. snd m \<noteq> cid}"
    using membership_rooms [of ?st1 st] by (simp add: membership_removeAll)
  then have "rooms_agree ?st"
    using inv by (auto simp: node_inv_def rooms_agree_def sender_has_rooms connections_remove c sender_rooms_remove
        sender_rooms_heap [of ?st _ ?st1])
  moreover have "rooms_bounded ?st"
    using inv by (auto simp: node_inv_def rooms_bounded_def connections_remove c sender_rooms_remove sender_rooms_heap [of ?st _ ?st1])
  ultimately show ?thesis using inv r1 by (simp add: node_inv_def room_inv_removeAll)
qed


section \<open>The other events\<close>

lemma ident_methods [simp]:
  "ident (conn_close W code reason c) = ident c" "ident (conn_terminate W c) = ident c" "ident (hb_reap W c) = ident c"
  "ident (conn_touch now c) = ident c"
  by (simp_all add: ident_def conn_close_def conn_terminate_def hb_reap_def conn_touch_def split: option.splits)

lemma core_fold_upd: "(\<And>c. ident (f c) = ident c) \<Longrightarrow> core (fold (\<lambda>cid. upd_conn cid f) cids st) = core st"
  by (induction cids arbitrary: st) (simp_all add: core_upd_conn)

lemma idem_fold_upd: "idem (fold (\<lambda>cid. upd_conn cid f) cids st) = idem st"
  by (induction cids arbitrary: st) simp_all

lemma check_each_node [simp]:
  fixes st :: "('s, 'a) node_scheme"
  shows "core (snd (check_each W rnd now hb cids st)) = core st" "idem (snd (check_each W rnd now hb cids st)) = idem st"
proof -
  have one: "core (snd (check_one W rnd now hb cid st)) = core st \<and> idem (snd (check_one W rnd now hb cid st)) = idem st"
    for cid and st :: "('s, 'a) node_scheme"
    by (simp add: check_one_def case_prod_beta Let_def core_upd_conn split: option.splits)
  show "core (snd (check_each W rnd now hb cids st)) = core st" "idem (snd (check_each W rnd now hb cids st)) = idem st"
    by (induction cids arbitrary: st) (simp_all add: check_each_Cons one)
qed

lemma fallback_node [simp]:
  fixes st :: "('s, 'a) node_scheme"
  shows "core (fallback_fired W cid st) = core st" "idem (fallback_fired W cid st) = idem st"
  by (simp_all add: fallback_fired_def core_upd_conn split: option.splits)

lemma resync_keeps:
  "core (fst (resync_each E ok now cids (st, rs))) = core st \<and> idem (fst (resync_each E ok now cids (st, rs))) = idem st"
proof (induction cids arbitrary: st rs)
  case (Cons cid cids)
  define p where "p = (case heap st cid of None \<Rightarrow> (st, rs)
    | Some c \<Rightarrow> if userId c \<noteq> [] \<and> isAlive (envWs E) c then register_lease E ok now (userId c) cid (st, rs) else (st, rs))"
  have p: "core (fst p) = core st" "idem (fst p) = idem st" by (simp_all add: p_def split: option.splits)
  have "resync_each E ok now (cid # cids) (st, rs) = resync_each E ok now cids (fst p, snd p)" by (simp add: p_def)
  then show ?case using Cons.IH [of "fst p" "snd p"] p by simp
qed simp

lemma reconnect_node [simp]:
  "core (fst (handleRedisReconnect E ok now c (st, rs))) = core st"
  "idem (fst (handleRedisReconnect E ok now c (st, rs))) = idem st"
  by (simp_all add: handleRedisReconnect_def start_renewal_def create_presence_def Let_def resync_keeps)

lemma announce_node [simp]:
  "core (announce_shutdown E now t st) = core st" "idem (announce_shutdown E now t st) = idem st"
  by (simp_all add: announce_shutdown_def case_prod_beta Let_def)

lemma stop_close_node [simp]: "core (stop_close W st) = core st" "idem (stop_close W st) = idem st"
  by (simp_all add: stop_close_def core_fold_upd idem_fold_upd)


section \<open>The system\<close>

text \<open>
  The events of a server: upgrade requests and the ends of their handshakes, frames, pings and closings of
  registered connections, events from Redis, heartbeat sweeps and their fallback timers, Redis
  reconnections, draining and the two synchronous parts of a stop. The identifier generated for a new
  connection is assumed not to be in use. \<open>E\<close> and \<open>H\<close> stand for the platform; times and replies
  vary from step to step.
\<close>

inductive server_step :: "('s, 'r) env \<Rightarrow> http_prims \<Rightarrow> 's server \<times> 'r \<Rightarrow> 's server \<times> 'r \<Rightarrow> bool" for E H where
  Upgrade: "\<not> js_has (claims sv) sock \<Longrightarrow> server_step E H (sv, rs) (snd (upgrade H gw now sock req sv), rs)"
| EarlyClose: "server_step E H (sv, rs) (onEarlyClose sock sv, rs)"
| Upgraded: "fst (freshId (envRnd E) now (srvNode sv)) \<notin> set (connections (srvNode sv)) \<Longrightarrow>
    server_step E H (sv, rs) (upgraded E ok now sock ws (sv, rs))"
| Frame: "cid \<in> set (connections (srvNode sv)) \<Longrightarrow>
    server_step E H (sv, rs) (on_node_redis (dispatchRawMessage E ok now cid raw) (sv, rs))"
| Ping: "server_step E H (sv, rs) (on_node (on_ping now cid) sv, rs)"
| Close: "server_step E H (sv, rs) (on_node_redis (on_close E ok now cid code reason) (sv, rs))"
| Inbound: "server_step E H (sv, rs) (on_node (\<lambda>st. snd (handleInboundRedisEvent E now ch raw st)) sv, rs)"
| Sweep: "server_step E H (sv, rs) (on_node (\<lambda>st. snd (checkHeartbeats (envWs E) (envRnd E) now (heartbeatMgr sv) st)) sv, rs)"
| Fallback: "server_step E H (sv, rs) (on_node (fallback_fired (envWs E) cid) sv, rs)"
| Reconnect: "server_step E H (sv, rs) (on_node_redis (handleRedisReconnect E ok now (serverConfig sv)) (sv, rs))"
| Drain: "server_step E H (sv, rs) (drain E now timeout sv, rs)"
| StopBegin: "stop_begin E now timeout sv = Some (grace, sv') \<Longrightarrow> server_step E H (sv, rs) (sv', rs)"
| StopClose: "server_step E H (sv, rs) (on_node (stop_close (envWs E)) sv, rs)"

definition server_inv :: "'s server \<times> 'r \<Rightarrow> bool" where
  "server_inv = (\<lambda>(sv, rs). node_inv (srvNode sv) \<and> within_limit (srvNode sv)
     \<and> wf_map (claims sv) \<and> pendingConnections (srvNode sv) = length (claims sv))"

definition server_init :: "'s server \<times> 'r \<Rightarrow> bool" where
  "server_init = (\<lambda>(sv, rs). \<exists>c injected. sv = new_PulseServer c injected)"

lemma within_limit_slots: "slots st' = slots st \<Longrightarrow> within_limit st' = within_limit st"
  by (rule within_limit_cong) (simp_all add: slots_def)

text \<open>A change of the node that keeps its invariant and its slots keeps the invariant of the server.\<close>

lemma server_inv_node:
  assumes "server_inv (sv, rs)" "node_inv st'" "slots st' = slots (srvNode sv)" "srvNode sv' = st'" "claims sv' = claims sv"
  shows "server_inv (sv', rs')"
  using assms within_limit_slots [OF assms(3)] by (simp add: server_inv_def slots_def)

lemma server_inv_same:
  assumes "server_inv (sv, rs)" "core (srvNode sv') = core (srvNode sv)" "idem (srvNode sv') = idem (srvNode sv)"
    "claims sv' = claims sv"
  shows "server_inv (sv', rs')"
  by (rule server_inv_node [OF assms(1) _ slots_core [OF assms(2)] refl assms(4)])
    (use assms in \<open>auto simp: server_inv_def intro: node_inv_same\<close>)

lemma node_inv_metric [simp]: "node_inv (metric m st) = node_inv st" "within_limit (metric m st) = within_limit st"
  using node_inv_same [of st "metric m st"] node_inv_same [of "metric m st" st] within_limit_slots [of "metric m st" st] by auto

lemma node_inv_pending [simp]: "node_inv (st\<lparr>pendingConnections := n\<rparr>) = node_inv st"
proof -
  let ?st = "st\<lparr>pendingConnections := n\<rparr>"
  have "room_inv ?st = room_inv st"
    using room_inv_counts [of st ?st] room_inv_counts [of ?st st] by (auto simp: getRefCount_def)
  moreover have "membership ?st = membership st" by (rule membership_rooms) simp
  ultimately show ?thesis by (simp add: node_inv_def rooms_agree_def rooms_bounded_def sender_has_def sender_rooms_def)
qed

lemma server_inv_upgrade:
  assumes "server_inv (sv, rs)" "\<not> js_has (claims sv) sock"
  shows "server_inv (snd (upgrade H gw now sock req sv), rs)"
proof -
  have "server_inv (snd (upgrade_admit H now sock req sv), rs)"
  proof (cases "at_capacity (srvNode sv)")
    case True
    then show ?thesis using assms(1) by (simp add: upgrade_admit_def tryAcquireSlot_def server_inv_def)
  next
    case False
    let ?st = "(srvNode sv)\<lparr>pendingConnections := Suc (pendingConnections (srvNode sv))\<rparr>"
    have l: "within_limit ?st" using False by (simp add: at_capacity_def within_limit_def split: option.splits)
    have "length (js_set sock x (claims sv)) = Suc (length (claims sv))" for x
      using assms(2) js_has_iff [of "claims sv" sock] by (simp only: length_js_set if_False)
    moreover have "within_limit ((srvNode sv)\<lparr>pendingConnections := length (claims sv)\<rparr>)"
      using assms(1) by (simp add: server_inv_def within_limit_def split: option.splits)
    ultimately show ?thesis using assms(1) False l
      by (simp add: upgrade_admit_def tryAcquireSlot_def releasePendingSlot_def server_inv_def split: sum.splits)
  qed
  then show ?thesis
    using assms(1) by (simp add: upgrade_def upgrade_check_def on_node_def server_inv_def split: option.splits gateway_reply.splits)
qed

lemma server_inv_early_close:
  assumes "server_inv (sv, rs)"
  shows "server_inv (onEarlyClose sock sv, rs)"
proof (cases "js_has (claims sv) sock")
  case True
  have "length (claims sv) = Suc (length (js_delete sock (claims sv)))"
    using js_has_iff [of "claims sv" sock, THEN iffD1, OF True] assms by (simp add: server_inv_def length_js_delete)
  moreover have "within_limit ((srvNode sv)\<lparr>pendingConnections := pendingConnections (srvNode sv) - 1\<rparr>)"
    using assms by (auto simp: server_inv_def within_limit_def split: option.splits)
  ultimately show ?thesis
    using True assms by (simp add: onEarlyClose_def on_node_def releasePendingSlot_def server_inv_def)
next
  case False
  then show ?thesis using assms by (simp add: onEarlyClose_def)
qed

lemma server_inv_upgraded:
  assumes "server_inv (sv, rs)" "fst (freshId (envRnd E) now (srvNode sv)) \<notin> set (connections (srvNode sv))"
  shows "server_inv (upgraded E ok now sock ws (sv, rs))"
proof (cases "map_of (claims sv) sock")
  case (Some claim)
  obtain who req where claim: "claim = (who, req)" by (cases claim)
  let ?rnd = "envRnd E" and ?st = "srvNode sv"
  let ?p = "server_connection ?rnd now (serverConfig sv) ws req who ?st"
  let ?c = "fst ?p" and ?st1 = "snd ?p"
  have c: "connectionId ?c = fst (freshId ?rnd now ?st)" "connRooms ?c = []" "core ?st1 = core ?st" "idem ?st1 = idem ?st"
    by (simp_all add: server_connection_def new_Connection_def case_prod_beta Let_def)
  let ?st2 = "addConnection ?c ?st1"
  have "node_inv ?st1" using assms(1) by (auto simp: server_inv_def intro: node_inv_same [OF _ c(3,4)])
  then have n2: "node_inv ?st2"
    using node_inv_add [of ?st1 ?c] assms(2) c core_eqD(2) [OF c(3)] by simp
  have pos: "sock \<in> fst ` set (claims sv)" using Some by (rule js_get_in_keys)
  have len: "length (claims sv) = Suc (length (js_delete sock (claims sv)))"
    using assms(1) pos by (simp add: server_inv_def length_js_delete)
  have s1: "connections ?st1 = connections ?st" "pendingConnections ?st1 = pendingConnections ?st" "maxConnections ?st1 = maxConnections ?st"
    using core_eqD [OF c(3)] by simp_all
  have sl: "slots ?st2 = (connections ?st @ [connectionId ?c], length (js_delete sock (claims sv)), maxConnections ?st)"
    using assms len s1 by (simp add: slots_def addConnection_fields server_inv_def c(1) set_add_def)
  define out where "out = handleAuthenticatedConnection E ok now (serverConfig sv) ws req who (?st, rs)"
  have "core (fst out) = core ?st2" "idem (fst out) = idem ?st2"
    by (simp_all add: out_def handleAuthenticatedConnection_def case_prod_beta Let_def)
  then have "node_inv (fst out)" "slots (fst out) = slots ?st2"
    using n2 by (auto intro: node_inv_same slots_core)
  moreover have "within_limit (fst out)"
    using assms(1) len calculation(2) sl by (auto simp: server_inv_def within_limit_def slots_def split: option.splits)
  ultimately show ?thesis
    using assms(1) sl Some
    by (simp add: upgraded_def claim on_node_redis_def out_def [symmetric] case_prod_beta Let_def server_inv_def slots_def)
next
  case None
  then show ?thesis using assms(1) by (simp add: upgraded_def)
qed

lemma server_inv_close:
  assumes "server_inv (sv, rs)"
  shows "server_inv (on_node_redis (on_close E ok now cid code reason) (sv, rs))"
proof -
  let ?st = "srvNode sv"
  define label where "label = close_label code (case heap ?st cid of None \<Rightarrow> False | Some c \<Rightarrow> isHeartbeatTimedOut c) reason"
  let ?st1 = "inc_metric ''pulse_connections_closed_total'' ''reason'' label ?st"
  let ?st2 = "snd (removeConnection cid ?st1)"
  let ?st3 = "snd (removeConnectionFromAllRooms cid (sender_rooms cid ?st2) ?st2)"
  define out where "out = on_close E ok now cid code reason (?st, rs)"
  have k: "core (fst out) = core ?st3" "idem (fst out) = idem ?st3"
    by (simp_all add: out_def on_close_def Let_def label_def)
  have "node_inv ?st3" using assms by (intro node_inv_close) (simp add: server_inv_def)
  then have n: "node_inv (fst out)" using k by (rule node_inv_same)
  have s: "slots (fst out) = slots ?st2" using slots_core [OF k(1)] by simp
  have "pendingConnections ?st2 = pendingConnections ?st" "maxConnections ?st2 = maxConnections ?st"
    "length (connections ?st2) \<le> length (connections ?st)"
    by (cases "getConnection cid ?st"; simp add: removeConnection_None removeConnection_fields set_del_def)+
  then have "within_limit (fst out)" "pendingConnections (fst out) = pendingConnections ?st"
    using assms s by (auto simp: server_inv_def within_limit_def slots_def split: option.splits)
  then show ?thesis using assms n by (simp add: on_node_redis_def out_def [symmetric] case_prod_beta server_inv_def)
qed

lemma server_inv_frame_event:
  assumes "server_inv (sv, rs)" "cid \<in> set (connections (srvNode sv))"
  shows "server_inv (on_node_redis (dispatchRawMessage E ok now cid raw) (sv, rs))"
  unfolding on_node_redis_def case_prod_beta Let_def
  by (rule server_inv_node [OF assms(1) node_inv_dispatchRawMessage [OF _ assms(2)]])
    (use assms(1) in \<open>simp_all add: server_inv_def\<close>)

lemma core_inbound: "core (snd (handleInboundRedisEvent E now ch raw st)) = core st"
proof -
  have v: "core st1 = core st" if "validateDistributed (envRnd E) now j st = (r, st1)" for j r st1
    using validateDistributed_state [of "envRnd E" now j st] that by auto
  show ?thesis
    by (auto simp: handleInboundRedisEvent_def split: option.splits sum.splits prod.splits bool.splits dest!: v)
      (use accept_inbound_node(1) in \<open>metis snd_conv\<close>)+
qed

lemma server_inv_inbound:
  assumes "server_inv (sv, rs)"
  shows "server_inv (on_node (\<lambda>st. snd (handleInboundRedisEvent E now ch raw st)) sv, rs)"
  by (rule server_inv_node [OF assms node_inv_inbound])
    (use assms in \<open>simp_all add: server_inv_def on_node_def slots_core [OF core_inbound]\<close>)

lemma server_inv_step: "server_step E H p q \<Longrightarrow> server_inv p \<Longrightarrow> server_inv q"
proof (induction rule: server_step.induct)
  case (Upgraded now sv rs ok sock ws)
  then show ?case by (intro server_inv_upgraded)
next
  case (Ping sv rs now cid)
  then show ?case by (rule server_inv_same) (simp_all add: on_node_def on_ping_def core_upd_conn)
next
  case (Sweep sv rs now)
  then show ?case by (rule server_inv_same) (simp_all add: on_node_def checkHeartbeats_def)
next
  case (Fallback sv rs cid)
  then show ?case by (rule server_inv_same) (simp_all add: on_node_def)
next
  case (Reconnect sv rs ok now)
  then show ?case unfolding on_node_redis_def case_prod_beta Let_def by (rule server_inv_same) simp_all
next
  case (Drain sv rs now timeout)
  then show ?case by (rule server_inv_same) (simp_all add: drain_def on_node_def)
next
  case (StopBegin now timeout sv grace sv' rs)
  then have "srvNode sv' = srvNode (drain E now (Some grace) sv)" "claims sv' = claims (drain E now (Some grace) sv)"
    by (auto simp: stop_begin_def Let_def split: if_splits)
  with StopBegin show ?case
    by (intro server_inv_same [OF StopBegin.prems]) (simp_all add: drain_def on_node_def)
next
  case (StopClose sv rs)
  then show ?case by (rule server_inv_same) (simp_all add: on_node_def)
qed (simp_all add: server_inv_upgrade server_inv_early_close server_inv_frame_event server_inv_close server_inv_inbound)

lemma server_inv_init: "server_init p \<Longrightarrow> server_inv p"
  by (auto simp: server_init_def server_inv_def new_PulseServer_def setMaxConnections_def new_node_def node_inv_def room_inv_def
      rooms_wf_def registry.counts_members_def getRefCount_def room_group_def getRoomConnectionIds_def conn_inv_def index_ok_def
      user_ids_def user_of_def getConnection_def user_group_def idem_inv_def new_IdempotencyManager_def rooms_agree_def
      membership_def isConnectionInRoom_def rooms_bounded_def within_limit_def split: option.splits)


interpretation server: transition_system server_init "server_step E H" server_inv
  by unfold_locales (rule server_inv_init, assumption, rule server_inv_step)


definition config0 :: pulse_config where
  "config0 = read_config (\<lambda>_. None) (no_options\<lparr>optAuthSecret := Some ''key''\<rparr>)"

definition server0 :: "sim_socket server" where
  "server0 = new_PulseServer config0 False"

definition http0 :: http_prims where
  "http0 = \<lparr>urlOf = (\<lambda>_. None), authOf = sample_prims\<rparr>"

definition request0 :: upgrade_request where
  "request0 = \<lparr>reqUrl = Some ''/?token=payload.keypayload'', authorization = None, secWebSocketProtocol = None,
     originHeader = Some ''https://app.pulse.io'', forwardedFor = None, remoteAddr = Some ''10.0.0.7''\<rparr>"

lemma sample_auth:
  "authenticateRequest (authOf http0) (cfgAuthSecret (serverConfig server0)) 2000 (request.truncate request0) =
     Inr (''ada'', JArr [JStr ''user''])"
proof -
  have k: "cfgAuthSecret config0 = ''key''" by (simp add: config0_def read_config_def no_options_def given_def Let_def)
  show ?thesis
    by (simp add: server0_def new_PulseServer_def k http0_def request0_def request.truncate_def authenticateRequest_def extractToken_def
        verifyToken_def sample_prims_def Let_def check_payload_def sample_payload_def token_payload_def exp_number_def)
qed

lemma sample_max: "num_int (cfgMaxConnections config0) = 10000"
  by code_simp

lemma sample_origins: "cfgAllowedOrigins config0 = [''*'']"
  by code_simp

lemma sample_server:
  "maxConnections (srvNode server0) = Some 10000" "connections (srvNode server0) = []" "pendingConnections (srvNode server0) = 0"
  "claims server0 = []" "isShuttingDown server0 = False" "serverConfig server0 = config0"
  by (simp_all add: server0_def new_PulseServer_def setMaxConnections_def sample_max new_node_def)

lemma sample_init: "server_init (server0, rs)"
  by (auto simp: server_init_def server0_def)

definition admitted0 :: "sim_socket server" where
  "admitted0 = snd (upgrade http0 None 2000 7 request0 server0)"

lemma sample_admitted:
  "claims admitted0 = [(7, ((''ada'', JArr [JStr ''user'']), request0))]" "connections (srvNode admitted0) = []"
  "maxConnections (srvNode admitted0) = Some 10000"
  using sample_auth
  by (simp_all add: admitted0_def upgrade_def upgrade_check_def upgrade_admit_def tryAcquireSlot_def at_capacity_def sample_server
      isAllowed_def sample_origins)

lemma sample_admit_step: "server_step env0 http0 (server0, empty_redis) (admitted0, empty_redis)"
  unfolding admitted0_def by (rule server_step.Upgrade) (simp add: sample_server)




lemma connections_upgraded:
  assumes "map_of (claims sv) sock = Some (who, req)"
  shows "connections (srvNode (fst (upgraded E ok now sock ws (sv, rs)))) =
     set_add (fst (freshId (envRnd E) now (srvNode sv))) (connections (srvNode sv))"
proof -
  let ?p = "server_connection (envRnd E) now (serverConfig sv) ws req who (srvNode sv)"
  define out where "out = handleAuthenticatedConnection E ok now (serverConfig sv) ws req who (srvNode sv, rs)"
  have "core (fst out) = core (addConnection (fst ?p) (snd ?p))"
    by (simp add: out_def handleAuthenticatedConnection_def case_prod_beta Let_def)
  moreover have "core (snd ?p) = core (srvNode sv)" "connectionId (fst ?p) = fst (freshId (envRnd E) now (srvNode sv))"
    by (simp_all add: server_connection_def new_Connection_def case_prod_beta Let_def)
  ultimately have "connections (fst out) = set_add (fst (freshId (envRnd E) now (srvNode sv))) (connections (srvNode sv))"
    using core_eqD(2) by (metis addConnection_fields(1))
  then show ?thesis using assms by (simp add: upgraded_def on_node_redis_def out_def [symmetric] case_prod_beta)
qed


end
