(* ===== verification/Server_Rules.thy ===== *)
theory Server_Rules
  imports Server_Inv
begin

text \<open>
  What the server promises about single events: who is admitted, what a drain announces, what a closed
  connection leaves behind, how long a stop waits and what remains after it.
\<close>

section \<open>The sample node\<close>

lemma sample_node_inv: "node_inv lobby"
proof -
  let ?c1 = "sim_connection ''c1'' ''ada'' 0" and ?c2 = "sim_connection ''c2'' ''bob'' 0"
  have i: "channelRefCounts node0 = []" "idem node0 = new_IdempotencyManager None None"
    by (simp_all add: node0_def conn0_def room0_def chan0_def conn_state.defs room_state.defs chan_state.defs)
  have "node_inv node0"
    by (simp add: node_inv_def room_inv_def rooms_wf_def registry.counts_members_def getRefCount_def room_group_def
        getRoomConnectionIds_def conn_inv_def index_ok_def user_ids_def user_of_def getConnection_def user_group_def
        idem_inv_def new_IdempotencyManager_def rooms_agree_def membership_def isConnectionInRoom_def rooms_bounded_def
        sample_node0 i split: option.splits)
  then have "node_inv (addConnection ?c1 node0)" by (rule node_inv_add) (simp_all add: sample_node0 sim_connection_def)
  then have a: "node_inv (addConnection ?c2 (addConnection ?c1 node0))" (is "node_inv ?st")
    by (rule node_inv_add) (simp_all add: sample_node0 sim_connection_def addConnection_fields set_add_def)
  have c: "connections ?st = [''c1'', ''c2'']" by (simp add: sample_node0 sim_connection_def addConnection_fields set_add_def)
  have r: "sender_rooms ''c1'' ?st = []" "sender_rooms ''c2'' ?st = []"
    by (simp_all add: sender_rooms_def addConnection_fields sim_connection_def)
  have e: "node_inv (enter_room ''c1'' ''lobby'' ?st)"
    by (rule node_inv_enter [OF a _ room_name_lobby]) (simp_all add: c r sample_node0)
  have "heap ?st ''c1'' \<noteq> None" by (simp add: addConnection_fields sim_connection_def)
  then have "sender_rooms ''c2'' (enter_room ''c1'' ''lobby'' ?st) = []" by (simp add: r sender_rooms_enter)
  then show ?thesis unfolding lobby_def
    by (intro node_inv_enter [OF e _ room_name_lobby]) (simp_all add: c sample_node0)
qed

section \<open>Who is admitted\<close>

text \<open>
  C7: the gate. An upgrade request is admitted exactly if the server is not draining, the origin is
  allowed, the gateway does not take the request, a slot is free and the token is accepted; a request
  that is refused leaves the registries, the slots and the handshakes as they were.
\<close>

theorem upgrade_gate:
  "(fst (upgrade H gw now sock req sv) = Admitted \<longleftrightarrow>
      \<not> isShuttingDown sv \<and> isAllowed (urlOf H) (originHeader req) (Some (cfgAllowedOrigins (serverConfig sv)))
      \<and> (gw = None \<or> gw = Some GatewayPassed) \<and> \<not> at_capacity (srvNode sv)
      \<and> (\<exists>who. authenticateRequest (authOf H) (cfgAuthSecret (serverConfig sv)) now (request.truncate req) = Inr who))
   \<and> (fst (upgrade H gw now sock req sv) \<noteq> Admitted \<longrightarrow>
        core (srvNode (snd (upgrade H gw now sock req sv))) = core (srvNode sv)
        \<and> claims (snd (upgrade H gw now sock req sv)) = claims sv)"
proof -
  have "core ((srvNode sv)\<lparr>pendingConnections := pendingConnections (srvNode sv)\<rparr>) = core (srvNode sv)" by simp
  then show ?thesis
    by (simp add: upgrade_def upgrade_check_def upgrade_admit_def tryAcquireSlot_def releasePendingSlot_def on_node_def
        split: option.splits gateway_reply.splits sum.splits)
qed

theorem upgrade_gate_witness:
  "fst (upgrade http0 None 2000 7 request0 server0) = Admitted
   \<and> claims (snd (upgrade http0 None 2000 7 request0 (server0\<lparr>isShuttingDown := True\<rparr>))) = []"
proof -
  have "fst (upgrade http0 None 2000 7 request0 server0) = Admitted"
    using upgrade_gate [of http0 None 2000 7 request0 server0] sample_auth
    by (simp add: sample_server at_capacity_def isAllowed_def sample_origins)
  moreover have "claims (snd (upgrade http0 None 2000 7 request0 (server0\<lparr>isShuttingDown := True\<rparr>))) = []"
    using upgrade_gate [of http0 None 2000 7 request0 "server0\<lparr>isShuttingDown := True\<rparr>"] by (simp add: sample_server)
  ultimately show ?thesis by simp
qed

section \<open>Draining\<close>

text \<open>
  A drain is announced once and closes the gate. Every registered connection that can take a frame
  receives exactly one SYS_SHUTDOWN frame and nobody else receives anything; a second drain changes
  nothing; from then on every upgrade request is refused.
\<close>

theorem drain_announces_once:
  fixes sv :: "'s server" and E :: "('s, 'r) env" and now :: int and timeout :: "int option"
  assumes "node_inv (srvNode sv)" "\<not> isShuttingDown sv"
  defines "sv' \<equiv> drain E now timeout sv"
  shows "(\<exists>f. evType f = SYS_SHUTDOWN \<and> (\<forall>i. outbox_of i (srvNode sv') = outbox_of i (srvNode sv)
              @ (if i \<in> set (connections (srvNode sv)) \<and> can_take (envWs E) f (srvNode sv) i then [f] else [])))
     \<and> drain E now2 timeout2 sv' = sv'
     \<and> fst (upgrade H gw now2 sock req sv') = RefusedDraining"
proof -
  let ?st = "srvNode sv" and ?fr = "freshId (envRnd E) now (srvNode sv)"
  define f where "f = system_envelope (fst ?fr) SYS_SHUTDOWN now None None
    (shutdown_payload (instanceId (snd ?fr)) (drain_timeout timeout sv))"
  have d: "distinct (connections ?st)" using assms(1) by (simp add: node_inv_def conn_inv_def index_ok_def)
  have n: "srvNode sv' = snd (send_each (envWs E) (connections ?st) f (snd ?fr))"
    using assms(2) core_eqD(2) [OF fresh_frame(1), of "envRnd E" now ?st]
    by (simp add: sv'_def drain_def on_node_def announce_shutdown_def case_prod_beta Let_def getAllConnections_def f_def)
  have "outbox_of i (srvNode sv') = outbox_of i ?st @ (if i \<in> set (connections ?st) \<and> can_take (envWs E) f ?st i then [f] else [])" for i
    using outbox_send_each [OF d, of i "envWs E" f "snd ?fr"] by (simp add: n)
  moreover have "evType f = SYS_SHUTDOWN" by (simp add: f_def system_envelope_def)
  moreover have "isShuttingDown sv'" using assms(2) by (simp add: sv'_def drain_def on_node_def)
  ultimately show ?thesis by (auto simp: drain_def upgrade_def upgrade_check_def)
qed

theorem drain_announces_once_witness:
  "\<exists>f. evType f = SYS_SHUTDOWN \<and> outbox_of ''c1'' (srvNode (drain env0 9 None (server0\<lparr>srvNode := lobby\<rparr>)))
       = outbox_of ''c1'' lobby @ (if can_take (envWs env0) f lobby ''c1'' then [f] else [])"
proof -
  let ?sv = "server0\<lparr>srvNode := lobby\<rparr>"
  have "node_inv (srvNode ?sv)" "\<not> isShuttingDown ?sv" by (simp_all add: sample_node_inv sample_server)
  from drain_announces_once [OF this, of env0 9 None] obtain f where "evType f = SYS_SHUTDOWN"
    "\<forall>i. outbox_of i (srvNode (drain env0 9 None ?sv)) = outbox_of i (srvNode ?sv)
       @ (if i \<in> set (connections (srvNode ?sv)) \<and> can_take (envWs env0) f (srvNode ?sv) i then [f] else [])" by blast
  then show ?thesis by (intro exI [of _ f]) (simp add: sample_connections)
qed

section \<open>Stopping\<close>

lemma handoff_wait_result:
  assumes "handoff_wait late count startTime grace n now = (k, t)" "startTime + 50 * int n \<le> now"
    "n = 0 \<or> now - startTime < grace"
  shows "(count t = 0 \<or> grace \<le> t - startTime) \<and> n < k \<and> startTime + 50 * int k \<le> t
     \<and> (k = 1 \<or> 50 * (int k - 1) < grace)"
  using assms
proof (induction late count startTime grace n now rule: handoff_wait.induct)
  case (1 late count startTime grace n now)
  let ?t = "now + 50 + int (late n)"
  show ?case
  proof (cases "count ?t = 0 \<or> ?t - startTime \<ge> grace")
    case True
    with "1.prems"(1) have "k = Suc n" "t = ?t" by (subst (asm) handoff_wait.simps, simp add: Let_def)+
    with True "1.prems"(2,3) show ?thesis by auto
  next
    case False
    then have "handoff_wait late count startTime grace (Suc n) ?t = (k, t)"
      using "1.prems"(1) by (subst (asm) handoff_wait.simps) (simp add: Let_def)
    from "1.IH" [OF refl False this] show ?thesis using False "1.prems"(2) by auto
  qed
qed

text \<open>
  The handoff window of a stop ends. However long the connections stay and however late the timer
  fires, the wait resolves after finitely many ticks: at a tick that finds no connection or the grace
  period over, and not later than the first tick after the grace period.
\<close>

theorem handoff_window_ends:
  "\<exists>k t. handoff_wait late count startTime grace 0 startTime = (k, t)
     \<and> (count t = 0 \<or> grace \<le> t - startTime) \<and> 0 < k \<and> startTime + 50 * int k \<le> t
     \<and> (k = 1 \<or> 50 * (int k - 1) < grace)"
proof -
  obtain k t where r: "handoff_wait late count startTime grace 0 startTime = (k, t)" by fastforce
  from handoff_wait_result [OF r] r show ?thesis by simp
qed

section \<open>After a stop\<close>

lemma pubsub_ops_node [simp]:
  "hasRedis (snd (pubsub_unsubscribe ch st)) = hasRedis st" "presenceMgr (snd (pubsub_unsubscribe ch st)) = presenceMgr st"
  "hasRedis (pubsub_on ev st) = hasRedis st" "presenceMgr (pubsub_on ev st) = presenceMgr st"
  by (cases ev; simp add: pubsub_unsubscribe_def setChannelsActive_def issue_def metric_def restoreSubscriptions_def
      attachSubscriberListener_def setConnectionState_def Let_def)+

lemma clear_channels_node [simp]:
  fixes st :: "('s, 'a) node_scheme"
  shows "hasRedis (clear_channels st) = hasRedis st" "presenceMgr (clear_channels st) = presenceMgr st"
    "channelRefCounts (clear_channels st) = []"
proof -
  have "hasRedis (fold (\<lambda>ch s. snd (pubsub_unsubscribe ch s)) cs st) = hasRedis st
      \<and> presenceMgr (fold (\<lambda>ch s. snd (pubsub_unsubscribe ch s)) cs st) = presenceMgr st" for cs and st :: "('s, 'a) node_scheme"
    by (induction cs arbitrary: st) simp_all
  then show "hasRedis (clear_channels st) = hasRedis st" "presenceMgr (clear_channels st) = presenceMgr st"
    "channelRefCounts (clear_channels st) = []"
    by (simp_all add: clear_channels_def)
qed

lemma disconnect_node:
  fixes st :: "('s, 'a) node_scheme"
  defines "st' \<equiv> with_reactions link_disconnect_end (pubsub_disconnect st)"
  shows "hasRedis st' = hasRedis st" "presenceMgr st' = presenceMgr st" "channelRefCounts st' = channelRefCounts st"
    "subscribedChannels st' = []" "\<not> link_connected st'"
proof -
  have "hasRedis (fold pubsub_on evs s) = hasRedis s \<and> presenceMgr (fold pubsub_on evs s) = presenceMgr s"
    for evs and s :: "('s, 'a) node_scheme" by (induction evs arbitrary: s) simp_all
  then show "hasRedis st' = hasRedis st" "presenceMgr st' = presenceMgr st" "channelRefCounts st' = channelRefCounts st"
    "subscribedChannels st' = []" "\<not> link_connected st'"
    by (simp_all add: st'_def with_reactions_def pubsub_disconnect_def link_disconnect_begin_def link_disconnect_end_def emit_def
        setConnectionState_def setChannelsActive_def metric_def Let_def, simp add: link_connected_def)
qed

text \<open>
  A stop leaves nothing. After the final cleanup no connection, user or room is registered, no
  channel is counted or subscribed, the cache of acknowledged events is empty, the renewal of leases
  is stopped, Redis is disconnected, and the server may be started again.
\<close>

theorem cleanup_clears:
  fixes sv :: "'s server"
  assumes "chanEnabled (srvNode sv) = hasRedis (srvNode sv)"
  defines "st \<equiv> srvNode (cleanupAndFinalize sv)"
  shows "connections st = [] \<and> userConnections st = [] \<and> rooms st = [] \<and> idem_size (idem st) = 0
     \<and> (hasRedis st \<longrightarrow> channelRefCounts st = [] \<and> subscribedChannels st = [] \<and> \<not> link_connected st)
     \<and> (\<forall>pm. presenceMgr st = Some pm \<longrightarrow> \<not> renewalRunning pm)
     \<and> start_prepare (cleanupAndFinalize sv) \<noteq> None"
proof -
  define s1 where "s1 = (srvNode sv)\<lparr>presenceMgr := map_option stopRenewalLoop (presenceMgr (srvNode sv))\<rparr>"
  define s2 where "s2 = (if chanEnabled s1 then clear_channels s1 else s1)"
  define s3 where "s3 = (if hasRedis s2 then with_reactions link_disconnect_end (pubsub_disconnect s2) else s2)"
  have st: "st = (clear_rooms (clear_connections s3))\<lparr>idem := idem_clear (idem (clear_rooms (clear_connections s3)))\<rparr>"
    by (simp add: st_def cleanupAndFinalize_def on_node_def cleanup_node_def s1_def s2_def s3_def Let_def)
  have f: "hasRedis st = hasRedis s3" "presenceMgr st = presenceMgr s3" "channelRefCounts st = channelRefCounts s3"
    "subscribedChannels st = subscribedChannels s3" "link_connected st = link_connected s3"
    by (simp_all add: st clear_rooms_def clear_connections_def metric_def link_connected_def)
  have s2: "presenceMgr s2 = presenceMgr s1" "hasRedis s2 = hasRedis s1" "hasRedis s1 \<Longrightarrow> channelRefCounts s2 = []"
    using assms(1) by (simp_all add: s2_def s1_def)
  have "presenceMgr s3 = presenceMgr s1" "hasRedis s3 = hasRedis s1"
    "hasRedis s3 \<Longrightarrow> channelRefCounts s3 = [] \<and> subscribedChannels s3 = [] \<and> \<not> link_connected s3"
    using s2 disconnect_node [of s2] by (simp_all add: s3_def split: if_splits)
  moreover have "connections st = []" "userConnections st = []" "rooms st = []" "idem_size (idem st) = 0"
    by (simp_all add: st clear_rooms_def clear_connections_def metric_def idem_size_def idem_clear_def)
  moreover have "\<not> renewalRunning pm" if "presenceMgr s1 = Some pm" for pm
    using that by (auto simp: s1_def stopRenewalLoop_def)
  moreover have "start_prepare (cleanupAndFinalize sv) \<noteq> None" by (simp add: start_prepare_def cleanupAndFinalize_def)
  ultimately show ?thesis using f by auto
qed

theorem cleanup_clears_witness: "connections (srvNode (cleanupAndFinalize admitted0)) = [] \<and> rooms (srvNode (cleanupAndFinalize admitted0)) = []"
proof -
  have "chanEnabled (srvNode admitted0) = hasRedis (srvNode admitted0)"
  proof -
    have "chanEnabled (srvNode server0) = hasRedis (srvNode server0)"
      by (simp add: server0_def new_PulseServer_def setMaxConnections_def new_node_def)
    then show ?thesis
      using sample_auth by (simp add: admitted0_def upgrade_def upgrade_check_def upgrade_admit_def tryAcquireSlot_def at_capacity_def
          sample_server isAllowed_def sample_origins) (simp add: metric_def)
  qed
  from cleanup_clears [OF this] show ?thesis by simp
qed

section \<open>A connection closes\<close>

definition closed_node :: "string \<Rightarrow> metric_call \<Rightarrow> ('s, 'a) node_scheme \<Rightarrow> ('s, 'a) node_scheme" where
  "closed_node cid m st =
     snd (removeConnectionFromAllRooms cid (sender_rooms cid st) (snd (removeConnection cid (metric m st))))"

lemma leave_settings [simp]:
  fixes st :: "('s, 'a) node_scheme"
  shows "instanceId (snd (leaveRoom r c st)) = instanceId st"
    "instanceId (snd (removeConnection cid st)) = instanceId st" "presenceMgr (snd (removeConnection cid st)) = presenceMgr st"
    "maxRoomIdLength (snd (removeConnection cid st)) = maxRoomIdLength st" "instanceId (metric m st) = instanceId st"
  by (simp_all add: leaveRoom_def removeConnection_def unsubscribeRoom_def unsubscribeUser_def decrementSubscription_def
      pubsub_unsubscribe_def setChannelsActive_def metric_def issue_def Let_def split: option.splits)

lemma closed_settings [simp]:
  fixes st :: "('s, 'a) node_scheme"
  shows "instanceId (closed_node cid m st) = instanceId st" "presenceMgr (closed_node cid m st) = presenceMgr st"
    "maxRoomIdLength (closed_node cid m st) = maxRoomIdLength st"
    "maxRoomsPerConnection (closed_node cid m st) = maxRoomsPerConnection st"
proof -
  have k: "instanceId (snd (removeConnectionFromAllRooms cid rs st)) = instanceId st"
    "presenceMgr (snd (removeConnectionFromAllRooms cid rs st)) = presenceMgr st"
    "maxRoomIdLength (snd (removeConnectionFromAllRooms cid rs st)) = maxRoomIdLength st" for rs and st :: "('s, 'a) node_scheme"
    by (rule removeAll_keeps, simp)+
  show "instanceId (closed_node cid m st) = instanceId st" "presenceMgr (closed_node cid m st) = presenceMgr st"
    "maxRoomIdLength (closed_node cid m st) = maxRoomIdLength st"
    "maxRoomsPerConnection (closed_node cid m st) = maxRoomsPerConnection st"
    by (simp_all add: closed_node_def k)
qed

lemma sender_closed [simp]: "sender_rooms i (closed_node cid m st) = sender_rooms i st" "sender_user i (closed_node cid m st) = sender_user i st"
  by (cases "getConnection cid st"; simp add: closed_node_def sender_rooms_def sender_user_def removeConnection_None
      removeConnection_fields markCleanedUp_def getConnection_def split: if_splits)+

lemma on_close_eq:
  obtains m where "on_close E ok now cid code reason (st, rs) = remove_lease E ok now (sender_user cid st) cid (closed_node cid m st, rs)"
proof -
  define m where "m = MInc ''pulse_connections_closed_total''
    [(''reason'', close_label code (case heap st cid of None \<Rightarrow> False | Some c \<Rightarrow> isHeartbeatTimedOut c) reason)] 1"
  have "sender_rooms cid (snd (removeConnection cid (metric m st))) = sender_rooms cid st"
    by (simp add: sender_rooms_remove) (simp add: sender_rooms_def)
  then have "on_close E ok now cid code reason (st, rs) = remove_lease E ok now (sender_user cid (closed_node cid m st)) cid (closed_node cid m st, rs)"
    by (simp add: on_close_def closed_node_def m_def Let_def)
  then show thesis using that by simp
qed

lemma closed_registry:
  assumes "node_inv st"
  shows "set (connections (closed_node cid m st)) = set (connections st) - {cid}"
    "membership (closed_node cid m st) = {p \<in> membership st. snd p \<noteq> cid}"
proof -
  have "node_inv (metric m st)" using assms by simp
  then have "conn_inv (metric m st)" unfolding node_inv_def by blast
  then show "set (connections (closed_node cid m st)) = set (connections st) - {cid}"
    by (simp add: closed_node_def connections_remove)
  have "membership (snd (removeConnection cid (metric m st))) = membership st" by (rule membership_rooms) (simp add: metric_def)
  then show "membership (closed_node cid m st) = {p \<in> membership st. snd p \<noteq> cid}"
    by (simp add: closed_node_def membership_removeAll)
qed

lemma count_keeps_live:
  assumes "redis_ok R Z S"
  shows "live (Z (snd (getUserConnectionCount R ok u now r)) k) now = live (Z r k) now"
  using redis_okD(2) [OF assms]
  by (simp add: getUserConnectionCount_def Let_def live_pruned split: option.splits)

lemma remove_lease_live:
  assumes "redis_ok (envRedis E) Z S" "presenceMgr st = Some pm" "evalOk ok" "u \<noteq> []" "cid \<noteq> []"
    and "getPresenceUserKey u = Some key" "formatPresenceMember (instanceId st) cid = Some mem"
  shows "live (Z (snd (remove_lease E ok now u cid (st, rs))) k) now = live (Z rs k) now - (if k = key then {mem} else {})"
  using assms(2-) remove_script(2,3) [OF assms(1)]
  by (simp add: remove_lease_def removeConnectionLease_def executeRemovePresence_def case_prod_beta Let_def
      count_keeps_live [OF assms(1)])



definition lobby_presence :: "sim_socket node" where
  "lobby_presence = lobby\<lparr>presenceMgr := Some (new_PresenceManager None None None None True)\<rparr>"

lemma lobby_presence_inv: "node_inv lobby_presence"
  by (rule node_inv_same [OF sample_node_inv]) (simp_all add: lobby_presence_def)


lemma membership_enter: "membership (enter_room cid r st) = insert (r, cid) (membership st)"
  by (simp add: enter_room_def membership_join)

text \<open>
  C6: a batch join that outlives its connection leaks. When the socket closes while \<^verbatim>\<open>handleRoomBatchJoin\<close>
  waits for Redis, the loop goes on with the next room: the connection, no longer registered, is
  entered into the room, and nothing removes it again.
\<close>

theorem batch_join_after_close_leaks:
  fixes st :: "('s, 'a) node_scheme" and E :: "('s, 'r) env" and now :: int and cid reason :: string and code :: nat
    and rs :: 'r and ok :: replies
  assumes "node_inv st" "valid_room_id (maxRoomIdLength st) (js_trim r)" "n + k < maxRoomsPerConnection st"
  defines "st1 \<equiv> fst (on_close E ok now cid code reason (st, rs))"
  defines "st2 \<equiv> snd (batch_body cid n k (JStr r) st1)"
  shows "cid \<notin> set (connections st2) \<and> (js_trim r, cid) \<in> membership st2"
proof -
  obtain m where "on_close E ok now cid code reason (st, rs) = remove_lease E ok now (sender_user cid st) cid (closed_node cid m st, rs)"
    by (rule on_close_eq)
  then have c: "core st1 = core (closed_node cid m st)" by (simp add: st1_def)
  have "cid \<notin> set (connections st1)" using core_eqD(2) [OF c] closed_registry(1) [OF assms(1)] by simp
  moreover have "maxRoomIdLength st1 = maxRoomIdLength st" "maxRoomsPerConnection st1 = maxRoomsPerConnection st"
    using core_eqD(10,11) [OF c] by simp_all
  ultimately show ?thesis
    using assms(2,3) by (simp add: st2_def batch_body_def Let_def membership_enter)
qed


theorem batch_join_after_close_leaks_witness:
  "''c1'' \<notin> set (connections (snd (batch_body ''c1'' 1 0 (JStr ''attic'') (fst (on_close env0 all_ok 9 ''c1'' 1006 [] (lobby, empty_redis))))))
   \<and> (''attic'', ''c1'') \<in> membership (snd (batch_body ''c1'' 1 0 (JStr ''attic'') (fst (on_close env0 all_ok 9 ''c1'' 1006 [] (lobby, empty_redis)))))"
proof -
  have t: "js_trim ''attic'' = ''attic''" by code_simp
  have v: "valid_room_id (maxRoomIdLength lobby) (js_trim ''attic'')" by (simp add: sample_settings t) code_simp
  show ?thesis
    using batch_join_after_close_leaks [OF sample_node_inv v, where n = 1 and k = 0 and cid = "''c1''" and E = env0 and ok = all_ok and now = 9 and code = 1006 and reason = "[]" and rs = empty_redis]
    by (simp add: t sample_settings)
qed

section \<open>The client's address\<close>

text \<open>
  A forwarded address is believed only from a trusted proxy. Unless trust is enabled and the peer is on
  the list of trusted proxies, the address of a connection is the peer's and the header has no
  influence.
\<close>

theorem forwarded_header_needs_trust:
  assumes "client_address c req \<noteq> the (str_or (remoteAddr req) (Some ''127.0.0.1''))"
  shows "cfgTrustProxy c \<and> (\<exists>p \<in> set (cfgTrustedProxies c).
      strip_mapped p = the (str_or (remoteAddr req) (Some ''127.0.0.1''))
      \<or> strip_mapped p = strip_mapped (the (str_or (remoteAddr req) (Some ''127.0.0.1''))))"
  using assms by (auto simp: client_address_def Let_def split: if_splits)

theorem forwarded_header_needs_trust_witness:
  "\<exists>(c :: pulse_config) (req :: upgrade_request). client_address c req = ''203.0.113.9'' \<and> remoteAddr req = Some ''::ffff:10.0.0.1''
     \<and> (\<exists>p \<in> set (cfgTrustedProxies c). strip_mapped p = ''10.0.0.1'')"
proof -
  let ?c = "config0\<lparr>cfgTrustProxy := True, cfgTrustedProxies := [''10.0.0.1'']\<rparr>"
  let ?req = "request0\<lparr>remoteAddr := Some ''::ffff:10.0.0.1'', forwardedFor := Some ''203.0.113.9, 10.0.0.2''\<rparr>"
  have a: "client_address ?c ?req = ''203.0.113.9''" by code_simp
  have m: "strip_mapped ''::ffff:10.0.0.1'' = ''10.0.0.1''" "strip_mapped ''10.0.0.1'' = ''10.0.0.1''" by code_simp+
  have "\<exists>p \<in> set (cfgTrustedProxies ?c). strip_mapped p = ''10.0.0.1''"
    using forwarded_header_needs_trust [of ?c ?req] by (simp add: a m str_or_def)
  moreover have "remoteAddr ?req = Some ''::ffff:10.0.0.1''" by simp
  ultimately show ?thesis using a by blast
qed

section \<open>Well-formed state\<close>

text \<open>
  The stored data is well formed in every reachable state: maps have one entry per key, a room or a
  user without connections has no entry, member lists and the registry have no duplicates, a
  connection is stored under its own identifier, and no acknowledgement is cached without one.
\<close>

theorem server_state_well_formed:
  assumes "server_init (sv0, rs0)" "(server_step E H)\<^sup>*\<^sup>* (sv0, rs0) (sv, rs)"
  defines "st \<equiv> srvNode sv"
  shows "wf_map (rooms st) \<and> wf_map (userConnections st) \<and> wf_map (idemCache (idem st)) \<and> wf_map (claims sv)
     \<and> (\<forall>(r, ms) \<in> set (rooms st). ms \<noteq> [] \<and> distinct ms) \<and> (\<forall>(u, ids) \<in> set (userConnections st). ids \<noteq> [] \<and> distinct ids)
     \<and> distinct (connections st) \<and> (\<forall>cid \<in> set (connections st). \<exists>c. heap st cid = Some c \<and> connectionId c = cid)
     \<and> [] \<notin> set (js_keys (idemCache (idem st)))"
  using server.inv_reachable [OF assms(1,2)]
  by (fastforce simp: server_inv_def node_inv_def room_inv_def rooms_wf_def conn_inv_def index_ok_def idem_inv_def st_def)

theorem server_state_well_formed_witness:
  "wf_map (claims admitted0) \<and> length (claims admitted0) = 1 \<and> distinct (connections (srvNode admitted0))"
proof -
  have r: "(server_step env0 http0)\<^sup>*\<^sup>* (server0, empty_redis) (admitted0, empty_redis)"
    using sample_admit_step by (rule r_into_rtranclp)
  show ?thesis using server_state_well_formed [OF sample_init r] by (simp add: sample_admitted)
qed

end
