(* ===== verification/Client_Session.thy ===== *)
theory Client_Session
  imports Connection
begin

text \<open>
  \<^verbatim>\<open>src/client/PulseClientSession.ts\<close>: the client library. A session keeps a WebSocket to the server,
  reconnects with jittered backoff, joins its rooms again after a reconnect, and retransmits frames
  until they are acknowledged.

  The platform is part of the state: pending timers with their callbacks and due times, promises and
  how they were settled, the sockets with the promise of the \<^verbatim>\<open>connect\<close> that created each of them. An
  object that closures share (an entry of the in-flight queue) is identified by its promise. Identifiers
  of timers, promises and sockets are drawn from one counter. A function that awaits is divided at the
  await: \<open>resuming\<close> holds the continuations of \<^verbatim>\<open>resubscribeRooms\<close>, \<open>closing\<close> counts those of
  \<^verbatim>\<open>disconnect\<close>. The listeners an application registers are not called; the events emitted for them are
  recorded.
\<close>

section \<open>State\<close>

datatype client_state =
    CONNECTED | DISCONNECTED | RECONNECTING_BACKOFF | CONNECTING | AUTHENTICATING
  | RESUBSCRIBING_ROOMS | FLUSH_RETRY_QUEUE

record session_options =
  soServerUrl :: string
  soToken :: string
  soUserId :: string
  soBaseDelayMs :: "int option"
  soMaxDelayMs :: "int option"
  soMaxRetries :: "nat option"
  soAckTimeoutMs :: "int option"
  soQueueCapacity :: "nat option"
  soAutoReconnect :: "bool option"

record session_config =
  serverUrl :: string
  sessionToken :: string
  sessionUser :: string
  baseDelayMs :: int
  maxDelayMs :: int
  maxRetries :: nat
  ackTimeoutMs :: int
  queueCapacity :: nat
  autoReconnect :: bool

text \<open>
  What the session calls: the \<^verbatim>\<open>WebSocket\<close> class (the constructor throws on a malformed URL), \<^verbatim>\<open>JSON.parse\<close>,
  the source of the jitter and the random bytes of identifiers.
\<close>

record 's client_api =
  openSocket :: "string \<Rightarrow> 's option"
  clReady :: "'s \<Rightarrow> nat"
  clSend :: "envelope \<Rightarrow> 's \<Rightarrow> 's"
  clClose :: "nat \<Rightarrow> string \<Rightarrow> 's \<Rightarrow> 's"
  clTerminate :: "'s \<Rightarrow> 's"
  clParse :: "string \<Rightarrow> json option"
  clRandom :: "nat \<Rightarrow> rat"
  clBytes :: "nat \<Rightarrow> nat"

datatype timer_event = ReconnectTimer | ConnectTimeout nat | AckTimer string nat

datatype promise_outcome = PromiseResolved "json option" | PromiseRejected string

datatype session_event =
    StateChange client_state client_state
  | CloseEvent nat string
  | ErrorEvent string
  | ConnectedEvent json
  | MessageEvent json

record inflight =
  entEnvelope :: envelope
  entRetries :: nat
  entTimer :: "nat option"

record 's session = runtime +
  sessionConfig :: session_config
  sessionState :: client_state
  theSocket :: "nat option"
  currentSeq :: int
  lastBackoffDelay :: int
  reconnectAttempt :: nat
  reconnectTimer :: "nat option"
  connectionTimeoutTimer :: "nat option"
  isExplicitlyClosed :: bool
  desiredRooms :: "string jsset"
  inFlightQueue :: "(string, nat) jsmap"
  errorListeners :: nat
  nextId :: nat
  timers :: "nat \<Rightarrow> (timer_event \<times> int) option"
  entries :: "nat \<Rightarrow> inflight option"
  settled :: "nat \<Rightarrow> promise_outcome option"
  sockets :: "nat \<Rightarrow> (nat \<times> 's) option"
  resuming :: "(nat \<times> nat \<times> json) list"
  closing :: nat
  randomDraws :: nat
  sentFrames :: "(nat \<times> envelope) list"
  sessionEvents :: "session_event list"

definition session_config_of :: "session_options \<Rightarrow> session_config" where
  "session_config_of opts =
     \<lparr>serverUrl = soServerUrl opts, sessionToken = soToken opts, sessionUser = soUserId opts,
      baseDelayMs = (case soBaseDelayMs opts of Some n \<Rightarrow> n | None \<Rightarrow> 500),
      maxDelayMs = (case soMaxDelayMs opts of Some n \<Rightarrow> n | None \<Rightarrow> 10000),
      maxRetries = (case soMaxRetries opts of Some n \<Rightarrow> n | None \<Rightarrow> 3),
      ackTimeoutMs = (case soAckTimeoutMs opts of Some n \<Rightarrow> n | None \<Rightarrow> 3000),
      queueCapacity = (case soQueueCapacity opts of Some n \<Rightarrow> n | None \<Rightarrow> 100),
      autoReconnect = (case soAutoReconnect opts of Some b \<Rightarrow> b | None \<Rightarrow> True)\<rparr>"

definition new_PulseClientSession :: "session_options \<Rightarrow> 's session" where
  "new_PulseClientSession opts =
     \<lparr>metricCalls = [], lastMs = 0, sequenceCounter = 0, draws = 0,
      sessionConfig = session_config_of opts, sessionState = DISCONNECTED, theSocket = None, currentSeq = 0,
      lastBackoffDelay = 0, reconnectAttempt = 0, reconnectTimer = None, connectionTimeoutTimer = None,
      isExplicitlyClosed = False, desiredRooms = [], inFlightQueue = [], errorListeners = 0, nextId = 0,
      timers = (\<lambda>_. None), entries = (\<lambda>_. None), settled = (\<lambda>_. None), sockets = (\<lambda>_. None), resuming = [],
      closing = 0, randomDraws = 0, sentFrames = [], sessionEvents = []\<rparr>"

section \<open>The platform\<close>

definition setTimer :: "timer_event \<Rightarrow> int \<Rightarrow> 's session \<Rightarrow> nat \<times> 's session" where
  "setTimer ev due s = (nextId s, s\<lparr>timers := (timers s)(nextId s \<mapsto> (ev, due)), nextId := Suc (nextId s)\<rparr>)"

definition clearTimer :: "nat option \<Rightarrow> 's session \<Rightarrow> 's session" where
  "clearTimer t s = (case t of None \<Rightarrow> s | Some i \<Rightarrow> s\<lparr>timers := (timers s)(i := None)\<rparr>)"

text \<open>A promise keeps its first outcome.\<close>

definition settle :: "nat \<Rightarrow> promise_outcome \<Rightarrow> 's session \<Rightarrow> 's session" where
  "settle p out s = (if settled s p = None then s\<lparr>settled := (settled s)(p \<mapsto> out)\<rparr> else s)"

definition new_promise :: "'s session \<Rightarrow> nat \<times> 's session" where
  "new_promise s = (nextId s, s\<lparr>nextId := Suc (nextId s)\<rparr>)"

definition emit_event :: "session_event \<Rightarrow> 's session \<Rightarrow> 's session" where
  "emit_event ev s = s\<lparr>sessionEvents := sessionEvents s @ [ev]\<rparr>"

definition on_socket :: "nat option \<Rightarrow> ('s \<Rightarrow> 's) \<Rightarrow> 's session \<Rightarrow> 's session" where
  "on_socket k f s =
     (case k of
        None \<Rightarrow> s
      | Some i \<Rightarrow> s\<lparr>sockets := (sockets s)(i := map_option (\<lambda>(c, w). (c, f w)) (sockets s i))\<rparr>)"

definition socket_ready :: "'s client_api \<Rightarrow> 's session \<Rightarrow> nat option" where
  "socket_ready A s =
     (case theSocket s of None \<Rightarrow> None | Some k \<Rightarrow> map_option (\<lambda>(_, w). clReady A w) (sockets s k))"

text \<open>\<^verbatim>\<open>encodeURIComponent\<close> on code units below 256: UTF-8, percent-encoded outside the unreserved set.\<close>

definition hex_upper :: "nat \<Rightarrow> char" where
  "hex_upper n = (if n < 10 then char_of (48 + n) else char_of (55 + n))"

definition percent_byte :: "nat \<Rightarrow> string" where
  "percent_byte b = [CHR ''%'', hex_upper (b div 16), hex_upper (b mod 16)]"

definition encode_unit :: "char \<Rightarrow> string" where
  "encode_unit c =
     (let n = of_char c :: nat
      in if 48 \<le> n \<and> n \<le> 57 \<or> 65 \<le> n \<and> n \<le> 90 \<or> 97 \<le> n \<and> n \<le> 122 \<or> n \<in> {33, 39, 40, 41, 42, 45, 46, 95, 126}
         then [c]
         else if n < 128 then percent_byte n
         else percent_byte (192 + n div 64) @ percent_byte (128 + n mod 64))"

definition encodeURIComponent :: "string \<Rightarrow> string" where
  "encodeURIComponent s = concat (map encode_unit s)"

section \<open>Backoff\<close>

definition setState :: "client_state \<Rightarrow> 's session \<Rightarrow> 's session" where
  "setState new s = emit_event (StateChange (sessionState s) new) (s\<lparr>sessionState := new\<rparr>)"

definition computeNextBackoffDelay :: "'s client_api \<Rightarrow> 's session \<Rightarrow> int \<times> 's session" where
  "computeNextBackoffDelay A s =
     (let base = baseDelayMs (sessionConfig s); mx = maxDelayMs (sessionConfig s); r = clRandom A (randomDraws s);
          d = (if reconnectAttempt s = 0 \<or> lastBackoffDelay s = 0
               then min mx (base + \<lfloor>r * of_int base\<rfloor>)
               else let top = min mx (lastBackoffDelay s * 3)
                    in min mx (max base (base + \<lfloor>r * of_int (top - base)\<rfloor>)))
      in (d, s\<lparr>lastBackoffDelay := d, randomDraws := Suc (randomDraws s)\<rparr>))"

definition resetBackoff :: "'s session \<Rightarrow> 's session" where
  "resetBackoff s = s\<lparr>reconnectAttempt := 0, lastBackoffDelay := 0\<rparr>"

definition clearReconnectTimer :: "'s session \<Rightarrow> 's session" where
  "clearReconnectTimer s = (clearTimer (reconnectTimer s) s)\<lparr>reconnectTimer := None\<rparr>"

definition clearConnectionTimeout :: "'s session \<Rightarrow> 's session" where
  "clearConnectionTimeout s = (clearTimer (connectionTimeoutTimer s) s)\<lparr>connectionTimeoutTimer := None\<rparr>"

definition handleDisconnectOrError :: "'s client_api \<Rightarrow> int \<Rightarrow> 's session \<Rightarrow> 's session" where
  "handleDisconnectOrError A now s =
     (if isExplicitlyClosed s \<or> \<not> autoReconnect (sessionConfig s) then s
      else let (delay, s1) = computeNextBackoffDelay A (s\<lparr>reconnectAttempt := Suc (reconnectAttempt s)\<rparr>);
               (t, s2) = setTimer ReconnectTimer (now + delay) (clearReconnectTimer (setState RECONNECTING_BACKOFF s1))
           in s2\<lparr>reconnectTimer := Some t\<rparr>)"

section \<open>Sending\<close>

definition transmitFrame :: "'s client_api \<Rightarrow> envelope \<Rightarrow> 's session \<Rightarrow> 's session" where
  "transmitFrame A e s =
     (case theSocket s of
        None \<Rightarrow> s
      | Some k \<Rightarrow>
          if socket_ready A s = Some WS_OPEN
          then (on_socket (Some k) (clSend A e) s)\<lparr>sentFrames := sentFrames s @ [(k, e)]\<rparr> else s)"

definition armAckTimeout :: "int \<Rightarrow> string \<Rightarrow> nat \<Rightarrow> 's session \<Rightarrow> 's session" where
  "armAckTimeout now corr p s =
     (let (t, s1) = setTimer (AckTimer corr p) (now + ackTimeoutMs (sessionConfig s)) s
      in s1\<lparr>entries := (entries s1)(p := map_option (\<lambda>en. en\<lparr>entTimer := Some t\<rparr>) (entries s1 p))\<rparr>)"

text \<open>The function returns a promise; a throw before the first await rejects it.\<close>

definition sendEnvelope :: "'s client_api \<Rightarrow> int \<Rightarrow> envelope \<Rightarrow> 's session \<Rightarrow> nat \<times> 's session" where
  "sendEnvelope A now opts s0 =
     (let (p, s) = new_promise s0
      in (p,
        if length (inFlightQueue s) \<ge> queueCapacity (sessionConfig s)
        then settle p (PromiseRejected ''BUFFER_FULL: Client in-flight queue capacity reached'') s
        else
          let n = (case seq opts of Some i \<Rightarrow> i | None \<Rightarrow> currentSeq s + 1);
              s1 = s\<lparr>currentSeq := n\<rparr>;
              (corr, s2) = (case correlationId opts of Some c \<Rightarrow> (c, s1) | None \<Rightarrow> freshId (clBytes A) now s1);
              e = opts\<lparr>seq := Some n, correlationId := Some corr\<rparr>
          in if ackRequired e \<noteq> Some True then settle p (PromiseResolved None) (transmitFrame A e s2)
             else let s3 = s2\<lparr>entries := (entries s2)(p \<mapsto> \<lparr>entEnvelope = e, entRetries = 0, entTimer = None\<rparr>)\<rparr>;
                      s4 = armAckTimeout now corr p s3
                  in transmitFrame A e (s4\<lparr>inFlightQueue := js_set corr p (inFlightQueue s4)\<rparr>)))"

definition retries_exhausted :: "nat \<Rightarrow> string" where
  "retries_exhausted n =
     ''DELIVERY_TIMEOUT: Acknowledgement not received after '' @ js_int_str (int n) @ '' retries''"

text \<open>The callback of the acknowledgement timer.\<close>

definition ackTimeout :: "'s client_api \<Rightarrow> int \<Rightarrow> string \<Rightarrow> nat \<Rightarrow> 's session \<Rightarrow> 's session" where
  "ackTimeout A now corr p s =
     (case entries s p of
        None \<Rightarrow> s
      | Some en \<Rightarrow>
          if entRetries en < maxRetries (sessionConfig s)
          then armAckTimeout now corr p
                 (transmitFrame A (entEnvelope en)
                   (s\<lparr>entries := (entries s)(p \<mapsto> en\<lparr>entRetries := Suc (entRetries en)\<rparr>)\<rparr>))
          else let s1 = clearTimer (entTimer en) s
               in settle p (PromiseRejected (retries_exhausted (maxRetries (sessionConfig s))))
                    (s1\<lparr>inFlightQueue := js_delete corr (inFlightQueue s1)\<rparr>))"

definition flush_entry :: "'s client_api \<Rightarrow> int \<Rightarrow> string \<times> nat \<Rightarrow> 's session \<Rightarrow> 's session" where
  "flush_entry A now = (\<lambda>(corr, p) s.
     case entries s p of
       None \<Rightarrow> s
     | Some en \<Rightarrow>
         let n = currentSeq s + 1;
             e = (entEnvelope en)\<lparr>seq := Some n\<rparr>;
             s1 = (clearTimer (entTimer en) s)\<lparr>currentSeq := n, entries := (entries s)(p \<mapsto> en\<lparr>entEnvelope := e\<rparr>)\<rparr>
         in armAckTimeout now corr p (transmitFrame A e s1))"

definition flushRetryQueue :: "'s client_api \<Rightarrow> int \<Rightarrow> 's session \<Rightarrow> 's session" where
  "flushRetryQueue A now s = fold (flush_entry A now) (inFlightQueue s) (setState FLUSH_RETRY_QUEUE s)"

text \<open>The envelopes of the public operations.\<close>

definition client_envelope ::
  "'s client_api \<Rightarrow> int \<Rightarrow> event_type \<Rightarrow> event_target option \<Rightarrow> json \<Rightarrow> bool \<Rightarrow> 's session \<Rightarrow> envelope \<times> 's session" where
  "client_envelope A now ty tgt pl ack s =
     (let (eid, s1) = freshId (clBytes A) now s
      in (\<lparr>eventId = eid, evType = ty, timestamp = int_num now, senderId = JStr (sessionUser (sessionConfig s)),
           seq = None, target = tgt, payload = pl, correlationId = None, ackRequired = Some ack,
           originInstanceId = None, originTimestampMs = None\<rparr>, s1))"

definition send_new ::
  "'s client_api \<Rightarrow> int \<Rightarrow> event_type \<Rightarrow> event_target option \<Rightarrow> json \<Rightarrow> bool \<Rightarrow> 's session \<Rightarrow> nat \<times> 's session" where
  "send_new A now ty tgt pl ack s =
     (let (e, s1) = client_envelope A now ty tgt pl ack s in sendEnvelope A now e s1)"

definition rooms_payload :: "string list \<Rightarrow> json" where
  "rooms_payload rs = JObj [(''rooms'', JArr (map JStr rs))]"

definition session_joinRoom :: "'s client_api \<Rightarrow> int \<Rightarrow> string \<Rightarrow> 's session \<Rightarrow> nat \<times> 's session" where
  "session_joinRoom A now r s =
     send_new A now ROOM_JOIN (Some (room_target r)) (JObj []) True (s\<lparr>desiredRooms := set_add r (desiredRooms s)\<rparr>)"

definition session_joinRooms :: "'s client_api \<Rightarrow> int \<Rightarrow> string list \<Rightarrow> 's session \<Rightarrow> nat \<times> 's session" where
  "session_joinRooms A now rs s =
     send_new A now ROOM_BATCH_JOIN None (rooms_payload rs) True (s\<lparr>desiredRooms := fold set_add rs (desiredRooms s)\<rparr>)"

definition session_leaveRoom :: "'s client_api \<Rightarrow> int \<Rightarrow> string \<Rightarrow> 's session \<Rightarrow> nat \<times> 's session" where
  "session_leaveRoom A now r s =
     send_new A now ROOM_LEAVE (Some (room_target r)) (JObj []) True (s\<lparr>desiredRooms := set_del r (desiredRooms s)\<rparr>)"

definition sendRoomMessage :: "'s client_api \<Rightarrow> int \<Rightarrow> string \<Rightarrow> json \<Rightarrow> bool \<Rightarrow> 's session \<Rightarrow> nat \<times> 's session" where
  "sendRoomMessage A now r pl ack s = send_new A now ROOM_MESSAGE (Some (room_target r)) pl ack s"

definition sendDirectMessage :: "'s client_api \<Rightarrow> int \<Rightarrow> string \<Rightarrow> json \<Rightarrow> bool \<Rightarrow> 's session \<Rightarrow> nat \<times> 's session" where
  "sendDirectMessage A now u pl ack s = send_new A now DIRECT_MESSAGE (Some (recipient_target u)) pl ack s"

section \<open>Connecting\<close>

definition session_url :: "session_config \<Rightarrow> string" where
  "session_url c =
     serverUrl c @ (if includes_str ''?'' (serverUrl c) then ''&'' else ''?'') @ ''token='' @ encodeURIComponent (sessionToken c)"

definition session_connect :: "'s client_api \<Rightarrow> int \<Rightarrow> 's session \<Rightarrow> nat \<times> 's session" where
  "session_connect A now s0 =
     (let (c, s1) = new_promise ((clearReconnectTimer (s0\<lparr>isExplicitlyClosed := False\<rparr>))\<lparr>currentSeq := 0\<rparr>);
          s2 = setState CONNECTING s1
      in (c,
        case openSocket A (session_url (sessionConfig s2)) of
          None \<Rightarrow>
            settle c (PromiseRejected ''SyntaxError'') (handleDisconnectOrError A now (setState DISCONNECTED s2))
        | Some w \<Rightarrow>
            let (k, s3) = new_promise s2;
                s4 = clearConnectionTimeout (s3\<lparr>theSocket := Some k, sockets := (sockets s3)(k \<mapsto> (c, w))\<rparr>);
                (t, s5) = setTimer (ConnectTimeout c) (now + 5000) s4
            in s5\<lparr>connectionTimeoutTimer := Some t\<rparr>))"

text \<open>The callback of the connection timer.\<close>

definition connectTimeout :: "'s client_api \<Rightarrow> int \<Rightarrow> nat \<Rightarrow> 's session \<Rightarrow> 's session" where
  "connectTimeout A now c s =
     (if sessionState s = CONNECTING \<or> sessionState s = AUTHENTICATING
      then settle c (PromiseRejected ''Connection attempt timed out'')
             (handleDisconnectOrError A now (setState DISCONNECTED (on_socket (theSocket s) (clTerminate A) s)))
      else s)"

text \<open>
  \<^verbatim>\<open>resubscribeRooms\<close> up to its await, and the rest with the end of the handler that awaits it. Both
  outcomes of the promise continue alike: a rejection is logged.
\<close>

definition resubscribeRooms :: "'s client_api \<Rightarrow> int \<Rightarrow> nat \<Rightarrow> json \<Rightarrow> 's session \<Rightarrow> 's session" where
  "resubscribeRooms A now c j s =
     (let s1 = setState RESUBSCRIBING_ROOMS s;
          (p, s2) = send_new A now ROOM_BATCH_JOIN None (rooms_payload (desiredRooms s1)) True s1
      in s2\<lparr>resuming := resuming s2 @ [(p, c, j)]\<rparr>)"

definition connect_finished :: "nat \<Rightarrow> json \<Rightarrow> 's session \<Rightarrow> 's session" where
  "connect_finished c j s = emit_event (ConnectedEvent j) (settle c (PromiseResolved None) s)"

definition resubscribed :: "'s client_api \<Rightarrow> int \<Rightarrow> nat \<times> nat \<times> json \<Rightarrow> 's session \<Rightarrow> 's session" where
  "resubscribed A now = (\<lambda>(p, c, j) s.
     if (p, c, j) \<in> set (resuming s) \<and> settled s p \<noteq> None
     then connect_finished c j (setState CONNECTED (flushRetryQueue A now (s\<lparr>resuming := remove1 (p, c, j) (resuming s)\<rparr>)))
     else s)"

definition is_ack_type :: "json option \<Rightarrow> bool" where
  "is_ack_type ty \<longleftrightarrow>
     ty \<in> {Some (JStr ''DELIVERY_ACK''), Some (JStr ''ROOM_JOIN_ACK''), Some (JStr ''ROOM_BATCH_JOIN_ACK''), Some (JStr ''ROOM_LEAVE_ACK'')}"

definition acknowledge :: "json \<Rightarrow> 's session \<Rightarrow> 's session" where
  "acknowledge j s =
     (case as_str (json_get j ''correlationId'') of
        None \<Rightarrow> s
      | Some corr \<Rightarrow>
          if corr = [] then s
          else (case map_of (inFlightQueue s) corr of
                  None \<Rightarrow> s
                | Some p \<Rightarrow>
                    let s1 = clearTimer (case entries s p of None \<Rightarrow> None | Some en \<Rightarrow> entTimer en) s
                    in settle p (PromiseResolved (Some j)) (s1\<lparr>inFlightQueue := js_delete corr (inFlightQueue s1)\<rparr>)))"

definition handleIncomingEnvelope :: "'s client_api \<Rightarrow> int \<Rightarrow> nat \<Rightarrow> json \<Rightarrow> 's session \<Rightarrow> 's session" where
  "handleIncomingEnvelope A now c j s =
     (if j = JNull then s
      else if json_get j ''type'' = Some (JStr ''SYS_CONNECT_ACK'')
      then let s1 = resetBackoff (clearTimer (connectionTimeoutTimer s) s)
           in if desiredRooms s1 \<noteq> [] then resubscribeRooms A now c j s1
              else connect_finished c j (setState CONNECTED (flushRetryQueue A now s1))
      else emit_event (MessageEvent j) (if is_ack_type (json_get j ''type'') then acknowledge j s else s))"

section \<open>Events\<close>

text \<open>The listeners of the socket \<open>k\<close>; \<open>w\<close> is the state of the socket when the event is delivered.\<close>

definition on_open :: "nat \<Rightarrow> 's \<Rightarrow> 's session \<Rightarrow> 's session" where
  "on_open k w s = (case sockets s k of None \<Rightarrow> s | Some _ \<Rightarrow> setState AUTHENTICATING (on_socket (Some k) (\<lambda>_. w) s))"

definition on_message :: "'s client_api \<Rightarrow> int \<Rightarrow> nat \<Rightarrow> string \<Rightarrow> 's session \<Rightarrow> 's session" where
  "on_message A now k text s =
     (case sockets s k of
        None \<Rightarrow> s
      | Some (c, _) \<Rightarrow> (case clParse A text of None \<Rightarrow> s | Some j \<Rightarrow> handleIncomingEnvelope A now c j s))"

definition on_socket_close :: "'s client_api \<Rightarrow> int \<Rightarrow> nat \<Rightarrow> 's \<Rightarrow> nat \<Rightarrow> string \<Rightarrow> 's session \<Rightarrow> 's session" where
  "on_socket_close A now k w code reason s =
     (case sockets s k of
        None \<Rightarrow> s
      | Some _ \<Rightarrow>
          let s1 = clearConnectionTimeout (on_socket (Some k) (\<lambda>_. w) s);
              s2 = emit_event (CloseEvent code reason) (setState DISCONNECTED s1)
          in if sessionState s1 = CONNECTED \<and> \<not> isExplicitlyClosed s1 then handleDisconnectOrError A now s2 else s2)"

definition on_socket_error :: "'s client_api \<Rightarrow> int \<Rightarrow> nat \<Rightarrow> 's \<Rightarrow> string \<Rightarrow> 's session \<Rightarrow> 's session" where
  "on_socket_error A now k w err s =
     (case sockets s k of
        None \<Rightarrow> s
      | Some (c, _) \<Rightarrow>
          let s1 = on_socket (Some k) (\<lambda>_. w) s;
              s2 = (if errorListeners s1 > 0 then emit_event (ErrorEvent err) s1 else s1)
          in if sessionState s2 = CONNECTING
             then settle c (PromiseRejected err) (handleDisconnectOrError A now (setState DISCONNECTED (clearConnectionTimeout s2)))
             else s2)"

text \<open>A pending timer fires when it is due.\<close>

definition timer_fires :: "'s client_api \<Rightarrow> int \<Rightarrow> nat \<Rightarrow> 's session \<Rightarrow> 's session" where
  "timer_fires A now t s =
     (case timers s t of
        None \<Rightarrow> s
      | Some (ev, due) \<Rightarrow>
          if now < due then s
          else let s1 = clearTimer (Some t) s
               in (case ev of
                     ReconnectTimer \<Rightarrow> if isExplicitlyClosed s1 then s1 else snd (session_connect A now s1)
                   | ConnectTimeout c \<Rightarrow> connectTimeout A now c s1
                   | AckTimer corr p \<Rightarrow> ackTimeout A now corr p s1))"

text \<open>\<^verbatim>\<open>disconnect\<close> up to its await, and what follows.\<close>

definition reject_entry :: "string \<times> nat \<Rightarrow> 's session \<Rightarrow> 's session" where
  "reject_entry = (\<lambda>(corr, p) s.
     settle p (PromiseRejected ''SESSION_CLOSED: Client session was disconnected'')
       (clearTimer (case entries s p of None \<Rightarrow> None | Some en \<Rightarrow> entTimer en) s))"

definition disconnect_end :: "'s session \<Rightarrow> 's session" where
  "disconnect_end s = setState DISCONNECTED (s\<lparr>theSocket := None\<rparr>)"

definition session_disconnect :: "'s client_api \<Rightarrow> 's session \<Rightarrow> 's session" where
  "session_disconnect A s =
     (let s1 = clearConnectionTimeout (clearReconnectTimer (s\<lparr>isExplicitlyClosed := True\<rparr>));
          s2 = (fold reject_entry (inFlightQueue s1) s1)\<lparr>inFlightQueue := []\<rparr>
      in if socket_ready A s2 \<in> {Some WS_OPEN, Some WS_CONNECTING}
         then (on_socket (theSocket s2) (clClose A 1000 ''Client disconnect'') s2)\<lparr>closing := Suc (closing s2)\<rparr>
         else disconnect_end s2)"

definition disconnected :: "'s session \<Rightarrow> 's session" where
  "disconnected s = (case closing s of 0 \<Rightarrow> s | Suc n \<Rightarrow> disconnect_end (s\<lparr>closing := n\<rparr>))"

section \<open>Runs\<close>

datatype 's session_action =
    Connect
  | Disconnect
  | DisconnectDone
  | JoinRoom string
  | JoinRooms "string list"
  | LeaveRoom string
  | SendRoomMessage string json bool
  | SendDirectMessage string json bool
  | SendEnvelope envelope
  | TimerFires nat
  | SocketOpen nat 's
  | SocketMessage nat string
  | SocketClose nat 's nat string
  | SocketError nat 's string
  | Resubscribed nat nat json

fun session_act :: "'s client_api \<Rightarrow> int \<Rightarrow> 's session_action \<Rightarrow> 's session \<Rightarrow> 's session" where
  "session_act A now Connect s = snd (session_connect A now s)"
| "session_act A now Disconnect s = session_disconnect A s"
| "session_act A now DisconnectDone s = disconnected s"
| "session_act A now (JoinRoom r) s = snd (session_joinRoom A now r s)"
| "session_act A now (JoinRooms rs) s = snd (session_joinRooms A now rs s)"
| "session_act A now (LeaveRoom r) s = snd (session_leaveRoom A now r s)"
| "session_act A now (SendRoomMessage r pl ack) s = snd (sendRoomMessage A now r pl ack s)"
| "session_act A now (SendDirectMessage u pl ack) s = snd (sendDirectMessage A now u pl ack s)"
| "session_act A now (SendEnvelope e) s = snd (sendEnvelope A now e s)"
| "session_act A now (TimerFires t) s = timer_fires A now t s"
| "session_act A now (SocketOpen k w) s = on_open k w s"
| "session_act A now (SocketMessage k text) s = on_message A now k text s"
| "session_act A now (SocketClose k w code reason) s = on_socket_close A now k w code reason s"
| "session_act A now (SocketError k w err) s = on_socket_error A now k w err s"
| "session_act A now (Resubscribed p c j) s = resubscribed A now (p, c, j) s"

definition session_run :: "'s client_api \<Rightarrow> (int \<times> 's session_action) list \<Rightarrow> 's session \<Rightarrow> 's session" where
  "session_run A acts s = fold (\<lambda>(now, a). session_act A now a) acts s"

end
