(* ===== verification/Client_Inv.thy ===== *)
theory Client_Inv
  imports Client_Session
begin

text \<open>
  The invariant of a client session: the in-flight queue is bounded, and no acknowledgement is forgotten.
  Every frame sent with \<^verbatim>\<open>ackRequired\<close> whose promise is not settled has exactly one pending timer, and
  that timer's callback retransmits it or rejects the promise.
\<close>

section \<open>The invariant\<close>

definition armed :: "'s session \<Rightarrow> string \<Rightarrow> nat \<Rightarrow> bool" where
  "armed s corr p \<longleftrightarrow>
     (\<exists>en t due. entries s p = Some en \<and> entTimer en = Some t \<and> timers s t = Some (AckTimer corr p, due))"

lemma armed_case:
  "armed s corr p \<longleftrightarrow> (case entries s p of None \<Rightarrow> False | Some en \<Rightarrow>
     (case entTimer en of None \<Rightarrow> False | Some t \<Rightarrow> (\<exists>due. timers s t = Some (AckTimer corr p, due))))"
  by (auto simp: armed_def split: option.splits)

definition queue_ok :: "'s session \<Rightarrow> bool" where
  "queue_ok s \<longleftrightarrow> wf_map (inFlightQueue s) \<and> length (inFlightQueue s) \<le> queueCapacity (sessionConfig s)
     \<and> (\<forall>corr p. (corr, p) \<in> set (inFlightQueue s) \<longrightarrow> settled s p = None \<and> armed s corr p)"

definition entries_ok :: "'s session \<Rightarrow> bool" where
  "entries_ok s \<longleftrightarrow> (\<forall>p en. entries s p = Some en \<longrightarrow> settled s p = None \<longrightarrow>
     entRetries en \<le> maxRetries (sessionConfig s) \<and> (\<exists>corr. armed s corr p))"

definition acks_ok :: "'s session \<Rightarrow> bool" where
  "acks_ok s \<longleftrightarrow> (\<forall>t corr p due. timers s t = Some (AckTimer corr p, due) \<longrightarrow>
     settled s p = None \<and> (\<exists>en. entries s p = Some en \<and> entTimer en = Some t))"

definition fields_ok :: "'s session \<Rightarrow> bool" where
  "fields_ok s \<longleftrightarrow>
     (\<forall>t ev due. reconnectTimer s = Some t \<longrightarrow> timers s t = Some (ev, due) \<longrightarrow> ev = ReconnectTimer)
   \<and> (\<forall>t ev due. connectionTimeoutTimer s = Some t \<longrightarrow> timers s t = Some (ev, due) \<longrightarrow> (\<exists>c. ev = ConnectTimeout c))
   \<and> (\<forall>t. reconnectTimer s = Some t \<or> connectionTimeoutTimer s = Some t \<longrightarrow> t < nextId s)"

text \<open>A promise of \<^verbatim>\<open>connect\<close> is not the promise of an entry.\<close>

definition plain :: "'s session \<Rightarrow> nat \<Rightarrow> bool" where
  "plain s c \<longleftrightarrow> c < nextId s \<and> entries s c = None"

definition promises_ok :: "'s session \<Rightarrow> bool" where
  "promises_ok s \<longleftrightarrow>
     (\<forall>t c due. timers s t = Some (ConnectTimeout c, due) \<longrightarrow> plain s c)
   \<and> (\<forall>k c w. sockets s k = Some (c, w) \<longrightarrow> plain s c)
   \<and> (\<forall>p c j. (p, c, j) \<in> set (resuming s) \<longrightarrow> plain s c)"

definition fresh_ok :: "'s session \<Rightarrow> bool" where
  "fresh_ok s \<longleftrightarrow> (\<forall>i \<ge> nextId s. timers s i = None \<and> entries s i = None \<and> settled s i = None)"

definition session_inv :: "'s session \<Rightarrow> bool" where
  "session_inv s \<longleftrightarrow> queue_ok s \<and> entries_ok s \<and> acks_ok s \<and> fields_ok s \<and> promises_ok s \<and> fresh_ok s"

lemmas session_inv_defs = session_inv_def queue_ok_def entries_ok_def acks_ok_def fields_ok_def promises_ok_def
  fresh_ok_def plain_def armed_def

lemma session_invD:
  assumes "session_inv s"
  shows "queue_ok s" "entries_ok s" "acks_ok s" "fields_ok s" "promises_ok s" "fresh_ok s"
  using assms by (simp_all add: session_inv_def)

text \<open>What the invariant depends on.\<close>

definition view where
  "view s = (sessionConfig s, inFlightQueue s, reconnectTimer s, connectionTimeoutTimer s, nextId s, timers s,
     entries s, settled s, \<lambda>k. map_option fst (sockets s k), resuming s)"

lemma session_inv_view:
  assumes "view s' = view s"
  shows "session_inv s' = session_inv s"
proof -
  have k: "(\<exists>w. sockets s' k = Some (c, w)) = (\<exists>w. sockets s k = Some (c, w))" for k c
  proof -
    have "map_option fst (sockets s' k) = map_option fst (sockets s k)" using assms by (simp add: view_def) metis
    then show ?thesis by (cases "sockets s' k"; cases "sockets s k") auto
  qed
  have "(\<forall>k c w. sockets s' k = Some (c, w) \<longrightarrow> plain s c) = (\<forall>k c w. sockets s k = Some (c, w) \<longrightarrow> plain s c)"
    using k by metis
  then show ?thesis using assms by (simp add: session_inv_defs view_def)
qed

lemma view_eqs [simp]:
  "view (setState x s) = view s" "view (emit_event ev s) = view s" "view (on_socket k f s) = view s"
  "view (resetBackoff s) = view s" "view (s\<lparr>currentSeq := n\<rparr>) = view s" "view (s\<lparr>desiredRooms := rs\<rparr>) = view s"
  "view (s\<lparr>isExplicitlyClosed := b\<rparr>) = view s" "view (s\<lparr>reconnectAttempt := m\<rparr>) = view s"
  "view (s\<lparr>theSocket := so\<rparr>) = view s" "view (s\<lparr>closing := cl\<rparr>) = view s" "view (s\<lparr>sentFrames := fs\<rparr>) = view s"
  "view (snd (computeNextBackoffDelay A s)) = view s" "view (snd (freshId rnd now s)) = view s"
  by (auto simp: view_def setState_def emit_event_def on_socket_def resetBackoff_def computeNextBackoffDelay_def
      freshId_def advance_uuid_def Let_def case_prod_beta option.map_comp o_def split: option.splits)

lemma view_transmit [simp]: "view (transmitFrame A e s) = view s"
proof -
  have "view (on_socket k f s\<lparr>sentFrames := fs\<rparr>) = view s" for k f fs
    using view_eqs(3) [of k f s] by (simp add: view_def)
  then show ?thesis by (simp add: transmitFrame_def split: option.splits)
qed

lemma view_eqD:
  assumes "view s' = view s"
  shows "sessionConfig s' = sessionConfig s" "inFlightQueue s' = inFlightQueue s" "nextId s' = nextId s"
    "timers s' = timers s" "entries s' = entries s" "settled s' = settled s" "resuming s' = resuming s"
    "reconnectTimer s' = reconnectTimer s" "connectionTimeoutTimer s' = connectionTimeoutTimer s" "plain s' = plain s"
  using assms by (auto simp: view_def plain_def)

section \<open>Primitive changes\<close>

lemma inv_drop_timer:
  assumes "session_inv s" "\<And>corr p due. timers s t \<noteq> Some (AckTimer corr p, due)"
  shows "session_inv (s\<lparr>timers := (timers s)(t := None)\<rparr>)"
proof -
  let ?s = "s\<lparr>timers := (timers s)(t := None)\<rparr>"
  have a: "armed ?s corr p = armed s corr p" for corr p using assms(2) by (auto simp: armed_case split: option.splits)
  show ?thesis using session_invD [OF assms(1)]
    by (simp add: session_inv_def queue_ok_def entries_ok_def acks_ok_def fields_ok_def promises_ok_def fresh_ok_def plain_def a)
qed

lemma inv_new_promise: "session_inv s \<Longrightarrow> session_inv (s\<lparr>nextId := Suc (nextId s)\<rparr>)"
  by (auto simp: session_inv_defs less_Suc_eq)

lemma inv_settle_plain:
  assumes "session_inv s" "plain s c"
  shows "session_inv (settle c out s)"
proof (cases "settled s c")
  case None
  let ?s = "s\<lparr>settled := (settled s)(c \<mapsto> out)\<rparr>"
  have e: "entries s c = None" "c < nextId s" using assms(2) by (auto simp: plain_def)
  have p: "p \<noteq> c" if "armed s corr p" for corr p using that e by (auto simp: armed_def)
  have a: "armed ?s corr p = armed s corr p" for corr p by (simp add: armed_def)
  have "queue_ok ?s" using session_invD(1) [OF assms(1)] p unfolding queue_ok_def a by auto
  moreover have "entries_ok ?s" using session_invD(2) [OF assms(1)] unfolding entries_ok_def a by auto
  moreover have "acks_ok ?s" using session_invD(3) [OF assms(1)] e unfolding acks_ok_def by fastforce
  moreover have "fields_ok ?s" "promises_ok ?s" "fresh_ok ?s"
    using session_invD(4-6) [OF assms(1)] e by (auto simp: fields_ok_def promises_ok_def plain_def fresh_ok_def)
  ultimately show ?thesis using None by (simp add: settle_def session_inv_def)
qed (use assms in \<open>simp add: settle_def\<close>)

lemma inv_add_timer:
  assumes inv: "session_inv s" and ev: "case ev of AckTimer _ _ \<Rightarrow> False | ConnectTimeout c \<Rightarrow> plain s c | ReconnectTimer \<Rightarrow> True"
  shows "session_inv (snd (setTimer ev due s))"
proof -
  let ?s = "snd (setTimer ev due s)"
  note [simp] = setTimer_def
  have f: "timers s (nextId s) = None" using session_invD(6) [OF inv] by (auto simp: fresh_ok_def)
  have n: "ev \<noteq> AckTimer corr p" for corr p using ev by auto
  have a: "armed ?s corr p = armed s corr p" for corr p
    using f n by (auto simp: armed_case split: option.splits)
  have "queue_ok ?s" using session_invD(1) [OF inv] unfolding queue_ok_def a by simp
  moreover have "entries_ok ?s" using session_invD(2) [OF inv] unfolding entries_ok_def a by simp
  moreover have "acks_ok ?s" using session_invD(3) [OF inv] n by (simp add: acks_ok_def)
  moreover have "fields_ok ?s" using session_invD(4) [OF inv] by (fastforce simp: fields_ok_def)
  moreover have "promises_ok ?s" using session_invD(5) [OF inv] ev
    by (fastforce simp: promises_ok_def plain_def less_Suc_eq split: timer_event.splits)
  moreover have "fresh_ok ?s" using session_invD(6) [OF inv] by (simp add: fresh_ok_def)
  ultimately show ?thesis by (simp add: session_inv_def)
qed

text \<open>An acknowledgement timer is replaced by a new one, its entry is updated.\<close>

definition rearm :: "string \<Rightarrow> nat \<Rightarrow> nat \<Rightarrow> inflight \<Rightarrow> int \<Rightarrow> 's session \<Rightarrow> 's session" where
  "rearm corr p t en due s = s\<lparr>timers := (timers s)(t := None, nextId s \<mapsto> (AckTimer corr p, due)),
     entries := (entries s)(p \<mapsto> en\<lparr>entTimer := Some (nextId s)\<rparr>), nextId := Suc (nextId s)\<rparr>"

lemma inv_rearm:
  assumes inv: "session_inv s" and t: "timers s t = Some (AckTimer corr p, d)"
    and en: "entRetries en \<le> maxRetries (sessionConfig s)"
  shows "session_inv (rearm corr p t en due s)"
proof -
  let ?s = "rearm corr p t en due s"
  note [simp] = rearm_def
  have f: "timers s (nextId s) = None" "t < nextId s"
    using session_invD(6) [OF inv] t by (auto simp: fresh_ok_def) (metis linorder_not_less option.distinct(1))
  obtain old where old: "entries s p = Some old" "entTimer old = Some t" "settled s p = None"
    using session_invD(3) [OF inv] t unfolding acks_ok_def by blast
  have only: "corr' = corr" if "armed s corr' p" for corr' using that old t by (auto simp: armed_def)
  have a: "armed ?s corr' q = armed s corr' q" for corr' q
  proof (cases "q = p")
    case True
    then show ?thesis using only old t by (auto simp: armed_case)
  next
    case False
    then show ?thesis using f t by (auto simp: armed_case split: option.splits)
  qed
  have "queue_ok ?s" using session_invD(1) [OF inv] unfolding queue_ok_def a by simp
  moreover have "entries_ok ?s" using session_invD(2) [OF inv] en old t unfolding entries_ok_def a by (auto simp: armed_def)
  moreover have "acks_ok ?s"
  proof -
    have "settled ?s q = None \<and> (\<exists>e. entries ?s q = Some e \<and> entTimer e = Some t')"
      if "timers ?s t' = Some (AckTimer c q, d')" for t' c q d'
    proof (cases "t' = nextId s")
      case False
      with that have s: "timers s t' = Some (AckTimer c q, d')" "t' \<noteq> t" by (auto split: if_splits)
      then obtain e where "settled s q = None" "entries s q = Some e" "entTimer e = Some t'"
        using session_invD(3) [OF inv] unfolding acks_ok_def by blast
      with s(2) old show ?thesis by auto
    qed (use that old in auto)
    then show ?thesis unfolding acks_ok_def by blast
  qed
  moreover have "fields_ok ?s" using session_invD(4) [OF inv] f by (auto simp: fields_ok_def less_Suc_eq)
  moreover have "promises_ok ?s" using session_invD(5) [OF inv] old f
    by (fastforce simp: promises_ok_def plain_def split: if_splits)
  moreover have "fresh_ok ?s" using session_invD(6) [OF inv] f old by (auto simp: fresh_ok_def)
  ultimately show ?thesis by (simp add: session_inv_def)
qed

text \<open>An entry is settled, its timer removed, its correlation identifier forgotten.\<close>

definition retire :: "string \<Rightarrow> nat \<Rightarrow> nat \<Rightarrow> promise_outcome \<Rightarrow> (string, nat) jsmap \<Rightarrow> 's session \<Rightarrow> 's session" where
  "retire corr p t out q s = s\<lparr>timers := (timers s)(t := None), inFlightQueue := q, settled := (settled s)(p \<mapsto> out)\<rparr>"

lemma inv_retire:
  assumes inv: "session_inv s" and t: "timers s t = Some (AckTimer corr p, d)"
    and q: "wf_map q" "set q \<subseteq> {x \<in> set (inFlightQueue s). fst x \<noteq> corr}" "length q \<le> length (inFlightQueue s)"
  shows "session_inv (retire corr p t out q s)"
proof -
  let ?s = "retire corr p t out q s"
  note [simp] = retire_def
  obtain old where old: "entries s p = Some old" "entTimer old = Some t" "settled s p = None"
    using session_invD(3) [OF inv] t unfolding acks_ok_def by blast
  have only: "corr' = corr" if "armed s corr' p" for corr' using that old t by (auto simp: armed_def)
  have a: "armed ?s corr' r = armed s corr' r" if "r \<noteq> p" for corr' r
    using that old t by (auto simp: armed_case split: option.splits)
  have "queue_ok ?s"
  proof -
    have "settled ?s r = None \<and> armed ?s c r" if "(c, r) \<in> set q" for c r
    proof -
      have "settled s r = None" "armed s c r" "c \<noteq> corr"
        using that q(2) session_invD(1) [OF inv] by (auto simp: queue_ok_def)
      moreover from this have "r \<noteq> p" using only by auto
      ultimately show ?thesis using a [of r c] by simp
    qed
    moreover have "length q \<le> queueCapacity (sessionConfig s)"
      using q(3) session_invD(1) [OF inv] by (simp add: queue_ok_def)
    ultimately show ?thesis using q(1) unfolding queue_ok_def by auto
  qed
  moreover have "entries_ok ?s" using session_invD(2) [OF inv] a by (auto simp: entries_ok_def)
  moreover have "acks_ok ?s" using session_invD(3) [OF inv] old by (fastforce simp: acks_ok_def split: if_splits)
  moreover have "fields_ok ?s" "promises_ok ?s" using session_invD(4,5) [OF inv] by (auto simp: fields_ok_def promises_ok_def plain_def)
  moreover have "fresh_ok ?s" using session_invD(6) [OF inv] old by (auto simp: fresh_ok_def)
  ultimately show ?thesis by (simp add: session_inv_def)
qed


text \<open>A promise that is new belongs to nothing yet.\<close>

definition unused :: "'s session \<Rightarrow> nat \<Rightarrow> bool" where
  "unused s p \<longleftrightarrow> plain s p \<and> settled s p = None \<and> (\<forall>t due. timers s t \<noteq> Some (ConnectTimeout p, due))
     \<and> (\<forall>k w. sockets s k \<noteq> Some (p, w)) \<and> (\<forall>q j. (q, p, j) \<notin> set (resuming s))"

lemma unused_new_promise: "session_inv s \<Longrightarrow> unused (snd (new_promise s)) (nextId s)"
  unfolding unused_def new_promise_def plain_def
  using session_invD(5,6) [of s] by (fastforce simp: promises_ok_def fresh_ok_def plain_def)

lemma unused_view:
  assumes "view s' = view s"
  shows "unused s' p = unused s p"
proof -
  have k: "(\<exists>w. sockets s' k = Some (p, w)) = (\<exists>w. sockets s k = Some (p, w))" for k
  proof -
    have "map_option fst (sockets s' k) = map_option fst (sockets s k)" using assms by (simp add: view_def) metis
    then show ?thesis by (cases "sockets s' k"; cases "sockets s k") auto
  qed
  then have "(\<forall>k w. sockets s' k \<noteq> Some (p, w)) = (\<forall>k w. sockets s k \<noteq> Some (p, w))" by blast
  then show ?thesis using view_eqD [OF assms] by (simp add: unused_def)
qed

definition add_entry :: "string \<Rightarrow> nat \<Rightarrow> inflight \<Rightarrow> int \<Rightarrow> 's session \<Rightarrow> 's session" where
  "add_entry corr p en due s = s\<lparr>timers := (timers s)(nextId s \<mapsto> (AckTimer corr p, due)),
     entries := (entries s)(p \<mapsto> en\<lparr>entTimer := Some (nextId s)\<rparr>), nextId := Suc (nextId s),
     inFlightQueue := js_set corr p (inFlightQueue s)\<rparr>"

lemma set_js_set: "set (js_set k v m) \<subseteq> insert (k, v) (set m)"
  by (induction m) auto

lemma inv_add_entry:
  assumes inv: "session_inv s" and p: "unused s p" and en: "entRetries en = 0"
    and len: "length (inFlightQueue s) < queueCapacity (sessionConfig s)"
  shows "session_inv (add_entry corr p en due s)"
proof -
  let ?s = "add_entry corr p en due s"
  note [simp] = add_entry_def
  have f: "timers s (nextId s) = None" using session_invD(6) [OF inv] by (auto simp: fresh_ok_def)
  have e: "entries s p = None" "settled s p = None" "p < nextId s" using p by (auto simp: unused_def plain_def)
  have a: "armed ?s c q = (if q = p then c = corr else armed s c q)" for c q
    using f by (auto simp: armed_case split: option.splits)
  have n: "\<not> armed s c p" for c using e by (simp add: armed_def)
  have "queue_ok ?s"
  proof -
    have "settled ?s q = None \<and> armed ?s c q" if "(c, q) \<in> set (js_set corr p (inFlightQueue s))" for c q
    proof (cases "(c, q) = (corr, p)")
      case False
      then have "(c, q) \<in> set (inFlightQueue s)" using that set_js_set by fastforce
      then have "settled s q = None" "armed s c q" using session_invD(1) [OF inv] by (auto simp: queue_ok_def)
      then show ?thesis using n unfolding a by auto
    qed (use a [of corr p] e in simp)
    moreover have "length (js_set corr p (inFlightQueue s)) \<le> queueCapacity (sessionConfig s)"
      using len by (simp add: length_js_set)
    ultimately show ?thesis using session_invD(1) [OF inv] unfolding queue_ok_def by simp
  qed
  moreover have "entries_ok ?s" using session_invD(2) [OF inv] en unfolding entries_ok_def a by auto
  moreover have "acks_ok ?s"
  proof -
    have "settled ?s q = None \<and> (\<exists>x. entries ?s q = Some x \<and> entTimer x = Some t')"
      if "timers ?s t' = Some (AckTimer c q, d')" for t' c q d'
    proof (cases "t' = nextId s")
      case False
      with that have "timers s t' = Some (AckTimer c q, d')" by simp
      then obtain x where "settled s q = None" "entries s q = Some x" "entTimer x = Some t'"
        using session_invD(3) [OF inv] unfolding acks_ok_def by blast
      with e show ?thesis by auto
    qed (use that e in auto)
    then show ?thesis unfolding acks_ok_def by blast
  qed
  moreover have "fields_ok ?s" using session_invD(4) [OF inv] by (fastforce simp: fields_ok_def)
  moreover have "promises_ok ?s" using session_invD(5) [OF inv] p
    by (fastforce simp: promises_ok_def plain_def unused_def less_Suc_eq)
  moreover have "fresh_ok ?s" using session_invD(6) [OF inv] e by (auto simp: fresh_ok_def)
  ultimately show ?thesis by (simp add: session_inv_def)
qed

section \<open>Every operation keeps the invariant\<close>

named_theorems session_keeps \<open>operations that keep the invariant of a session\<close>

lemma inv_setState [session_keeps]: "session_inv s \<Longrightarrow> session_inv (setState x s)"
  and inv_emit [session_keeps]: "session_inv s \<Longrightarrow> session_inv (emit_event ev s)"
  and inv_on_socket [session_keeps]: "session_inv s \<Longrightarrow> session_inv (on_socket k f s)"
  and inv_resetBackoff [session_keeps]: "session_inv s \<Longrightarrow> session_inv (resetBackoff s)"
  and inv_transmit [session_keeps]: "session_inv s \<Longrightarrow> session_inv (transmitFrame A e s)"
  and inv_backoff [session_keeps]: "session_inv s \<Longrightarrow> session_inv (snd (computeNextBackoffDelay A s))"
  and inv_fresh [session_keeps]: "session_inv s \<Longrightarrow> session_inv (snd (freshId rnd now s))"
  by (simp_all add: session_inv_view [OF view_transmit] session_inv_view [OF view_eqs(1)] session_inv_view [OF view_eqs(2)]
      session_inv_view [OF view_eqs(3)] session_inv_view [OF view_eqs(4)] session_inv_view [OF view_eqs(12)]
      session_inv_view [OF view_eqs(13)])

lemma inv_clear_field:
  assumes "session_inv s"
  shows "reconnectTimer s = t \<Longrightarrow> session_inv (clearTimer t s)" "connectionTimeoutTimer s = t \<Longrightarrow> session_inv (clearTimer t s)"
proof -
  have "timers s i \<noteq> Some (AckTimer corr p, due)" if "reconnectTimer s = Some i \<or> connectionTimeoutTimer s = Some i" for i corr p due
    using session_invD(4) [OF assms] that unfolding fields_ok_def by blast
  then show "reconnectTimer s = t \<Longrightarrow> session_inv (clearTimer t s)" "connectionTimeoutTimer s = t \<Longrightarrow> session_inv (clearTimer t s)"
    using assms by (auto simp: clearTimer_def inv_drop_timer split: option.splits)
qed

lemma inv_drop_field:
  assumes "session_inv s"
  shows "session_inv (s\<lparr>reconnectTimer := None\<rparr>)" "session_inv (s\<lparr>connectionTimeoutTimer := None\<rparr>)"
proof -
  have "armed (s\<lparr>reconnectTimer := None\<rparr>) = armed s" "armed (s\<lparr>connectionTimeoutTimer := None\<rparr>) = armed s"
    "plain (s\<lparr>reconnectTimer := None\<rparr>) = plain s" "plain (s\<lparr>connectionTimeoutTimer := None\<rparr>) = plain s"
    by (simp_all add: armed_def plain_def fun_eq_iff)
  moreover have "fields_ok (s\<lparr>reconnectTimer := None\<rparr>)" "fields_ok (s\<lparr>connectionTimeoutTimer := None\<rparr>)"
    using session_invD(4) [OF assms] by (simp_all add: fields_ok_def)
  ultimately show "session_inv (s\<lparr>reconnectTimer := None\<rparr>)" "session_inv (s\<lparr>connectionTimeoutTimer := None\<rparr>)"
    using session_invD [OF assms]
    by (simp_all add: session_inv_def queue_ok_def entries_ok_def acks_ok_def promises_ok_def fresh_ok_def)
qed

lemma inv_clearReconnect [session_keeps]: "session_inv s \<Longrightarrow> session_inv (clearReconnectTimer s)"
  by (simp add: clearReconnectTimer_def inv_drop_field inv_clear_field)

lemma inv_clearConnection [session_keeps]: "session_inv s \<Longrightarrow> session_inv (clearConnectionTimeout s)"
  by (simp add: clearConnectionTimeout_def inv_drop_field inv_clear_field)

text \<open>A new timer that is stored in its field.\<close>

lemma inv_set_field:
  fixes s :: "'a session"
  assumes inv: "session_inv s"
  shows "session_inv ((snd (setTimer ReconnectTimer due s))\<lparr>reconnectTimer := Some (nextId s)\<rparr>)"
    "plain s c \<Longrightarrow> session_inv ((snd (setTimer (ConnectTimeout c) due s))\<lparr>connectionTimeoutTimer := Some (nextId s)\<rparr>)"
proof -
  have upd: "session_inv (s'\<lparr>reconnectTimer := Some t\<rparr>)"
    if "session_inv s'" "timers s' t = Some (ReconnectTimer, d)" "t < nextId s'" for s' :: "'a session" and t d
  proof -
    have "armed (s'\<lparr>reconnectTimer := Some t\<rparr>) = armed s'" "plain (s'\<lparr>reconnectTimer := Some t\<rparr>) = plain s'"
      by (simp_all add: armed_def plain_def fun_eq_iff)
    moreover have "fields_ok (s'\<lparr>reconnectTimer := Some t\<rparr>)" using that session_invD(4) [OF that(1)] by (simp add: fields_ok_def)
    ultimately show ?thesis using session_invD [OF that(1)]
      by (simp add: session_inv_def queue_ok_def entries_ok_def acks_ok_def promises_ok_def fresh_ok_def)
  qed
  have upd': "session_inv (s'\<lparr>connectionTimeoutTimer := Some t\<rparr>)"
    if "session_inv s'" "timers s' t = Some (ConnectTimeout c, d)" "t < nextId s'" for s' :: "'a session" and t c d
  proof -
    have "armed (s'\<lparr>connectionTimeoutTimer := Some t\<rparr>) = armed s'" "plain (s'\<lparr>connectionTimeoutTimer := Some t\<rparr>) = plain s'"
      by (simp_all add: armed_def plain_def fun_eq_iff)
    moreover have "fields_ok (s'\<lparr>connectionTimeoutTimer := Some t\<rparr>)" using that session_invD(4) [OF that(1)] by (simp add: fields_ok_def)
    ultimately show ?thesis using session_invD [OF that(1)]
      by (simp add: session_inv_def queue_ok_def entries_ok_def acks_ok_def promises_ok_def fresh_ok_def)
  qed
  show "session_inv ((snd (setTimer ReconnectTimer due s))\<lparr>reconnectTimer := Some (nextId s)\<rparr>)"
    by (rule upd [OF inv_add_timer [OF inv]]) (simp_all add: setTimer_def)
  show "plain s c \<Longrightarrow> session_inv ((snd (setTimer (ConnectTimeout c) due s))\<lparr>connectionTimeoutTimer := Some (nextId s)\<rparr>)"
    by (rule upd' [OF inv_add_timer [OF inv]]) (simp_all add: setTimer_def)
qed

lemma setTimer_id [simp]: "fst (setTimer ev due s) = nextId s"
  by (simp add: setTimer_def)


lemma inv_disconnected [session_keeps]:
  assumes "session_inv s"
  shows "session_inv (handleDisconnectOrError A now s)"
proof -
  have "session_inv (s\<lparr>reconnectAttempt := n\<rparr>)" for n using assms session_inv_view view_eqs(8) by blast
  then show ?thesis using assms
    by (auto simp: handleDisconnectOrError_def case_prod_beta Let_def intro!: inv_set_field(1) session_keeps)
qed

lemma inv_arm:
  assumes "session_inv s" "entries s p = Some en" "entTimer en = Some t" "timers s t = Some (AckTimer corr p, d)"
    "entRetries en' \<le> maxRetries (sessionConfig s)"
  shows "session_inv (armAckTimeout now corr p (s\<lparr>timers := (timers s)(t := None), entries := (entries s)(p \<mapsto> en')\<rparr>))"
proof -
  have "armAckTimeout now corr p (s\<lparr>timers := (timers s)(t := None), entries := (entries s)(p \<mapsto> en')\<rparr>) =
      rearm corr p t en' (now + ackTimeoutMs (sessionConfig s)) s"
    by (simp add: armAckTimeout_def setTimer_def rearm_def Let_def)
  then show ?thesis using inv_rearm [OF assms(1,4)] assms(5) by simp
qed

lemma arm_view:
  assumes "view s' = view s"
  shows "view (armAckTimeout now corr p s') = view (armAckTimeout now corr p s)"
proof -
  have "(\<lambda>k. map_option fst (sockets s' k)) = (\<lambda>k. map_option fst (sockets s k))" using assms by (simp add: view_def)
  then show ?thesis using view_eqD [OF assms] by (simp add: view_def armAckTimeout_def setTimer_def Let_def)
qed

lemma inv_ackTimeout:
  assumes inv: "session_inv s" and t: "timers s t = Some (AckTimer corr p, d)"
  shows "session_inv (ackTimeout A now corr p (clearTimer (Some t) s))"
proof -
  let ?s = "s\<lparr>timers := (timers s)(t := None)\<rparr>"
  obtain en where en: "entries s p = Some en" "entTimer en = Some t" "settled s p = None"
    using session_invD(3) [OF inv] t unfolding acks_ok_def by blast
  show ?thesis
  proof (cases "entRetries en < maxRetries (sessionConfig s)")
    case True
    let ?en = "en\<lparr>entRetries := Suc (entRetries en)\<rparr>" and ?e = "entEnvelope en"
    let ?u = "s\<lparr>timers := (timers s)(t := None), entries := (entries s)(p \<mapsto> en\<lparr>entRetries := Suc (entRetries en)\<rparr>)\<rparr>"
    have "session_inv (armAckTimeout now corr p ?u)"
      using inv_arm [OF inv en(1,2) t, of ?en] True by simp
    then have "session_inv (armAckTimeout now corr p (transmitFrame A ?e ?u))"
      using session_inv_view arm_view view_transmit by blast
    then show ?thesis using True en by (simp add: ackTimeout_def clearTimer_def)
  next
    case False
    let ?q = "js_delete corr (inFlightQueue s)"
    have w: "wf_map (inFlightQueue s)" using session_invD(1) [OF inv] by (simp add: queue_ok_def)
    have "length ?q \<le> length (inFlightQueue s)" by (simp add: length_delete_le)
    moreover have "set ?q \<subseteq> {x \<in> set (inFlightQueue s). fst x \<noteq> corr}" by (auto simp: AList.delete_eq)
    ultimately have "session_inv (retire corr p t out ?q s)" for out
      using inv_retire [OF inv t, of ?q] w by simp
    then show ?thesis using False en by (simp add: ackTimeout_def clearTimer_def settle_def retire_def)
  qed
qed

lemma inv_retire_queued:
  assumes inv: "session_inv s" and q: "map_of (inFlightQueue s) corr = Some p"
  obtains en t where "entries s p = Some en" "entTimer en = Some t" "settled s p = None"
    "session_inv (retire corr p t out (js_delete corr (inFlightQueue s)) s)"
proof -
  have "(corr, p) \<in> set (inFlightQueue s)" using q by (rule map_of_SomeD)
  then have a: "armed s corr p" "settled s p = None" "wf_map (inFlightQueue s)"
    using session_invD(1) [OF inv] by (auto simp: queue_ok_def)
  then obtain en t d where en: "entries s p = Some en" "entTimer en = Some t" "timers s t = Some (AckTimer corr p, d)"
    by (auto simp: armed_def)
  have "length (js_delete corr (inFlightQueue s)) \<le> length (inFlightQueue s)" by (simp add: length_delete_le)
  moreover have "set (js_delete corr (inFlightQueue s)) \<subseteq> {x \<in> set (inFlightQueue s). fst x \<noteq> corr}" by (auto simp: AList.delete_eq)
  ultimately have "session_inv (retire corr p t out (js_delete corr (inFlightQueue s)) s)"
    using inv_retire [OF inv en(3), of "js_delete corr (inFlightQueue s)"] a(3) by simp
  with en(1,2) a(2) show thesis by (rule that)
qed

lemma inv_acknowledge [session_keeps]:
  assumes "session_inv s"
  shows "session_inv (acknowledge j s)"
proof (cases "as_str (json_get j ''correlationId'')")
  case (Some corr)
  show ?thesis
  proof (cases "corr = [] \<or> map_of (inFlightQueue s) corr = None")
    case False
    then obtain p where q: "corr \<noteq> []" "map_of (inFlightQueue s) corr = Some p" by auto
    from inv_retire_queued [OF assms q(2), where out = "PromiseResolved (Some j)"]
    obtain en t where "entries s p = Some en" "entTimer en = Some t" "settled s p = None"
      "session_inv (retire corr p t (PromiseResolved (Some j)) (js_delete corr (inFlightQueue s)) s)" .
    with Some q show ?thesis
      by (simp add: acknowledge_def clearTimer_def settle_def retire_def Let_def)
  qed (use Some assms in \<open>auto simp: acknowledge_def\<close>)
qed (simp add: acknowledge_def assms)


lemma plain_view: "view s' = view s \<Longrightarrow> plain s' c = plain s c"
  using view_eqD(10) by metis

lemma plain_keeps [simp]:
  "plain (setState x s) c = plain s c" "plain (emit_event ev s) c = plain s c" "plain (on_socket k f s) c = plain s c"
  "plain (resetBackoff s) c = plain s c" "plain (transmitFrame A e s) c = plain s c" "plain (clearTimer t s) c = plain s c"
  "plain (clearReconnectTimer s) c = plain s c" "plain (clearConnectionTimeout s) c = plain s c" "plain (settle q out s) c = plain s c"
  by (rule plain_view, simp)+
    (simp_all add: plain_def clearTimer_def clearReconnectTimer_def clearConnectionTimeout_def settle_def split: option.splits)

lemma plain_disconnect [simp]: "plain s c \<Longrightarrow> plain (handleDisconnectOrError A now s) c"
  by (auto simp: handleDisconnectOrError_def plain_def setTimer_def clearReconnectTimer_def clearTimer_def setState_def emit_event_def
      computeNextBackoffDelay_def Let_def split: option.splits)

lemma plain_arm [simp]: "plain s c \<Longrightarrow> plain (armAckTimeout now corr p s) c"
  by (auto simp: armAckTimeout_def plain_def setTimer_def Let_def)

lemma add_entry_arm:
  "(armAckTimeout now corr p (s\<lparr>entries := (entries s)(p \<mapsto> en)\<rparr>))\<lparr>inFlightQueue := js_set corr p (inFlightQueue s)\<rparr> =
     add_entry corr p en (now + ackTimeoutMs (sessionConfig s)) s"
  "inFlightQueue (armAckTimeout now corr p s) = inFlightQueue s"
  by (simp_all add: armAckTimeout_def setTimer_def add_entry_def Let_def)

text \<open>The three outcomes of \<^verbatim>\<open>sendEnvelope\<close>: the queue is full, no acknowledgement is asked for, or it is.\<close>

lemma sendEnvelope_cases:
  fixes s :: "'a session"
  obtains
    (full) "queueCapacity (sessionConfig s) \<le> length (inFlightQueue s)"
      "snd (sendEnvelope A now e s) =
        settle (nextId s) (PromiseRejected ''BUFFER_FULL: Client in-flight queue capacity reached'') (snd (new_promise s))"
  | (unacked) s2 e' where "ackRequired e \<noteq> Some True" "view s2 = view (snd (new_promise s))"
      "snd (sendEnvelope A now e s) = settle (nextId s) (PromiseResolved None) (transmitFrame A e' s2)"
  | (acked) s2 n corr where "length (inFlightQueue s) < queueCapacity (sessionConfig s)" "view s2 = view (snd (new_promise s))"
      "currentSeq s2 = n"
      "snd (sendEnvelope A now e s) = transmitFrame A (e\<lparr>seq := Some n, correlationId := Some corr\<rparr>)
         (add_entry corr (nextId s) \<lparr>entEnvelope = e\<lparr>seq := Some n, correlationId := Some corr\<rparr>, entRetries = 0, entTimer = None\<rparr>
           (now + ackTimeoutMs (sessionConfig s2)) s2)"
proof -
  define s1 where "s1 = snd (new_promise s)"
  have s1: "sessionConfig s1 = sessionConfig s" "inFlightQueue s1 = inFlightQueue s" by (simp_all add: s1_def new_promise_def)
  define n where "n = (case seq e of Some i \<Rightarrow> i | None \<Rightarrow> currentSeq s1 + 1)"
  define r where "r = (case correlationId e of Some c \<Rightarrow> (c, s1\<lparr>currentSeq := n\<rparr>) | None \<Rightarrow> freshId (clBytes A) now (s1\<lparr>currentSeq := n\<rparr>))"
  have v: "view (snd r) = view s1" by (simp add: r_def split: option.splits)
  have n: "currentSeq (snd r) = n"
    by (simp add: r_def freshId_def advance_uuid_def Let_def case_prod_beta split: option.splits)
  define e' where "e' = e\<lparr>seq := Some n, correlationId := Some (fst r)\<rparr>"
  show thesis
  proof (cases "length (inFlightQueue s) \<ge> queueCapacity (sessionConfig s)")
    case True
    then show thesis by (intro full) (simp_all add: sendEnvelope_def new_promise_def)
  next
    case False
    show thesis
    proof (cases "ackRequired e = Some True")
      case ack: True
      have "snd (sendEnvelope A now e s) = transmitFrame A e'
          ((armAckTimeout now (fst r) (nextId s) ((snd r)\<lparr>entries := (entries (snd r))(nextId s \<mapsto>
              \<lparr>entEnvelope = e', entRetries = 0, entTimer = None\<rparr>)\<rparr>))\<lparr>inFlightQueue := js_set (fst r) (nextId s) (inFlightQueue (snd r))\<rparr>)"
        using False ack by (simp add: sendEnvelope_def new_promise_def s1_def n_def r_def e'_def add_entry_arm(2)
            case_prod_beta Let_def split: option.splits)
      then have "snd (sendEnvelope A now e s) = transmitFrame A e'
          (add_entry (fst r) (nextId s) \<lparr>entEnvelope = e', entRetries = 0, entTimer = None\<rparr>
            (now + ackTimeoutMs (sessionConfig (snd r))) (snd r))"
        by (simp add: add_entry_arm(1))
      then show thesis using False v n unfolding e'_def s1_def by (intro acked) simp_all
    next
      case noack: False
      have "snd (sendEnvelope A now e s) = settle (nextId s) (PromiseResolved None) (transmitFrame A e' (snd r))"
        using False noack by (simp add: sendEnvelope_def new_promise_def s1_def n_def r_def e'_def case_prod_beta Let_def split: option.splits)
      then show thesis using noack v unfolding s1_def by (intro unacked)
    qed
  qed
qed

lemma plain_send [simp]:
  fixes s :: "'a session"
  assumes "plain s c"
  shows "plain (snd (sendEnvelope A now e s)) c"
proof -
  have n: "plain (snd (new_promise s)) c" "c \<noteq> nextId s" using assms by (auto simp: plain_def new_promise_def)
  have a: "plain s' c \<Longrightarrow> c \<noteq> q \<Longrightarrow> plain (add_entry corr q en due s') c" for s' :: "'a session" and corr q en due
    by (simp add: plain_def add_entry_def)
  show ?thesis
    by (cases rule: sendEnvelope_cases [of s A now e]) (use n plain_view in \<open>auto intro!: a\<close>)
qed

lemma inv_sendEnvelope [session_keeps]:
  assumes "session_inv s"
  shows "session_inv (snd (sendEnvelope A now e s))"
proof -
  have i: "session_inv (snd (new_promise s))" "unused (snd (new_promise s)) (nextId s)"
    using assms unused_new_promise inv_new_promise by (auto simp: new_promise_def)
  show ?thesis
  proof (cases rule: sendEnvelope_cases [of s A now e])
    case full
    then show ?thesis using i inv_settle_plain unfolding unused_def by metis
  next
    case (unacked s2 e')
    then have "session_inv s2" "plain s2 (nextId s)" using i session_inv_view plain_view unfolding unused_def by metis+
    then show ?thesis unfolding unacked(3) by (intro inv_settle_plain inv_transmit) simp_all
  next
    case (acked s2 n corr)
    then have "session_inv s2" "unused s2 (nextId s)" using i session_inv_view unused_view by metis+
    moreover have "length (inFlightQueue s2) < queueCapacity (sessionConfig s2)"
      using acked(1) view_eqD(1,2) [OF acked(2)] by (simp add: new_promise_def)
    ultimately show ?thesis unfolding acked(4) by (intro inv_transmit inv_add_entry) simp_all
  qed
qed

lemma send_new_keeps:
  "session_inv s \<Longrightarrow> session_inv (snd (send_new A now ty tgt pl ack s))"
  "plain s c \<Longrightarrow> plain (snd (send_new A now ty tgt pl ack s)) c"
  using inv_fresh [of s "clBytes A" now] plain_view [OF view_eqs(13), of "clBytes A" now s c]
  by (auto simp: send_new_def client_envelope_def case_prod_beta Let_def intro!: inv_sendEnvelope)

lemma inv_desired: "session_inv s \<Longrightarrow> session_inv (s\<lparr>desiredRooms := rs\<rparr>)"
  using session_inv_view [OF view_eqs(6)] by blast

lemma inv_rooms [session_keeps]:
  assumes "session_inv s"
  shows "session_inv (snd (session_joinRoom A now r s))" "session_inv (snd (session_joinRooms A now rs s))"
    "session_inv (snd (session_leaveRoom A now r s))" "session_inv (snd (sendRoomMessage A now r pl ack s))"
    "session_inv (snd (sendDirectMessage A now u pl ack s))"
  unfolding session_joinRoom_def session_joinRooms_def session_leaveRoom_def sendRoomMessage_def sendDirectMessage_def
  using assms by (intro send_new_keeps(1) inv_desired, assumption)+


section \<open>Flushing and connecting\<close>

lemma arm_fields [simp]:
  "inFlightQueue (armAckTimeout now corr p s) = inFlightQueue s" "inFlightQueue (transmitFrame A e s) = inFlightQueue s"
  by (simp_all add: add_entry_arm view_eqD(2) [OF view_transmit])

lemma flush_queue [simp]: "inFlightQueue (flush_entry A now x s) = inFlightQueue s"
  by (cases x) (simp add: flush_entry_def clearTimer_def Let_def split: option.splits)

lemma plain_flush_entry [simp]: "plain s c \<Longrightarrow> plain (flush_entry A now x s) c"
  by (cases x) (auto simp: flush_entry_def plain_def clearTimer_def Let_def armAckTimeout_def setTimer_def
      view_eqD(3,5) [OF view_transmit] split: option.splits)

lemma inv_flush_entry:
  assumes inv: "session_inv s" and x: "(corr, p) \<in> set (inFlightQueue s)"
  shows "session_inv (flush_entry A now (corr, p) s)"
proof -
  have "armed s corr p" using session_invD(1) [OF inv] x by (auto simp: queue_ok_def)
  then obtain en t d where en: "entries s p = Some en" "entTimer en = Some t" "timers s t = Some (AckTimer corr p, d)"
    by (auto simp: armed_def)
  have r: "entRetries en \<le> maxRetries (sessionConfig s)"
  proof -
    have "settled s p = None" using session_invD(1) [OF inv] x by (auto simp: queue_ok_def)
    then show ?thesis using session_invD(2) [OF inv] en(1) by (auto simp: entries_ok_def)
  qed
  define n where "n = currentSeq s + 1"
  define e where "e = (entEnvelope en)\<lparr>seq := Some n\<rparr>"
  let ?u = "s\<lparr>timers := (timers s)(t := None), entries := (entries s)(p \<mapsto> en\<lparr>entEnvelope := e\<rparr>)\<rparr>"
  let ?v = "s\<lparr>timers := (timers s)(t := None), currentSeq := n, entries := (entries s)(p \<mapsto> en\<lparr>entEnvelope := e\<rparr>)\<rparr>"
  have "session_inv (armAckTimeout now corr p ?u)"
    using inv_arm [OF inv en, of "en\<lparr>entEnvelope := e\<rparr>"] r by simp
  moreover have "view ?v = view ?u" by (simp add: view_def)
  ultimately have "session_inv (armAckTimeout now corr p (transmitFrame A e ?v))"
    using session_inv_view arm_view view_transmit by metis
  then show ?thesis using en by (simp add: flush_entry_def clearTimer_def n_def e_def Let_def)
qed

lemma inv_flush_fold:
  "session_inv s \<Longrightarrow> set xs \<subseteq> set (inFlightQueue s) \<Longrightarrow> session_inv (fold (flush_entry A now) xs s)"
proof (induction xs arbitrary: s)
  case (Cons x xs)
  then have "session_inv (flush_entry A now x s)" by (cases x) (auto intro: inv_flush_entry)
  then show ?case using Cons by simp
qed simp

lemma plain_flush_fold: "plain s c \<Longrightarrow> plain (fold (flush_entry A now) xs s) c"
  by (induction xs arbitrary: s) auto

lemma inv_flush [session_keeps]: "session_inv s \<Longrightarrow> session_inv (flushRetryQueue A now s)"
  unfolding flushRetryQueue_def
  by (rule inv_flush_fold) (auto simp: inv_setState view_eqD(2) [OF view_eqs(1)])

lemma plain_flush [simp]: "plain s c \<Longrightarrow> plain (flushRetryQueue A now s) c"
  by (simp add: flushRetryQueue_def plain_flush_fold)

lemma inv_resuming:
  assumes "session_inv s" "\<And>p c j. (p, c, j) \<in> set rs \<Longrightarrow> plain s c"
  shows "session_inv (s\<lparr>resuming := rs\<rparr>)"
proof -
  have "armed (s\<lparr>resuming := rs\<rparr>) = armed s" "plain (s\<lparr>resuming := rs\<rparr>) = plain s"
    by (simp_all add: armed_def plain_def fun_eq_iff)
  then show ?thesis using session_invD [OF assms(1)] assms(2)
    by (simp add: session_inv_def queue_ok_def entries_ok_def acks_ok_def promises_ok_def fresh_ok_def fields_ok_def)
qed

lemma inv_finished: "session_inv s \<Longrightarrow> plain s c \<Longrightarrow> session_inv (connect_finished c j s)"
  by (simp add: connect_finished_def inv_emit inv_settle_plain)

lemma inv_resubscribe:
  assumes "session_inv s" "plain s c"
  shows "session_inv (resubscribeRooms A now c j s)"
proof -
  define r where "r = send_new A now ROOM_BATCH_JOIN None (rooms_payload (desiredRooms (setState RESUBSCRIBING_ROOMS s))) True
    (setState RESUBSCRIBING_ROOMS s)"
  have i: "session_inv (snd r)" "plain (snd r) c"
    unfolding r_def by (simp_all add: send_new_keeps assms inv_setState)
  have old: "plain (snd r) c'" if "(p, c', j') \<in> set (resuming (snd r))" for p c' j'
    using that session_invD(5) [OF i(1)] unfolding promises_ok_def by blast
  have "session_inv ((snd r)\<lparr>resuming := resuming (snd r) @ [(fst r, c, j)]\<rparr>)"
    by (rule inv_resuming [OF i(1)]) (use i(2) old in auto)
  then show ?thesis by (simp add: resubscribeRooms_def r_def Let_def case_prod_beta)
qed

lemma inv_resubscribed [session_keeps]:
  assumes "session_inv s"
  shows "session_inv (resubscribed A now (p, c, j) s)"
proof (cases "(p, c, j) \<in> set (resuming s)")
  case True
  let ?s = "s\<lparr>resuming := remove1 (p, c, j) (resuming s)\<rparr>"
  have old: "plain s c'" if "(p', c', j') \<in> set (resuming s)" for p' c' j'
    using that session_invD(5) [OF assms] unfolding promises_ok_def by blast
  have "set (remove1 (p, c, j) (resuming s)) \<subseteq> set (resuming s)" by (rule set_remove1_subset)
  then have "session_inv ?s" by (intro inv_resuming [OF assms]) (use old in blast)
  moreover have "plain ?s c" using old [OF True] by (simp add: plain_def)
  ultimately show ?thesis using assms
    by (simp add: resubscribed_def inv_finished inv_setState inv_flush)
qed (simp add: resubscribed_def assms)

lemma inv_incoming [session_keeps]:
  assumes "session_inv s" "plain s c"
  shows "session_inv (handleIncomingEnvelope A now c j s)"
proof -
  have "session_inv (resetBackoff (clearTimer (connectionTimeoutTimer s) s))"
    by (simp add: inv_resetBackoff inv_clear_field assms(1))
  then show ?thesis using assms
    by (simp add: handleIncomingEnvelope_def Let_def inv_resubscribe inv_finished inv_setState inv_flush inv_emit inv_acknowledge)
qed

lemma inv_connect [session_keeps]:
  assumes "session_inv s"
  shows "session_inv (snd (session_connect A now s))"
proof -
  define s1 where "s1 = (clearReconnectTimer (s\<lparr>isExplicitlyClosed := False\<rparr>))\<lparr>currentSeq := 0\<rparr>"
  have "session_inv (s\<lparr>isExplicitlyClosed := False\<rparr>)" using assms session_inv_view [OF view_eqs(7)] by blast
  then have "session_inv (clearReconnectTimer (s\<lparr>isExplicitlyClosed := False\<rparr>))" by (rule inv_clearReconnect)
  then have i1: "session_inv s1" unfolding s1_def using session_inv_view [OF view_eqs(5)] by blast
  define s2 where "s2 = setState CONNECTING (snd (new_promise s1))"
  have i2: "session_inv s2" "plain s2 (nextId s1)"
    using i1 inv_new_promise [OF i1] unused_new_promise [OF i1] by (simp_all add: s2_def inv_setState new_promise_def unused_def)
  show ?thesis
  proof (cases "openSocket A (session_url (sessionConfig s2))")
    case None
    then have "snd (session_connect A now s) =
        settle (nextId s1) (PromiseRejected ''SyntaxError'') (handleDisconnectOrError A now (setState DISCONNECTED s2))"
      by (simp add: session_connect_def s1_def s2_def new_promise_def Let_def)
    then show ?thesis using i2 by (simp add: inv_settle_plain inv_disconnected inv_setState)
  next
    case (Some w)
    let ?k = "nextId s2"
    define s3 where "s3 = (snd (new_promise s2))\<lparr>theSocket := Some ?k, sockets := (sockets (snd (new_promise s2)))(?k \<mapsto> (nextId s1, w))\<rparr>"
    have p: "session_inv (snd (new_promise s2))" "plain (snd (new_promise s2)) (nextId s1)"
      using i2 inv_new_promise by (auto simp: new_promise_def plain_def)
    have a: "armed s3 = armed (snd (new_promise s2))" "plain s3 = plain (snd (new_promise s2))"
      by (simp_all add: s3_def armed_def plain_def fun_eq_iff)
    have "session_inv s3" unfolding session_inv_def queue_ok_def entries_ok_def promises_ok_def a
      using session_invD [OF p(1)] p(2)
      by (simp add: queue_ok_def entries_ok_def acks_ok_def promises_ok_def fresh_ok_def fields_ok_def s3_def split: if_splits)
    then have i4: "session_inv (clearConnectionTimeout s3)" by (rule inv_clearConnection)
    moreover have "plain (clearConnectionTimeout s3) (nextId s1)" using p(2) a by simp
    ultimately have "session_inv ((snd (setTimer (ConnectTimeout (nextId s1)) (now + 5000) (clearConnectionTimeout s3)))
        \<lparr>connectionTimeoutTimer := Some (nextId (clearConnectionTimeout s3))\<rparr>)"
      by (intro inv_set_field(2))
    then show ?thesis using Some
      by (simp add: session_connect_def s1_def s2_def s3_def new_promise_def case_prod_beta Let_def)
  qed
qed


section \<open>Events\<close>

lemma inv_connectTimeout:
  assumes "session_inv s" "plain s c"
  shows "session_inv (connectTimeout A now c s)"
  using assms by (simp add: connectTimeout_def inv_settle_plain inv_disconnected inv_setState inv_on_socket)

lemma socket_plain: "session_inv s \<Longrightarrow> sockets s k = Some (c, w) \<Longrightarrow> plain s c"
  using session_invD(5) [of s] unfolding promises_ok_def by blast

lemma inv_events [session_keeps]:
  assumes "session_inv s"
  shows "session_inv (on_open k w s)" "session_inv (on_message A now k text s)"
    "session_inv (on_socket_close A now k w code reason s)" "session_inv (on_socket_error A now k w err s)"
proof -
  show "session_inv (on_open k w s)" using assms by (simp add: on_open_def inv_setState inv_on_socket split: option.splits)
  have pl: "plain s c" if "sockets s k = Some (c, v)" for c v using socket_plain [OF assms that] .
  show "session_inv (on_message A now k text s)" using assms pl
    by (auto simp: on_message_def intro!: inv_incoming split: option.splits)
  show "session_inv (on_socket_close A now k w code reason s)" using assms
    by (simp add: on_socket_close_def Let_def inv_disconnected inv_emit inv_setState inv_clearConnection inv_on_socket split: option.splits)
  show "session_inv (on_socket_error A now k w err s)"
  proof (cases "sockets s k")
    case (Some x)
    then have "plain s (fst x)" using pl by (cases x) simp
    then show ?thesis using Some assms
      by (simp add: on_socket_error_def Let_def case_prod_beta inv_settle_plain inv_disconnected inv_setState inv_clearConnection
          inv_emit inv_on_socket)
  qed (simp add: on_socket_error_def assms)
qed

lemma inv_timer [session_keeps]:
  assumes inv: "session_inv s"
  shows "session_inv (timer_fires A now t s)"
proof (cases "timers s t")
  case (Some e)
  obtain ev due where e: "e = (ev, due)" by fastforce
  have d: "session_inv (clearTimer (Some t) s)" if "\<And>corr p. ev \<noteq> AckTimer corr p"
    unfolding clearTimer_def option.case by (rule inv_drop_timer [OF inv]) (use Some e that in auto)
  show ?thesis
  proof (cases ev)
    case ReconnectTimer
    then show ?thesis using Some e d inv by (simp add: timer_fires_def Let_def inv_connect)
  next
    case (ConnectTimeout c)
    then have "plain s c" using session_invD(5) [OF inv] Some e unfolding promises_ok_def by blast
    then show ?thesis using Some e d ConnectTimeout inv by (simp add: timer_fires_def Let_def inv_connectTimeout)
  next
    case (AckTimer corr p)
    then show ?thesis using Some e inv inv_ackTimeout [OF inv] by (simp add: timer_fires_def Let_def)
  qed
qed (simp add: timer_fires_def inv)

lemma inv_reject_fold:
  "session_inv (s\<lparr>inFlightQueue := q\<rparr>) \<Longrightarrow> session_inv ((fold reject_entry q s)\<lparr>inFlightQueue := []\<rparr>)"
proof (induction q arbitrary: s)
  case (Cons x q)
  obtain corr p where x: "x = (corr, p)" by fastforce
  have w: "corr \<notin> fst ` set q" using session_invD(1) [OF Cons.prems] by (auto simp: queue_ok_def x)
  have m: "map_of (inFlightQueue (s\<lparr>inFlightQueue := x # q\<rparr>)) corr = Some p" by (simp add: x)
  have q: "js_delete corr (x # q) = q" using w by (simp add: x AList.delete_eq filter_id_conv) force
  have swap: "(s\<lparr>timers := ts, settled := se, inFlightQueue := q\<rparr>) = s\<lparr>timers := ts, inFlightQueue := q, settled := se\<rparr>" for ts se
    by simp
  from inv_retire_queued [OF Cons.prems m, where out = "PromiseRejected ''SESSION_CLOSED: Client session was disconnected''"]
  obtain en t where "entries s p = Some en" "entTimer en = Some t" "settled s p = None"
    "session_inv (retire corr p t (PromiseRejected ''SESSION_CLOSED: Client session was disconnected'') q (s\<lparr>inFlightQueue := x # q\<rparr>))"
    using q by auto
  then have "session_inv ((reject_entry x s)\<lparr>inFlightQueue := q\<rparr>)"
    by (simp add: retire_def reject_entry_def clearTimer_def settle_def x swap)
  then show ?case using Cons.IH by simp
qed simp

lemma inv_disconnect [session_keeps]:
  assumes "session_inv s"
  shows "session_inv (session_disconnect A s)" "session_inv (disconnected s)"
proof -
  have t: "session_inv (s'\<lparr>theSocket := so\<rparr>) = session_inv s'" for s' :: "'a session" and so
    by (rule session_inv_view) simp
  have e: "session_inv s' \<Longrightarrow> session_inv (disconnect_end s')" for s' :: "'a session"
    by (simp add: disconnect_end_def inv_setState t)
  have c: "session_inv (s'\<lparr>closing := n\<rparr>) = session_inv s'" for s' :: "'a session" and n
    by (rule session_inv_view) simp
  define s1 where "s1 = clearConnectionTimeout (clearReconnectTimer (s\<lparr>isExplicitlyClosed := True\<rparr>))"
  have "session_inv (s\<lparr>isExplicitlyClosed := True\<rparr>)" using assms session_inv_view [OF view_eqs(7)] by blast
  then have "session_inv (s1\<lparr>inFlightQueue := inFlightQueue s1\<rparr>)" by (simp add: s1_def inv_clearReconnect inv_clearConnection)
  then have "session_inv ((fold reject_entry (inFlightQueue s1) s1)\<lparr>inFlightQueue := []\<rparr>)" by (rule inv_reject_fold)
  then show "session_inv (session_disconnect A s)"
    by (simp add: session_disconnect_def s1_def [symmetric] Let_def e c inv_on_socket)
  show "session_inv (disconnected s)" using assms by (simp add: disconnected_def e c split: nat.splits)
qed

definition session_init :: "'s session \<Rightarrow> bool" where
  "session_init s \<longleftrightarrow> (\<exists>opts. s = new_PulseClientSession opts)"

definition session_step :: "'s client_api \<Rightarrow> 's session \<Rightarrow> 's session \<Rightarrow> bool" where
  "session_step A s t \<longleftrightarrow> (\<exists>now a. t = session_act A now a s)"

lemma inv_act: "session_inv s \<Longrightarrow> session_inv (session_act A now a s)"
  by (cases a) (simp_all add: session_keeps)

lemma inv_new_session: "session_inv (new_PulseClientSession opts)"
  by (simp add: session_inv_defs new_PulseClientSession_def)

interpretation session: transition_system session_init "session_step A" session_inv for A
  by unfold_locales (auto simp: session_init_def session_step_def inv_new_session inv_act)

lemma session_run_steps: "(session_step A)\<^sup>*\<^sup>* s (session_run A acts s)"
proof (induction acts arbitrary: s)
  case (Cons x acts)
  have "session_step A s (session_act A (fst x) (snd x) s)" unfolding session_step_def by blast
  then show ?case using Cons by (simp add: session_run_def case_prod_beta converse_rtranclp_into_rtranclp)
qed (simp add: session_run_def)

end
