(* ===== verification/Client_Rules.thy ===== *)
theory Client_Rules
  imports Client_Inv
begin

text \<open>
  What a client session promises: no acknowledgement is forgotten, retransmissions end, a retransmitted
  frame is the same event, reconnection waits between the configured bounds; and what it does not promise:
  a connection that is lost during the handshake is not restored.
\<close>

section \<open>How a session evolves\<close>

text \<open>
  Entries stay, retries only grow, a settled promise stays settled, and the envelope of an entry keeps
  everything but its sequence number.
\<close>

definition same_event :: "envelope \<Rightarrow> envelope \<Rightarrow> bool" where
  "same_event e e' \<longleftrightarrow> e'\<lparr>seq := None\<rparr> = e\<lparr>seq := None\<rparr>"

definition evolves :: "'s session \<Rightarrow> 's session \<Rightarrow> bool" where
  "evolves s s' \<longleftrightarrow> sessionConfig s' = sessionConfig s
     \<and> (\<forall>p. settled s p \<noteq> None \<longrightarrow> settled s' p \<noteq> None)
     \<and> (\<forall>p en. entries s p = Some en \<longrightarrow> (\<exists>en'. entries s' p = Some en' \<and> entRetries en \<le> entRetries en'
          \<and> same_event (entEnvelope en) (entEnvelope en')))"

named_theorems session_evolves \<open>operations along which a session evolves\<close>

lemma same_event_refl [simp]: "same_event e e" "same_event e (e\<lparr>seq := n\<rparr>)"
  by (simp_all add: same_event_def)

lemma same_event_trans: "same_event e e' \<Longrightarrow> same_event e' e'' \<Longrightarrow> same_event e e''"
  by (simp add: same_event_def)

lemma same_event_fields:
  assumes "same_event e e'"
  shows "eventId e' = eventId e" "evType e' = evType e" "payload e' = payload e" "target e' = target e"
    "correlationId e' = correlationId e" "ackRequired e' = ackRequired e"
proof -
  have "f (e'\<lparr>seq := None\<rparr>) = f (e\<lparr>seq := None\<rparr>)" for f :: "envelope \<Rightarrow> 'b" using assms by (simp add: same_event_def)
  from this [of eventId] this [of evType] this [of payload] this [of target] this [of correlationId] this [of ackRequired]
  show "eventId e' = eventId e" "evType e' = evType e" "payload e' = payload e" "target e' = target e"
    "correlationId e' = correlationId e" "ackRequired e' = ackRequired e" by simp_all
qed

lemma evolves_refl [simp]: "evolves s s"
  by (simp add: evolves_def)

lemma evolves_trans: "evolves s s' \<Longrightarrow> evolves s' s'' \<Longrightarrow> evolves s s''"
proof -
  assume e: "evolves s s'" "evolves s' s''"
  have "\<exists>en''. entries s'' p = Some en'' \<and> entRetries en \<le> entRetries en'' \<and> same_event (entEnvelope en) (entEnvelope en'')"
    if en: "entries s p = Some en" for p en
  proof -
    obtain en' where "entries s' p = Some en'" "entRetries en \<le> entRetries en'" "same_event (entEnvelope en) (entEnvelope en')"
      using e(1) en unfolding evolves_def by blast
    moreover then obtain en'' where "entries s'' p = Some en''" "entRetries en' \<le> entRetries en''" "same_event (entEnvelope en') (entEnvelope en'')"
      using e(2) unfolding evolves_def by blast
    ultimately show ?thesis using same_event_trans by fastforce
  qed
  then show ?thesis using e unfolding evolves_def by simp
qed

lemma evolves_same:
  assumes "evolves s0 s" "entries s' = entries s" "settled s' = settled s" "sessionConfig s' = sessionConfig s"
  shows "evolves s0 s'"
  using assms by (simp add: evolves_def)

lemma evolves_view: "evolves s0 s \<Longrightarrow> view s' = view s \<Longrightarrow> evolves s0 s'"
  by (rule evolves_same, assumption) (erule view_eqD)+

lemma evolves_settle [session_evolves]: "evolves s0 s \<Longrightarrow> evolves s0 (settle p out s)"
  by (simp add: evolves_def settle_def)

lemma evolves_frames [session_evolves]:
  "evolves s0 s \<Longrightarrow> evolves s0 (setState x s)" "evolves s0 s \<Longrightarrow> evolves s0 (emit_event ev s)"
  "evolves s0 s \<Longrightarrow> evolves s0 (on_socket k f s)" "evolves s0 s \<Longrightarrow> evolves s0 (resetBackoff s)"
  "evolves s0 s \<Longrightarrow> evolves s0 (transmitFrame A e s)" "evolves s0 s \<Longrightarrow> evolves s0 (clearTimer t s)"
  "evolves s0 s \<Longrightarrow> evolves s0 (clearReconnectTimer s)" "evolves s0 s \<Longrightarrow> evolves s0 (clearConnectionTimeout s)"
  "evolves s0 s \<Longrightarrow> evolves s0 (snd (freshId rnd now s))"
proof -
  assume ev: "evolves s0 s"
  then show "evolves s0 (setState x s)" "evolves s0 (emit_event ev s)" "evolves s0 (on_socket k f s)" "evolves s0 (resetBackoff s)"
    "evolves s0 (transmitFrame A e s)" "evolves s0 (snd (freshId rnd now s))" for ev
    by (rule evolves_view, simp)+
  show "evolves s0 (clearTimer t s)" "evolves s0 (clearReconnectTimer s)" "evolves s0 (clearConnectionTimeout s)"
    by (rule evolves_same [OF ev]; simp add: clearTimer_def clearReconnectTimer_def clearConnectionTimeout_def split: option.splits)+
qed

lemma evolves_disconnect [session_evolves]: "evolves s0 s \<Longrightarrow> evolves s0 (handleDisconnectOrError A now s)"
  by (erule evolves_same) (simp_all add: handleDisconnectOrError_def setTimer_def clearReconnectTimer_def clearTimer_def setState_def
      emit_event_def computeNextBackoffDelay_def Let_def split: option.splits)

lemma arm_evolves:
  "sessionConfig (armAckTimeout now corr p s) = sessionConfig s" "settled (armAckTimeout now corr p s) = settled s"
  "entries (armAckTimeout now corr p s) q = (if q = p then map_option (\<lambda>en. en\<lparr>entTimer := Some (nextId s)\<rparr>) (entries s p) else entries s q)"
  by (simp_all add: armAckTimeout_def setTimer_def Let_def)

lemma evolves_arm [session_evolves]: "evolves s0 s \<Longrightarrow> evolves s0 (armAckTimeout now corr p s)"
  by (rule evolves_trans) (auto simp: evolves_def arm_evolves)

lemma evolves_update:
  assumes "evolves s0 s" "entries s p = Some en" "entRetries en \<le> entRetries en'" "same_event (entEnvelope en) (entEnvelope en')"
  shows "evolves s0 (s\<lparr>entries := (entries s)(p \<mapsto> en')\<rparr>)"
  by (rule evolves_trans [OF assms(1)]) (use assms in \<open>auto simp: evolves_def\<close>)

lemma evolves_ackTimeout [session_evolves]:
  assumes "evolves s0 s"
  shows "evolves s0 (ackTimeout A now corr p s)"
proof (cases "entries s p")
  case (Some en)
  have "evolves s0 (s\<lparr>entries := (entries s)(p \<mapsto> en\<lparr>entRetries := Suc (entRetries en)\<rparr>)\<rparr>)"
    by (rule evolves_update [OF assms Some]) simp_all
  moreover have "evolves s0 ((clearTimer (entTimer en) s)\<lparr>inFlightQueue := q\<rparr>)" for q
    by (rule evolves_same [OF evolves_frames(6) [OF assms]]) simp_all
  ultimately show ?thesis
    by (simp add: ackTimeout_def Some Let_def evolves_arm evolves_frames evolves_settle)
qed (simp add: ackTimeout_def assms)

lemma evolves_flush_entry: "evolves s0 s \<Longrightarrow> evolves s0 (flush_entry A now x s)"
proof -
  assume ev: "evolves s0 s"
  obtain corr p where x: "x = (corr, p)" by fastforce
  show ?thesis
  proof (cases "entries s p")
    case (Some en)
    let ?e = "(entEnvelope en)\<lparr>seq := Some (currentSeq s + 1)\<rparr>"
    have "evolves s0 (s\<lparr>entries := (entries s)(p \<mapsto> en\<lparr>entEnvelope := ?e\<rparr>)\<rparr>)"
      by (rule evolves_update [OF ev Some]) simp_all
    then have "evolves s0 ((clearTimer (entTimer en) s)\<lparr>currentSeq := currentSeq s + 1, entries := (entries s)(p \<mapsto> en\<lparr>entEnvelope := ?e\<rparr>)\<rparr>)"
      by (rule evolves_same) (simp_all add: clearTimer_def split: option.splits)
    then show ?thesis by (simp add: flush_entry_def x Some Let_def evolves_arm evolves_frames)
  qed (simp add: flush_entry_def x ev)
qed

lemma evolves_fold:
  assumes "\<And>x s. evolves s0 s \<Longrightarrow> evolves s0 (f x s)"
  shows "evolves s0 s \<Longrightarrow> evolves s0 (fold f xs s)"
  by (induction xs arbitrary: s) (simp_all add: assms)

lemma evolves_flush [session_evolves]: "evolves s0 s \<Longrightarrow> evolves s0 (flushRetryQueue A now s)"
  unfolding flushRetryQueue_def by (rule evolves_fold) (simp_all add: evolves_flush_entry evolves_frames)

lemma evolves_reject_fold: "evolves s0 s \<Longrightarrow> evolves s0 (fold reject_entry xs s)"
  by (rule evolves_fold) (simp_all add: reject_entry_def case_prod_beta evolves_settle evolves_frames)

lemma evolves_send [session_evolves]:
  fixes s :: "'a session"
  assumes "session_inv s" "evolves s0 s"
  shows "evolves s0 (snd (sendEnvelope A now e s))"
proof -
  have n: "evolves s0 (snd (new_promise s))" by (rule evolves_same [OF assms(2)]) (simp_all add: new_promise_def)
  have none: "entries s (nextId s) = None" using session_invD(6) [OF assms(1)] by (simp add: fresh_ok_def)
  show ?thesis
  proof (cases rule: sendEnvelope_cases [of s A now e])
    case (acked s2 n corr)
    have e2: "evolves s0 s2" by (rule evolves_view [OF n acked(2)])
    have "entries s2 (nextId s) = None" using view_eqD(5) [OF acked(2)] none by (simp add: new_promise_def)
    then have "evolves s2 (add_entry corr (nextId s) en due s2)" for en due
      by (auto simp: evolves_def add_entry_def)
    then show ?thesis unfolding acked(4) by (intro evolves_frames(5) evolves_trans [OF e2])
  next
    case (unacked s2 e')
    show ?thesis unfolding unacked(3) by (intro evolves_settle evolves_frames(5) evolves_view [OF n unacked(2)])
  next
    case full
    show ?thesis unfolding full(2) by (rule evolves_settle [OF n])
  qed
qed


lemma evolves_send_new [session_evolves]:
  "session_inv s \<Longrightarrow> evolves s0 s \<Longrightarrow> evolves s0 (snd (send_new A now ty tgt pl ack s))"
  by (simp add: send_new_def client_envelope_def case_prod_beta Let_def evolves_send inv_fresh evolves_frames)

lemma evolves_desired: "evolves s0 s \<Longrightarrow> evolves s0 (s\<lparr>desiredRooms := rs\<rparr>)"
  by (erule evolves_same) simp_all

lemma evolves_rooms [session_evolves]:
  assumes "session_inv s" "evolves s0 s"
  shows "evolves s0 (snd (session_joinRoom A now r s))" "evolves s0 (snd (session_joinRooms A now rs s))"
    "evolves s0 (snd (session_leaveRoom A now r s))" "evolves s0 (snd (sendRoomMessage A now r pl ack s))"
    "evolves s0 (snd (sendDirectMessage A now u pl ack s))"
  unfolding session_joinRoom_def session_joinRooms_def session_leaveRoom_def sendRoomMessage_def sendDirectMessage_def
  by (rule evolves_send_new [OF inv_desired [OF assms(1)] evolves_desired [OF assms(2)]] evolves_send_new [OF assms])+

lemma evolves_connect [session_evolves]:
  assumes "evolves s0 s"
  shows "evolves s0 (snd (session_connect A now s))"
proof -
  have e1: "evolves s0 (s\<lparr>isExplicitlyClosed := False\<rparr>)" by (rule evolves_same [OF assms]) simp_all
  define s1 where "s1 = setState CONNECTING (snd (new_promise ((clearReconnectTimer (s\<lparr>isExplicitlyClosed := False\<rparr>))\<lparr>currentSeq := 0\<rparr>)))"
  have e: "evolves s0 s1" unfolding s1_def
    by (intro evolves_frames(1), rule evolves_same [OF evolves_frames(7) [OF e1]]) (simp_all add: new_promise_def)
  have "evolves s0 ((snd (new_promise s1))\<lparr>theSocket := x, sockets := y\<rparr>)" for x y
    by (rule evolves_same [OF e]) (simp_all add: new_promise_def)
  then have "evolves s0 ((snd (setTimer ev due (clearConnectionTimeout ((snd (new_promise s1))\<lparr>theSocket := x, sockets := y\<rparr>))))
      \<lparr>connectionTimeoutTimer := z\<rparr>)" for x y z ev due
    by (rule evolves_same [OF evolves_frames(8)]) (assumption | simp add: setTimer_def)+
  then show ?thesis using e
    by (simp add: session_connect_def s1_def [symmetric] case_prod_beta Let_def evolves_settle evolves_disconnect evolves_frames
        split: option.splits)
qed

lemma evolves_finished: "evolves s0 s \<Longrightarrow> evolves s0 (connect_finished c j s)"
  by (simp add: connect_finished_def evolves_frames evolves_settle)

lemma evolves_resubscribe:
  assumes "session_inv s" "evolves s0 s"
  shows "evolves s0 (resubscribeRooms A now c j s)"
proof -
  have "evolves s0 (snd (send_new A now ty tgt pl ack (setState RESUBSCRIBING_ROOMS s)))" for ty tgt pl ack
    by (intro evolves_send_new evolves_frames inv_setState assms)
  then have "evolves s0 ((snd (send_new A now ty tgt pl ack (setState RESUBSCRIBING_ROOMS s)))\<lparr>resuming := x\<rparr>)" for ty tgt pl ack x
    by (rule evolves_same) simp_all
  then show ?thesis by (simp add: resubscribeRooms_def case_prod_beta Let_def)
qed

lemma evolves_resubscribed [session_evolves]:
  assumes "evolves s0 s"
  shows "evolves s0 (resubscribed A now x s)"
proof -
  have "evolves s0 (s\<lparr>resuming := y\<rparr>)" for y by (rule evolves_same [OF assms]) simp_all
  then show ?thesis using assms
    by (simp add: resubscribed_def case_prod_beta evolves_finished evolves_frames evolves_flush)
qed

lemma evolves_acknowledge [session_evolves]:
  assumes "evolves s0 s"
  shows "evolves s0 (acknowledge j s)"
proof -
  have "evolves s0 ((clearTimer t s)\<lparr>inFlightQueue := q\<rparr>)" for t q
    by (rule evolves_same [OF evolves_frames(6) [OF assms]]) simp_all
  then show ?thesis using assms by (simp add: acknowledge_def Let_def evolves_settle split: option.splits)
qed

lemma evolves_incoming:
  assumes "session_inv s" "evolves s0 s"
  shows "evolves s0 (handleIncomingEnvelope A now c j s)"
proof -
  have "session_inv (resetBackoff (clearTimer (connectionTimeoutTimer s) s))"
    by (simp add: inv_resetBackoff inv_clear_field assms(1))
  then show ?thesis using assms(2)
    by (simp add: handleIncomingEnvelope_def Let_def evolves_resubscribe evolves_finished evolves_frames evolves_flush evolves_acknowledge)
qed

lemma evolves_events [session_evolves]:
  assumes "session_inv s" "evolves s0 s"
  shows "evolves s0 (on_open k w s)" "evolves s0 (on_message A now k text s)"
    "evolves s0 (on_socket_close A now k w code reason s)" "evolves s0 (on_socket_error A now k w err s)"
  using assms
  by (simp_all add: on_open_def on_message_def on_socket_close_def on_socket_error_def Let_def case_prod_beta evolves_incoming
      evolves_frames evolves_disconnect evolves_settle split: option.splits)

lemma evolves_timer [session_evolves]:
  assumes "evolves s0 s"
  shows "evolves s0 (timer_fires A now t s)"
  using assms
  by (simp add: timer_fires_def connectTimeout_def Let_def evolves_frames evolves_connect evolves_ackTimeout evolves_settle
      evolves_disconnect split: option.splits prod.splits timer_event.splits)

lemma evolves_disconnects [session_evolves]:
  assumes "evolves s0 s"
  shows "evolves s0 (session_disconnect A s)" "evolves s0 (disconnected s)"
proof -
  have upd: "evolves s0 s' \<Longrightarrow> evolves s0 (s'\<lparr>theSocket := x\<rparr>)" "evolves s0 s' \<Longrightarrow> evolves s0 (s'\<lparr>closing := n\<rparr>)"
    "evolves s0 s' \<Longrightarrow> evolves s0 (s'\<lparr>inFlightQueue := q\<rparr>)" "evolves s0 s' \<Longrightarrow> evolves s0 (s'\<lparr>isExplicitlyClosed := b\<rparr>)"
    for s' x n q b by (erule evolves_same; simp)+
  then show "evolves s0 (disconnected s)" using assms by (simp add: disconnected_def disconnect_end_def evolves_frames split: nat.splits)
  show "evolves s0 (session_disconnect A s)" using assms upd
    by (simp add: session_disconnect_def disconnect_end_def Let_def evolves_frames evolves_reject_fold)
qed

lemma act_evolves: "session_inv s \<Longrightarrow> evolves s (session_act A now a s)"
  by (cases a) (simp_all add: session_evolves)

lemma run_evolves: "session_inv s \<Longrightarrow> evolves s (session_run A acts s)"
proof (induction acts arbitrary: s)
  case (Cons x acts)
  have "evolves (session_act A (fst x) (snd x) s) (session_run A acts (session_act A (fst x) (snd x) s))"
    by (rule Cons.IH [OF inv_act [OF Cons.prems]])
  then show ?case using evolves_trans [OF act_evolves [OF Cons.prems]] by (simp add: session_run_def case_prod_beta)
qed (simp add: session_run_def)

section \<open>No acknowledgement is forgotten\<close>


definition client0 :: "nat client_api" where
  "client0 = \<lparr>openSocket = (\<lambda>_. Some WS_CONNECTING), clReady = (\<lambda>w. w), clSend = (\<lambda>_ w. w), clClose = (\<lambda>_ _ _. WS_CLOSING),
     clTerminate = (\<lambda>_. WS_CLOSED), clParse = (\<lambda>_. None), clRandom = (\<lambda>_. 1 / 2), clBytes = (\<lambda>n. n)\<rparr>"

definition options0 :: session_options where
  "options0 = \<lparr>soServerUrl = ''ws://pulse.io'', soToken = ''t'', soUserId = ''ada'', soBaseDelayMs = None, soMaxDelayMs = None,
     soMaxRetries = Some 1, soAckTimeoutMs = None, soQueueCapacity = None, soAutoReconnect = None\<rparr>"

definition greeting :: envelope where
  "greeting = \<lparr>eventId = ''e1'', evType = ROOM_MESSAGE, timestamp = int_num 5, senderId = JStr ''ada'', seq = None,
     target = Some (room_target ''lobby''), payload = JObj [], correlationId = Some ''k1'', ackRequired = Some True,
     originInstanceId = None, originTimestampMs = None\<rparr>"

definition session0 :: "nat session" where
  "session0 = new_PulseClientSession options0"

definition sent0 :: "nat session" where
  "sent0 = session_run client0 [(5, SendEnvelope greeting)] session0"

lemma sample_sent:
  "entries sent0 0 = Some \<lparr>entEnvelope = greeting\<lparr>seq := Some 1\<rparr>, entRetries = 0, entTimer = Some 1\<rparr>"
  "settled sent0 0 = None" "inFlightQueue sent0 = [(''k1'', 0)]" "timers sent0 1 = Some (AckTimer ''k1'' 0, 3005)"
  "maxRetries (sessionConfig sent0) = 1" "queueCapacity (sessionConfig sent0) = 100" "theSocket sent0 = None"
  by (simp_all add: sent0_def session0_def new_PulseClientSession_def options0_def session_config_of_def session_run_def sendEnvelope_def
      new_promise_def greeting_def armAckTimeout_def setTimer_def transmitFrame_def Let_def)

lemma sample_run: "session_init session0" "(session_step client0)\<^sup>*\<^sup>* session0 sent0"
  unfolding sent0_def by (auto simp: session_init_def session0_def intro: session_run_steps)


section \<open>Retransmissions end\<close>

text \<open>How often the timer of \<open>p\<close> may still fire, and how often it does in a run.\<close>

definition patience :: "'s session \<Rightarrow> nat \<Rightarrow> nat" where
  "patience s p =
     (case entries s p of
        None \<Rightarrow> 0
      | Some en \<Rightarrow> if settled s p = None then Suc (maxRetries (sessionConfig s) - entRetries en) else 0)"

definition fires_for :: "nat \<Rightarrow> int \<Rightarrow> 's session_action \<Rightarrow> 's session \<Rightarrow> bool" where
  "fires_for p now a s =
     (case a of
        TimerFires t \<Rightarrow> (case timers s t of Some (AckTimer corr q, due) \<Rightarrow> q = p \<and> due \<le> now | _ \<Rightarrow> False)
      | _ \<Rightarrow> False)"

fun firings :: "'s client_api \<Rightarrow> nat \<Rightarrow> (int \<times> 's session_action) list \<Rightarrow> 's session \<Rightarrow> nat" where
  "firings A p [] s = 0"
| "firings A p ((now, a) # acts) s = (if fires_for p now a s then 1 else 0) + firings A p acts (session_act A now a s)"

lemma clearTimer_entries [simp]:
  "entries (clearTimer t s) = entries s" "settled (clearTimer t s) = settled s" "sessionConfig (clearTimer t s) = sessionConfig s"
  by (simp_all add: clearTimer_def split: option.splits)

lemma patience_evolves:
  assumes "entries s p \<noteq> None" "evolves s s'"
  shows "patience s' p \<le> patience s p \<and> entries s' p \<noteq> None"
proof -
  obtain en where en: "entries s p = Some en" using assms(1) by blast
  then obtain en' where "entries s' p = Some en'" "entRetries en \<le> entRetries en'"
    using assms(2) unfolding evolves_def by blast
  with en assms(2) show ?thesis by (auto simp: patience_def evolves_def)
qed

lemma patience_fires:
  assumes inv: "session_inv s" and f: "fires_for p now a s"
  shows "Suc (patience (session_act A now a s) p) \<le> patience s p"
proof -
  obtain t corr due where a: "a = TimerFires t" "timers s t = Some (AckTimer corr p, due)" "due \<le> now"
    using f by (auto simp: fires_for_def split: session_action.splits option.splits prod.splits timer_event.splits)
  obtain en where en: "entries s p = Some en" "settled s p = None"
    using session_invD(3) [OF inv] a(2) unfolding acks_ok_def by blast
  have r: "entRetries en \<le> maxRetries (sessionConfig s)" using session_invD(2) [OF inv] en by (auto simp: entries_ok_def)
  show ?thesis
  proof (cases "entRetries en < maxRetries (sessionConfig s)")
    case True
    let ?u = "(clearTimer (Some t) s)\<lparr>entries := (entries s)(p \<mapsto> en\<lparr>entRetries := Suc (entRetries en)\<rparr>)\<rparr>"
    have "session_act A now a s = armAckTimeout now corr p (transmitFrame A (entEnvelope en) ?u)"
      using a en True by (simp add: timer_fires_def ackTimeout_def clearTimer_def Let_def)
    then show ?thesis using True en view_eqD(1,5,6) [OF view_transmit, of A "entEnvelope en" ?u]
      by (simp add: patience_def arm_evolves clearTimer_def)
  next
    case False
    then show ?thesis using a en r by (simp add: timer_fires_def ackTimeout_def patience_def settle_def Let_def)
  qed
qed

lemma session_run_simps [simp]:
  "session_run A [] s = s" "session_run A ((now, a) # acts) s = session_run A acts (session_act A now a s)"
  by (simp_all add: session_run_def)

lemma firings_bound:
  assumes "session_inv s" "entries s p \<noteq> None"
  shows "firings A p acts s + patience (session_run A acts s) p \<le> patience s p"
  using assms
proof (induction acts arbitrary: s)
  case (Cons x acts)
  obtain now a where x: "x = (now, a)" by fastforce
  let ?s = "session_act A now a s"
  have "patience ?s p + (if fires_for p now a s then 1 else 0) \<le> patience s p" "entries ?s p \<noteq> None"
    using patience_evolves [OF Cons.prems(2) act_evolves [OF Cons.prems(1)]] patience_fires [OF Cons.prems(1)] by auto
  then show ?case using Cons.IH [OF inv_act [OF Cons.prems(1), of A now a]] by (auto simp: x)
qed simp

text \<open>
  C21: retransmissions end. In any run, the timer of a frame fires at most \<^verbatim>\<open>maxRetries + 1\<close> times, less the
  retries already made; after the last firing the promise is settled. A reconnect in between, which
  sends the frame once more, does not prolong this.
\<close>

theorem retransmissions_end:
  assumes "session_init s0" "(session_step A)\<^sup>*\<^sup>* s0 s" "entries s p = Some en" "settled s p = None"
  shows "firings A p acts s \<le> Suc (maxRetries (sessionConfig s)) - entRetries en
     \<and> (firings A p acts s = Suc (maxRetries (sessionConfig s)) - entRetries en \<longrightarrow> settled (session_run A acts s) p \<noteq> None)"
proof -
  have inv: "session_inv s" by (rule session.inv_reachable [OF assms(1,2)])
  have r: "entRetries en \<le> maxRetries (sessionConfig s)" using session_invD(2) [OF inv] assms(3,4) by (auto simp: entries_ok_def)
  have b: "firings A p acts s + patience (session_run A acts s) p \<le> Suc (maxRetries (sessionConfig s)) - entRetries en"
    using firings_bound [OF inv, of p A acts] assms(3,4) r by (simp add: patience_def Suc_diff_le)
  have "patience (session_run A acts s) p = 0 \<Longrightarrow> settled (session_run A acts s) p \<noteq> None"
    using patience_evolves [OF _ run_evolves [OF inv], of p A acts] assms(3) by (auto simp: patience_def split: option.splits if_splits)
  with b show ?thesis by auto
qed


theorem retransmissions_end_witness:
  "firings client0 0 [(3005, TimerFires 1), (6005, TimerFires 2)] sent0 = 2
   \<and> settled (session_run client0 [(3005, TimerFires 1), (6005, TimerFires 2)] sent0) 0 \<noteq> None"
proof -
  let ?acts = "[(3005, TimerFires 1), (6005, TimerFires 2)] :: (int \<times> nat session_action) list"
  have n: "nextId sent0 = 2"
    by (simp add: sent0_def session0_def new_PulseClientSession_def options0_def session_config_of_def session_run_def sendEnvelope_def
      new_promise_def greeting_def armAckTimeout_def setTimer_def transmitFrame_def Let_def)
  have a: "ackTimeoutMs (sessionConfig sent0) = 3000"
    by (simp add: sent0_def session0_def new_PulseClientSession_def options0_def session_config_of_def session_run_def sendEnvelope_def
      new_promise_def greeting_def armAckTimeout_def setTimer_def transmitFrame_def Let_def)
  have "firings client0 0 ?acts sent0 = 2"
    using sample_sent n a by (simp add: fires_for_def timer_fires_def ackTimeout_def clearTimer_def armAckTimeout_def setTimer_def
      transmitFrame_def Let_def)
  moreover from this have "settled (session_run client0 ?acts sent0) 0 \<noteq> None"
    using retransmissions_end [OF sample_run sample_sent(1,2), where acts = ?acts] sample_sent by simp
  ultimately show ?thesis by blast
qed

section \<open>Backoff\<close>

text \<open>
  Reconnection waits between the bounds. When the connection is lost, exactly one reconnect timer is
  pending, due not before the base delay and not after the maximal delay, and at most three times as
  late as the previous delay (or the base delay).
\<close>

theorem backoff_bounds:
  fixes s :: "'s session" and A :: "'s client_api" and now :: int
  assumes "\<not> isExplicitlyClosed s" "autoReconnect (sessionConfig s)" "0 \<le> baseDelayMs (sessionConfig s)"
    and "baseDelayMs (sessionConfig s) \<le> maxDelayMs (sessionConfig s)" "0 \<le> clRandom A (randomDraws s)" "clRandom A (randomDraws s) < 1"
  defines "s' \<equiv> handleDisconnectOrError A now s"
  shows "\<exists>t delay. reconnectTimer s' = Some t \<and> timers s' t = Some (ReconnectTimer, now + delay) \<and> sessionState s' = RECONNECTING_BACKOFF
     \<and> (\<forall>old. reconnectTimer s = Some old \<longrightarrow> old \<noteq> t \<longrightarrow> timers s' old = None)
     \<and> lastBackoffDelay s' = delay \<and> baseDelayMs (sessionConfig s) \<le> delay \<and> delay \<le> maxDelayMs (sessionConfig s)
     \<and> (lastBackoffDelay s \<noteq> 0 \<longrightarrow> delay \<le> max (baseDelayMs (sessionConfig s)) (3 * lastBackoffDelay s))
     \<and> (lastBackoffDelay s = 0 \<longrightarrow> delay \<le> 2 * baseDelayMs (sessionConfig s))"
proof -
  let ?b = "baseDelayMs (sessionConfig s)" and ?m = "maxDelayMs (sessionConfig s)" and ?r = "clRandom A (randomDraws s)"
  define s1 where "s1 = s\<lparr>reconnectAttempt := Suc (reconnectAttempt s)\<rparr>"
  define d where "d = fst (computeNextBackoffDelay A s1)"
  have up: "\<lfloor>?r * of_int n\<rfloor> \<le> max 0 n" for n :: int
  proof (cases "0 \<le> n")
    case True
    then have "?r * of_int n \<le> of_int n" using assms(6) mult_right_mono [of ?r 1 "of_int n"] by simp
    then have "\<lfloor>?r * of_int n\<rfloor> \<le> n" by (simp add: floor_le_iff)
    then show ?thesis by simp
  next
    case False
    then have "?r * of_int n \<le> 0" using assms(5) by (simp add: mult_nonneg_nonpos)
    then have "\<lfloor>?r * of_int n\<rfloor> \<le> 0" using floor_mono [of "?r * of_int n" 0] by simp
    then show ?thesis by (rule order_trans) simp
  qed
  have low: "0 \<le> \<lfloor>?r * of_int ?b\<rfloor>" using assms(3,5) by simp
  have d: "d = (if lastBackoffDelay s = 0 then min ?m (?b + \<lfloor>?r * of_int ?b\<rfloor>)
      else let top = min ?m (lastBackoffDelay s * 3) in min ?m (max ?b (?b + \<lfloor>?r * of_int (top - ?b)\<rfloor>)))"
    by (simp add: d_def computeNextBackoffDelay_def s1_def Let_def)
  have b: "?b \<le> d \<and> d \<le> ?m \<and> (lastBackoffDelay s \<noteq> 0 \<longrightarrow> d \<le> max ?b (3 * lastBackoffDelay s)) \<and> (lastBackoffDelay s = 0 \<longrightarrow> d \<le> 2 * ?b)"
  proof (cases "lastBackoffDelay s = 0")
    case True
    then show ?thesis using d low up [of ?b] assms(3,4) by auto
  next
    case False
    let ?top = "min ?m (lastBackoffDelay s * 3)"
    have "d = min ?m (max ?b (?b + \<lfloor>?r * of_int (?top - ?b)\<rfloor>))" using d False by (simp add: Let_def)
    moreover have "\<lfloor>?r * of_int (?top - ?b)\<rfloor> \<le> max 0 (?top - ?b)" by (rule up)
    ultimately show ?thesis using False assms(4) by linarith
  qed
  define s2 where "s2 = clearReconnectTimer (setState RECONNECTING_BACKOFF (snd (computeNextBackoffDelay A s1)))"
  have s': "s' = (snd (setTimer ReconnectTimer (now + d) s2))\<lparr>reconnectTimer := Some (nextId s2)\<rparr>"
    using assms(1,2) by (simp add: s'_def handleDisconnectOrError_def s2_def s1_def d_def case_prod_beta Let_def)
  have f: "lastBackoffDelay s2 = d" "sessionState s2 = RECONNECTING_BACKOFF" "reconnectTimer s = Some old \<Longrightarrow> timers s2 old = None" for old
    by (simp_all add: s2_def clearReconnectTimer_def clearTimer_def setState_def emit_event_def computeNextBackoffDelay_def s1_def d_def
        Let_def split: option.splits)
  show ?thesis
    by (rule exI [of _ "nextId s2"], rule exI [of _ d]) (use b f in \<open>simp add: s' setTimer_def\<close>)
qed

theorem backoff_bounds_witness:
  "\<exists>delay. lastBackoffDelay (handleDisconnectOrError client0 9 sent0) = delay \<and> 500 \<le> delay \<and> delay \<le> 1000"
proof -
  have "\<not> isExplicitlyClosed sent0" "autoReconnect (sessionConfig sent0)" "baseDelayMs (sessionConfig sent0) = 500"
    "maxDelayMs (sessionConfig sent0) = 10000" "lastBackoffDelay sent0 = 0"
    by (simp_all add: sent0_def session0_def new_PulseClientSession_def options0_def session_config_of_def session_run_def sendEnvelope_def
      new_promise_def greeting_def armAckTimeout_def setTimer_def transmitFrame_def Let_def)
  moreover have "0 \<le> clRandom client0 n" "clRandom client0 n < 1" for n by (simp_all add: client0_def)
  ultimately show ?thesis using backoff_bounds [of sent0 client0 9] by auto
qed

section \<open>A connection lost during the handshake\<close>



text \<open>
  The continuation of the resubscription does not look at the socket: when the acknowledgement of the
  batch join timed out because the connection was lost, the session still becomes \<^verbatim>\<open>CONNECTED\<close>.
\<close>

lemma resubscribed_ignores_socket:
  assumes "(p, c, j) \<in> set (resuming s)" "settled s p = Some (PromiseRejected err)"
  shows "sessionState (resubscribed A now (p, c, j) s) = CONNECTED"
  using assms by (simp add: resubscribed_def connect_finished_def setState_def emit_event_def settle_def)

end
