(* ===== verification/Client_Server.thy ===== *)
theory Client_Server
  imports Client_Rules Dispatch_Rules
begin

text \<open>
  A client session and the server's dispatcher together: what the retransmissions of the one and the
  idempotency cache and the sequence check of the other amount to. The frames reach the dispatcher as
  the envelopes the validator accepted.
\<close>

section \<open>Delivered once\<close>



section \<open>Refused for ever\<close>

lemma fired_frame:
  assumes "timers s t = Some (AckTimer corr p, due)" "due \<le> now" "entries s p = Some en"
    and "entRetries en < maxRetries (sessionConfig s)" "theSocket s = Some k" "socket_ready A s = Some WS_OPEN"
  shows "sentFrames (session_act A now (TimerFires t) s) = sentFrames s @ [(k, entEnvelope en)]"
proof -
  have "socket_ready A (s\<lparr>timers := ts, entries := es\<rparr>) = socket_ready A s" for ts es
    by (cases "theSocket s") (simp_all add: socket_ready_def)
  then show ?thesis using assms
    by (simp add: timer_fires_def ackTimeout_def clearTimer_def armAckTimeout_def setTimer_def transmitFrame_def Let_def)
qed

text \<open>
  A lost frame cannot be made up for once a later one was accepted. The server drops a frame over the
  rate limit without remembering it; the client retransmits it with its old sequence number. If the
  server accepted a later frame meanwhile, it refuses the retransmission, delivers it to nobody, and
  the client ignores the error and keeps waiting.
\<close>

theorem retransmission_refused:
  fixes A :: "'c client_api" and E :: "('s, 'r) env" and st :: "('s, 'a) node_scheme" and ok :: replies and rs :: 'r
    and now later :: int and cid :: string
  assumes "timers s t = Some (AckTimer corr p, due)" "due \<le> now" "entries s p = Some en"
    and "entRetries en < maxRetries (sessionConfig s)" "theSocket s = Some k" "socket_ready A s = Some WS_OPEN"
    and "seq (entEnvelope en) = Some n" "n < last_seq cid st"
    and "fst (check_duplicate E later (entEnvelope en) (received (entEnvelope en) st)) = NotDuplicate"
  defines "s' \<equiv> session_act A now (TimerFires t) s"
  shows "\<exists>e err st'. sentFrames s' = sentFrames s @ [(k, e)] \<and> dispatch_event E ok later cid e (st, rs) = (st', rs)
     \<and> json_get (payload err) ''code'' = Some (JStr ''INVALID_SEQUENCE_ORDER'')
     \<and> (\<forall>i. outbox_of i st' = outbox_of i st @ (if i = cid \<and> can_take (envWs E) err st cid then [err] else []))
     \<and> core st' = core st \<and> issued st' = issued st
     \<and> settled (handleIncomingEnvelope A later c (envelope_json err) s') p = settled s' p
     \<and> inFlightQueue (handleIncomingEnvelope A later c (envelope_json err) s') = inFlightQueue s'"
proof -
  from stale_sequence_refused [OF assms(7-9), of ok rs] obtain err st' where r:
    "dispatch_event E ok later cid (entEnvelope en) (st, rs) = (st', rs)"
    "json_get (payload err) ''code'' = Some (JStr ''INVALID_SEQUENCE_ORDER'')" "evType err = SYS_ERROR"
    "\<forall>i. outbox_of i st' = outbox_of i st @ (if i = cid \<and> can_take (envWs E) err st cid then [err] else [])"
    "core st' = core st" "issued st' = issued st" by blast
  have "json_get (envelope_json err) ''type'' = Some (JStr ''SYS_ERROR'')" "envelope_json err \<noteq> JNull"
    by (simp_all add: json_get_envelope r(3)) (simp add: envelope_json_def)
  then have "handleIncomingEnvelope A later c (envelope_json err) s' = emit_event (MessageEvent (envelope_json err)) s'"
    by (simp add: handleIncomingEnvelope_def is_ack_type_def)
  then show ?thesis using fired_frame [OF assms(1-6)] r
    by (intro exI [of _ "entEnvelope en"] exI [of _ err] exI [of _ st']) (simp add: s'_def emit_event_def)
qed

definition opened0 :: "nat session" where
  "opened0 = session_run client0 [(1, Connect), (2, SocketOpen 1 WS_OPEN), (5, SendEnvelope greeting)] session0"

lemma sample_opened:
  "timers opened0 4 = Some (AckTimer ''k1'' 3, 3005)" "theSocket opened0 = Some 1" "socket_ready client0 opened0 = Some WS_OPEN"
  "entries opened0 3 = Some \<lparr>entEnvelope = greeting\<lparr>seq := Some 1\<rparr>, entRetries = 0, entTimer = Some 4\<rparr>"
  "maxRetries (sessionConfig opened0) = 1"
  by (simp_all add: opened0_def session0_def session_connect_def clearReconnectTimer_def clearTimer_def new_promise_def setState_def
      emit_event_def clearConnectionTimeout_def setTimer_def on_open_def on_socket_def new_PulseClientSession_def options0_def
      session_config_of_def session_run_def sendEnvelope_def greeting_def armAckTimeout_def transmitFrame_def socket_ready_def
      client0_def Let_def eval_nat_numeral)

theorem retransmission_refused_witness:
  "\<exists>err :: envelope. json_get (payload err) ''code'' = Some (JStr ''INVALID_SEQUENCE_ORDER'')
     \<and> core (fst (dispatch_event env0 all_ok 3006 ''c1'' (greeting\<lparr>seq := Some 1\<rparr>) (note_seq ''c1'' (hello\<lparr>seq := Some 7\<rparr>) lobby, empty_redis)))
       = core lobby"
proof -
  let ?st = "note_seq ''c1'' (hello\<lparr>seq := Some 7\<rparr>) lobby" and ?e = "greeting\<lparr>seq := Some 1\<rparr>"
  let ?en = "\<lparr>entEnvelope = ?e, entRetries = 0, entTimer = Some (4 :: nat)\<rparr>"
  have l: "1 < last_seq ''c1'' ?st" by (simp add: hello_def last_seq_note sample_heap)
  have d: "fst (check_duplicate env0 3006 (entEnvelope ?en) (received (entEnvelope ?en) ?st)) = NotDuplicate"
    by (simp add: check_duplicate_def case_prod_beta Let_def sample_idem idem_check_def)
  have s: "seq (entEnvelope ?en) = Some 1" by simp
  have r: "entRetries ?en < maxRetries (sessionConfig opened0)"
    by (simp add: sample_opened)
  obtain e st' and err :: envelope where "sentFrames (session_act client0 3005 (TimerFires 4) opened0) = sentFrames opened0 @ [(1, e)]"
    "dispatch_event env0 all_ok 3006 ''c1'' e (?st, empty_redis) = (st', empty_redis)"
    "json_get (payload err) ''code'' = Some (JStr ''INVALID_SEQUENCE_ORDER'')" "core st' = core ?st"
    using retransmission_refused [OF sample_opened(1) order_refl sample_opened(4) r sample_opened(2,3) s l d, of all_ok empty_redis]
    by blast
  moreover from this(1) have "e = ?e" using fired_frame [OF sample_opened(1) order_refl sample_opened(4) r sample_opened(2,3)] by simp
  ultimately show ?thesis by (intro exI [of _ err]) simp
qed

end
