(* ===== verification/Frame_Filter.thy ===== *)
theory Frame_Filter
  imports Prelude "HOL-Library.Word"
begin

text \<open>
  \<^verbatim>\<open>src/chaos/WebSocketFrameFilter.ts\<close> with the types of \<^verbatim>\<open>src/chaos/types.ts\<close>: the fault-injection proxy
  cuts a TCP byte stream into WebSocket frames, drops the frames a predicate selects and forwards the
  others byte for byte. The UTF-8 decoder of \<^verbatim>\<open>Buffer.toString\<close>, whose result only the predicate sees,
  is the argument \<open>utf8\<close>.
\<close>

unbundle bit_operations_syntax

section \<open>Frames\<close>

type_synonym byte = "8 word"

record decoded_frame =
  frameFin :: bool
  frameRsv :: nat
  frameOpcode :: nat
  frameMasked :: bool
  frameMaskKey :: "byte list option"
  payloadLength :: nat
  framePayload :: "byte list"
  frameText :: "string option"

type_synonym drop_predicate = "decoded_frame \<Rightarrow> bool"

record frame_filter =
  filterBuffer :: "byte list"
  dropPredicate :: "drop_predicate option"

definition new_WebSocketFrameFilter :: "drop_predicate option \<Rightarrow> frame_filter" where
  "new_WebSocketFrameFilter d = \<lparr>filterBuffer = [], dropPredicate = d\<rparr>"

definition setDropPredicate :: "drop_predicate option \<Rightarrow> frame_filter \<Rightarrow> frame_filter" where
  "setDropPredicate d st = st\<lparr>dropPredicate := d\<rparr>"

definition filter_clear :: "frame_filter \<Rightarrow> frame_filter" where
  "filter_clear st = st\<lparr>filterBuffer := []\<rparr>"

text \<open>\<^verbatim>\<open>readUInt16BE\<close> and \<^verbatim>\<open>readBigUInt64BE\<close>.\<close>

definition read_be :: "nat \<Rightarrow> nat \<Rightarrow> byte list \<Rightarrow> nat" where
  "read_be offset n buf = foldl (\<lambda>a b. 256 * a + unat b) 0 (take n (drop offset buf))"

definition MAX_SAFE_INTEGER :: nat where "MAX_SAFE_INTEGER = 2 ^ 53 - 1"

text \<open>Lines 62-88: payload and header length without the mask; \<open>None\<close> when more bytes are needed.\<close>

definition frame_lengths :: "byte list \<Rightarrow> (nat \<times> nat) option" where
  "frame_lengths buf =
     (let lengthIndicator = unat (buf ! 1 AND 0x7f)
      in if lengthIndicator = 126 then (if length buf < 4 then None else Some (read_be 2 2 buf, 4))
         else if lengthIndicator = 127 then (if length buf < 10 then None else Some (read_be 2 8 buf, 10))
         else Some (lengthIndicator, 2))"

definition unmask :: "byte list option \<Rightarrow> byte list \<Rightarrow> byte list" where
  "unmask key raw =
     (case key of None \<Rightarrow> raw | Some k \<Rightarrow> map (\<lambda>(i, b). b XOR k ! (i mod 4)) (enumerate 0 raw))"

datatype frame_parse =
    Incomplete
  | TooLong nat
  | Complete nat decoded_frame

text \<open>The body of the loop up to the drop predicate: the length of the frame and its decoding.\<close>

definition decode_frame :: "(byte list \<Rightarrow> string) \<Rightarrow> byte list \<Rightarrow> frame_parse" where
  "decode_frame utf8 buf =
     (if length buf < 2 then Incomplete
      else
        let byte0 = buf ! 0; byte1 = buf ! 1; opcode = unat (byte0 AND 0x0f); masked = (byte1 AND 0x80 \<noteq> 0)
        in case frame_lengths buf of
             None \<Rightarrow> Incomplete
           | Some (len, hdr) \<Rightarrow>
               if len > MAX_SAFE_INTEGER then TooLong len
               else if masked \<and> length buf < hdr + 4 then Incomplete
               else
                 let key = (if masked then Some (take 4 (drop hdr buf)) else None);
                     header = (if masked then hdr + 4 else hdr); total = header + len
                 in if length buf < total then Incomplete
                    else
                      let payload = unmask key (take len (drop header buf))
                      in Complete total
                           \<lparr>frameFin = (byte0 AND 0x80 \<noteq> 0), frameRsv = unat (drop_bit 4 (byte0 AND 0x70)),
                            frameOpcode = opcode, frameMasked = masked, frameMaskKey = key, payloadLength = len,
                            framePayload = payload, frameText = (if opcode = 1 then Some (utf8 payload) else None)\<rparr>)"

lemma decode_total: "decode_frame utf8 buf = Complete n d \<Longrightarrow> 2 \<le> n \<and> n \<le> length buf"
  by (auto simp: decode_frame_def frame_lengths_def Let_def split: if_splits option.splits)

definition should_drop :: "drop_predicate option \<Rightarrow> decoded_frame \<Rightarrow> bool" where
  "should_drop dp d = (case dp of None \<Rightarrow> False | Some p \<Rightarrow> p d)"

text \<open>The loop: the frames forwarded, the bytes that remain, and the length that made it throw.\<close>

function filter_loop ::
  "(byte list \<Rightarrow> string) \<Rightarrow> drop_predicate option \<Rightarrow> byte list \<Rightarrow> byte list list \<times> byte list \<times> nat option" where
  "filter_loop utf8 dp buf =
     (case decode_frame utf8 buf of
        Incomplete \<Rightarrow> ([], buf, None)
      | TooLong len \<Rightarrow> ([], buf, Some len)
      | Complete n d \<Rightarrow>
          let (outs, rest, err) = filter_loop utf8 dp (drop n buf)
          in (if should_drop dp d then outs else take n buf # outs, rest, err))"
  by pat_completeness auto
termination
  by (relation "measure (\<lambda>(utf8, dp, buf). length buf)") (auto dest: decode_total)

declare filter_loop.simps [simp del]

text \<open>
  \<^verbatim>\<open>processChunk\<close>: the chunks to forward, or \<open>Inl\<close> the length with which it throws. A throw leaves the
  buffer where the loop stopped; the frames collected until then are not returned.
\<close>

definition processChunk :: "(byte list \<Rightarrow> string) \<Rightarrow> byte list \<Rightarrow> frame_filter \<Rightarrow> (nat + byte list list) \<times> frame_filter" where
  "processChunk utf8 chunk st =
     (if chunk = [] then (Inr [], st)
      else
        let (outs, rest, err) = filter_loop utf8 (dropPredicate st) (filterBuffer st @ chunk)
        in (case err of None \<Rightarrow> Inr outs | Some len \<Rightarrow> Inl len, st\<lparr>filterBuffer := rest\<rparr>))"

text \<open>A stream of chunks; \<open>None\<close> when one of them throws.\<close>

fun process_stream :: "(byte list \<Rightarrow> string) \<Rightarrow> byte list list \<Rightarrow> frame_filter \<Rightarrow> (byte list list \<times> frame_filter) option" where
  "process_stream utf8 [] st = Some ([], st)"
| "process_stream utf8 (c # cs) st =
     (case processChunk utf8 c st of
        (Inl _, _) \<Rightarrow> None
      | (Inr outs, st1) \<Rightarrow>
          (case process_stream utf8 cs st1 of None \<Rightarrow> None | Some (outs2, st2) \<Rightarrow> Some (outs @ outs2, st2)))"

section \<open>More bytes do not change a decision\<close>

lemma lengths_append:
  assumes "2 \<le> length a" "frame_lengths a = Some lh"
  shows "frame_lengths (a @ b) = Some lh"
proof -
  have n: "(a @ b) ! 1 = a ! 1" using assms(1) by (simp add: nth_append_left)
  have r: "read_be 2 k (a @ b) = read_be 2 k a" if "2 + k \<le> length a" for k
    using that by (simp add: read_be_def)
  show ?thesis using assms(2) unfolding frame_lengths_def n by (auto simp: r Let_def split: if_splits)
qed

lemma lengths_header: "frame_lengths a = Some (len, hdr) \<Longrightarrow> 2 \<le> length a \<Longrightarrow> hdr \<le> length a"
  by (auto simp: frame_lengths_def Let_def split: if_splits)

lemma decode_append:
  assumes "decode_frame utf8 a \<noteq> Incomplete"
  shows "decode_frame utf8 (a @ b) = decode_frame utf8 a"
proof -
  obtain len hdr where l: "2 \<le> length a" "frame_lengths a = Some (len, hdr)"
    using assms by (auto simp: decode_frame_def Let_def not_less split: if_splits option.splits)
  have n: "(a @ b) ! 0 = a ! 0" "(a @ b) ! 1 = a ! 1" using l(1) by (auto intro: nth_append_left)
  have l2: "frame_lengths (a @ b) = Some (len, hdr)" by (rule lengths_append) (use l in simp_all)
  show ?thesis using assms l unfolding decode_frame_def n l2 l(2)
    by (auto simp: Let_def split: if_splits)
qed

text \<open>The loop by cases, so that proofs unfold it once.\<close>

lemma loop_incomplete [simp]: "decode_frame utf8 a = Incomplete \<Longrightarrow> filter_loop utf8 dp a = ([], a, None)"
  by (subst filter_loop.simps) simp

lemma loop_too_long [simp]: "decode_frame utf8 a = TooLong len \<Longrightarrow> filter_loop utf8 dp a = ([], a, Some len)"
  by (subst filter_loop.simps) simp

lemma loop_complete:
  "\<lbrakk>decode_frame utf8 a = Complete n d; filter_loop utf8 dp (drop n a) = (outs, rest, err)\<rbrakk>
   \<Longrightarrow> filter_loop utf8 dp a = (if should_drop dp d then outs else take n a # outs, rest, err)"
  by (subst filter_loop.simps) simp

lemma loop_induct [case_names incomplete too_long complete]:
  assumes "\<And>a. decode_frame utf8 a = Incomplete \<Longrightarrow> P a"
    and "\<And>a len. decode_frame utf8 a = TooLong len \<Longrightarrow> P a"
    and "\<And>a n d outs rest err. \<lbrakk>decode_frame utf8 a = Complete n d; 2 \<le> n; n \<le> length a;
           filter_loop utf8 dp (drop n a) = (outs, rest, err); P (drop n a)\<rbrakk> \<Longrightarrow> P a"
  shows "P (a :: byte list)"
proof (induction a rule: measure_induct_rule [of length])
  case (less a)
  show ?case
  proof (cases "decode_frame utf8 a")
    case (Complete n d)
    then have n: "2 \<le> n" "n \<le> length a" using decode_total by auto
    obtain outs rest err where "filter_loop utf8 dp (drop n a) = (outs, rest, err)" by (metis prod_cases3)
    then show ?thesis by (rule assms(3) [OF Complete n]) (use n in \<open>auto intro: less\<close>)
  qed (use assms in blast)+
qed

lemma loop_append:
  assumes "filter_loop utf8 dp (rest @ b) = (outs2, rest2, err)"
  shows "filter_loop utf8 dp a = (outs, rest, None) \<Longrightarrow> filter_loop utf8 dp (a @ b) = (outs @ outs2, rest2, err)"
proof (induction a arbitrary: outs rule: loop_induct [where ?utf8.0 = utf8 and dp = dp])
  case (incomplete a)
  then show ?case using assms by simp
next
  case (too_long a len)
  then show ?case by simp
next
  case (complete a n d os r e)
  have e: "outs = (if should_drop dp d then os else take n a # os)" "r = rest" "e = None"
    using complete.prems loop_complete [OF complete.hyps(1,4)] by auto
  have "filter_loop utf8 dp (drop n a @ b) = (os @ outs2, rest2, err)"
    by (rule complete.IH) (use complete.hyps(4) e in simp)
  moreover have "decode_frame utf8 (a @ b) = Complete n d"
    using decode_append [of utf8 a b] complete.hyps(1) by simp
  ultimately show ?case using e complete.hyps(3) by (subst loop_complete [of _ _ n d]) auto
qed

lemma loop_rest: "filter_loop utf8 dp a = (outs, rest, err) \<Longrightarrow> filter_loop utf8 dp rest = ([], rest, err)"
proof (induction a arbitrary: outs rule: loop_induct [where ?utf8.0 = utf8 and dp = dp])
  case (complete a n d os r e)
  then show ?case using loop_complete [OF complete.hyps(1,4)] by simp
qed auto

lemma loop_append_error:
  "filter_loop utf8 dp a = (outs, rest, Some len) \<Longrightarrow> filter_loop utf8 dp (a @ b) = (outs, rest @ b, Some len)"
proof (induction a arbitrary: outs rule: loop_induct [where ?utf8.0 = utf8 and dp = dp])
  case (too_long a len)
  then show ?case using decode_append [of utf8 a b] by simp
next
  case (complete a n d os r e)
  have e: "outs = (if should_drop dp d then os else take n a # os)" "r = rest" "e = Some len"
    using complete.prems loop_complete [OF complete.hyps(1,4)] by auto
  have "filter_loop utf8 dp (drop n a @ b) = (os, rest @ b, Some len)"
    by (rule complete.IH) (use complete.hyps(4) e in simp)
  moreover have "decode_frame utf8 (a @ b) = Complete n d"
    using decode_append [of utf8 a b] complete.hyps(1) by simp
  ultimately show ?case using e complete.hyps(3) by (subst loop_complete [of _ _ n d]) auto
qed simp

text \<open>Without a predicate the bytes that leave and the bytes kept are the bytes that came.\<close>

lemma loop_transparent: "filter_loop utf8 None a = (outs, rest, err) \<Longrightarrow> concat outs @ rest = a"
proof (induction a arbitrary: outs rule: loop_induct [where ?utf8.0 = utf8 and dp = None])
  case (complete a n d os r e)
  have "outs = take n a # os" "r = rest" "e = err"
    using complete.prems loop_complete [OF complete.hyps(1,4)] by (auto simp: should_drop_def)
  then show ?case using complete.IH [of os] complete.hyps(4) by simp
qed auto

section \<open>Streams\<close>

definition filter_ready :: "(byte list \<Rightarrow> string) \<Rightarrow> frame_filter \<Rightarrow> bool" where
  "filter_ready utf8 st \<longleftrightarrow> decode_frame utf8 (filterBuffer st) = Incomplete"

lemma new_ready [simp]: "filter_ready utf8 (new_WebSocketFrameFilter d)"
  by (simp add: filter_ready_def new_WebSocketFrameFilter_def decode_frame_def)

lemma loop_rest_incomplete: "filter_loop utf8 dp a = (outs, rest, None) \<Longrightarrow> decode_frame utf8 rest = Incomplete"
proof (induction a arbitrary: outs rule: loop_induct [where ?utf8.0 = utf8 and dp = dp])
  case (complete a n d os r e)
  then show ?case using loop_complete [OF complete.hyps(1,4)] by simp
qed auto

text \<open>On a ready filter \<open>processChunk\<close> is the loop, the empty chunk included.\<close>

lemma chunk_is_loop:
  assumes "filter_ready utf8 st"
    and "filter_loop utf8 (dropPredicate st) (filterBuffer st @ chunk) = (outs, rest, err)"
  shows "processChunk utf8 chunk st =
    (case err of None \<Rightarrow> Inr outs | Some len \<Rightarrow> Inl len, st\<lparr>filterBuffer := rest\<rparr>)"
  using assms by (cases "chunk = []") (auto simp: processChunk_def filter_ready_def)

lemma stream_is_loop:
  assumes "filter_ready utf8 st"
    and "filter_loop utf8 (dropPredicate st) (filterBuffer st @ concat cs) = (outs, rest, err)"
  shows "process_stream utf8 cs st = (case err of None \<Rightarrow> Some (outs, st\<lparr>filterBuffer := rest\<rparr>) | Some _ \<Rightarrow> None)"
  using assms
proof (induction cs arbitrary: st outs)
  case Nil
  then show ?case by (auto simp: filter_ready_def)
next
  case (Cons c cs)
  obtain o1 r1 e1 where l1: "filter_loop utf8 (dropPredicate st) (filterBuffer st @ c) = (o1, r1, e1)" by (metis prod_cases3)
  note p1 = chunk_is_loop [OF Cons.prems(1) l1]
  show ?case
  proof (cases e1)
    case (Some len)
    then have "err = Some len" using loop_append_error [of utf8 "dropPredicate st" "filterBuffer st @ c" o1 r1 len "concat cs"] l1 Cons.prems(2) by simp
    then show ?thesis using p1 Some by simp
  next
    case None
    obtain o2 r2 e2 where l2: "filter_loop utf8 (dropPredicate st) (r1 @ concat cs) = (o2, r2, e2)" by (metis prod_cases3)
    have "filter_loop utf8 (dropPredicate st) (filterBuffer st @ concat (c # cs)) = (o1 @ o2, r2, e2)"
      using loop_append [OF l2, of "filterBuffer st @ c" o1] l1 None by simp
    then have e: "outs = o1 @ o2" "rest = r2" "err = e2" using Cons.prems(2) by simp_all
    have "filter_ready utf8 (st\<lparr>filterBuffer := r1\<rparr>)"
      using loop_rest_incomplete [of utf8 "dropPredicate st" "filterBuffer st @ c" o1 r1] l1 None
      by (simp add: filter_ready_def)
    then have "process_stream utf8 cs (st\<lparr>filterBuffer := r1\<rparr>) =
      (case e2 of None \<Rightarrow> Some (o2, st\<lparr>filterBuffer := r2\<rparr>) | Some _ \<Rightarrow> None)"
      using Cons.IH [of "st\<lparr>filterBuffer := r1\<rparr>" o2] l2 e by (cases e2) simp_all
    then show ?thesis using p1 None e by (cases e2) auto
  qed
qed

text \<open>
  C26: how TCP cuts the stream does not matter: processing a stream chunk by chunk forwards the same frames
  and leaves the same bytes buffered as processing all of it at once, and throws exactly when that throws.
\<close>
theorem chunking_irrelevant:
  "process_stream utf8 cs (new_WebSocketFrameFilter d) =
     (case processChunk utf8 (concat cs) (new_WebSocketFrameFilter d) of
        (Inl _, _) \<Rightarrow> None
      | (Inr outs, st) \<Rightarrow> Some (outs, st))"
proof -
  let ?st = "new_WebSocketFrameFilter d"
  obtain outs rest err where l: "filter_loop utf8 (dropPredicate ?st) (filterBuffer ?st @ concat cs) = (outs, rest, err)"
    by (metis prod_cases3)
  show ?thesis using stream_is_loop [OF new_ready l] chunk_is_loop [OF new_ready l] by (cases err) auto
qed

text \<open>
  A frame that announces more than \<open>MAX_SAFE_INTEGER\<close> bytes makes the filter throw and stays at the front
  of its buffer: every later chunk that is not empty throws again with the same length, and is buffered.
\<close>
theorem oversized_frame_poisons:
  assumes "processChunk utf8 chunk st = (Inl len, st1)" "extra \<noteq> []"
  shows "processChunk utf8 extra st1 = (Inl len, st1\<lparr>filterBuffer := filterBuffer st1 @ extra\<rparr>)"
proof -
  obtain outs rest err where l: "filter_loop utf8 (dropPredicate st) (filterBuffer st @ chunk) = (outs, rest, err)"
    by (metis prod_cases3)
  have e: "err = Some len" "st1 = st\<lparr>filterBuffer := rest\<rparr>"
    using assms(1) l by (auto simp: processChunk_def split: if_splits option.splits)
  then have "filter_loop utf8 (dropPredicate st) (rest @ extra) = ([], rest @ extra, Some len)"
    using loop_append_error [OF loop_rest [of utf8 "dropPredicate st" "filterBuffer st @ chunk" outs rest "Some len"]] l by simp
  then show ?thesis using assms(2) e by (simp add: processChunk_def)
qed

definition oversized_header :: "byte list" where
  "oversized_header = [0x82, 127, 0xFF, 0, 0, 0, 0, 0, 0, 0]"

lemma oversized_frame_poisons_witness:
  "processChunk (\<lambda>_. []) [1] (new_WebSocketFrameFilter None\<lparr>filterBuffer := oversized_header\<rparr>) =
     (Inl 18374686479671623680, new_WebSocketFrameFilter None\<lparr>filterBuffer := oversized_header @ [1]\<rparr>)"
proof -
  have d: "decode_frame (\<lambda>_. []) oversized_header = TooLong 18374686479671623680"
    by (simp add: decode_frame_def frame_lengths_def oversized_header_def read_be_def MAX_SAFE_INTEGER_def)
  have "processChunk (\<lambda>_. []) oversized_header (new_WebSocketFrameFilter None) =
    (Inl 18374686479671623680, new_WebSocketFrameFilter None\<lparr>filterBuffer := oversized_header\<rparr>)"
    using d by (simp add: processChunk_def new_WebSocketFrameFilter_def oversized_header_def)
  from oversized_frame_poisons [OF this, of "[1]"] show ?thesis by (simp add: new_WebSocketFrameFilter_def)
qed

section \<open>Frames of RFC 6455\<close>

text \<open>The wire format of section 5.2 with the minimal length encoding, as a reference.\<close>

datatype ws_frame = WsFrame (wsFin: bool) (wsRsv: nat) (wsOpcode: nat) (wsMask: "byte list option") (wsPayload: "byte list")

fun wire_bytes :: "nat \<Rightarrow> nat \<Rightarrow> byte list" where
  "wire_bytes 0 n = []"
| "wire_bytes (Suc k) n = wire_bytes k (n div 256) @ [word_of_nat n]"

definition encode_frame :: "ws_frame \<Rightarrow> byte list" where
  "encode_frame f =
     (let n = length (wsPayload f); m = (if wsMask f = None then 0 else 128)
      in word_of_nat ((if wsFin f then 128 else 0) + 16 * wsRsv f + wsOpcode f) #
         (if n < 126 then [word_of_nat (m + n)]
          else if n < 65536 then word_of_nat (m + 126) # wire_bytes 2 n
          else word_of_nat (m + 127) # wire_bytes 8 n) @
         (case wsMask f of None \<Rightarrow> wsPayload f | Some k \<Rightarrow> k @ unmask (Some k) (wsPayload f)))"

definition ws_valid :: "ws_frame \<Rightarrow> bool" where
  "ws_valid f \<longleftrightarrow> wsRsv f < 8 \<and> wsOpcode f < 16 \<and> length (wsPayload f) \<le> MAX_SAFE_INTEGER \<and>
     (case wsMask f of None \<Rightarrow> True | Some k \<Rightarrow> length k = 4)"

definition frame_of :: "(byte list \<Rightarrow> string) \<Rightarrow> ws_frame \<Rightarrow> decoded_frame" where
  "frame_of utf8 f =
     \<lparr>frameFin = wsFin f, frameRsv = wsRsv f, frameOpcode = wsOpcode f, frameMasked = (wsMask f \<noteq> None),
      frameMaskKey = wsMask f, payloadLength = length (wsPayload f), framePayload = wsPayload f,
      frameText = (if wsOpcode f = 1 then Some (utf8 (wsPayload f)) else None)\<rparr>"

lemma unmask_length [simp]: "length (unmask k xs) = length xs"
  by (cases k) (simp_all add: unmask_def)

lemma unmask_twice [simp]: "unmask k (unmask k xs) = xs"
  by (cases k) (auto simp: unmask_def intro!: nth_equalityI simp: nth_enumerate_eq case_prod_unfold xor.assoc)

lemma wire_bytes_length [simp]: "length (wire_bytes k n) = k"
  by (induction k arbitrary: n) auto

lemma foldl_wire_bytes: "foldl (\<lambda>a b. 256 * a + unat b) 0 (wire_bytes k n) = n mod 256 ^ k"
  by (induction k arbitrary: n) (simp_all add: mod_mult2_eq unat_of_nat)

lemma read_wire_bytes: "n < 256 ^ k \<Longrightarrow> read_be 2 k (x # y # wire_bytes k n @ zs) = n"
  by (simp add: read_be_def foldl_wire_bytes)

text \<open>The two header bytes read back.\<close>

lemma byte0_bits:
  assumes "r < 8" "c < 16"
  shows "unat ((word_of_nat ((if f then 128 else 0) + 16 * r + c) :: byte) AND 0x0f) = c"
    and "unat (drop_bit 4 ((word_of_nat ((if f then 128 else 0) + 16 * r + c) :: byte) AND 0x70)) = r"
    and "(word_of_nat ((if f then 128 else 0) + 16 * r + c) :: byte) AND 0x80 \<noteq> 0 \<longleftrightarrow> f"
proof -
  let ?w = "\<lambda>f r c. word_of_nat ((if f then 128 else 0) + 16 * r + c) :: byte"
  have "\<forall>f \<in> set [True, False]. \<forall>r \<in> set [0..<8]. \<forall>c \<in> set [0..<16].
      unat (?w f r c AND 0x0f) = c \<and> unat (drop_bit 4 (?w f r c AND 0x70)) = r \<and> (?w f r c AND 0x80 \<noteq> 0) = f"
    by code_simp
  moreover have "f \<in> set [True, False]" "r \<in> set [0..<8]" "c \<in> set [0..<16]" using assms by auto
  ultimately show "unat (?w f r c AND 0x0f) = c" "unat (drop_bit 4 (?w f r c AND 0x70)) = r" "(?w f r c AND 0x80 \<noteq> 0) = f"
    by blast+
qed

lemma byte1_bits:
  assumes "n < 128"
  shows "unat ((word_of_nat ((if m then 0 else 128) + n) :: byte) AND 0x7f) = n"
    and "(word_of_nat ((if m then 0 else 128) + n) :: byte) AND 0x80 \<noteq> 0 \<longleftrightarrow> \<not> m"
proof -
  let ?w = "\<lambda>m n. word_of_nat ((if m then 0 else 128) + n) :: byte"
  have "\<forall>m \<in> set [True, False]. \<forall>n \<in> set [0..<128]. unat (?w m n AND 0x7f) = n \<and> (?w m n AND 0x80 \<noteq> 0) = (\<not> m)"
    by code_simp
  moreover have "m \<in> set [True, False]" "n \<in> set [0..<128]" using assms by auto
  ultimately show "unat (?w m n AND 0x7f) = n" "(?w m n AND 0x80 \<noteq> 0) = (\<not> m)" by blast+
qed

lemma lengths_encoded:
  assumes "length (wsPayload f) \<le> MAX_SAFE_INTEGER"
  shows "\<exists>hdr tl. encode_frame f @ zs = word_of_nat ((if wsFin f then 128 else 0) + 16 * wsRsv f + wsOpcode f) # tl \<and>
    (tl ! 0 AND 0x80 \<noteq> 0 \<longleftrightarrow> wsMask f \<noteq> None) \<and>
    frame_lengths (encode_frame f @ zs) = Some (length (wsPayload f), hdr) \<and>
    drop hdr (encode_frame f @ zs) =
      (case wsMask f of None \<Rightarrow> wsPayload f | Some k \<Rightarrow> k @ unmask (Some k) (wsPayload f)) @ zs"
proof -
  let ?n = "length (wsPayload f)"
  let ?body = "(case wsMask f of None \<Rightarrow> wsPayload f | Some k \<Rightarrow> k @ unmask (Some k) (wsPayload f)) @ zs"
  let ?b0 = "word_of_nat ((if wsFin f then 128 else 0) + 16 * wsRsv f + wsOpcode f) :: byte"
  let ?b1 = "\<lambda>i. word_of_nat ((if wsMask f = None then 0 else 128) + i) :: byte"
  consider "?n < 126" | "126 \<le> ?n" "?n < 65536" | "65536 \<le> ?n" by linarith
  then show ?thesis
  proof cases
    case 1
    then have e: "encode_frame f @ zs = ?b0 # ?b1 ?n # ?body" by (simp add: encode_frame_def Let_def)
    show ?thesis unfolding e using 1 byte1_bits [of ?n "wsMask f = None"]
      by (intro exI [of _ 2] exI [of _ "?b1 ?n # ?body"]) (simp add: frame_lengths_def Let_def)
  next
    case 2
    then have e: "encode_frame f @ zs = ?b0 # ?b1 126 # wire_bytes 2 ?n @ ?body" by (simp add: encode_frame_def Let_def)
    show ?thesis unfolding e using 2 byte1_bits [of 126 "wsMask f = None"] read_wire_bytes [of ?n 2 ?b0 "?b1 126" ?body]
      by (intro exI [of _ 4] exI [of _ "?b1 126 # wire_bytes 2 ?n @ ?body"]) (simp add: frame_lengths_def Let_def)
  next
    case 3
    then have e: "encode_frame f @ zs = ?b0 # ?b1 127 # wire_bytes 8 ?n @ ?body" by (simp add: encode_frame_def Let_def)
    have "?n < 256 ^ 8" using assms by (simp add: MAX_SAFE_INTEGER_def)
    then show ?thesis unfolding e using byte1_bits [of 127 "wsMask f = None"] read_wire_bytes [of ?n 8 ?b0 "?b1 127" ?body]
      by (intro exI [of _ 10] exI [of _ "?b1 127 # wire_bytes 8 ?n @ ?body"]) (simp add: frame_lengths_def Let_def)
  qed
qed

lemma decode_by_parts:
  assumes "2 \<le> length a" "frame_lengths a = Some (len, hdr)" "len \<le> MAX_SAFE_INTEGER"
    and "(a ! 1 AND 0x80 \<noteq> 0) = (mk \<noteq> None)" "mk = Some k \<Longrightarrow> take 4 (drop hdr a) = k"
    and "header = (if mk = None then hdr else hdr + 4)" "header + len \<le> length a"
  shows "decode_frame utf8 a = Complete (header + len)
    \<lparr>frameFin = (a ! 0 AND 0x80 \<noteq> 0), frameRsv = unat (drop_bit 4 (a ! 0 AND 0x70)),
     frameOpcode = unat (a ! 0 AND 0x0f), frameMasked = (mk \<noteq> None),
     frameMaskKey = (case mk of None \<Rightarrow> None | Some _ \<Rightarrow> Some (take 4 (drop hdr a))), payloadLength = len,
     framePayload = unmask (case mk of None \<Rightarrow> None | Some _ \<Rightarrow> Some (take 4 (drop hdr a))) (take len (drop header a)),
     frameText = (if unat (a ! 0 AND 0x0f) = 1
       then Some (utf8 (unmask (case mk of None \<Rightarrow> None | Some _ \<Rightarrow> Some (take 4 (drop hdr a))) (take len (drop header a))))
       else None)\<rparr>"
  using assms by (cases mk) (simp_all add: decode_frame_def Let_def)

lemma decode_encoded:
  assumes "ws_valid f"
  shows "decode_frame utf8 (encode_frame f @ zs) = Complete (length (encode_frame f)) (frame_of utf8 f)"
proof -
  let ?p = "wsPayload f"
  define a where "a = encode_frame f @ zs"
  have v: "wsRsv f < 8" "wsOpcode f < 16" "length ?p \<le> MAX_SAFE_INTEGER" "\<And>k. wsMask f = Some k \<Longrightarrow> length k = 4"
    using assms by (auto simp: ws_valid_def split: option.splits)
  obtain hdr tl where h:
    "a = word_of_nat ((if wsFin f then 128 else 0) + 16 * wsRsv f + wsOpcode f) # tl"
    "tl ! 0 AND 0x80 \<noteq> 0 \<longleftrightarrow> wsMask f \<noteq> None"
    "frame_lengths a = Some (length ?p, hdr)"
    "drop hdr a = (case wsMask f of None \<Rightarrow> ?p | Some k \<Rightarrow> k @ unmask (Some k) ?p) @ zs"
    using lengths_encoded [OF v(3), of zs] a_def by blast
  have two: "2 \<le> length a" by (simp add: a_def encode_frame_def Let_def)
  have "length a = hdr + (if wsMask f = None then 0 else 4) + length ?p + length zs"
    using arg_cong [OF h(4), of length] lengths_header [OF h(3) two] v(4) by (auto split: option.splits)
  then have len: "(if wsMask f = None then hdr else hdr + 4) + length ?p \<le> length a"
    and total: "length (encode_frame f) = (if wsMask f = None then hdr else hdr + 4) + length ?p"
    by (simp_all add: a_def)
  have nth: "a ! 0 = word_of_nat ((if wsFin f then 128 else 0) + 16 * wsRsv f + wsOpcode f)" "a ! 1 = tl ! 0"
    unfolding h(1) by simp_all
  have key: "take 4 (drop hdr a) = k" "drop (hdr + 4) a = unmask (Some k) ?p @ zs" if "wsMask f = Some k" for k
  proof -
    have "drop hdr a = k @ unmask (Some k) ?p @ zs" using that h(4) by simp
    moreover have "drop (hdr + 4) a = drop 4 (drop hdr a)" by (simp add: add.commute)
    ultimately show "take 4 (drop hdr a) = k" "drop (hdr + 4) a = unmask (Some k) ?p @ zs" using v(4) [OF that] by simp_all
  qed
  have bit: "(a ! 1 AND 0x80 \<noteq> 0) = (wsMask f \<noteq> None)" using h(2) nth(2) by simp
  note d = decode_by_parts [where mk = "wsMask f" and ?utf8.0 = utf8, OF two h(3) v(3) bit key(1) refl len]
  show ?thesis
  proof (cases "wsMask f")
    case None
    have "take (length ?p) (drop hdr a) = ?p" using h(4) None by simp
    with d None show ?thesis unfolding a_def [symmetric] total nth byte0_bits [OF v(1,2)]
      by (simp add: frame_of_def unmask_def)
  next
    case (Some k)
    have "take (length ?p) (drop (hdr + 4) a) = unmask (Some k) ?p" using key(2) [OF Some] by simp
    with d Some key(1) [OF Some] show ?thesis unfolding a_def [symmetric] total nth byte0_bits [OF v(1,2)]
      by (simp add: frame_of_def)
  qed
qed

section \<open>Filtering\<close>

lemma loop_encoded:
  assumes "\<forall>f \<in> set fs. ws_valid f"
  shows "filter_loop utf8 dp (concat (map encode_frame fs)) =
    (map encode_frame (filter (\<lambda>f. \<not> should_drop dp (frame_of utf8 f)) fs), [], None)"
  using assms
proof (induction fs)
  case Nil
  then show ?case by (simp add: decode_frame_def)
next
  case (Cons f fs)
  have "decode_frame utf8 (concat (map encode_frame (f # fs))) = Complete (length (encode_frame f)) (frame_of utf8 f)"
    using decode_encoded [of f] Cons.prems by simp
  then show ?case
    using Cons by (subst loop_complete [of _ _ "length (encode_frame f)" "frame_of utf8 f"]) simp_all
qed

lemma stream_encoded:
  assumes "\<forall>f \<in> set fs. ws_valid f" "concat cs = concat (map encode_frame fs)"
  shows "process_stream utf8 cs (new_WebSocketFrameFilter dp) =
    Some (map encode_frame (filter (\<lambda>f. \<not> should_drop dp (frame_of utf8 f)) fs), new_WebSocketFrameFilter dp)"
proof -
  let ?st = "new_WebSocketFrameFilter dp"
  have s: "filterBuffer ?st = []" "dropPredicate ?st = dp" "?st\<lparr>filterBuffer := []\<rparr> = ?st"
    by (simp_all add: new_WebSocketFrameFilter_def)
  show ?thesis using stream_is_loop [OF new_ready, of utf8 dp cs] loop_encoded [OF assms(1), of utf8 dp] s assms(2) by simp
qed

text \<open>
  The filter refines the filtering of frames: a stream of RFC 6455 frames, cut into chunks anywhere, comes
  out as the encodings of exactly the frames the predicate does not select, in order and byte for byte, with
  nothing left in the buffer; the predicate sees every frame decoded and unmasked.
\<close>
theorem frames_filtered:
  assumes "\<forall>f \<in> set fs. ws_valid f" "concat cs = concat (map encode_frame fs)"
  shows "process_stream utf8 cs (new_WebSocketFrameFilter dp) =
    Some (map encode_frame (filter (\<lambda>f. \<not> should_drop dp (frame_of utf8 f)) fs), new_WebSocketFrameFilter dp)"
  by (rule stream_encoded [OF assms])

text \<open>A masked text frame cut in two, between an unmasked ping and a close frame that is dropped.\<close>

definition sample_frames :: "ws_frame list" where
  "sample_frames = [WsFrame True 0 9 None [], WsFrame True 0 1 (Some [1, 2, 3, 4]) [72, 105], WsFrame True 0 8 None [3, 232]]"

lemma frames_filtered_witness:
  "process_stream (\<lambda>_. []) [[0x89, 0, 0x81], [0x82, 1, 2, 3, 4, 73], [107, 0x88, 2, 3], [232]]
     (new_WebSocketFrameFilter (Some (\<lambda>d. frameOpcode d = 8))) =
   Some (map encode_frame (take 2 sample_frames), new_WebSocketFrameFilter (Some (\<lambda>d. frameOpcode d = 8)))"
proof -
  have v: "\<forall>f \<in> set sample_frames. ws_valid f" by (simp add: sample_frames_def ws_valid_def MAX_SAFE_INTEGER_def)
  have c: "concat [[0x89, 0, 0x81], [0x82, 1, 2, 3, 4, 73], [107, 0x88, 2, 3], [232]] = concat (map encode_frame sample_frames)"
    by code_simp
  show ?thesis using frames_filtered [OF v c, of "\<lambda>_. []" "Some (\<lambda>d. frameOpcode d = 8)"]
    by (simp add: sample_frames_def should_drop_def frame_of_def)
qed

end
