(* ===== verification/Fault_Proxy.thy ===== *)
theory Fault_Proxy
  imports Frame_Filter
begin

text \<open>
  \<^verbatim>\<open>src/chaos/FaultProxy.ts\<close>: the TCP proxy of the failure tests. A socket is its two flags and the bytes
  written to it; a pair of sockets is found under a number, also after it has left \<^verbatim>\<open>activePairs\<close>, because
  listeners and timers keep a reference to it. \<^verbatim>\<open>Date.now()\<close> and the results of \<^verbatim>\<open>Math.random()\<close> are
  arguments. What the operating system does to the sockets (connections, data, closing) is a
  \<open>proxy_event\<close>.
\<close>

section \<open>State\<close>

datatype fault_state = NORMAL | SEVERED | BLACKHOLE | DEGRADED

record latency_config =
  latMinDelayMs :: int
  latMaxDelayMs :: int

record net_socket =
  sockDestroyed :: bool
  sockWritable :: bool
  sockWritten :: "byte list"

record socket_pair =
  clientSocket :: net_socket
  targetSocket :: net_socket
  clientFilter :: frame_filter
  targetFilter :: frame_filter
  handshakeComplete :: bool

datatype side = ClientSide | TargetSide

text \<open>A timeout of \<^verbatim>\<open>sendToSocket\<close>.\<close>

record send_timer =
  tmPair :: nat
  tmSide :: side
  tmBuffers :: "byte list list"
  tmDue :: int

record proxy_options =
  listenPort :: nat
  proxyMode :: "string option"

record proxy =
  websocketMode :: bool
  serverOpen :: bool
  faultState :: fault_state
  latencyConfig :: "latency_config option"
  frameDropPredicate :: "drop_predicate option"
  socketPairs :: "nat \<Rightarrow> socket_pair option"
  activePairs :: "nat jsset"
  pendingTimers :: "(nat, send_timer) jsmap"
  boundPort :: nat
  nextPair :: nat
  nextTimer :: nat

definition new_FaultProxy :: "proxy_options \<Rightarrow> proxy" where
  "new_FaultProxy opts =
     \<lparr>websocketMode = ((case proxyMode opts of None \<Rightarrow> ''tcp'' | Some m \<Rightarrow> m) = ''websocket''), serverOpen = False,
      faultState = NORMAL, latencyConfig = None, frameDropPredicate = None, socketPairs = (\<lambda>_. None),
      activePairs = [], pendingTimers = [], boundPort = listenPort opts, nextPair = 0, nextTimer = 0\<rparr>"

text \<open>The callback of \<^verbatim>\<open>listen\<close>; the address is an object for a TCP server.\<close>

definition proxy_started :: "nat option \<Rightarrow> proxy \<Rightarrow> proxy" where
  "proxy_started address st =
     (case address of None \<Rightarrow> st\<lparr>serverOpen := True\<rparr> | Some port \<Rightarrow> st\<lparr>boundPort := port, serverOpen := True\<rparr>)"

section \<open>Sockets\<close>

definition destroy_socket :: "net_socket \<Rightarrow> net_socket" where
  "destroy_socket s = s\<lparr>sockDestroyed := True, sockWritable := False\<rparr>"

definition end_socket :: "net_socket \<Rightarrow> net_socket" where
  "end_socket s = s\<lparr>sockWritable := False\<rparr>"

definition can_write :: "net_socket \<Rightarrow> bool" where
  "can_write s \<longleftrightarrow> \<not> sockDestroyed s \<and> sockWritable s"

definition write_all :: "byte list list \<Rightarrow> net_socket \<Rightarrow> net_socket" where
  "write_all bufs s = s\<lparr>sockWritten := sockWritten s @ concat bufs\<rparr>"

fun sock :: "side \<Rightarrow> socket_pair \<Rightarrow> net_socket" where
  "sock ClientSide p = clientSocket p"
| "sock TargetSide p = targetSocket p"

fun map_sock :: "side \<Rightarrow> (net_socket \<Rightarrow> net_socket) \<Rightarrow> socket_pair \<Rightarrow> socket_pair" where
  "map_sock ClientSide f p = p\<lparr>clientSocket := f (clientSocket p)\<rparr>"
| "map_sock TargetSide f p = p\<lparr>targetSocket := f (targetSocket p)\<rparr>"

definition map_pair :: "nat \<Rightarrow> (socket_pair \<Rightarrow> socket_pair) \<Rightarrow> proxy \<Rightarrow> proxy" where
  "map_pair i f st = st\<lparr>socketPairs := (socketPairs st)(i := map_option f (socketPairs st i))\<rparr>"

definition close_socket :: "bool \<Rightarrow> net_socket \<Rightarrow> net_socket" where
  "close_socket forceDestroy s =
     (if sockDestroyed s then s else if forceDestroy then destroy_socket s else end_socket s)"

definition cleanupPair :: "nat \<Rightarrow> bool \<Rightarrow> proxy \<Rightarrow> proxy" where
  "cleanupPair i forceDestroy st =
     (let st1 = (if i \<in> set (activePairs st) then st\<lparr>activePairs := set_del i (activePairs st)\<rparr> else st)
      in map_pair i (map_sock TargetSide (close_socket forceDestroy) \<circ> map_sock ClientSide (close_socket forceDestroy)) st1)"

section \<open>Faults\<close>

definition proxy_sever :: "proxy \<Rightarrow> proxy" where
  "proxy_sever st =
     (let st1 = st\<lparr>faultState := SEVERED\<rparr>
      in (fold (\<lambda>i. cleanupPair i True) (activePairs st1) st1)\<lparr>activePairs := []\<rparr>)"

definition proxy_blackhole :: "bool \<Rightarrow> proxy \<Rightarrow> proxy" where
  "proxy_blackhole enabled st = st\<lparr>faultState := if enabled then BLACKHOLE else NORMAL\<rparr>"

definition injectLatency :: "latency_config option \<Rightarrow> proxy \<Rightarrow> proxy" where
  "injectLatency config st =
     (let st1 = st\<lparr>latencyConfig := config\<rparr>
      in if config \<noteq> None then st1\<lparr>faultState := DEGRADED\<rparr>
         else if faultState st1 = DEGRADED then st1\<lparr>faultState := NORMAL\<rparr> else st1)"

definition set_filters :: "drop_predicate option \<Rightarrow> proxy \<Rightarrow> proxy" where
  "set_filters d st =
     fold (\<lambda>i. map_pair i (\<lambda>p. p\<lparr>clientFilter := setDropPredicate d (clientFilter p),
                                targetFilter := setDropPredicate d (targetFilter p)\<rparr>)) (activePairs st) st"

definition dropFrames :: "drop_predicate option \<Rightarrow> proxy \<Rightarrow> proxy" where
  "dropFrames predicate st = set_filters predicate (st\<lparr>frameDropPredicate := predicate\<rparr>)"

definition proxy_restore :: "proxy \<Rightarrow> proxy" where
  "proxy_restore st = set_filters None (st\<lparr>faultState := NORMAL, latencyConfig := None, frameDropPredicate := None\<rparr>)"

text \<open>\<^verbatim>\<open>close\<close>: the server stops listening in a callback, here at once.\<close>

definition proxy_close :: "proxy \<Rightarrow> proxy" where
  "proxy_close st =
     (let st1 = st\<lparr>pendingTimers := []\<rparr>
      in (fold (\<lambda>i. cleanupPair i True) (activePairs st1) st1)\<lparr>activePairs := [], serverOpen := False\<rparr>)"

section \<open>Traffic\<close>

text \<open>\<^verbatim>\<open>setTimeout\<close> of Node.js uses 1 ms for a delay outside its range.\<close>

definition node_delay :: "int \<Rightarrow> int" where
  "node_delay d = (if 1 \<le> d \<and> d \<le> 2 ^ 31 - 1 then d else 1)"

definition latency_delay :: "rat \<Rightarrow> latency_config \<Rightarrow> int" where
  "latency_delay rnd cfg = \<lfloor>rnd * rat_of_int (latMaxDelayMs cfg - latMinDelayMs cfg + 1)\<rfloor> + latMinDelayMs cfg"

definition sendToSocket :: "int \<Rightarrow> rat \<Rightarrow> nat \<Rightarrow> side \<Rightarrow> byte list list \<Rightarrow> proxy \<Rightarrow> proxy" where
  "sendToSocket now rnd i sd bufs st =
     (case socketPairs st i of
        None \<Rightarrow> st
      | Some p \<Rightarrow>
          if \<not> can_write (sock sd p) then st
          else case latencyConfig st of
                 Some cfg \<Rightarrow>
                   st\<lparr>pendingTimers := js_set (nextTimer st)
                        \<lparr>tmPair = i, tmSide = sd, tmBuffers = bufs, tmDue = now + node_delay (latency_delay rnd cfg)\<rparr>
                        (pendingTimers st),
                      nextTimer := Suc (nextTimer st)\<rparr>
               | None \<Rightarrow> map_pair i (map_sock sd (write_all bufs)) st)"

text \<open>The callback of the timeout.\<close>

definition send_timeout :: "nat \<Rightarrow> proxy \<Rightarrow> proxy" where
  "send_timeout k st =
     (case map_of (pendingTimers st) k of
        None \<Rightarrow> st
      | Some t \<Rightarrow>
          let st1 = st\<lparr>pendingTimers := js_delete k (pendingTimers st)\<rparr>
          in case socketPairs st1 (tmPair t) of
               None \<Rightarrow> st1
             | Some p \<Rightarrow> if can_write (sock (tmSide t) p)
                         then map_pair (tmPair t) (map_sock (tmSide t) (write_all (tmBuffers t))) st1 else st1)"

text \<open>The timeouts due at a moment fire in the order of their due times.\<close>

definition run_timeouts :: "int \<Rightarrow> proxy \<Rightarrow> proxy" where
  "run_timeouts now st =
     fold send_timeout (map fst (sort_key (tmDue \<circ> snd) (filter (\<lambda>(_, t). tmDue t \<le> now) (pendingTimers st)))) st"

text \<open>\<^verbatim>\<open>chunk.indexOf('\r\n\r\n')\<close>\<close>

fun find_header_end :: "byte list \<Rightarrow> nat option" where
  "find_header_end [] = None"
| "find_header_end (b # bs) =
     (if take 4 (b # bs) = [13, 10, 13, 10] then Some 0 else map_option Suc (find_header_end bs))"

text \<open>
  The \<^verbatim>\<open>data\<close> listeners: \<open>Some\<close> length with the state when \<^verbatim>\<open>processChunk\<close> throws; nothing catches the
  error.
\<close>

definition forwardClientTraffic ::
  "(byte list \<Rightarrow> string) \<Rightarrow> int \<Rightarrow> rat \<Rightarrow> nat \<Rightarrow> byte list \<Rightarrow> proxy \<Rightarrow> nat option \<times> proxy" where
  "forwardClientTraffic utf8 now rnd i chunk st =
     (case socketPairs st i of
        None \<Rightarrow> (None, st)
      | Some p \<Rightarrow>
          if faultState st = SEVERED \<or> faultState st = BLACKHOLE then (None, st)
          else if \<not> can_write (targetSocket p) then (None, st)
          else if \<not> websocketMode st then (None, sendToSocket now rnd i TargetSide [chunk] st)
          else if \<not> handshakeComplete p then (None, sendToSocket now rnd i TargetSide [chunk] st)
          else let (res, flt) = processChunk utf8 chunk (clientFilter p);
                   st1 = map_pair i (\<lambda>p. p\<lparr>clientFilter := flt\<rparr>) st
               in case res of
                    Inl len \<Rightarrow> (Some len, st1)
                  | Inr buffers \<Rightarrow> (None, if buffers \<noteq> [] then sendToSocket now rnd i TargetSide buffers st1 else st1))"

text \<open>The last lines of \<^verbatim>\<open>forwardTargetTraffic\<close>, which the handshake branch repeats for its trailing bytes.\<close>

definition filter_to_client ::
  "(byte list \<Rightarrow> string) \<Rightarrow> int \<Rightarrow> rat \<Rightarrow> nat \<Rightarrow> byte list \<Rightarrow> proxy \<Rightarrow> nat option \<times> proxy" where
  "filter_to_client utf8 now rnd i chunk st =
     (case socketPairs st i of
        None \<Rightarrow> (None, st)
      | Some p \<Rightarrow>
          let (res, flt) = processChunk utf8 chunk (targetFilter p);
              st1 = map_pair i (\<lambda>p. p\<lparr>targetFilter := flt\<rparr>) st
          in case res of
               Inl len \<Rightarrow> (Some len, st1)
             | Inr buffers \<Rightarrow> (None, if buffers \<noteq> [] then sendToSocket now rnd i ClientSide buffers st1 else st1))"

definition forwardTargetTraffic ::
  "(byte list \<Rightarrow> string) \<Rightarrow> int \<Rightarrow> rat \<Rightarrow> rat \<Rightarrow> nat \<Rightarrow> byte list \<Rightarrow> proxy \<Rightarrow> nat option \<times> proxy" where
  "forwardTargetTraffic utf8 now rnd rnd2 i chunk st =
     (case socketPairs st i of
        None \<Rightarrow> (None, st)
      | Some p \<Rightarrow>
          if faultState st = SEVERED \<or> faultState st = BLACKHOLE then (None, st)
          else if \<not> can_write (clientSocket p) then (None, st)
          else if \<not> websocketMode st then (None, sendToSocket now rnd i ClientSide [chunk] st)
          else if \<not> handshakeComplete p then
            (case find_header_end chunk of
               Some headerEndIdx \<Rightarrow>
                 let st1 = map_pair i (\<lambda>p. p\<lparr>handshakeComplete := True\<rparr>) st;
                     trailingBytes = drop (headerEndIdx + 4) chunk;
                     st2 = sendToSocket now rnd i ClientSide [take (headerEndIdx + 4) chunk] st1
                 in if trailingBytes \<noteq> [] then filter_to_client utf8 now rnd2 i trailingBytes st2 else (None, st2)
             | None \<Rightarrow> (None, sendToSocket now rnd i ClientSide [chunk] st))
          else filter_to_client utf8 now rnd i chunk st)"

definition open_socket :: net_socket where
  "open_socket = \<lparr>sockDestroyed = False, sockWritable = True, sockWritten = []\<rparr>"

text \<open>A new connection; in the severed state its socket is destroyed and no pair is made.\<close>

definition handleClientConnection :: "proxy \<Rightarrow> proxy" where
  "handleClientConnection st =
     (if faultState st = SEVERED then st
      else let pair = \<lparr>clientSocket = open_socket, targetSocket = open_socket,
                       clientFilter = new_WebSocketFrameFilter (frameDropPredicate st),
                       targetFilter = new_WebSocketFrameFilter (frameDropPredicate st),
                       handshakeComplete = (\<not> websocketMode st)\<rparr>
           in st\<lparr>socketPairs := (socketPairs st)(nextPair st \<mapsto> pair), activePairs := set_add (nextPair st) (activePairs st),
                 nextPair := Suc (nextPair st)\<rparr>)"

text \<open>The \<^verbatim>\<open>error\<close> and \<^verbatim>\<open>close\<close> listeners (\<^verbatim>\<open>safeClose\<close>), on a socket that Node.js has destroyed.\<close>

definition on_socket_gone :: "nat \<Rightarrow> side \<Rightarrow> proxy \<Rightarrow> proxy" where
  "on_socket_gone i sd st = cleanupPair i False (map_pair i (map_sock sd destroy_socket) st)"

section \<open>Runs\<close>

datatype proxy_event =
    Started "nat option"
  | Accepted
  | ClientData int rat nat "byte list"
  | TargetData int rat rat nat "byte list"
  | SocketGone nat side
  | Clock int
  | Sever
  | SetBlackhole bool
  | InjectLatency "latency_config option"
  | DropFrames "drop_predicate option"
  | Restore
  | CloseProxy

fun proxy_act :: "(byte list \<Rightarrow> string) \<Rightarrow> proxy_event \<Rightarrow> proxy \<Rightarrow> nat option \<times> proxy" where
  "proxy_act utf8 (Started a) st = (None, proxy_started a st)"
| "proxy_act utf8 Accepted st = (None, handleClientConnection st)"
| "proxy_act utf8 (ClientData now r i chunk) st = forwardClientTraffic utf8 now r i chunk st"
| "proxy_act utf8 (TargetData now r r2 i chunk) st = forwardTargetTraffic utf8 now r r2 i chunk st"
| "proxy_act utf8 (SocketGone i sd) st = (None, on_socket_gone i sd st)"
| "proxy_act utf8 (Clock now) st = (None, run_timeouts now st)"
| "proxy_act utf8 Sever st = (None, proxy_sever st)"
| "proxy_act utf8 (SetBlackhole b) st = (None, proxy_blackhole b st)"
| "proxy_act utf8 (InjectLatency c) st = (None, injectLatency c st)"
| "proxy_act utf8 (DropFrames d) st = (None, dropFrames d st)"
| "proxy_act utf8 Restore st = (None, proxy_restore st)"
| "proxy_act utf8 CloseProxy st = (None, proxy_close st)"

definition run_proxy :: "(byte list \<Rightarrow> string) \<Rightarrow> proxy_event list \<Rightarrow> proxy \<Rightarrow> proxy" where
  "run_proxy utf8 evs st = fold (\<lambda>ev st. snd (proxy_act utf8 ev st)) evs st"

section \<open>Closed sockets stay closed\<close>

lemma sock_map_sock: "sock sd (map_sock sd2 f p) = (if sd = sd2 then f (sock sd p) else sock sd p)"
  by (cases sd; cases sd2) simp_all

text \<open>An operation that opens no socket, makes no pair and leaves the set of pairs alone.\<close>

fun pair_le :: "socket_pair option \<Rightarrow> socket_pair option \<Rightarrow> bool" where
  "pair_le None q \<longleftrightarrow> q = None"
| "pair_le (Some p) q \<longleftrightarrow> q \<noteq> None \<and> (\<forall>sd. can_write (sock sd (the q)) \<longrightarrow> can_write (sock sd p))"

lemma pair_le_refl [simp]: "pair_le p p"
  by (cases p) simp_all

lemma pair_le_trans: "pair_le p q \<Longrightarrow> pair_le q r \<Longrightarrow> pair_le p r"
  by (cases p; cases q) auto

definition no_opening :: "proxy \<Rightarrow> proxy \<Rightarrow> bool" where
  "no_opening st st' \<longleftrightarrow> activePairs st' = activePairs st \<and> nextPair st' = nextPair st \<and>
     (\<forall>i. pair_le (socketPairs st i) (socketPairs st' i))"

lemma no_opening_refl [simp]: "no_opening st st"
  by (simp add: no_opening_def)

lemma no_opening_trans: "no_opening a b \<Longrightarrow> no_opening b c \<Longrightarrow> no_opening a c"
  unfolding no_opening_def by (auto intro: pair_le_trans)

lemma no_opening_fold: "(\<And>x st. no_opening st (f x st)) \<Longrightarrow> no_opening st (fold f xs st)"
  by (induction xs arbitrary: st) (auto intro: no_opening_trans)

lemma no_opening_map_pair:
  assumes "\<And>p sd. can_write (sock sd (f p)) \<Longrightarrow> can_write (sock sd p)"
  shows "no_opening st (map_pair i f st)"
proof -
  have "pair_le q (map_option f q)" for q using assms by (cases q) auto
  then show ?thesis by (simp add: no_opening_def map_pair_def)
qed

lemma no_opening_sock:
  "(\<And>s. can_write (f s) \<Longrightarrow> can_write s) \<Longrightarrow> no_opening st (map_pair i (map_sock sd f) st)"
  by (rule no_opening_map_pair) (auto simp: sock_map_sock split: if_splits)

lemma no_opening_same_sockets:
  "(\<And>p sd. sock sd (f p) = sock sd p) \<Longrightarrow> no_opening st (map_pair i f st)"
  by (rule no_opening_map_pair) simp

lemma sock_filters [simp]:
  "sock sd (p\<lparr>clientFilter := f\<rparr>) = sock sd p" "sock sd (p\<lparr>targetFilter := f\<rparr>) = sock sd p"
  "sock sd (p\<lparr>handshakeComplete := b\<rparr>) = sock sd p"
  by (cases sd; simp)+

lemma no_opening_send [simp]: "no_opening st (sendToSocket now r i sd bufs st)"
proof -
  have "no_opening st (map_pair i (map_sock sd (write_all bufs)) st)"
    by (rule no_opening_sock) (simp add: write_all_def can_write_def)
  then show ?thesis by (auto simp: sendToSocket_def no_opening_def split: option.splits)
qed

lemma no_opening_filters: "no_opening st (set_filters d st)"
  unfolding set_filters_def by (rule no_opening_fold) (rule no_opening_same_sockets, simp)

lemma no_opening_timeout: "no_opening st (send_timeout k st)"
proof (cases "map_of (pendingTimers st) k")
  case (Some t)
  let ?st = "st\<lparr>pendingTimers := js_delete k (pendingTimers st)\<rparr>"
  have "no_opening st ?st" by (simp add: no_opening_def split: option.splits)
  moreover have "no_opening ?st (map_pair (tmPair t) (map_sock (tmSide t) (write_all (tmBuffers t))) ?st)"
    by (rule no_opening_sock) (simp add: write_all_def can_write_def)
  ultimately show ?thesis
    using Some by (auto simp: send_timeout_def Let_def intro: no_opening_trans split: option.splits)
qed (simp add: send_timeout_def)

lemma no_opening_to_client [simp]: "no_opening st (snd (filter_to_client utf8 now r i chunk st))"
proof (cases "socketPairs st i")
  case (Some p)
  obtain res flt where pc: "processChunk utf8 chunk (targetFilter p) = (res, flt)" by fastforce
  have "no_opening st (map_pair i (\<lambda>p. p\<lparr>targetFilter := flt\<rparr>) st)" by (rule no_opening_same_sockets) simp
  then show ?thesis using Some pc
    by (auto simp: filter_to_client_def Let_def intro: no_opening_trans split: sum.splits)
qed (simp add: filter_to_client_def)

lemma no_opening_client: "no_opening st (snd (forwardClientTraffic utf8 now r i chunk st))"
proof (cases "socketPairs st i")
  case (Some p)
  obtain res flt where pc: "processChunk utf8 chunk (clientFilter p) = (res, flt)" by fastforce
  have "no_opening st (map_pair i (\<lambda>p. p\<lparr>clientFilter := flt\<rparr>) st)" by (rule no_opening_same_sockets) simp
  then show ?thesis using Some pc
    by (auto simp: forwardClientTraffic_def Let_def intro: no_opening_trans split: sum.splits)
qed (simp add: forwardClientTraffic_def)

lemma no_opening_target: "no_opening st (snd (forwardTargetTraffic utf8 now r r2 i chunk st))"
proof (cases "socketPairs st i")
  case (Some p)
  let ?st1 = "map_pair i (\<lambda>p. p\<lparr>handshakeComplete := True\<rparr>) st"
  have 1: "no_opening st ?st1" by (rule no_opening_same_sockets) simp
  show ?thesis
    using Some by (auto simp: forwardTargetTraffic_def Let_def split: option.splits
        intro: no_opening_trans [OF 1] no_opening_trans [OF no_opening_trans [OF 1 no_opening_send] no_opening_to_client])
qed (simp add: forwardTargetTraffic_def)

text \<open>A pair that has left \<^verbatim>\<open>activePairs\<close> cannot be written to.\<close>

definition proxy_ok :: "proxy \<Rightarrow> bool" where
  "proxy_ok st \<longleftrightarrow> (\<forall>i p sd. socketPairs st i = Some p \<longrightarrow> i < nextPair st \<and>
     (can_write (sock sd p) \<longrightarrow> i \<in> set (activePairs st)))"

lemma proxy_ok_no_opening:
  assumes "proxy_ok st" "no_opening st st'"
  shows "proxy_ok st'"
  unfolding proxy_ok_def
proof (intro allI impI)
  fix i p' sd
  assume p': "socketPairs st' i = Some p'"
  have le: "pair_le (socketPairs st i) (Some p')" using assms(2) p' unfolding no_opening_def by metis
  then obtain p where p: "socketPairs st i = Some p" by (cases "socketPairs st i") auto
  with le have "can_write (sock sd p') \<Longrightarrow> can_write (sock sd p)" by simp
  then show "i < nextPair st' \<and> (can_write (sock sd p') \<longrightarrow> i \<in> set (activePairs st'))"
    using assms p by (auto simp: proxy_ok_def no_opening_def)
qed

lemma close_socket_shut [simp]: "\<not> can_write (close_socket b s)"
  by (simp add: close_socket_def can_write_def destroy_socket_def end_socket_def)

lemma cleanup_closes: "socketPairs (cleanupPair i b st) i = Some p \<Longrightarrow> \<not> can_write (sock sd p)"
  by (cases sd) (auto simp: cleanupPair_def map_pair_def sock_map_sock Let_def)

lemma cleanup_others: "j \<noteq> i \<Longrightarrow> socketPairs (cleanupPair i b st) j = socketPairs st j"
  by (simp add: cleanupPair_def map_pair_def Let_def)

lemma cleanup_frame [simp]:
  "activePairs (cleanupPair i b st) = set_del i (activePairs st)" "nextPair (cleanupPair i b st) = nextPair st"
  "faultState (cleanupPair i b st) = faultState st" "websocketMode (cleanupPair i b st) = websocketMode st"
  by (simp_all add: cleanupPair_def map_pair_def Let_def)

lemma cleanup_dom: "socketPairs (cleanupPair i b st) j = None \<longleftrightarrow> socketPairs st j = None"
  by (simp add: cleanupPair_def map_pair_def Let_def)

lemma cleanup_ok:
  assumes "proxy_ok st"
  shows "proxy_ok (cleanupPair i b st)"
  unfolding proxy_ok_def
proof (intro allI impI conjI)
  fix j p sd
  assume p: "socketPairs (cleanupPair i b st) j = Some p"
  then obtain q where q: "socketPairs st j = Some q" using cleanup_dom [of i b st j] by fastforce
  then show "j < nextPair (cleanupPair i b st)" using assms by (simp add: proxy_ok_def)
  assume w: "can_write (sock sd p)"
  have "j \<noteq> i" using cleanup_closes [of i b st p sd] p w by blast
  then show "j \<in> set (activePairs (cleanupPair i b st))"
    using assms p w by (auto simp: proxy_ok_def cleanup_others)
qed

lemma cleanup_all:
  assumes "proxy_ok st" "set (activePairs st) \<subseteq> set ps"
  shows "proxy_ok (fold (\<lambda>i. cleanupPair i True) ps st) \<and> activePairs (fold (\<lambda>i. cleanupPair i True) ps st) = []"
  using assms
proof (induction ps arbitrary: st)
  case (Cons i ps)
  have "set (activePairs (cleanupPair i True st)) \<subseteq> set ps" using Cons.prems(2) by auto
  then show ?case using Cons.IH [OF cleanup_ok [OF Cons.prems(1)]] by simp
qed simp

lemma proxy_ok_frame:
  "proxy_ok st \<Longrightarrow> socketPairs st' = socketPairs st \<Longrightarrow> activePairs st' = activePairs st \<Longrightarrow> nextPair st' = nextPair st
   \<Longrightarrow> proxy_ok st'"
  by (simp add: proxy_ok_def)

lemma sever_ok:
  assumes "proxy_ok st"
  shows "proxy_ok (proxy_sever st)" "activePairs (proxy_sever st) = []"
proof -
  let ?s = "st\<lparr>faultState := SEVERED\<rparr>"
  have "proxy_ok ?s" by (rule proxy_ok_frame [OF assms]) simp_all
  from cleanup_all [OF this order_refl]
  show "proxy_ok (proxy_sever st)" by (auto simp: proxy_sever_def Let_def intro: proxy_ok_frame)
  show "activePairs (proxy_sever st) = []" by (simp add: proxy_sever_def Let_def)
qed

lemma close_ok:
  assumes "proxy_ok st"
  shows "proxy_ok (proxy_close st)"
proof -
  let ?s = "st\<lparr>pendingTimers := []\<rparr>"
  have "proxy_ok ?s" by (rule proxy_ok_frame [OF assms]) simp_all
  from cleanup_all [OF this order_refl] show ?thesis
    by (auto simp: proxy_close_def Let_def intro: proxy_ok_frame)
qed

lemma gone_ok: "proxy_ok st \<Longrightarrow> proxy_ok (on_socket_gone i sd st)"
  unfolding on_socket_gone_def
  by (intro cleanup_ok proxy_ok_no_opening [OF _ no_opening_sock]) (simp_all add: destroy_socket_def can_write_def)

lemma accept_ok: "proxy_ok st \<Longrightarrow> proxy_ok (handleClientConnection st)"
  by (auto simp: proxy_ok_def handleClientConnection_def Let_def less_Suc_eq)

lemma proxy_act_ok: "proxy_ok st \<Longrightarrow> proxy_ok (snd (proxy_act utf8 ev st))"
proof (cases ev)
  case (DropFrames d)
  assume "proxy_ok st"
  then have "proxy_ok (st\<lparr>frameDropPredicate := d\<rparr>)" by (rule proxy_ok_frame) simp_all
  then show ?thesis using DropFrames by (simp add: dropFrames_def proxy_ok_no_opening [OF _ no_opening_filters])
next
  case Restore
  assume "proxy_ok st"
  then have "proxy_ok (st\<lparr>faultState := NORMAL, latencyConfig := None, frameDropPredicate := None\<rparr>)"
    by (rule proxy_ok_frame) simp_all
  then show ?thesis using Restore by (simp add: proxy_restore_def proxy_ok_no_opening [OF _ no_opening_filters])
next
  case (Started a)
  assume "proxy_ok st"
  then show ?thesis using Started by (auto simp: proxy_started_def intro: proxy_ok_frame split: option.splits)
next
  case (Clock now)
  assume "proxy_ok st"
  then show ?thesis using Clock
    by (simp add: run_timeouts_def proxy_ok_no_opening [OF _ no_opening_fold] no_opening_timeout)
qed (auto simp: proxy_blackhole_def injectLatency_def Let_def
    intro: sever_ok close_ok gone_ok accept_ok proxy_ok_no_opening [OF _ no_opening_client]
      proxy_ok_no_opening [OF _ no_opening_target] elim: proxy_ok_frame)

lemma new_proxy_ok [simp]: "proxy_ok (new_FaultProxy opts)"
  by (simp add: proxy_ok_def new_FaultProxy_def)

interpretation proxies: transition_system "\<lambda>st. \<exists>opts. st = new_FaultProxy opts"
  "\<lambda>st st'. \<exists>utf8 ev. st' = snd (proxy_act utf8 ev st)" proxy_ok
  by unfold_locales (auto intro: proxy_act_ok)

section \<open>Severed\<close>

text \<open>The operations that leave the severed state.\<close>

fun reopens :: "proxy_event \<Rightarrow> bool" where
  "reopens Restore = True"
| "reopens (SetBlackhole b) = True"
| "reopens (InjectLatency c) = (c \<noteq> None)"
| "reopens _ = False"

definition written :: "proxy \<Rightarrow> nat \<Rightarrow> side \<Rightarrow> byte list option" where
  "written st i sd = map_option (\<lambda>p. sockWritten (sock sd p)) (socketPairs st i)"

definition sealed :: "proxy \<Rightarrow> bool" where
  "sealed st \<longleftrightarrow> faultState st = SEVERED \<and> activePairs st = [] \<and>
     (\<forall>i p sd. socketPairs st i = Some p \<longrightarrow> \<not> can_write (sock sd p))"

lemma written_map_sock:
  assumes "\<And>s. sockWritten (f s) = sockWritten s"
  shows "written (map_pair i (map_sock sd f) st) j sd2 = written st j sd2"
  using assms by (cases "socketPairs st j") (auto simp: written_def map_pair_def sock_map_sock)

lemma map_pair_comp: "map_pair i (f \<circ> g) st = map_pair i f (map_pair i g st)"
  by (simp add: map_pair_def option.map_comp)

lemma sockWritten_shut [simp]:
  "sockWritten (close_socket b s) = sockWritten s" "sockWritten (destroy_socket s) = sockWritten s"
  by (simp_all add: close_socket_def destroy_socket_def end_socket_def)

lemma written_cleanup [simp]: "written (cleanupPair i b st) j sd = written st j sd"
proof -
  have "written (cleanupPair i b st) j sd =
    written (if i \<in> set (activePairs st) then st\<lparr>activePairs := set_del i (activePairs st)\<rparr> else st) j sd"
    unfolding cleanupPair_def Let_def map_pair_comp by (simp add: written_map_sock)
  then show ?thesis by (simp add: written_def)
qed

lemma written_cleanup_all [simp]: "written (fold (\<lambda>i. cleanupPair i b) ps st) j sd = written st j sd"
  by (induction ps arbitrary: st) simp_all

lemma written_frame: "socketPairs st' = socketPairs st \<Longrightarrow> written st' i sd = written st i sd"
  by (simp add: written_def)

lemma written_sever [simp]: "written (proxy_sever st) i sd = written st i sd"
proof -
  have "written (proxy_sever st) i sd = written (fold (\<lambda>i. cleanupPair i True) (activePairs st) (st\<lparr>faultState := SEVERED\<rparr>)) i sd"
    by (rule written_frame) (simp add: proxy_sever_def Let_def)
  also have "\<dots> = written st i sd" by (simp add: written_def [of "st\<lparr>faultState := SEVERED\<rparr>"] written_def [of st])
  finally show ?thesis .
qed

lemma fold_cleanup_state [simp]: "faultState (fold (\<lambda>i. cleanupPair i b) ps st) = faultState st"
  by (induction ps arbitrary: st) simp_all

lemma sever_sealed:
  assumes "proxy_ok st"
  shows "sealed (proxy_sever st)"
  using sever_ok [OF assms] by (auto simp: sealed_def proxy_ok_def) (simp add: proxy_sever_def Let_def)

lemma send_sealed: "sealed st \<Longrightarrow> sendToSocket now r i sd bufs st = st"
  by (auto simp: sealed_def sendToSocket_def split: option.splits)

lemma traffic_sealed:
  assumes "sealed st"
  shows "forwardClientTraffic utf8 now r i chunk st = (None, st)"
    and "forwardTargetTraffic utf8 now r r2 i chunk st = (None, st)"
  using assms by (auto simp: sealed_def forwardClientTraffic_def forwardTargetTraffic_def split: option.splits)

lemma timeout_sealed:
  assumes "sealed st"
  shows "sealed (send_timeout k st) \<and> socketPairs (send_timeout k st) = socketPairs st"
  using assms by (auto simp: sealed_def send_timeout_def Let_def split: option.splits)

lemma timeouts_sealed:
  "sealed st \<Longrightarrow> sealed (fold send_timeout ks st) \<and> socketPairs (fold send_timeout ks st) = socketPairs st"
proof (induction ks arbitrary: st)
  case (Cons k ks)
  show ?case using Cons.IH [of "send_timeout k st"] timeout_sealed [OF Cons.prems] by simp
qed simp

lemma gone_sealed:
  assumes "sealed st"
  shows "sealed (on_socket_gone i sd st)"
proof -
  have w: "can_write (sock sd2 (map_sock sd destroy_socket p)) \<Longrightarrow> can_write (sock sd2 p)" for sd2 p
    by (auto simp: sock_map_sock destroy_socket_def can_write_def split: if_splits)
  let ?s = "map_pair i (map_sock sd destroy_socket) st"
  have "\<not> can_write (sock sd2 p)" if "socketPairs (cleanupPair i False ?s) j = Some p" for j sd2 p
  proof (cases "j = i")
    case True
    then show ?thesis using cleanup_closes that by blast
  next
    case False
    then have "socketPairs st j = Some p" using that by (simp add: cleanup_others map_pair_def)
    then show ?thesis using assms by (simp add: sealed_def)
  qed
  moreover have "faultState (cleanupPair i False ?s) = SEVERED" "activePairs (cleanupPair i False ?s) = []"
    using assms by (simp_all add: sealed_def map_pair_def)
  ultimately show ?thesis by (auto simp: sealed_def on_socket_gone_def)
qed

lemma act_sealed:
  assumes "sealed st" "\<not> reopens ev"
  shows "sealed (snd (proxy_act utf8 ev st)) \<and> (\<forall>i sd. written (snd (proxy_act utf8 ev st)) i sd = written st i sd)"
proof (cases ev)
  case (SocketGone i sd)
  have "written (on_socket_gone i sd st) j sd2 = written st j sd2" for j sd2
    by (simp add: on_socket_gone_def written_map_sock)
  then show ?thesis using SocketGone gone_sealed [OF assms(1)] by simp
next
  case (Clock now)
  then show ?thesis using timeouts_sealed [OF assms(1)] by (auto simp: run_timeouts_def intro: written_frame)
qed (use assms in \<open>auto simp: traffic_sealed sealed_def written_def handleClientConnection_def proxy_started_def
    proxy_sever_def proxy_close_def injectLatency_def dropFrames_def set_filters_def Let_def split: option.splits\<close>)

lemma run_sealed:
  "sealed st \<Longrightarrow> \<forall>ev \<in> set evs. \<not> reopens ev \<Longrightarrow>
   sealed (run_proxy utf8 evs st) \<and> (\<forall>i sd. written (run_proxy utf8 evs st) i sd = written st i sd)"
proof (induction evs arbitrary: st)
  case (Cons ev evs)
  show ?case using Cons.IH [of "snd (proxy_act utf8 ev st)"] act_sealed [of st ev utf8] Cons.prems by (simp add: run_proxy_def)
qed (simp add: run_proxy_def)

lemma run_ok: "proxy_ok st \<Longrightarrow> proxy_ok (run_proxy utf8 evs st)"
  by (induction evs arbitrary: st) (simp_all add: run_proxy_def proxy_act_ok)

text \<open>
  C24: after \<open>sever()\<close> nothing passes: in a proxy with any history, until \<open>restore\<close>, \<open>blackhole\<close> or a new latency
  is asked for, whatever the sockets do, no byte is written to any socket, delayed chunks included, no pair is
  active and the proxy stays severed.
\<close>
theorem severed_isolates:
  fixes utf8 :: "byte list \<Rightarrow> string" and opts :: proxy_options and before evs :: "proxy_event list"
  assumes "\<forall>ev \<in> set evs. \<not> reopens ev"
  defines "st \<equiv> run_proxy utf8 before (new_FaultProxy opts)"
  defines "st2 \<equiv> run_proxy utf8 evs (proxy_sever st)"
  shows "faultState st2 = SEVERED \<and> activePairs st2 = [] \<and> (\<forall>i sd. written st2 i sd = written st i sd)"
proof -
  have "sealed (proxy_sever st)" unfolding st_def by (intro sever_sealed run_ok) simp
  from run_sealed [OF this assms(1)] show ?thesis by (simp add: st2_def sealed_def)
qed

definition tcp_options :: proxy_options where
  "tcp_options = \<lparr>listenPort = 9000, proxyMode = None\<rparr>"

definition websocket_options :: proxy_options where
  "websocket_options = \<lparr>listenPort = 9000, proxyMode = Some ''websocket''\<rparr>"

definition slow_network :: latency_config where
  "slow_network = \<lparr>latMinDelayMs = 10, latMaxDelayMs = 50\<rparr>"

text \<open>A chunk delayed by the proxy, a severance, then more data, the timer and a new client.\<close>

lemma severed_isolates_witness:
  "written (run_proxy (\<lambda>_. []) [ClientData 5 0 0 [2], Clock 100, Accepted]
     (proxy_sever (run_proxy (\<lambda>_. []) [Accepted, InjectLatency (Some slow_network), ClientData 0 0 0 [1]]
       (new_FaultProxy tcp_options)))) 0 TargetSide = Some []"
proof -
  have w: "written (run_proxy (\<lambda>_. []) [Accepted, InjectLatency (Some slow_network), ClientData 0 0 0 [1]]
       (new_FaultProxy tcp_options)) 0 TargetSide = Some []"
    by (simp add: run_proxy_def new_FaultProxy_def tcp_options_def handleClientConnection_def open_socket_def Let_def
        injectLatency_def forwardClientTraffic_def sendToSocket_def can_write_def written_def set_add_def)
  show ?thesis
    using severed_isolates [of "[ClientData 5 0 0 [2], Clock 100, Accepted]" "\<lambda>_. []"
        "[Accepted, InjectLatency (Some slow_network), ClientData 0 0 0 [1]]" tcp_options] w by simp
qed

section \<open>Frames through the proxy\<close>

lemma sock_simps [simp]:
  "write_all [] s = s" "can_write (write_all bufs s) = can_write s"
  "write_all b2 (write_all b1 s) = write_all (b1 @ b2) s" "sockWritten (write_all bufs s) = sockWritten s @ concat bufs"
  by (simp_all add: write_all_def can_write_def)

text \<open>The state with another pair under a number.\<close>

definition with_pair :: "nat \<Rightarrow> socket_pair \<Rightarrow> proxy \<Rightarrow> proxy" where
  "with_pair i p st = st\<lparr>socketPairs := (socketPairs st)(i \<mapsto> p)\<rparr>"

lemma with_pair_simps [simp]:
  "socketPairs (with_pair i p st) i = Some p" "with_pair i q (with_pair i p st) = with_pair i q st"
  "latencyConfig (with_pair i p st) = latencyConfig st" "faultState (with_pair i p st) = faultState st"
  "websocketMode (with_pair i p st) = websocketMode st"
  by (simp_all add: with_pair_def)

lemma with_pair_same: "socketPairs st i = Some p \<Longrightarrow> with_pair i p st = st"
  by (simp add: with_pair_def fun_upd_idem)

lemma map_pair_with: "socketPairs st i = Some p \<Longrightarrow> map_pair i f st = with_pair i (f p) st"
  by (simp add: map_pair_def with_pair_def)

lemma send_now:
  assumes "socketPairs st i = Some p" "can_write (sock sd p)" "latencyConfig st = None"
  shows "sendToSocket now r i sd bufs st = with_pair i (map_sock sd (write_all bufs) p) st"
  using assms by (simp add: sendToSocket_def map_pair_with)

lemma filter_to_client_now:
  assumes "socketPairs st i = Some p" "can_write (clientSocket p)" "latencyConfig st = None"
    and "processChunk utf8 chunk (targetFilter p) = (Inr outs, flt)"
  shows "filter_to_client utf8 now r i chunk st =
    (None, with_pair i (p\<lparr>targetFilter := flt, clientSocket := write_all outs (clientSocket p)\<rparr>) st)"
  using assms by (simp add: filter_to_client_def Let_def map_pair_with send_now)

lemma target_data_filtered:
  assumes "faultState st \<noteq> SEVERED" "faultState st \<noteq> BLACKHOLE" "latencyConfig st = None" "websocketMode st"
    and "socketPairs st i = Some p" "can_write (clientSocket p)" "handshakeComplete p"
    and "process_stream utf8 cs (targetFilter p) = Some (outs, flt)"
  shows "run_proxy utf8 (map (TargetData now r r2 i) cs) st =
    with_pair i (p\<lparr>targetFilter := flt, clientSocket := write_all outs (clientSocket p)\<rparr>) st"
  using assms
proof (induction cs arbitrary: st p outs)
  case Nil
  then show ?case by (simp add: run_proxy_def with_pair_same)
next
  case (Cons c cs)
  obtain o1 f1 o2 where 1: "processChunk utf8 c (targetFilter p) = (Inr o1, f1)"
    and 2: "process_stream utf8 cs f1 = Some (o2, flt)" and o: "outs = o1 @ o2"
    using Cons.prems(8) by (auto split: prod.splits sum.splits option.splits)
  let ?p = "p\<lparr>targetFilter := f1, clientSocket := write_all o1 (clientSocket p)\<rparr>"
  have a: "snd (proxy_act utf8 (TargetData now r r2 i c) st) = with_pair i ?p st"
    using Cons.prems filter_to_client_now [OF Cons.prems(5,6,3) 1] by (simp add: forwardTargetTraffic_def)
  have "run_proxy utf8 (map (TargetData now r r2 i) cs) (with_pair i ?p st) =
    with_pair i (?p\<lparr>targetFilter := flt, clientSocket := write_all o2 (clientSocket ?p)\<rparr>) (with_pair i ?p st)"
    by (rule Cons.IH) (use Cons.prems 2 in simp_all)
  then show ?case using a o by (simp add: run_proxy_def)
qed

lemma find_header_bound: "find_header_end h = Some k \<Longrightarrow> k + 4 \<le> length h"
proof (induction h arbitrary: k)
  case (Cons b bs)
  show ?case
  proof (cases "take 4 (b # bs) = [13, 10, 13, 10]")
    case True
    have "4 \<le> length (b # bs)" using arg_cong [OF True, of length] unfolding length_take by simp
    then show ?thesis using Cons.prems True by simp
  next
    case False
    then show ?thesis using Cons by auto
  qed
qed simp

lemma find_header_append: "find_header_end h = Some k \<Longrightarrow> find_header_end (h @ t) = Some k"
proof (induction h arbitrary: k)
  case (Cons b bs)
  have "4 \<le> length (b # bs)" using find_header_bound [OF Cons.prems] by simp
  then have "take 4 (b # bs @ t) = take 4 (b # bs)" using take_append [of 4 "b # bs" t] by simp
  then show ?case using Cons by (auto split: if_splits)
qed simp


text \<open>An upgrade response that ends with the first byte of a text frame; the rest follows in two chunks.\<close>

definition upgrade_response :: "byte list" where
  "upgrade_response = [49, 48, 49, 13, 10, 13, 10]"

definition fresh_pair :: "drop_predicate option \<Rightarrow> socket_pair" where
  "fresh_pair dp =
     \<lparr>clientSocket = open_socket, targetSocket = open_socket, clientFilter = new_WebSocketFrameFilter dp,
      targetFilter = new_WebSocketFrameFilter dp, handshakeComplete = False\<rparr>"


text \<open>The end of the header must lie in one chunk: otherwise the handshake is never seen and nothing is filtered.\<close>

lemma split_response_unfiltered:
  assumes "faultState st \<noteq> SEVERED" "faultState st \<noteq> BLACKHOLE" "latencyConfig st = None" "websocketMode st"
    and "socketPairs st i = Some p" "can_write (clientSocket p)" "\<not> handshakeComplete p"
    and "\<forall>c \<in> set cs. find_header_end c = None"
  shows "run_proxy utf8 (map (TargetData now r r2 i) cs) st =
    with_pair i (p\<lparr>clientSocket := write_all cs (clientSocket p)\<rparr>) st"
  using assms
proof (induction cs arbitrary: st p)
  case Nil
  then show ?case by (simp add: run_proxy_def with_pair_same)
next
  case (Cons c cs)
  let ?p = "p\<lparr>clientSocket := write_all [c] (clientSocket p)\<rparr>"
  have a: "snd (proxy_act utf8 (TargetData now r r2 i c) st) = with_pair i ?p st"
    using Cons.prems by (simp add: forwardTargetTraffic_def send_now)
  have "run_proxy utf8 (map (TargetData now r r2 i) cs) (with_pair i ?p st) =
    with_pair i (?p\<lparr>clientSocket := write_all cs (clientSocket ?p)\<rparr>) (with_pair i ?p st)"
    by (rule Cons.IH) (use Cons.prems in simp_all)
  then show ?case using a by (simp add: run_proxy_def)
qed

section \<open>Latency\<close>

lemma latency_delay_bounds:
  assumes "0 \<le> r" "r < 1" "latMinDelayMs cfg \<le> latMaxDelayMs cfg"
  shows "latMinDelayMs cfg \<le> latency_delay r cfg \<and> latency_delay r cfg \<le> latMaxDelayMs cfg"
proof -
  define n where "n = latMaxDelayMs cfg - latMinDelayMs cfg + 1"
  have n: "0 < n" using assms(3) by (simp add: n_def)
  have "r * rat_of_int n < 1 * rat_of_int n" by (rule mult_strict_right_mono) (use assms n in auto)
  then have "\<lfloor>r * rat_of_int n\<rfloor> < n" by (simp add: floor_less_iff)
  moreover have "0 \<le> \<lfloor>r * rat_of_int n\<rfloor>" using assms(1) n by simp
  ultimately show ?thesis unfolding latency_delay_def n_def [symmetric] by (auto simp: n_def)
qed

text \<open>
  Injected latency does not keep the order of a byte stream: of two chunks that arrive at one moment the
  second is written first when its random delay is the smaller one.
\<close>
theorem latency_reorders_chunks:
  assumes "faultState st = DEGRADED" "latencyConfig st = Some cfg" "\<not> websocketMode st" "pendingTimers st = []"
    and "socketPairs st i = Some p" "can_write (targetSocket p)"
    and "node_delay (latency_delay r2 cfg) < node_delay (latency_delay r1 cfg)"
    and "now + node_delay (latency_delay r1 cfg) \<le> later"
  shows "written (run_proxy utf8 [ClientData now r1 i a, ClientData now r2 i b, Clock later] st) i TargetSide =
    Some (sockWritten (targetSocket p) @ b @ a)"
proof -
  define n where "n = nextTimer st"
  define ta where "ta = \<lparr>tmPair = i, tmSide = TargetSide, tmBuffers = [a], tmDue = now + node_delay (latency_delay r1 cfg)\<rparr>"
  define tb where "tb = \<lparr>tmPair = i, tmSide = TargetSide, tmBuffers = [b], tmDue = now + node_delay (latency_delay r2 cfg)\<rparr>"
  have s: "run_proxy utf8 [ClientData now r1 i a, ClientData now r2 i b] st =
    st\<lparr>pendingTimers := [(n, ta), (Suc n, tb)], nextTimer := Suc (Suc n)\<rparr>"
    using assms by (simp add: run_proxy_def forwardClientTraffic_def sendToSocket_def n_def ta_def tb_def)
  have o: "map fst (sort_key (tmDue \<circ> snd) (filter (\<lambda>(_, t). tmDue t \<le> later) [(n, ta), (Suc n, tb)])) = [Suc n, n]"
    using assms(7,8) by (simp add: ta_def tb_def)
  have w: "sockDestroyed (targetSocket p) = False" "sockWritable (targetSocket p)" using assms(6) by (simp_all add: can_write_def)
  have "run_proxy utf8 [ClientData now r1 i a, ClientData now r2 i b, Clock later] st =
    run_timeouts later (run_proxy utf8 [ClientData now r1 i a, ClientData now r2 i b] st)"
    by (simp add: run_proxy_def)
  also have "\<dots> = send_timeout n (send_timeout (Suc n) (st\<lparr>pendingTimers := [(n, ta), (Suc n, tb)], nextTimer := Suc (Suc n)\<rparr>))"
  proof -
    have "pendingTimers (st\<lparr>pendingTimers := [(n, ta), (Suc n, tb)], nextTimer := Suc (Suc n)\<rparr>) = [(n, ta), (Suc n, tb)]"
      by simp
    then show ?thesis unfolding s run_timeouts_def by (simp only: o) simp
  qed
  finally show ?thesis using assms(5) w
    by (simp add: send_timeout_def Let_def ta_def tb_def written_def map_pair_def write_all_def can_write_def)
qed

text \<open>With delays between 10 and 50 ms and the draws 0.9 and 0.\<close>

lemma latency_reorders_chunks_witness:
  "written (run_proxy (\<lambda>_. []) [ClientData 0 (9/10) 0 [1], ClientData 0 0 0 [2], Clock 60]
     (with_pair 0 (fresh_pair None) (injectLatency (Some slow_network) (new_FaultProxy tcp_options)))) 0 TargetSide = Some [2, 1]"
proof -
  let ?st = "with_pair 0 (fresh_pair None) (injectLatency (Some slow_network) (new_FaultProxy tcp_options))"
  have "faultState ?st = DEGRADED" "latencyConfig ?st = Some slow_network" "\<not> websocketMode ?st" "pendingTimers ?st = []"
    "socketPairs ?st 0 = Some (fresh_pair None)" "can_write (targetSocket (fresh_pair None))"
    "node_delay (latency_delay 0 slow_network) < node_delay (latency_delay (9/10) slow_network)"
    "0 + node_delay (latency_delay (9/10) slow_network) \<le> 60"
    by (simp_all add: injectLatency_def Let_def new_FaultProxy_def tcp_options_def with_pair_def fresh_pair_def open_socket_def
        can_write_def node_delay_def latency_delay_def slow_network_def)
  from latency_reorders_chunks [OF this, of "\<lambda>_. []" "[1]" "[2]"]
  show ?thesis by (simp add: fresh_pair_def open_socket_def)
qed

end
