(* ===== verification/Metrics.thy ===== *)
theory Metrics
  imports Uuid
begin

text \<open>
  \<^verbatim>\<open>src/metrics/Counter.ts\<close>, \<^verbatim>\<open>Gauge.ts\<close>, \<^verbatim>\<open>Histogram.ts\<close>, \<^verbatim>\<open>PulseMetricsRegistry.ts\<close>, \<^verbatim>\<open>telemetry.ts\<close> and
  the vocabulary and label check of \<^verbatim>\<open>types.ts\<close>. Every operation that can throw returns \<open>Inl\<close> the error.
  An argument \<open>labels\<close> that is \<^verbatim>\<open>undefined\<close> is \<open>None\<close>; an object of labels is the list of its own
  properties. Additions are those of exact numbers with the three non-finite values.
\<close>

section \<open>Arithmetic of numbers\<close>

instantiation jsnum :: comm_monoid_add
begin

definition zero_jsnum :: jsnum where
  "zero_jsnum = FinNum 0"

fun plus_jsnum :: "jsnum \<Rightarrow> jsnum \<Rightarrow> jsnum" where
  "plus_jsnum (FinNum p) (FinNum q) = FinNum (p + q)"
| "plus_jsnum (FinNum _) y = y"
| "plus_jsnum x (FinNum _) = x"
| "plus_jsnum PosInf PosInf = PosInf"
| "plus_jsnum NegInf NegInf = NegInf"
| "plus_jsnum _ _ = NaN"

lemma jsnum_add_assoc: "((x :: jsnum) + y) + z = x + (y + z)"
  by (cases x; cases y; cases z) auto

lemma jsnum_add_commute: "(x :: jsnum) + y = y + x"
  by (cases x; cases y) auto

lemma jsnum_zero_add: "(0 :: jsnum) + x = x"
  by (cases x) (auto simp: zero_jsnum_def)

instance
  by standard (fact jsnum_add_assoc jsnum_add_commute jsnum_zero_add)+

end

fun num_neg :: "jsnum \<Rightarrow> jsnum" where
  "num_neg (FinNum q) = FinNum (- q)"
| "num_neg PosInf = NegInf"
| "num_neg NegInf = PosInf"
| "num_neg NaN = NaN"

section \<open>Labels\<close>

type_synonym labels = "(string, string) jsmap option"

datatype metric_error =
    EmptyName
  | BadIncrement
  | BadValue
  | BadBucket
  | DuplicateBucket
  | ProhibitedLabel string
  | BadLabelValue string
  | AlreadyRegistered
  | WrongType

definition BOUNDED_EVENT_TYPES :: "string list" where
  "BOUNDED_EVENT_TYPES =
     [''SYS_CONNECT_ACK'', ''SYS_PING'', ''SYS_PONG'', ''SYS_ERROR'', ''SYS_SHUTDOWN'', ''ROOM_JOIN'', ''ROOM_JOIN_ACK'',
      ''ROOM_LEAVE'', ''ROOM_LEAVE_ACK'', ''ROOM_BATCH_JOIN'', ''ROOM_BATCH_JOIN_ACK'', ''ROOM_MESSAGE'',
      ''DIRECT_MESSAGE'', ''PRESENCE_UPDATE'', ''ROOM_ROSTER'', ''DELIVERY_ACK'']"

definition BOUNDED_STATUSES :: "string list" where
  "BOUNDED_STATUSES =
     [''success'', ''error'', ''rejected'', ''timeout'', ''dropped'', ''accepted'', ''distributed_accepted'', ''conflict'',
      ''out_of_order'']"

definition BOUNDED_REASONS :: "string list" where
  "BOUNDED_REASONS =
     [''heartbeat_timeout'', ''slow_consumer'', ''client_close'', ''server_shutdown'', ''malformed_frame'', ''unauthorized'',
      ''duplicate'', ''stale_presence'', ''invalid_format'', ''max_connections'', ''origin_forbidden'', ''draining'',
      ''auth_failed'', ''rate_limit_exceeded'']"

definition BOUNDED_DIRECTIONS :: "string list" where
  "BOUNDED_DIRECTIONS = [''published'', ''received'', ''inbound'', ''outbound'']"

definition PROHIBITED_LABEL_KEYS :: "string list" where
  "PROHIBITED_LABEL_KEYS =
     [''userid'', ''user_id'', ''connectionid'', ''connection_id'', ''roomid'', ''room_id'', ''eventid'', ''event_id'',
      ''instanceid'', ''instance_id'', ''error'', ''error_message'', ''errormsg'', ''message'', ''payload'']"

fun check_labels :: "(string, string) jsmap \<Rightarrow> metric_error option" where
  "check_labels [] = None"
| "check_labels ((key, v) # ls) =
     (if js_lower key \<in> set PROHIBITED_LABEL_KEYS then Some (ProhibitedLabel key)
      else if length v > 64 then Some (BadLabelValue key)
      else check_labels ls)"

definition assertLowCardinalityLabels :: "labels \<Rightarrow> metric_error option" where
  "assertLowCardinalityLabels labels = (case labels of None \<Rightarrow> None | Some ls \<Rightarrow> check_labels ls)"

fun join_with :: "string \<Rightarrow> string list \<Rightarrow> string" where
  "join_with sep [] = []"
| "join_with sep [p] = p"
| "join_with sep (p # q # ps) = p @ sep @ join_with sep (q # ps)"

definition label_or_empty :: "(string, string) jsmap \<Rightarrow> string \<Rightarrow> string" where
  "label_or_empty ls name = (case map_of ls name of None \<Rightarrow> [] | Some v \<Rightarrow> v)"

definition resolveKey :: "string list \<Rightarrow> labels \<Rightarrow> string" where
  "resolveKey labelNames labels =
     (case labels of
        None \<Rightarrow> []
      | Some ls \<Rightarrow>
          if length labelNames = 1 then label_or_empty ls (hd labelNames)
          else join_with ''|'' (map (\<lambda>name. name @ ''='' @ label_or_empty ls name) labelNames))"

definition filterAllowedLabels :: "string list \<Rightarrow> labels \<Rightarrow> (string, string) jsmap" where
  "filterAllowedLabels labelNames labels =
     (case labels of
        None \<Rightarrow> []
      | Some ls \<Rightarrow>
          fold (\<lambda>name filtered. case map_of ls name of None \<Rightarrow> filtered | Some v \<Rightarrow> js_set name v filtered) labelNames [])"

section \<open>Counters and gauges\<close>

record labeled_series =
  seriesLabels :: "(string, string) jsmap"
  seriesValue :: jsnum

text \<open>The fields of \<^verbatim>\<open>Counter\<close> and of \<^verbatim>\<open>Gauge\<close>, which are the same.\<close>

record value_metric =
  metricName :: string
  metricHelp :: string
  labelNames :: "string list"
  unlabelledValue :: jsnum
  series :: "(string, labeled_series) jsmap"

record metric_sample =
  sampleName :: string
  sampleLabels :: "(string, string) jsmap option"
  sampleValue :: jsnum

definition new_Counter :: "string \<Rightarrow> string \<Rightarrow> string list \<Rightarrow> metric_error + value_metric" where
  "new_Counter name help names =
     (if name = [] then Inl EmptyName
      else Inr \<lparr>metricName = name, metricHelp = help, labelNames = names, unlabelledValue = 0, series = []\<rparr>)"

definition new_Gauge :: "string \<Rightarrow> string \<Rightarrow> string list \<Rightarrow> metric_error + value_metric" where
  "new_Gauge name help names =
     (if name = [] then Inl EmptyName
      else Inr \<lparr>metricName = name, metricHelp = help, labelNames = names, unlabelledValue = 0, series = []\<rparr>)"

definition getOrCreateEntry :: "labels \<Rightarrow> value_metric \<Rightarrow> metric_error + (labeled_series \<times> value_metric)" where
  "getOrCreateEntry labels m =
     (let key = resolveKey (labelNames m) labels
      in case map_of (series m) key of
           Some entry \<Rightarrow> Inr (entry, m)
         | None \<Rightarrow>
             (case assertLowCardinalityLabels labels of
                Some err \<Rightarrow> Inl err
              | None \<Rightarrow>
                  let entry = \<lparr>seriesLabels = filterAllowedLabels (labelNames m) labels, seriesValue = 0\<rparr>
                  in Inr (entry, m\<lparr>series := js_set key entry (series m)\<rparr>)))"

text \<open>An entry is changed in place.\<close>

definition update_entry :: "labels \<Rightarrow> (jsnum \<Rightarrow> jsnum) \<Rightarrow> value_metric \<Rightarrow> metric_error + value_metric" where
  "update_entry labels f m =
     (case getOrCreateEntry labels m of
        Inl err \<Rightarrow> Inl err
      | Inr (entry, m1) \<Rightarrow>
          Inr (m1\<lparr>series := js_set (resolveKey (labelNames m) labels)
                              (entry\<lparr>seriesValue := f (seriesValue entry)\<rparr>) (series m1)\<rparr>))"

definition counter_inc :: "labels \<Rightarrow> jsnum \<Rightarrow> value_metric \<Rightarrow> metric_error + value_metric" where
  "counter_inc labels v m =
     (if v = NaN \<or> num_less v 0 then Inl BadIncrement
      else if labelNames m = [] then Inr (m\<lparr>unlabelledValue := unlabelledValue m + v\<rparr>)
      else update_entry labels (\<lambda>x. x + v) m)"

definition gauge_set :: "jsnum \<Rightarrow> labels \<Rightarrow> value_metric \<Rightarrow> metric_error + value_metric" where
  "gauge_set v labels m =
     (if v = NaN then Inl BadValue
      else if labelNames m = [] then Inr (m\<lparr>unlabelledValue := v\<rparr>)
      else update_entry labels (\<lambda>_. v) m)"

definition gauge_inc :: "labels \<Rightarrow> jsnum \<Rightarrow> value_metric \<Rightarrow> metric_error + value_metric" where
  "gauge_inc labels v m =
     (if v = NaN then Inl BadValue
      else if labelNames m = [] then Inr (m\<lparr>unlabelledValue := unlabelledValue m + v\<rparr>)
      else update_entry labels (\<lambda>x. x + v) m)"

definition gauge_dec :: "labels \<Rightarrow> jsnum \<Rightarrow> value_metric \<Rightarrow> metric_error + value_metric" where
  "gauge_dec labels v m =
     (if v = NaN then Inl BadValue
      else if labelNames m = [] then Inr (m\<lparr>unlabelledValue := unlabelledValue m + num_neg v\<rparr>)
      else update_entry labels (\<lambda>x. x + num_neg v) m)"

definition metric_get :: "labels \<Rightarrow> value_metric \<Rightarrow> jsnum" where
  "metric_get labels m =
     (if labelNames m = [] then unlabelledValue m
      else case map_of (series m) (resolveKey (labelNames m) labels) of Some entry \<Rightarrow> seriesValue entry | None \<Rightarrow> 0)"

definition metric_reset :: "value_metric \<Rightarrow> value_metric" where
  "metric_reset m = m\<lparr>unlabelledValue := 0, series := map (\<lambda>(k, e). (k, e\<lparr>seriesValue := 0\<rparr>)) (series m)\<rparr>"

definition metric_collect :: "value_metric \<Rightarrow> metric_sample list" where
  "metric_collect m =
     (if labelNames m = [] then [\<lparr>sampleName = metricName m, sampleLabels = None, sampleValue = unlabelledValue m\<rparr>]
      else map (\<lambda>(_, e). \<lparr>sampleName = metricName m, sampleLabels = Some (seriesLabels e), sampleValue = seriesValue e\<rparr>)
             (series m))"

section \<open>Histograms\<close>

record hist_series =
  hsLabels :: "(string, string) jsmap"
  bucketCounts :: "nat list"
  hsSum :: jsnum
  hsCount :: nat

record histogram =
  histName :: string
  histHelp :: string
  histLabelNames :: "string list"
  buckets :: "jsnum list"
  unlabelledSeries :: hist_series
  seriesMap :: "(string, hist_series) jsmap"

record histogram_value =
  hvBuckets :: "(jsnum \<times> nat) list"
  hvSum :: jsnum
  hvCount :: nat

definition DEFAULT_LATENCY_BUCKETS :: "jsnum list" where
  "DEFAULT_LATENCY_BUCKETS =
     map FinNum [5/10000, 1/1000, 2/1000, 5/1000, 10/1000, 25/1000, 50/1000, 100/1000, 250/1000, 500/1000, 1]"

text \<open>\<^verbatim>\<open>sort((a, b) => a - b)\<close>, stable; a list with \<^verbatim>\<open>NaN\<close>, whose order is not defined, is refused next.\<close>

fun num_insert :: "jsnum \<Rightarrow> jsnum list \<Rightarrow> jsnum list" where
  "num_insert x [] = [x]"
| "num_insert x (y # ys) = (if num_leq x y then x # y # ys else y # num_insert x ys)"

definition num_sort :: "jsnum list \<Rightarrow> jsnum list" where
  "num_sort xs = foldr num_insert xs []"

fun check_buckets :: "jsnum option \<Rightarrow> jsnum list \<Rightarrow> metric_error option" where
  "check_buckets prev [] = None"
| "check_buckets prev (b # bs) =
     (if b = NaN \<or> num_leq b 0 then Some BadBucket
      else if prev = Some b then Some DuplicateBucket
      else check_buckets (Some b) bs)"

definition empty_series :: "(string, string) jsmap \<Rightarrow> nat \<Rightarrow> hist_series" where
  "empty_series ls n = \<lparr>hsLabels = ls, bucketCounts = replicate n 0, hsSum = 0, hsCount = 0\<rparr>"

definition new_Histogram ::
  "string \<Rightarrow> string \<Rightarrow> string list \<Rightarrow> jsnum list option \<Rightarrow> metric_error + histogram" where
  "new_Histogram name help names bs =
     (if name = [] then Inl EmptyName
      else
        let rawBuckets = (case bs of None \<Rightarrow> DEFAULT_LATENCY_BUCKETS | Some b \<Rightarrow> b);
            sorted = num_sort rawBuckets
        in case check_buckets None sorted of
             Some err \<Rightarrow> Inl err
           | None \<Rightarrow> Inr \<lparr>histName = name, histHelp = help, histLabelNames = names, buckets = sorted,
                         unlabelledSeries = empty_series [] (length sorted), seriesMap = []\<rparr>)"

definition clamp_observation :: "jsnum \<Rightarrow> jsnum" where
  "clamp_observation v = (if num_less v 0 then 0 else v)"

definition observe :: "jsnum list \<Rightarrow> jsnum \<Rightarrow> hist_series \<Rightarrow> hist_series" where
  "observe bs val s =
     s\<lparr>hsCount := Suc (hsCount s), hsSum := hsSum s + val,
       bucketCounts := map2 (\<lambda>b c. if num_leq val b then Suc c else c) bs (bucketCounts s)\<rparr>"

definition getOrCreateSeries :: "labels \<Rightarrow> histogram \<Rightarrow> metric_error + (hist_series \<times> histogram)" where
  "getOrCreateSeries labels h =
     (if histLabelNames h = [] then Inr (unlabelledSeries h, h)
      else
        let key = resolveKey (histLabelNames h) labels
        in case map_of (seriesMap h) key of
             Some s \<Rightarrow> Inr (s, h)
           | None \<Rightarrow>
               (case assertLowCardinalityLabels labels of
                  Some err \<Rightarrow> Inl err
                | None \<Rightarrow>
                    let s = empty_series (filterAllowedLabels (histLabelNames h) labels) (length (buckets h))
                    in Inr (s, h\<lparr>seriesMap := js_set key s (seriesMap h)\<rparr>)))"

definition hist_record :: "jsnum \<Rightarrow> labels \<Rightarrow> histogram \<Rightarrow> metric_error + histogram" where
  "hist_record v labels h =
     (if v = NaN then Inl BadValue
      else case getOrCreateSeries labels h of
             Inl err \<Rightarrow> Inl err
           | Inr (s, h1) \<Rightarrow>
               let s1 = observe (buckets h) (clamp_observation v) s
               in Inr (if histLabelNames h = [] then h1\<lparr>unlabelledSeries := s1\<rparr>
                       else h1\<lparr>seriesMap := js_set (resolveKey (histLabelNames h) labels) s1 (seriesMap h1)\<rparr>))"

definition getSeries :: "labels \<Rightarrow> histogram \<Rightarrow> hist_series option" where
  "getSeries labels h =
     (if histLabelNames h = [] then Some (unlabelledSeries h)
      else map_of (seriesMap h) (resolveKey (histLabelNames h) labels))"

definition buildBuckets :: "jsnum list \<Rightarrow> nat list \<Rightarrow> nat \<Rightarrow> (jsnum \<times> nat) list" where
  "buildBuckets bs counts totalCount = zip bs counts @ [(PosInf, totalCount)]"

definition hist_getValue :: "labels \<Rightarrow> histogram \<Rightarrow> histogram_value" where
  "hist_getValue labels h =
     (case getSeries labels h of
        None \<Rightarrow> \<lparr>hvBuckets = buildBuckets (buckets h) (replicate (length (buckets h)) 0) 0, hvSum = 0, hvCount = 0\<rparr>
      | Some s \<Rightarrow> \<lparr>hvBuckets = buildBuckets (buckets h) (bucketCounts s) (hsCount s), hvSum = hsSum s, hvCount = hsCount s\<rparr>)"

definition reset_series :: "hist_series \<Rightarrow> hist_series" where
  "reset_series s = s\<lparr>bucketCounts := replicate (length (bucketCounts s)) 0, hsSum := 0, hsCount := 0\<rparr>"

definition hist_reset :: "histogram \<Rightarrow> histogram" where
  "hist_reset h = h\<lparr>unlabelledSeries := reset_series (unlabelledSeries h),
                    seriesMap := map (\<lambda>(k, s). (k, reset_series s)) (seriesMap h)\<rparr>"

text \<open>\<open>num_str\<close> is \<^verbatim>\<open>String\<close> on numbers. A spread sets \<^verbatim>\<open>le\<close> last, or in place when the series has such a label.\<close>

definition series_samples :: "(jsnum \<Rightarrow> string) \<Rightarrow> histogram \<Rightarrow> hist_series \<Rightarrow> metric_sample list" where
  "series_samples num_str h s =
     map2 (\<lambda>b c. \<lparr>sampleName = histName h @ ''_bucket'', sampleLabels = Some (js_set ''le'' (num_str b) (hsLabels s)),
                  sampleValue = int_num (int c)\<rparr>) (buckets h) (bucketCounts s)
     @ [\<lparr>sampleName = histName h @ ''_bucket'', sampleLabels = Some (js_set ''le'' ''+Inf'' (hsLabels s)),
         sampleValue = int_num (int (hsCount s))\<rparr>,
        \<lparr>sampleName = histName h @ ''_sum'', sampleLabels = Some (hsLabels s), sampleValue = hsSum s\<rparr>,
        \<lparr>sampleName = histName h @ ''_count'', sampleLabels = Some (hsLabels s), sampleValue = int_num (int (hsCount s))\<rparr>]"

definition hist_collect :: "(jsnum \<Rightarrow> string) \<Rightarrow> histogram \<Rightarrow> metric_sample list" where
  "hist_collect num_str h =
     concat (map (series_samples num_str h)
       (if histLabelNames h = [] then [unlabelledSeries h] else map snd (seriesMap h)))"

section \<open>Series and their keys\<close>

definition old_value :: "labels \<Rightarrow> value_metric \<Rightarrow> jsnum" where
  "old_value l m = (case map_of (series m) (resolveKey (labelNames m) l) of Some e \<Rightarrow> seriesValue e | None \<Rightarrow> 0)"

lemma js_set_twice: "js_set k v (js_set k w m) = js_set k v m"
  by (induction m) auto

lemma update_entry_eq:
  assumes "update_entry l f m = Inr m'"
  obtains e where "m' = m\<lparr>series := js_set (resolveKey (labelNames m) l) (e\<lparr>seriesValue := f (old_value l m)\<rparr>) (series m)\<rparr>"
proof (cases "map_of (series m) (resolveKey (labelNames m) l)")
  case None
  with assms have "m' = m\<lparr>series := js_set (resolveKey (labelNames m) l)
      (\<lparr>seriesLabels = filterAllowedLabels (labelNames m) l, seriesValue = 0\<rparr>\<lparr>seriesValue := f (old_value l m)\<rparr>) (series m)\<rparr>"
    by (auto simp: update_entry_def getOrCreateEntry_def old_value_def Let_def js_set_twice split: option.splits)
  then show ?thesis by (rule that)
next
  case (Some e)
  with assms show ?thesis by (intro that [of e]) (simp add: update_entry_def getOrCreateEntry_def old_value_def Let_def)
qed

text \<open>Two arguments select the same number of a metric.\<close>

definition same_series :: "string list \<Rightarrow> labels \<Rightarrow> labels \<Rightarrow> bool" where
  "same_series names l l' \<longleftrightarrow> names = [] \<or> resolveKey names l = resolveKey names l'"

lemma get_update:
  assumes "update_entry l f m = Inr m'" "labelNames m \<noteq> []"
  shows "metric_get l' m' = (if same_series (labelNames m) l l' then f (metric_get l' m) else metric_get l' m)"
    and "labelNames m' = labelNames m"
proof -
  obtain e where m': "m' = m\<lparr>series := js_set (resolveKey (labelNames m) l) (e\<lparr>seriesValue := f (old_value l m)\<rparr>) (series m)\<rparr>"
    by (rule update_entry_eq [OF assms(1)])
  show "metric_get l' m' = (if same_series (labelNames m) l l' then f (metric_get l' m) else metric_get l' m)"
    using assms(2) by (simp add: m' metric_get_def same_series_def old_value_def)
  show "labelNames m' = labelNames m" by (simp add: m')
qed

lemma counter_inc_get:
  assumes "counter_inc l v m = Inr m'"
  shows "metric_get l' m' = metric_get l' m + (if same_series (labelNames m) l l' then v else 0)"
    and "labelNames m' = labelNames m"
proof -
  show "metric_get l' m' = metric_get l' m + (if same_series (labelNames m) l l' then v else 0)"
  proof (cases "labelNames m = []")
    case True
    with assms show ?thesis by (auto simp: counter_inc_def metric_get_def same_series_def split: if_splits)
  next
    case False
    then have "update_entry l (\<lambda>x. x + v) m = Inr m'" using assms by (auto simp: counter_inc_def split: if_splits)
    from get_update(1) [OF this False] show ?thesis by simp
  qed
  show "labelNames m' = labelNames m"
    using assms get_update(2) by (auto simp: counter_inc_def split: if_splits)
qed

lemma sum_values_split:
  "wf_map m \<Longrightarrow> sum_list (map (seriesValue \<circ> snd) m) =
   sum_list (map (seriesValue \<circ> snd) (js_delete k m)) + (case map_of m k of Some e \<Rightarrow> seriesValue e | None \<Rightarrow> 0)"
proof (induction m)
  case (Cons a m)
  obtain k' e where a: "a = (k', e)" by fastforce
  have d: "js_delete k m = m" "map_of m k = None" if "k \<notin> fst ` set m" using that
    by (auto simp: AList.delete_id map_of_eq_None_iff)
  show ?case using Cons d by (cases "k' = k") (auto simp: a add.commute add.left_commute AList.delete_eq)
qed simp

lemma js_delete_set: "js_delete k (js_set k v m) = js_delete k m"
  by (induction m) (auto simp: AList.delete_eq)

text \<open>The samples of a counter add up to all its increments.\<close>

definition collected_total :: "value_metric \<Rightarrow> jsnum" where
  "collected_total m = sum_list (map sampleValue (metric_collect m))"

lemma counter_inc_total:
  assumes "counter_inc l v m = Inr m'" "wf_map (series m)"
  shows "collected_total m' = collected_total m + v \<and> wf_map (series m')"
proof (cases "labelNames m = []")
  case True
  with assms show ?thesis by (auto simp: counter_inc_def collected_total_def metric_collect_def split: if_splits)
next
  case False
  let ?k = "resolveKey (labelNames m) l"
  have u: "update_entry l (\<lambda>x. x + v) m = Inr m'" using assms False by (auto simp: counter_inc_def split: if_splits)
  have n: "labelNames m' \<noteq> []" using get_update(2) [OF u False] False by simp
  have tot: "collected_total m = sum_list (map (seriesValue \<circ> snd) (series m))" if "labelNames m \<noteq> []" for m :: value_metric
    using that by (simp add: collected_total_def metric_collect_def comp_def case_prod_unfold)
  obtain e where m': "m' = m\<lparr>series := js_set ?k (e\<lparr>seriesValue := old_value l m + v\<rparr>) (series m)\<rparr>"
    by (rule update_entry_eq [OF u])
  have w: "wf_map (series m')" using assms(2) by (simp add: m')
  let ?rest = "sum_list (map (seriesValue \<circ> snd) (js_delete ?k (series m)))"
  have "sum_list (map (seriesValue \<circ> snd) (series m')) = ?rest + (old_value l m + v)"
    using sum_values_split [OF w, of ?k] by (simp add: m' js_delete_set)
  moreover have "sum_list (map (seriesValue \<circ> snd) (series m)) = ?rest + old_value l m"
    using sum_values_split [OF assms(2), of ?k] by (simp add: old_value_def)
  ultimately show ?thesis using w by (simp add: tot [OF n] tot [OF False] add.assoc)
qed

text \<open>A sequence of increments, until one throws.\<close>

fun inc_all :: "(labels \<times> jsnum) list \<Rightarrow> value_metric \<Rightarrow> metric_error + value_metric" where
  "inc_all [] m = Inr m"
| "inc_all ((l, v) # xs) m = (case counter_inc l v m of Inl err \<Rightarrow> Inl err | Inr m1 \<Rightarrow> inc_all xs m1)"

lemma inc_all_counts:
  assumes "inc_all xs m = Inr m'" "wf_map (series m)"
  shows "metric_get l m' = metric_get l m + sum_list (map snd (filter (\<lambda>(l', _). same_series (labelNames m) l' l) xs)) \<and>
    collected_total m' = collected_total m + sum_list (map snd xs) \<and> wf_map (series m')"
  using assms
proof (induction xs arbitrary: m)
  case (Cons x xs)
  obtain l1 v m1 where x: "x = (l1, v)" and i: "counter_inc l1 v m = Inr m1" and r: "inc_all xs m1 = Inr m'"
    using Cons.prems(1) by (cases x) (auto split: sum.splits)
  note g = counter_inc_get [OF i] and t = counter_inc_total [OF i Cons.prems(2)]
  show ?case using Cons.IH [OF r] g t x by (simp add: add.assoc)
qed simp

text \<open>
  A counter counts: after any sequence of increments none of which throws, reading it with some labels
  gives the sum of the increments made with labels of the same series, and the samples that are exported add
  up to the sum of all increments.
\<close>
theorem counter_counts_increments:
  assumes "new_Counter name help names = Inr c0" "inc_all incs c0 = Inr c"
  shows "metric_get l c = sum_list (map snd (filter (\<lambda>(l', _). same_series names l' l) incs)) \<and>
    sum_list (map sampleValue (metric_collect c)) = sum_list (map snd incs)"
proof -
  have c0: "c0 = \<lparr>metricName = name, metricHelp = help, labelNames = names, unlabelledValue = 0, series = []\<rparr>"
    using assms(1) by (auto simp: new_Counter_def split: if_splits)
  have z: "metric_get l c0 = 0" "collected_total c0 = 0" "wf_map (series c0)" "labelNames c0 = names"
    by (simp_all add: c0 metric_get_def collected_total_def metric_collect_def)
  from inc_all_counts [OF assms(2) z(3), of l] show ?thesis unfolding z collected_total_def [symmetric] by simp
qed

definition status_label :: "string \<Rightarrow> labels" where
  "status_label s = Some [(''status'', s)]"

definition sample_increments :: "(labels \<times> jsnum) list" where
  "sample_increments =
     [(status_label ''success'', FinNum 1), (status_label ''rejected'', FinNum 1), (status_label ''success'', FinNum 2)]"

lemma counter_counts_increments_witness:
  "\<exists>c0 c. new_Counter ''pulse_connections_total'' [] [''status''] = Inr c0 \<and> inc_all sample_increments c0 = Inr c \<and>
     metric_get (status_label ''success'') c = FinNum 3"
proof -
  obtain c0 where c0: "new_Counter ''pulse_connections_total'' [] [''status''] = Inr c0" by (simp add: new_Counter_def)
  obtain c where c: "inc_all sample_increments c0 = Inr c"
    using c0 by (auto simp: new_Counter_def sample_increments_def status_label_def counter_inc_def update_entry_def
        getOrCreateEntry_def resolveKey_def label_or_empty_def Let_def zero_jsnum_def assertLowCardinalityLabels_def
        PROHIBITED_LABEL_KEYS_def js_lower_def js_lower_char_def)
  have "metric_get (status_label ''success'') c = FinNum 3"
    using counter_counts_increments [OF c0 c, of "status_label ''success''"]
    by (simp add: sample_increments_def same_series_def status_label_def resolveKey_def label_or_empty_def zero_jsnum_def)
  with c0 c show ?thesis by blast
qed

section \<open>Histograms refine their observations\<close>

text \<open>The series of a list of values, as a function of the list.\<close>

definition series_of :: "jsnum list \<Rightarrow> jsnum list \<Rightarrow> hist_series \<Rightarrow> bool" where
  "series_of bs vs s \<longleftrightarrow> hsCount s = length vs \<and> hsSum s = sum_list vs \<and>
     bucketCounts s = map (\<lambda>b. length (filter (\<lambda>v. num_leq v b) vs)) bs"

lemma series_of_empty [simp]: "series_of bs [] (empty_series ls (length bs))"
  by (simp add: series_of_def empty_series_def map_replicate_const)

lemma series_of_observe: "series_of bs vs s \<Longrightarrow> series_of bs (vs @ [v]) (observe bs v s)"
  by (auto simp: series_of_def observe_def zip_map2 comp_def intro!: nth_equalityI)

text \<open>A sequence of observations, until one throws.\<close>

fun record_all :: "(jsnum \<times> labels) list \<Rightarrow> histogram \<Rightarrow> metric_error + histogram" where
  "record_all [] h = Inr h"
| "record_all ((v, l) # xs) h = (case hist_record v l h of Inl err \<Rightarrow> Inl err | Inr h1 \<Rightarrow> record_all xs h1)"

definition observations :: "string list \<Rightarrow> labels \<Rightarrow> (jsnum \<times> labels) list \<Rightarrow> jsnum list" where
  "observations names l xs = map (clamp_observation \<circ> fst) (filter (\<lambda>(_, l'). same_series names l' l) xs)"

definition hist_rel :: "(jsnum \<times> labels) list \<Rightarrow> histogram \<Rightarrow> bool" where
  "hist_rel xs h \<longleftrightarrow> (\<forall>l. case getSeries l h of
       Some s \<Rightarrow> series_of (buckets h) (observations (histLabelNames h) l xs) s
     | None \<Rightarrow> observations (histLabelNames h) l xs = [])"

lemma observations_snoc:
  "observations names l (xs @ [(v, l1)]) =
   observations names l xs @ (if same_series names l1 l then [clamp_observation v] else [])"
  by (simp add: observations_def)

lemma hist_rel_record:
  assumes "hist_rel xs h" "hist_record v l1 h = Inr h1"
  shows "hist_rel (xs @ [(v, l1)]) h1 \<and> buckets h1 = buckets h \<and> histLabelNames h1 = histLabelNames h"
proof (cases "histLabelNames h = []")
  case True
  then have h1: "h1 = h\<lparr>unlabelledSeries := observe (buckets h) (clamp_observation v) (unlabelledSeries h)\<rparr>"
    using assms(2) by (auto simp: hist_record_def getOrCreateSeries_def Let_def split: if_splits)
  then show ?thesis using assms(1) True
    by (simp add: hist_rel_def getSeries_def observations_snoc same_series_def series_of_observe)
next
  case False
  let ?k = "resolveKey (histLabelNames h) l1"
  obtain ls where h1: "h1 = h\<lparr>seriesMap := js_set ?k (observe (buckets h) (clamp_observation v)
      (case map_of (seriesMap h) ?k of Some s \<Rightarrow> s | None \<Rightarrow> empty_series ls (length (buckets h)))) (seriesMap h)\<rparr>"
    using assms(2) False
    by (auto simp: hist_record_def getOrCreateSeries_def Let_def js_set_twice split: if_splits option.splits)
  have "case getSeries l h1 of
       Some s \<Rightarrow> series_of (buckets h) (observations (histLabelNames h) l (xs @ [(v, l1)])) s
     | None \<Rightarrow> observations (histLabelNames h) l (xs @ [(v, l1)]) = []" for l
  proof (cases "resolveKey (histLabelNames h) l = ?k")
    case True
    have "getSeries l h = map_of (seriesMap h) ?k" using True False by (simp add: getSeries_def)
    moreover have "getSeries l h1 = Some (observe (buckets h) (clamp_observation v)
        (case map_of (seriesMap h) ?k of Some s \<Rightarrow> s | None \<Rightarrow> empty_series ls (length (buckets h))))"
      using True False by (simp add: getSeries_def h1)
    moreover have "observations (histLabelNames h) l (xs @ [(v, l1)]) =
        observations (histLabelNames h) l xs @ [clamp_observation v]"
      using True by (simp add: observations_snoc same_series_def)
    moreover have "series_of (buckets h) (observations (histLabelNames h) l xs)
        (case map_of (seriesMap h) ?k of Some s \<Rightarrow> s | None \<Rightarrow> empty_series ls (length (buckets h)))"
      using assms(1) [unfolded hist_rel_def, rule_format, of l] calculation(1) by (auto split: option.splits)
    ultimately show ?thesis by (simp add: series_of_observe)
  next
    case neq: False
    then have "getSeries l h1 = getSeries l h" using False by (simp add: getSeries_def h1)
    moreover have "observations (histLabelNames h) l (xs @ [(v, l1)]) = observations (histLabelNames h) l xs"
      using neq False by (simp add: observations_snoc same_series_def eq_commute)
    ultimately show ?thesis using assms(1) [unfolded hist_rel_def, rule_format, of l] by (cases "getSeries l h") simp_all
  qed
  moreover have f: "buckets h1 = buckets h" "histLabelNames h1 = histLabelNames h" by (simp_all add: h1)
  ultimately show ?thesis unfolding hist_rel_def f by blast
qed

lemma hist_rel_all:
  "hist_rel ys h \<Longrightarrow> record_all xs h = Inr h1 \<Longrightarrow>
   hist_rel (ys @ xs) h1 \<and> buckets h1 = buckets h \<and> histLabelNames h1 = histLabelNames h"
proof (induction xs arbitrary: ys h)
  case (Cons x xs)
  obtain v l h2 where x: "x = (v, l)" and r: "hist_record v l h = Inr h2" and a: "record_all xs h2 = Inr h1"
    using Cons.prems(2) by (cases x) (auto split: sum.splits)
  from hist_rel_record [OF Cons.prems(1) r] Cons.IH [of "ys @ [x]" h2] a show ?case by (simp add: x)
qed simp

lemma hist_rel_new:
  assumes "new_Histogram name help names bs = Inr h"
  shows "hist_rel [] h" "histLabelNames h = names"
  using assms by (auto simp: new_Histogram_def hist_rel_def getSeries_def observations_def Let_def split: if_splits option.splits)

text \<open>The boundaries come out strictly ascending.\<close>

lemma num_insert_set [simp]: "set (num_insert x xs) = insert x (set xs)"
  by (induction xs) auto

lemma num_sort_set [simp]: "set (num_sort xs) = set xs"
  by (induction xs) (simp_all add: num_sort_def)

lemma num_leq_trans: "num_leq a b \<Longrightarrow> num_leq b c \<Longrightarrow> num_leq a c"
  by (cases a; cases b; cases c) auto

lemma num_leq_total: "a \<noteq> NaN \<Longrightarrow> b \<noteq> NaN \<Longrightarrow> num_leq a b \<or> num_leq b a"
  by (cases a; cases b) auto

lemma num_insert_sorted:
  "x \<noteq> NaN \<Longrightarrow> NaN \<notin> set xs \<Longrightarrow> sorted_wrt num_leq xs \<Longrightarrow> sorted_wrt num_leq (num_insert x xs)"
proof (induction xs)
  case (Cons y ys)
  show ?case
  proof (cases "num_leq x y")
    case True
    then show ?thesis using Cons.prems by (auto intro: num_leq_trans)
  next
    case False
    then have "num_leq y x" using num_leq_total [of x y] Cons.prems by auto
    with False Cons show ?thesis by auto
  qed
qed simp

lemma num_sort_sorted: "NaN \<notin> set xs \<Longrightarrow> sorted_wrt num_leq (num_sort xs)"
proof (induction xs)
  case (Cons a xs)
  have "num_sort (a # xs) = num_insert a (num_sort xs)" by (simp add: num_sort_def)
  then show ?case using Cons num_insert_sorted [of a "num_sort xs"] by auto
qed (simp add: num_sort_def)

lemma check_buckets_strict:
  "check_buckets prev bs = None \<Longrightarrow> sorted_wrt num_leq bs \<Longrightarrow>
   sorted_wrt num_less bs \<and> (\<forall>b \<in> set bs. num_less 0 b) \<and> (bs \<noteq> [] \<longrightarrow> prev \<noteq> Some (hd bs))"
proof (induction bs arbitrary: prev)
  case (Cons b bs)
  have b: "b \<noteq> NaN" "\<not> num_leq b 0" and p: "prev \<noteq> Some b" and r: "check_buckets (Some b) bs = None"
    using Cons.prems(1) by (auto split: if_splits)
  have ih: "sorted_wrt num_less bs" "\<forall>b \<in> set bs. num_less 0 b" "bs \<noteq> [] \<longrightarrow> b \<noteq> hd bs"
    using Cons.IH [OF r] Cons.prems(2) by auto
  have "num_less b c" if c: "c \<in> set bs" for c
  proof -
    obtain d ds where bs: "bs = d # ds" using c by (cases bs) auto
    have "num_leq b d" "b \<noteq> d" using Cons.prems(2) ih(3) bs by auto
    then have "num_less b d" by (cases b; cases d) auto
    moreover have "c = d \<or> num_less d c" using ih(1) c bs by auto
    ultimately show ?thesis using num_less_trans by blast
  qed
  moreover have "num_less 0 b" using b by (cases b) (auto simp: zero_jsnum_def)
  ultimately show ?case using ih p by auto
qed simp

lemma check_buckets_NaN: "check_buckets prev bs = None \<Longrightarrow> NaN \<notin> set bs"
  by (induction bs arbitrary: prev) (auto split: if_splits)

lemma new_Histogram_buckets:
  assumes "new_Histogram name help names bs = Inr h"
  shows "sorted_wrt num_less (buckets h)"
proof -
  let ?raw = "case bs of None \<Rightarrow> DEFAULT_LATENCY_BUCKETS | Some b \<Rightarrow> b"
  have c: "check_buckets None (num_sort ?raw) = None" and h: "buckets h = num_sort ?raw"
    using assms by (auto simp: new_Histogram_def Let_def split: if_splits option.splits)
  have "NaN \<notin> set ?raw" using check_buckets_NaN [OF c] by simp
  then show ?thesis using check_buckets_strict [OF c num_sort_sorted] h by simp
qed

text \<open>
  C31: a histogram refines the list of its observations: its boundaries are strictly ascending, and for every
  series the value read is the number of observations at most each boundary, ending with the number of all of them, their number and their sum,
  negative observations counting as zero, whatever observations of other series came between.
\<close>
theorem histogram_refines_observations:
  assumes "new_Histogram name help names bs = Inr h0" "record_all xs h0 = Inr h"
  shows "sorted_wrt num_less (buckets h0) \<and> hist_getValue l h =
    \<lparr>hvBuckets = map (\<lambda>b. (b, length (filter (\<lambda>v. num_leq v b) (observations names l xs)))) (buckets h0)
       @ [(PosInf, length (observations names l xs))],
     hvSum = sum_list (observations names l xs), hvCount = length (observations names l xs)\<rparr>"
proof -
  note n = hist_rel_new [OF assms(1)]
  note r = hist_rel_all [OF n(1) assms(2)]
  note b = new_Histogram_buckets [OF assms(1)]
  show ?thesis
  proof (cases "getSeries l h")
    case None
    then have "observations names l xs = []" using r n(2) by (auto simp: hist_rel_def dest: spec [of _ l])
    with None r b show ?thesis by (simp add: hist_getValue_def buildBuckets_def zip_replicate2)
  next
    case (Some s)
    then have "series_of (buckets h) (observations names l xs) s" using r n(2) by (auto simp: hist_rel_def dest: spec [of _ l])
    with Some r b show ?thesis by (simp add: hist_getValue_def buildBuckets_def series_of_def zip_map2 zip_same_conv_map)
  qed
qed

lemma histogram_refines_observations_witness:
  "\<exists>h0 h. new_Histogram ''latency'' [] [] (Some [FinNum 2, FinNum 1]) = Inr h0 \<and>
     record_all [(FinNum (3/2), None), (FinNum (-1), None), (FinNum 9, Some [])] h0 = Inr h \<and>
     hist_getValue None h = \<lparr>hvBuckets = [(FinNum 1, 1), (FinNum 2, 2), (PosInf, 3)], hvSum = FinNum (21/2), hvCount = 3\<rparr>"
proof -
  obtain h0 where h0: "new_Histogram ''latency'' [] [] (Some [FinNum 2, FinNum 1]) = Inr h0" "buckets h0 = [FinNum 1, FinNum 2]"
    "histLabelNames h0 = []"
    by (simp add: new_Histogram_def num_sort_def zero_jsnum_def Let_def)
  obtain h where h: "record_all [(FinNum (3/2), None), (FinNum (-1), None), (FinNum 9, Some [])] h0 = Inr h"
    using h0(3) by (simp add: hist_record_def getOrCreateSeries_def Let_def)
  show ?thesis
    using h0 h histogram_refines_observations [OF h0(1) h, of None]
    by (simp add: observations_def same_series_def clamp_observation_def zero_jsnum_def)
qed

section \<open>Label keys\<close>

text \<open>The key of a series determines the labels when no value contains the separator of the key.\<close>

lemma takeWhile_sep: "c \<notin> set a \<Longrightarrow> takeWhile (\<lambda>x. x \<noteq> c) (a @ c # r) = a"
  by (induction a) auto

lemma join_with_inj:
  "length ps = length qs \<Longrightarrow> \<forall>p \<in> set ps. c \<notin> set p \<Longrightarrow> \<forall>q \<in> set qs. c \<notin> set q \<Longrightarrow>
   join_with [c] ps = join_with [c] qs \<Longrightarrow> ps = qs"
proof (induction ps arbitrary: qs)
  case (Cons p ps)
  obtain q qs' where qs: "qs = q # qs'" using Cons.prems(1) by (cases qs) auto
  show ?case
  proof (cases ps)
    case Nil
    then show ?thesis using Cons.prems qs by simp
  next
    case (Cons p2 ps2)
    then obtain q2 qs2 where qs': "qs' = q2 # qs2" using Cons.prems(1) qs by (cases qs') auto
    have e: "p @ c # join_with [c] ps = q @ c # join_with [c] qs'"
      using Cons.prems(4) by (simp add: qs qs' Cons)
    have "p = q" using arg_cong [OF e, of "takeWhile (\<lambda>x. x \<noteq> c)"] Cons.prems(2,3) qs by (simp add: takeWhile_sep)
    moreover have "ps = qs'" by (rule Cons.IH) (use Cons.prems e qs calculation in auto)
    ultimately show ?thesis by (simp add: qs)
  qed
qed simp

lemma series_keys_separated:
  assumes "\<forall>n \<in> set names. CHR ''|'' \<notin> set n \<and> CHR ''|'' \<notin> set (label_or_empty l1 n) \<and> CHR ''|'' \<notin> set (label_or_empty l2 n)"
  shows "same_series names (Some l1) (Some l2) \<longleftrightarrow> (\<forall>n \<in> set names. label_or_empty l1 n = label_or_empty l2 n)"
proof (cases "length names = 1")
  case True
  then obtain n where "names = [n]" by (cases names) auto
  then show ?thesis by (simp add: same_series_def resolveKey_def)
next
  case False
  let ?p = "\<lambda>l. map (\<lambda>n. n @ ''='' @ label_or_empty l n) names"
  have "?p l1 = ?p l2" if "join_with ''|'' (?p l1) = join_with ''|'' (?p l2)"
    by (rule join_with_inj [OF _ _ _ that]) (use assms in auto)
  moreover have "names = [] \<or> resolveKey names (Some l1) = resolveKey names (Some l2) \<longleftrightarrow>
      join_with ''|'' (?p l1) = join_with ''|'' (?p l2)"
    using False by (auto simp: resolveKey_def)
  ultimately show ?thesis unfolding same_series_def by (auto cong: map_cong)
qed

text \<open>
  Two objects of labels share a series exactly when they give every label of the metric the same value,
  a missing one counting as empty, provided no value contains the character that joins the parts of the key.
\<close>
theorem series_keys_separate:
  assumes "\<forall>n \<in> set names. CHR ''|'' \<notin> set n \<and> CHR ''|'' \<notin> set (label_or_empty l1 n) \<and> CHR ''|'' \<notin> set (label_or_empty l2 n)"
  shows "same_series names (Some l1) (Some l2) \<longleftrightarrow> (\<forall>n \<in> set names. label_or_empty l1 n = label_or_empty l2 n)"
  by (rule series_keys_separated [OF assms])

text \<open>Without the proviso it fails, for the labels of \<^verbatim>\<open>pulse_presence_operations_total\<close>.\<close>

lemma series_keys_collide:
  "resolveKey [''operation'', ''status''] (Some [(''operation'', ''x|status=y'')]) =
   resolveKey [''operation'', ''status''] (Some [(''operation'', ''x''), (''status'', ''y|status='')])"
  by (simp add: resolveKey_def label_or_empty_def)

lemma series_keys_separate_witness:
  "\<not> same_series [''operation'', ''status''] (Some [(''operation'', ''register''), (''status'', ''error'')])
     (Some [(''status'', ''success''), (''operation'', ''register'')])"
  using series_keys_separate [of "[''operation'', ''status'']" "[(''operation'', ''register''), (''status'', ''error'')]"
      "[(''status'', ''success''), (''operation'', ''register'')]"]
  by (simp add: label_or_empty_def)

end
