(* ===== verification/Metrics_Registry.thy ===== *)
theory Metrics_Registry
  imports Metrics
begin

text \<open>
  \<^verbatim>\<open>src/metrics/PulseMetricsRegistry.ts\<close>, \<^verbatim>\<open>src/metrics/telemetry.ts\<close> and what the calls the components log
  do to a registry. A registry holds its metrics by name; metrics are values here, so a call on a metric
  found in the registry puts the changed metric back.
\<close>

section \<open>The registry\<close>

datatype metric_obj =
    CounterObj value_metric
  | GaugeObj value_metric
  | HistogramObj histogram

type_synonym registry = "(string, metric_obj) jsmap"

fun objName :: "metric_obj \<Rightarrow> string" where
  "objName (CounterObj m) = metricName m"
| "objName (GaugeObj m) = metricName m"
| "objName (HistogramObj h) = histName h"

fun objType :: "metric_obj \<Rightarrow> string" where
  "objType (CounterObj m) = ''counter''"
| "objType (GaugeObj m) = ''gauge''"
| "objType (HistogramObj h) = ''histogram''"

fun objReset :: "metric_obj \<Rightarrow> metric_obj" where
  "objReset (CounterObj m) = CounterObj (metric_reset m)"
| "objReset (GaugeObj m) = GaugeObj (metric_reset m)"
| "objReset (HistogramObj h) = HistogramObj (hist_reset h)"

definition reg_register :: "metric_obj \<Rightarrow> registry \<Rightarrow> metric_error + registry" where
  "reg_register m reg =
     (if objName m = [] then Inl EmptyName
      else if js_has reg (objName m) then Inl AlreadyRegistered
      else Inr (js_set (objName m) m reg))"

definition getMetric :: "string \<Rightarrow> registry \<Rightarrow> metric_obj option" where
  "getMetric name reg = map_of reg name"

definition getCounter :: "string \<Rightarrow> registry \<Rightarrow> metric_error + value_metric option" where
  "getCounter name reg =
     (case map_of reg name of
        None \<Rightarrow> Inr None
      | Some (CounterObj m) \<Rightarrow> Inr (Some m)
      | Some _ \<Rightarrow> Inl WrongType)"

definition getGauge :: "string \<Rightarrow> registry \<Rightarrow> metric_error + value_metric option" where
  "getGauge name reg =
     (case map_of reg name of
        None \<Rightarrow> Inr None
      | Some (GaugeObj m) \<Rightarrow> Inr (Some m)
      | Some _ \<Rightarrow> Inl WrongType)"

definition getHistogram :: "string \<Rightarrow> registry \<Rightarrow> metric_error + histogram option" where
  "getHistogram name reg =
     (case map_of reg name of
        None \<Rightarrow> Inr None
      | Some (HistogramObj h) \<Rightarrow> Inr (Some h)
      | Some _ \<Rightarrow> Inl WrongType)"

definition reg_has :: "string \<Rightarrow> registry \<Rightarrow> bool" where
  "reg_has name reg = js_has reg name"

definition reg_getAll :: "registry \<Rightarrow> metric_obj list" where
  "reg_getAll reg = map snd reg"

definition reg_getCount :: "registry \<Rightarrow> nat" where
  "reg_getCount reg = length reg"

definition resetAll :: "registry \<Rightarrow> registry" where
  "resetAll reg = map (\<lambda>(name, m). (name, objReset m)) reg"

definition reg_clear :: "registry \<Rightarrow> registry" where
  "reg_clear reg = []"

section \<open>Telemetry\<close>

text \<open>A constructor call with constant arguments, guarded by \<^verbatim>\<open>getMetric\<close>.\<close>

datatype metric_spec =
    CounterSpec (specName: string) string "string list"
  | GaugeSpec (specName: string) string
  | HistogramSpec (specName: string) string

fun build_metric :: "metric_spec \<Rightarrow> metric_error + metric_obj" where
  "build_metric (CounterSpec n h ls) = map_sum id CounterObj (new_Counter n h ls)"
| "build_metric (GaugeSpec n h) = map_sum id GaugeObj (new_Gauge n h [])"
| "build_metric (HistogramSpec n h) = map_sum id HistogramObj (new_Histogram n h [] None)"

definition register_absent :: "metric_spec \<Rightarrow> registry \<Rightarrow> metric_error + registry" where
  "register_absent s reg =
     (if getMetric (specName s) reg \<noteq> None then Inr reg
      else case build_metric s of Inl err \<Rightarrow> Inl err | Inr m \<Rightarrow> reg_register m reg)"

fun register_specs :: "metric_spec list \<Rightarrow> registry \<Rightarrow> metric_error + registry" where
  "register_specs [] reg = Inr reg"
| "register_specs (s # ss) reg = (case register_absent s reg of Inl err \<Rightarrow> Inl err | Inr reg1 \<Rightarrow> register_specs ss reg1)"

definition websocket_specs :: "metric_spec list" where
  "websocket_specs =
     [GaugeSpec ''pulse_connections_active'' ''Active WebSocket connections on this node'',
      CounterSpec ''pulse_connections_total'' ''Cumulative connection attempts by status'' [''status''],
      CounterSpec ''pulse_connections_closed_total'' ''Cumulative closed connections by reason'' [''reason''],
      CounterSpec ''pulse_connections_rejected_total'' ''Cumulative rejected connection upgrades by reason'' [''reason''],
      CounterSpec ''pulse_rate_limit_exceeded_total'' ''Cumulative messages dropped due to rate limiting by direction''
        [''direction''],
      GaugeSpec ''pulse_rooms_active'' ''Active room count on this node'',
      CounterSpec ''pulse_messages_received_total'' ''Total inbound messages received by event type'' [''event_type''],
      CounterSpec ''pulse_messages_delivered_total'' ''Total outbound messages delivered to sockets'' [''event_type''],
      CounterSpec ''pulse_messages_dropped_total'' ''Total dropped message frames by reason'' [''reason''],
      CounterSpec ''pulse_acknowledgements_total'' ''Total delivery acknowledgements created by status'' [''status''],
      HistogramSpec ''pulse_message_processing_duration_seconds'' ''Inbound message processing duration in seconds'',
      HistogramSpec ''pulse_local_delivery_duration_seconds'' ''Local socket delivery execution duration in seconds'']"

definition presence_specs :: "metric_spec list" where
  "presence_specs =
     [GaugeSpec ''pulse_presence_users_online'' ''Active online distinct users tracked for presence'',
      GaugeSpec ''pulse_presence_connections_active'' ''Active presence connection leases on this node'',
      CounterSpec ''pulse_presence_events_total'' ''Total presence update events by direction'' [''direction''],
      CounterSpec ''pulse_presence_lease_renewals_total'' ''Total presence lease renewals processed'' [],
      HistogramSpec ''pulse_presence_prune_duration_seconds'' ''Redis presence pruning execution duration in seconds'',
      CounterSpec ''pulse_presence_operations_total'' ''Total presence registration and removal operations by status''
        [''operation'', ''status'']]"

definition redis_specs :: "metric_spec list" where
  "redis_specs =
     [CounterSpec ''pulse_redis_publish_total'' ''Total Redis publishes attempted and completed by status'' [''status''],
      HistogramSpec ''pulse_redis_publish_duration_seconds'' ''Redis PUBLISH command latency in seconds'',
      GaugeSpec ''pulse_redis_publish_in_flight'' ''Current in-flight Redis PUBLISH commands'',
      GaugeSpec ''pulse_redis_subscriptions_active'' ''Active Redis channel subscriptions'',
      GaugeSpec ''pulse_redis_connection_state'' ''Redis connection state (1 = connected, 0 = disconnected)'',
      HistogramSpec ''pulse_cross_node_transit_seconds''
        ''Cross-node Redis Pub/Sub transit latency in seconds (wall-clock, negative skew clamped to 0)'']"

text \<open>The gauges the constructor of \<^verbatim>\<open>PulseServer\<close> adds.\<close>

definition event_loop_specs :: "metric_spec list" where
  "event_loop_specs =
     [GaugeSpec ''pulse_event_loop_lag_seconds'' ''Current mean Node.js event-loop lag in seconds'',
      GaugeSpec ''pulse_event_loop_lag_p50_seconds'' ''Node.js event-loop lag 50th percentile in seconds'',
      GaugeSpec ''pulse_event_loop_lag_p99_seconds'' ''Node.js event-loop lag 99th percentile in seconds'',
      GaugeSpec ''pulse_event_loop_lag_max_seconds'' ''Peak Node.js event-loop lag in seconds'']"

definition registerWebSocketMetrics :: "registry \<Rightarrow> metric_error + registry" where
  "registerWebSocketMetrics reg = register_specs websocket_specs reg"

definition registerPresenceMetrics :: "registry \<Rightarrow> metric_error + registry" where
  "registerPresenceMetrics reg = register_specs presence_specs reg"

definition registerRedisMetrics :: "registry \<Rightarrow> metric_error + registry" where
  "registerRedisMetrics reg =
     (case register_specs redis_specs reg of Inl err \<Rightarrow> Inl err | Inr reg1 \<Rightarrow> registerPresenceMetrics reg1)"

text \<open>
  What the constructor of \<^verbatim>\<open>PulseServer\<close> registers, with metrics enabled or not, with a Redis manager or
  not (\<^verbatim>\<open>setMetricsRegistry\<close> of \<^verbatim>\<open>RedisMetrics\<close>) and with a presence manager or not.
\<close>

definition constructor_registry :: "bool \<Rightarrow> bool \<Rightarrow> bool \<Rightarrow> registry \<Rightarrow> metric_error + registry" where
  "constructor_registry metricsEnabled presence redis reg =
     (case (if metricsEnabled
            then (case registerWebSocketMetrics reg of Inl err \<Rightarrow> Inl err | Inr r \<Rightarrow> register_specs event_loop_specs r)
            else Inr reg) of
        Inl err \<Rightarrow> Inl err
      | Inr r1 \<Rightarrow>
          (case (if presence then registerPresenceMetrics r1 else Inr r1) of
             Inl err \<Rightarrow> Inl err
           | Inr r2 \<Rightarrow> if redis then registerRedisMetrics r2 else Inr r2))"

section \<open>Registering\<close>

definition names_wf :: "registry \<Rightarrow> bool" where
  "names_wf reg \<longleftrightarrow> wf_map reg \<and> (\<forall>(name, m) \<in> set reg. objName m = name)"

lemma build_name: "build_metric s = Inr m \<Longrightarrow> objName m = specName s"
  by (cases s) (auto simp: new_Counter_def new_Gauge_def new_Histogram_def Let_def split: if_splits option.splits)

lemma default_buckets_ok: "check_buckets None (num_sort DEFAULT_LATENCY_BUCKETS) = None"
  by (simp add: DEFAULT_LATENCY_BUCKETS_def num_sort_def zero_jsnum_def)

lemma build_total: "specName s \<noteq> [] \<Longrightarrow> \<exists>m. build_metric s = Inr m"
  by (cases s) (simp_all add: new_Counter_def new_Gauge_def new_Histogram_def Let_def default_buckets_ok)

text \<open>Registering a specification never throws: its name is given once, and only when it is absent.\<close>

lemma register_absent_total:
  assumes "specName s \<noteq> []"
  shows "\<exists>reg'. register_absent s reg = Inr reg' \<and> (names_wf reg \<longrightarrow> names_wf reg') \<and>
    (map_of reg (specName s) \<noteq> None \<longrightarrow> reg' = reg) \<and>
    (map_of reg (specName s) = None \<longrightarrow> (\<exists>m. build_metric s = Inr m \<and> reg' = reg @ [(specName s, m)]))"
proof -
  obtain m where m: "build_metric s = Inr m" using build_total [OF assms] by blast
  note n = build_name [OF m]
  show ?thesis
  proof (cases "map_of reg (specName s)")
    case None
    then have k: "specName s \<notin> fst ` set reg" by (simp add: map_of_eq_None_iff)
    have "js_set (specName s) m reg = reg @ [(specName s, m)]" by (rule js_set_absent [OF k])
    then show ?thesis using None m n assms k
      by (auto simp: register_absent_def getMetric_def reg_register_def names_wf_def)
  next
    case (Some x)
    then show ?thesis by (simp add: register_absent_def getMetric_def)
  qed
qed

definition spec_names :: "metric_spec list \<Rightarrow> string set" where
  "spec_names ss = specName ` set ss"

lemma register_specs_total:
  "[] \<notin> spec_names ss \<Longrightarrow> names_wf reg \<Longrightarrow>
   \<exists>reg'. register_specs ss reg = Inr reg' \<and> names_wf reg' \<and> (\<exists>new. reg' = reg @ new) \<and>
     fst ` set reg' = fst ` set reg \<union> spec_names ss"
proof (induction ss arbitrary: reg)
  case (Cons s ss)
  have n: "specName s \<noteq> []" "[] \<notin> spec_names ss" using Cons.prems(1) by (auto simp: spec_names_def)
  obtain r where r: "register_absent s reg = Inr r" "names_wf r" "map_of reg (specName s) \<noteq> None \<longrightarrow> r = reg"
    "map_of reg (specName s) = None \<longrightarrow> (\<exists>m. r = reg @ [(specName s, m)])"
    using register_absent_total [OF n(1), of reg] Cons.prems(2) by metis
  have f: "(\<exists>new. r = reg @ new) \<and> fst ` set r = insert (specName s) (fst ` set reg)"
  proof (cases "map_of reg (specName s)")
    case None
    then show ?thesis using r(4) by auto
  next
    case (Some m)
    then have "specName s \<in> fst ` set reg" by (rule js_get_in_keys)
    then show ?thesis using r(3) Some by auto
  qed
  obtain reg' where "register_specs ss r = Inr reg'" "names_wf reg'" "\<exists>new. reg' = r @ new"
    "fst ` set reg' = fst ` set r \<union> spec_names ss"
    using Cons.IH [OF n(2) r(2)] by blast
  then show ?case using r(1) f by (auto simp: spec_names_def)
qed (simp add: spec_names_def)

lemma register_specs_present:
  "spec_names ss \<subseteq> fst ` set reg \<Longrightarrow> register_specs ss reg = Inr reg"
proof (induction ss)
  case (Cons s ss)
  have "map_of reg (specName s) \<noteq> None" using Cons.prems by (auto simp: spec_names_def map_of_eq_None_iff)
  then have "register_absent s reg = Inr reg" by (simp add: register_absent_def getMetric_def)
  then show ?case using Cons by (simp add: spec_names_def)
qed simp

section \<open>The calls of the components\<close>

text \<open>
  \<^verbatim>\<open>getCounter(name)?.inc(labels, v)\<close>, \<^verbatim>\<open>getGauge(name)?.set(v)\<close> and \<^verbatim>\<open>getHistogram(name)?.record(duration)\<close>
  as the log of a process has them; the observed duration is an argument. The calls without labels pass
  \<^verbatim>\<open>undefined\<close>.
\<close>

definition call_labels :: "(string \<times> string) list \<Rightarrow> labels" where
  "call_labels ls = (if ls = [] then None else Some ls)"

fun apply_call :: "jsnum \<Rightarrow> metric_call \<Rightarrow> registry \<Rightarrow> metric_error + registry" where
  "apply_call d (MInc name ls v) reg =
     (case getCounter name reg of
        Inl err \<Rightarrow> Inl err
      | Inr None \<Rightarrow> Inr reg
      | Inr (Some m) \<Rightarrow> map_sum id (\<lambda>m'. js_set name (CounterObj m') reg) (counter_inc (call_labels ls) (int_num (int v)) m))"
| "apply_call d (MSet name v) reg =
     (case getGauge name reg of
        Inl err \<Rightarrow> Inl err
      | Inr None \<Rightarrow> Inr reg
      | Inr (Some m) \<Rightarrow> map_sum id (\<lambda>m'. js_set name (GaugeObj m') reg) (gauge_set (int_num v) None m))"
| "apply_call d (MRecord name) reg =
     (case getHistogram name reg of
        Inl err \<Rightarrow> Inl err
      | Inr None \<Rightarrow> Inr reg
      | Inr (Some h) \<Rightarrow> map_sum id (\<lambda>h'. js_set name (HistogramObj h') reg) (hist_record d None h))"

fun apply_calls :: "(metric_call \<times> jsnum) list \<Rightarrow> registry \<Rightarrow> metric_error + registry" where
  "apply_calls [] reg = Inr reg"
| "apply_calls ((c, d) # cs) reg = (case apply_call d c reg of Inl err \<Rightarrow> Inl err | Inr reg1 \<Rightarrow> apply_calls cs reg1)"

text \<open>The labels of the specifications and the values the vocabularies of \<^verbatim>\<open>types.ts\<close> allow them.\<close>

definition all_specs :: "metric_spec list" where
  "all_specs = websocket_specs @ event_loop_specs @ presence_specs @ redis_specs"

definition spec_of :: "string \<Rightarrow> metric_spec option" where
  "spec_of name = map_of (map (\<lambda>s. (specName s, s)) all_specs) name"

definition label_vocabulary :: "string \<Rightarrow> string list" where
  "label_vocabulary l =
     (if l = ''status'' then BOUNDED_STATUSES else if l = ''reason'' then BOUNDED_REASONS
      else if l = ''direction'' then BOUNDED_DIRECTIONS else if l = ''event_type'' then BOUNDED_EVENT_TYPES
      else if l = ''operation'' then [''register'', ''remove''] else [])"

definition bounded_labels :: "string list \<Rightarrow> (string \<times> string) list \<Rightarrow> bool" where
  "bounded_labels names ls \<longleftrightarrow> map fst ls = names \<and> (\<forall>l v. (l, v) \<in> set ls \<longrightarrow> v \<in> set (label_vocabulary l))"

fun bounded_call :: "metric_call \<Rightarrow> bool" where
  "bounded_call (MInc name ls v) \<longleftrightarrow>
     (case spec_of name of Some (CounterSpec _ _ names) \<Rightarrow> bounded_labels names ls | _ \<Rightarrow> False)"
| "bounded_call (MSet name v) \<longleftrightarrow> (case spec_of name of Some (GaugeSpec _ _) \<Rightarrow> True | _ \<Rightarrow> False)"
| "bounded_call (MRecord name) \<longleftrightarrow> (case spec_of name of Some (HistogramSpec _ _) \<Rightarrow> True | _ \<Rightarrow> False)"

text \<open>The keys the series of a counter can have.\<close>

definition allowed_keys :: "string list \<Rightarrow> string list" where
  "allowed_keys names = map (\<lambda>vs. resolveKey names (Some (zip names vs))) (product_lists (map label_vocabulary names))"

fun fits :: "metric_spec \<Rightarrow> metric_obj \<Rightarrow> bool" where
  "fits (CounterSpec n h names) (CounterObj m) \<longleftrightarrow> labelNames m = names \<and> wf_map (series m) \<and>
     (if names = [] then series m = [] else fst ` set (series m) \<subseteq> set (allowed_keys names))"
| "fits (GaugeSpec n h) (GaugeObj m) \<longleftrightarrow> labelNames m = [] \<and> series m = []"
| "fits (HistogramSpec n h) (HistogramObj g) \<longleftrightarrow> histLabelNames g = [] \<and> seriesMap g = [] \<and> length (buckets g) = 11 \<and>
     length (bucketCounts (unlabelledSeries g)) = 11"
| "fits _ _ \<longleftrightarrow> False"

definition reg_ok :: "registry \<Rightarrow> bool" where
  "reg_ok reg \<longleftrightarrow> wf_map reg \<and> (\<forall>name m. map_of reg name = Some m \<longrightarrow> (\<exists>s. spec_of name = Some s \<and> fits s m))"

lemma reg_fits:
  assumes "reg_ok reg" "map_of reg name = Some m" "spec_of name = Some s"
  shows "fits s m"
  using assms unfolding reg_ok_def by fastforce

lemma spec_of_name: "spec_of name = Some s \<Longrightarrow> specName s = name"
  by (auto simp: spec_of_def dest!: map_of_SomeD)

lemma distinct_specs: "distinct (map specName all_specs)"
  by (simp add: all_specs_def websocket_specs_def event_loop_specs_def presence_specs_def redis_specs_def)

lemma spec_of_mem: "s \<in> set all_specs \<Longrightarrow> spec_of (specName s) = Some s"
  unfolding spec_of_def by (rule map_of_is_SomeI) (auto simp: comp_def distinct_specs)

lemma build_fits: "build_metric s = Inr m \<Longrightarrow> fits s m"
  by (cases s) (auto simp: new_Counter_def new_Gauge_def new_Histogram_def Let_def empty_series_def
      default_buckets_ok num_sort_def DEFAULT_LATENCY_BUCKETS_def split: if_splits)

lemma register_absent_ok:
  assumes "s \<in> set all_specs" "reg_ok reg" "register_absent s reg = Inr reg'"
  shows "reg_ok reg'"
proof (cases "map_of reg (specName s)")
  case None
  then obtain m where m: "build_metric s = Inr m" "reg_register m reg = Inr reg'"
    using assms(3) by (auto simp: register_absent_def getMetric_def split: sum.splits)
  then have "reg' = js_set (specName s) m reg" using build_name [OF m(1)] by (auto simp: reg_register_def split: if_splits)
  then show ?thesis using assms(2) spec_of_mem [OF assms(1)] build_fits [OF m(1)] by (auto simp: reg_ok_def)
next
  case (Some x)
  then show ?thesis using assms(2,3) by (simp add: register_absent_def getMetric_def)
qed

lemma register_specs_ok:
  "set ss \<subseteq> set all_specs \<Longrightarrow> reg_ok reg \<Longrightarrow> register_specs ss reg = Inr reg' \<Longrightarrow> reg_ok reg'"
proof (induction ss arbitrary: reg)
  case (Cons s ss)
  then show ?case using register_absent_ok [of s reg] by (auto split: sum.splits)
qed simp

text \<open>The constructor registers one list of specifications.\<close>

definition constructor_specs :: "bool \<Rightarrow> bool \<Rightarrow> bool \<Rightarrow> metric_spec list" where
  "constructor_specs metricsEnabled presence redis =
     (if metricsEnabled then websocket_specs @ event_loop_specs else []) @
     (if presence then presence_specs else []) @ (if redis then redis_specs @ presence_specs else [])"

lemma register_specs_append:
  "register_specs (ss @ ts) reg = (case register_specs ss reg of Inl err \<Rightarrow> Inl err | Inr r \<Rightarrow> register_specs ts r)"
  by (induction ss arbitrary: reg) (auto split: sum.splits)

lemma constructor_registry_specs: "constructor_registry e p r reg = register_specs (constructor_specs e p r) reg"
  by (cases e; cases p; cases r)
     (auto simp: constructor_registry_def constructor_specs_def register_specs_append registerWebSocketMetrics_def
        registerPresenceMetrics_def registerRedisMetrics_def split: sum.splits)

lemma constructor_specs_set: "set (constructor_specs e p r) \<subseteq> set all_specs"
  by (auto simp: constructor_specs_def all_specs_def)

text \<open>Labels from the vocabularies pass the label check, and their key is one of the allowed ones.\<close>

lemma vocabulary_short: "v \<in> set (label_vocabulary l) \<Longrightarrow> length v \<le> 64 \<and> l \<in> {''status'', ''reason'', ''direction'', ''event_type'', ''operation''}"
  by (auto simp: label_vocabulary_def BOUNDED_STATUSES_def BOUNDED_REASONS_def BOUNDED_DIRECTIONS_def
      BOUNDED_EVENT_TYPES_def split: if_splits)

lemma check_bounded:
  "\<forall>l v. (l, v) \<in> set ls \<longrightarrow> v \<in> set (label_vocabulary l) \<Longrightarrow> check_labels ls = None"
proof (induction ls)
  case (Cons x ls)
  obtain l v where x: "x = (l, v)" by fastforce
  then have v: "length v \<le> 64" "l \<in> {''status'', ''reason'', ''direction'', ''event_type'', ''operation''}"
    using vocabulary_short [of v l] Cons.prems by auto
  then have "js_lower l \<notin> set PROHIBITED_LABEL_KEYS"
    by (auto simp: js_lower_def js_lower_char_def PROHIBITED_LABEL_KEYS_def)
  then show ?case using Cons v by (auto simp: x)
qed simp

lemma bounded_key:
  assumes "bounded_labels names ls"
  shows "resolveKey names (Some ls) \<in> set (allowed_keys names)"
proof -
  have z: "zip names (map snd ls) = ls" using assms by (auto simp: bounded_labels_def zip_map_fst_snd)
  have "length (map snd ls) = length names" using assms by (auto simp: bounded_labels_def)
  moreover have "map snd ls \<in> set (product_lists (map label_vocabulary names))"
    using assms by (auto simp: product_lists_set list_all2_conv_all_nth bounded_labels_def)
  ultimately show ?thesis using z by (auto simp: allowed_keys_def image_iff intro!: bexI [of _ "map snd ls"])
qed

lemma call_labels_check: "bounded_labels names ls \<Longrightarrow> assertLowCardinalityLabels (call_labels ls) = None"
  using check_bounded [of ls] by (auto simp: bounded_labels_def call_labels_def assertLowCardinalityLabels_def)

lemma counter_inc_bounded:
  assumes "fits (CounterSpec n h names) (CounterObj m)" "bounded_labels names ls"
  obtains m' where "counter_inc (call_labels ls) (int_num (int v)) m = Inr m'" "fits (CounterSpec n h names) (CounterObj m')"
proof (cases "names = []")
  case True
  then show ?thesis using assms that by (simp add: counter_inc_def zero_jsnum_def)
next
  case False
  have f: "labelNames m = names" "wf_map (series m)" "fst ` set (series m) \<subseteq> set (allowed_keys names)"
    using assms(1) False by simp_all
  have ls: "call_labels ls = Some ls" using assms(2) False by (auto simp: bounded_labels_def call_labels_def)
  have "\<exists>m'. update_entry (call_labels ls) (\<lambda>x. x + int_num (int v)) m = Inr m'"
    using call_labels_check [OF assms(2)]
    by (cases "map_of (series m) (resolveKey (labelNames m) (call_labels ls))")
       (simp_all add: update_entry_def getOrCreateEntry_def Let_def)
  then obtain m' where u: "update_entry (call_labels ls) (\<lambda>x. x + int_num (int v)) m = Inr m'" by blast
  obtain e where m': "m' = m\<lparr>series := js_set (resolveKey (labelNames m) (call_labels ls))
      (e\<lparr>seriesValue := old_value (call_labels ls) m + int_num (int v)\<rparr>) (series m)\<rparr>"
    by (rule update_entry_eq [OF u])
  have "counter_inc (call_labels ls) (int_num (int v)) m = Inr m'"
    using u f(1) False by (simp add: counter_inc_def zero_jsnum_def)
  moreover have "fits (CounterSpec n h names) (CounterObj m')"
    using f bounded_key [OF assms(2)] False by (auto simp: m' ls)
  ultimately show ?thesis by (rule that)
qed

lemma hist_record_fits:
  assumes "fits (HistogramSpec n h) (HistogramObj g)" "d \<noteq> NaN"
  obtains g' where "hist_record d None g = Inr g'" "fits (HistogramSpec n h) (HistogramObj g')"
  using assms by (auto simp: hist_record_def getOrCreateSeries_def observe_def Let_def)

text \<open>What a counter reads, and what was logged for it.\<close>

fun obj_get :: "(string \<times> string) list \<Rightarrow> metric_obj \<Rightarrow> jsnum" where
  "obj_get ls (CounterObj m) = metric_get (call_labels ls) m"
| "obj_get ls _ = 0"

definition reading :: "string \<Rightarrow> (string \<times> string) list \<Rightarrow> registry \<Rightarrow> jsnum" where
  "reading name ls reg = (case map_of reg name of Some m \<Rightarrow> obj_get ls m | None \<Rightarrow> 0)"

fun logged :: "string \<Rightarrow> (string \<times> string) list \<Rightarrow> metric_call \<Rightarrow> nat" where
  "logged name ls (MInc nm l v) = (if nm = name \<and> l = ls then v else 0)"
| "logged name ls _ = 0"

lemma vocabulary_bar: "v \<in> set (label_vocabulary l) \<Longrightarrow> CHR ''|'' \<notin> set v \<and> CHR ''|'' \<notin> set l"
  by (auto simp: label_vocabulary_def BOUNDED_STATUSES_def BOUNDED_REASONS_def BOUNDED_DIRECTIONS_def
      BOUNDED_EVENT_TYPES_def split: if_splits)

lemma label_or_empty_bounded:
  assumes "bounded_labels names ls" "n \<in> set names"
  shows "\<exists>v. label_or_empty ls n = v \<and> v \<in> set (label_vocabulary n)"
proof -
  have "n \<in> fst ` set ls" using assms by (auto simp: bounded_labels_def)
  then obtain v where "map_of ls n = Some v" by (metis map_of_eq_None_iff not_None_eq)
  then show ?thesis using assms(1) by (auto simp: label_or_empty_def bounded_labels_def dest: map_of_SomeD)
qed

lemma same_labels:
  assumes "bounded_labels names l1" "bounded_labels names l2" "distinct names" "names \<noteq> []"
  shows "same_series names (call_labels l1) (call_labels l2) \<longleftrightarrow> l1 = l2"
proof -
  have c: "call_labels l1 = Some l1" "call_labels l2 = Some l2"
    using assms by (auto simp: bounded_labels_def call_labels_def)
  have "same_series names (Some l1) (Some l2) \<longleftrightarrow> (\<forall>n \<in> set names. label_or_empty l1 n = label_or_empty l2 n)"
    by (rule series_keys_separated) (use label_or_empty_bounded assms(1,2) vocabulary_bar in blast)
  also have "\<dots> \<longleftrightarrow> l1 = l2"
  proof
    assume eq: "\<forall>n \<in> set names. label_or_empty l1 n = label_or_empty l2 n"
    have f: "map fst l1 = names" "map fst l2 = names" using assms(1,2) by (simp_all add: bounded_labels_def)
    have s: "map snd l = map (label_or_empty l) names" if keys: "map fst l = names" for l
    proof -
      have "label_or_empty l (fst x) = snd x" if x: "x \<in> set l" for x
      proof -
        have "map_of l (fst x) = Some (snd x)" by (rule map_of_is_SomeI) (use x keys assms(3) in simp_all)
        then show ?thesis by (simp add: label_or_empty_def)
      qed
      then have "map (label_or_empty l) (map fst l) = map snd l" by simp
      then show ?thesis using keys by simp
    qed
    have "map (label_or_empty l1) names = map (label_or_empty l2) names" using eq by simp
    then have "map snd l1 = map snd l2" using s f by simp
    then show "l1 = l2" using f by (metis zip_map_fst_snd)
  qed simp
  finally show ?thesis by (simp add: c)
qed

text \<open>The labels of a specification are distinct.\<close>

lemma spec_labels_distinct: "spec_of name = Some (CounterSpec n h names) \<Longrightarrow> distinct names"
  by (auto simp: spec_of_def all_specs_def websocket_specs_def event_loop_specs_def presence_specs_def redis_specs_def
      split: if_splits)

text \<open>The readings change by what was logged.\<close>

definition counts_call :: "registry \<Rightarrow> metric_call \<Rightarrow> registry \<Rightarrow> bool" where
  "counts_call reg c reg' \<longleftrightarrow> reg_ok reg' \<and> fst ` set reg' = fst ` set reg \<and>
    (\<forall>name ls. bounded_call (MInc name ls 0) \<longrightarrow> name \<in> fst ` set reg \<longrightarrow>
       reading name ls reg' = reading name ls reg + FinNum (of_nat (logged name ls c)))"

fun call_name :: "metric_call \<Rightarrow> string" where
  "call_name (MInc name ls v) = name"
| "call_name (MSet name v) = name"
| "call_name (MRecord name) = name"

lemma logged_other: "name \<noteq> call_name c \<Longrightarrow> logged name ls c = 0"
  by (cases c) auto

lemma add_zero_num [simp]: "x + FinNum 0 = x"
  using add_0_right [of x] by (simp add: zero_jsnum_def)

lemma counts_absent:
  assumes "reg_ok reg" "map_of reg (call_name c) = None"
  shows "counts_call reg c reg"
proof -
  have "logged name ls c = 0" if "name \<in> fst ` set reg" for name ls
    using assms(2) that by (intro logged_other) (use assms(2) that map_of_eq_None_iff [of reg] in metis)
  then show ?thesis using assms(1) by (simp add: counts_call_def)
qed

lemma counts_put:
  assumes "reg_ok reg" "map_of reg (call_name c) = Some m" "spec_of (call_name c) = Some s" "fits s m'"
    and "\<And>ls. bounded_call (MInc (call_name c) ls 0) \<Longrightarrow>
      obj_get ls m' = obj_get ls m + FinNum (of_nat (logged (call_name c) ls c))"
  shows "counts_call reg c (js_set (call_name c) m' reg)"
proof -
  have "reg_ok (js_set (call_name c) m' reg)" using assms(1,3,4) by (auto simp: reg_ok_def)
  moreover have "fst ` set (js_set (call_name c) m' reg) = fst ` set reg" using js_get_in_keys [OF assms(2)] by auto
  moreover have "reading name ls (js_set (call_name c) m' reg) = reading name ls reg + FinNum (of_nat (logged name ls c))"
    if "bounded_call (MInc name ls 0)" for name ls
  proof (cases "name = call_name c")
    case True
    then show ?thesis using assms(2) assms(5) [of ls] that by (simp add: reading_def)
  next
    case False
    then show ?thesis using logged_other [OF False] by (simp add: reading_def)
  qed
  ultimately show ?thesis by (simp add: counts_call_def)
qed

lemma apply_inc:
  assumes "bounded_call (MInc name ls v)" "reg_ok reg"
  shows "\<exists>reg'. apply_call d (MInc name ls v) reg = Inr reg' \<and> counts_call reg (MInc name ls v) reg'"
proof -
  obtain n h names where s: "spec_of name = Some (CounterSpec n h names)" and b: "bounded_labels names ls"
    using assms(1) by (auto split: option.splits metric_spec.splits)
  show ?thesis
  proof (cases "map_of reg name")
    case None
    then show ?thesis using counts_absent [OF assms(2), of "MInc name ls v"] by (simp add: getCounter_def)
  next
    case (Some ob)
    then have "fits (CounterSpec n h names) ob" by (rule reg_fits [OF assms(2) _ s])
    then obtain m where ob: "ob = CounterObj m" and f: "fits (CounterSpec n h names) (CounterObj m)" by (cases ob) auto
    obtain m' where i: "counter_inc (call_labels ls) (int_num (int v)) m = Inr m'" and f': "fits (CounterSpec n h names) (CounterObj m')"
      by (rule counter_inc_bounded [OF f b])
    have names: "labelNames m = names" using f by simp
    have "metric_get (call_labels l2) m' = metric_get (call_labels l2) m + FinNum (of_nat (logged name l2 (MInc name ls v)))"
      if "bounded_call (MInc name l2 0)" for l2
    proof -
      have b2: "bounded_labels names l2" using that s by simp
      have "same_series names (call_labels ls) (call_labels l2) \<longleftrightarrow> ls = l2"
      proof (cases "names = []")
        case True
        then show ?thesis using b b2 by (simp add: same_series_def bounded_labels_def)
      next
        case False
        then show ?thesis by (rule same_labels [OF b b2 spec_labels_distinct [OF s]])
      qed
      then show ?thesis using counter_inc_get(1) [OF i, of "call_labels l2"] names by auto
    qed
    then have "counts_call reg (MInc name ls v) (js_set name (CounterObj m') reg)"
      using counts_put [OF assms(2), of "MInc name ls v" ob "CounterSpec n h names" "CounterObj m'"] Some s f' ob by simp
    then show ?thesis using Some ob i by (simp add: getCounter_def)
  qed
qed

lemma apply_set:
  assumes "bounded_call (MSet name v)" "reg_ok reg"
  shows "\<exists>reg'. apply_call d (MSet name v) reg = Inr reg' \<and> counts_call reg (MSet name v) reg'"
proof -
  obtain n h where s: "spec_of name = Some (GaugeSpec n h)"
    using assms(1) by (auto split: option.splits metric_spec.splits)
  show ?thesis
  proof (cases "map_of reg name")
    case None
    then show ?thesis using counts_absent [OF assms(2), of "MSet name v"] by (simp add: getGauge_def)
  next
    case (Some ob)
    then have "fits (GaugeSpec n h) ob" by (rule reg_fits [OF assms(2) _ s])
    then obtain m where ob: "ob = GaugeObj m" and f: "fits (GaugeSpec n h) (GaugeObj m)" by (cases ob) auto
    have i: "gauge_set (int_num v) None m = Inr (m\<lparr>unlabelledValue := int_num v\<rparr>)" using f by (simp add: gauge_set_def)
    have "counts_call reg (MSet name v) (js_set name (GaugeObj (m\<lparr>unlabelledValue := int_num v\<rparr>)) reg)"
      using counts_put [OF assms(2), of "MSet name v" ob "GaugeSpec n h"] Some s f ob by simp
    then show ?thesis using Some ob i by (simp add: getGauge_def)
  qed
qed

lemma apply_record:
  assumes "bounded_call (MRecord name)" "reg_ok reg" "d \<noteq> NaN"
  shows "\<exists>reg'. apply_call d (MRecord name) reg = Inr reg' \<and> counts_call reg (MRecord name) reg'"
proof -
  obtain n h where s: "spec_of name = Some (HistogramSpec n h)"
    using assms(1) by (auto split: option.splits metric_spec.splits)
  show ?thesis
  proof (cases "map_of reg name")
    case None
    then show ?thesis using counts_absent [OF assms(2), of "MRecord name"] by (simp add: getHistogram_def)
  next
    case (Some ob)
    then have "fits (HistogramSpec n h) ob" by (rule reg_fits [OF assms(2) _ s])
    then obtain g where ob: "ob = HistogramObj g" and f: "fits (HistogramSpec n h) (HistogramObj g)" by (cases ob) auto
    obtain g' where i: "hist_record d None g = Inr g'" and f': "fits (HistogramSpec n h) (HistogramObj g')"
      by (rule hist_record_fits [OF f assms(3)])
    have "counts_call reg (MRecord name) (js_set name (HistogramObj g') reg)"
      using counts_put [OF assms(2), of "MRecord name" ob "HistogramSpec n h" "HistogramObj g'"] Some s f' ob by simp
    then show ?thesis using Some ob i by (simp add: getHistogram_def)
  qed
qed

lemma apply_bounded:
  assumes "bounded_call c" "reg_ok reg" "d \<noteq> NaN"
  obtains reg' where "apply_call d c reg = Inr reg'" "counts_call reg c reg'"
  using assms apply_inc [of _ _ _ reg d] apply_set [of _ _ reg d] apply_record [of _ reg d] by (cases c) blast+

definition logged_total :: "string \<Rightarrow> (string \<times> string) list \<Rightarrow> metric_call list \<Rightarrow> nat" where
  "logged_total name ls cs = sum_list (map (logged name ls) cs)"

lemma apply_calls_bounded:
  assumes "\<forall>c d. (c, d) \<in> set cs \<longrightarrow> bounded_call c \<and> d \<noteq> NaN" "reg_ok reg"
  shows "\<exists>reg'. apply_calls cs reg = Inr reg' \<and> reg_ok reg' \<and> fst ` set reg' = fst ` set reg \<and>
    (\<forall>name ls. bounded_call (MInc name ls 0) \<longrightarrow> name \<in> fst ` set reg \<longrightarrow>
       reading name ls reg' = reading name ls reg + FinNum (of_nat (logged_total name ls (map fst cs))))"
  using assms
proof (induction cs arbitrary: reg)
  case Nil
  then show ?case by (simp add: logged_total_def)
next
  case (Cons x cs)
  obtain c d where x: "x = (c, d)" by fastforce
  have c: "bounded_call c" "d \<noteq> NaN" using Cons.prems(1) x by auto
  obtain r1 where a: "apply_call d c reg = Inr r1" and e: "counts_call reg c r1"
    by (rule apply_bounded [OF c(1) Cons.prems(2) c(2)])
  have r1: "reg_ok r1" and k1: "fst ` set r1 = fst ` set reg"
    and f1: "\<And>name ls. bounded_call (MInc name ls 0) \<Longrightarrow> name \<in> fst ` set reg \<Longrightarrow>
      reading name ls r1 = reading name ls reg + FinNum (of_nat (logged name ls c))"
    using e unfolding counts_call_def by blast+
  have "\<forall>c d. (c, d) \<in> set cs \<longrightarrow> bounded_call c \<and> d \<noteq> NaN" using Cons.prems(1) by auto
  from Cons.IH [OF this r1] obtain r2 where r2: "apply_calls cs r1 = Inr r2" "reg_ok r2" "fst ` set r2 = fst ` set r1"
    and f2: "\<And>name ls. bounded_call (MInc name ls 0) \<Longrightarrow> name \<in> fst ` set r1 \<Longrightarrow>
      reading name ls r2 = reading name ls r1 + FinNum (of_nat (logged_total name ls (map fst cs)))"
    by blast
  have "reading name ls r2 = reading name ls reg + FinNum (of_nat (logged_total name ls (map fst (x # cs))))"
    if "bounded_call (MInc name ls 0)" "name \<in> fst ` set reg" for name ls
  proof -
    have "reading name ls r2 = reading name ls reg + (FinNum (of_nat (logged name ls c)) +
        FinNum (of_nat (logged_total name ls (map fst cs))))"
      using f1 [OF that] f2 [of name ls] that k1 by (simp only: add.assoc)
    then show ?thesis by (simp add: x logged_total_def)
  qed
  then show ?case using a r2 k1 by (auto simp: x)
qed

section \<open>The size of the export\<close>

text \<open>\<^verbatim>\<open>collect\<close> of each kind of metric.\<close>

fun obj_collect :: "(jsnum \<Rightarrow> string) \<Rightarrow> metric_obj \<Rightarrow> metric_sample list" where
  "obj_collect num_str (CounterObj m) = metric_collect m"
| "obj_collect num_str (GaugeObj m) = metric_collect m"
| "obj_collect num_str (HistogramObj h) = hist_collect num_str h"

fun spec_bound :: "metric_spec \<Rightarrow> nat" where
  "spec_bound (CounterSpec n h names) = (if names = [] then 1 else length (allowed_keys names))"
| "spec_bound (GaugeSpec n h) = 1"
| "spec_bound (HistogramSpec n h) = 14"

lemma wf_length_le:
  assumes "wf_map m" "fst ` set m \<subseteq> set ks"
  shows "length m \<le> length ks"
proof -
  have "length m = card (fst ` set m)" using assms(1) by (metis distinct_card length_map set_map)
  also have "\<dots> \<le> card (set ks)" by (rule card_mono) (use assms(2) in auto)
  also have "\<dots> \<le> length ks" by (rule card_length)
  finally show ?thesis .
qed

lemma fits_bound: "fits s m \<Longrightarrow> length (obj_collect num_str m) \<le> spec_bound s"
  by (cases s; cases m) (auto simp: metric_collect_def hist_collect_def series_samples_def wf_length_le split: if_splits)

lemma sample_bound:
  assumes "reg_ok reg"
  shows "length (concat (map (obj_collect num_str) (reg_getAll reg))) \<le> sum_list (map spec_bound all_specs)"
proof -
  let ?b = "\<lambda>name. case spec_of name of Some s \<Rightarrow> spec_bound s | None \<Rightarrow> 0"
  have d: "wf_map reg" using assms by (simp add: reg_ok_def)
  have m: "length (obj_collect num_str m) \<le> ?b name" "name \<in> specName ` set all_specs" if "(name, m) \<in> set reg" for name m
  proof -
    have "map_of reg name = Some m" using that d by simp
    then obtain s where s: "spec_of name = Some s" "fits s m" using assms unfolding reg_ok_def by blast
    then show "length (obj_collect num_str m) \<le> ?b name" using fits_bound by simp
    show "name \<in> specName ` set all_specs" using s(1) by (auto simp: spec_of_def dest!: map_of_SomeD)
  qed
  have "length (concat (map (obj_collect num_str) (reg_getAll reg))) = sum_list (map (\<lambda>(name, m). length (obj_collect num_str m)) reg)"
    by (simp add: length_concat reg_getAll_def comp_def case_prod_unfold)
  also have "\<dots> \<le> sum_list (map (\<lambda>(name, m). ?b name) reg)" by (rule sum_list_mono) (use m(1) in auto)
  also have "\<dots> = sum_list (map ?b (js_keys reg))" by (simp add: comp_def case_prod_unfold)
  also have "\<dots> = sum ?b (set (js_keys reg))" by (rule sum_list_distinct_conv_sum_set [OF d])
  also have "\<dots> \<le> sum ?b (set (map specName all_specs))" by (rule sum_mono2) (use m(2) in auto)
  also have "\<dots> = sum_list (map ?b (map specName all_specs))"
    by (rule sum_list_distinct_conv_sum_set [OF distinct_specs, symmetric])
  also have "\<dots> = sum_list (map spec_bound all_specs)"
    by (simp add: comp_def spec_of_mem cong: map_cong)
  finally show ?thesis .
qed

lemma spec_bound_total: "sum_list (map spec_bound all_specs) = 209"
  by (simp add: all_specs_def websocket_specs_def event_loop_specs_def presence_specs_def redis_specs_def allowed_keys_def
      label_vocabulary_def BOUNDED_STATUSES_def BOUNDED_REASONS_def BOUNDED_DIRECTIONS_def BOUNDED_EVENT_TYPES_def)

section \<open>The registry of a server\<close>

lemma build_fresh: "build_metric s = Inr m \<Longrightarrow> obj_get ls m = 0"
  by (cases s) (auto simp: new_Counter_def new_Gauge_def new_Histogram_def Let_def metric_get_def split: if_splits option.splits)

definition fresh_reg :: "registry \<Rightarrow> bool" where
  "fresh_reg reg \<longleftrightarrow> (\<forall>name ls. reading name ls reg = 0)"

lemma register_specs_fresh:
  "[] \<notin> spec_names ss \<Longrightarrow> fresh_reg reg \<Longrightarrow> register_specs ss reg = Inr reg' \<Longrightarrow> fresh_reg reg'"
proof (induction ss arbitrary: reg)
  case (Cons s ss)
  obtain r where r: "register_absent s reg = Inr r" "register_specs ss r = Inr reg'"
    using Cons.prems(3) by (auto split: sum.splits)
  have "fresh_reg r"
  proof (cases "map_of reg (specName s)")
    case None
    then obtain m where m: "build_metric s = Inr m" "reg_register m reg = Inr r"
      using r(1) by (auto simp: register_absent_def getMetric_def split: sum.splits)
    then have "r = js_set (specName s) m reg" using build_name [OF m(1)] by (auto simp: reg_register_def split: if_splits)
    then show ?thesis using Cons.prems(2) build_fresh [OF m(1)] by (simp add: fresh_reg_def reading_def)
  next
    case (Some x)
    then show ?thesis using Cons.prems(2) r(1) by (simp add: register_absent_def getMetric_def)
  qed
  then show ?case using Cons.IH [OF _ _ r(2)] Cons.prems(1) by (auto simp: spec_names_def)
qed simp

lemma no_empty_names: "[] \<notin> spec_names (constructor_specs e p r)"
proof -
  have "[] \<notin> spec_names all_specs"
    by (simp add: spec_names_def all_specs_def websocket_specs_def event_loop_specs_def presence_specs_def redis_specs_def)
  then show ?thesis using constructor_specs_set by (fastforce simp: spec_names_def)
qed

lemma constructor_registry_total:
  obtains reg where "constructor_registry e p r [] = Inr reg" "reg_ok reg" "fresh_reg reg"
    "fst ` set reg = spec_names (constructor_specs e p r)"
proof -
  have nil: "names_wf []" "reg_ok []" "fresh_reg []" by (simp_all add: names_wf_def reg_ok_def fresh_reg_def reading_def)
  obtain reg where reg: "register_specs (constructor_specs e p r) [] = Inr reg"
    "fst ` set reg = spec_names (constructor_specs e p r)"
    using register_specs_total [OF no_empty_names nil(1)] by fastforce
  then show ?thesis using that register_specs_ok [OF constructor_specs_set nil(2) reg(1)]
      register_specs_fresh [OF no_empty_names nil(3) reg(1)] by (simp add: constructor_registry_specs)
qed

text \<open>
  C30: metrics stay of a fixed size and count. On the registry the constructor of a server makes, a sequence of
  calls whose labels come from the bounded vocabularies never throws, however long it is; every registered
  counter then reads the number of increments logged for it with these labels; and the whole export has at
  most 209 samples.
\<close>
theorem metrics_bounded_and_exact:
  assumes "constructor_registry e p r [] = Inr reg" "\<forall>c d. (c, d) \<in> set cs \<longrightarrow> bounded_call c \<and> d \<noteq> NaN"
  shows "\<exists>reg'. apply_calls cs reg = Inr reg' \<and>
    length (concat (map (obj_collect num_str) (reg_getAll reg'))) \<le> 209 \<and>
    (\<forall>name ls. bounded_call (MInc name ls 0) \<and> reg_has name reg \<longrightarrow>
       reading name ls reg' = FinNum (of_nat (logged_total name ls (map fst cs))))"
proof -
  have reg: "reg_ok reg" "fresh_reg reg"
    using constructor_registry_total [of e p r] assms(1) by (metis sum.inject(2))+
  obtain reg' where r: "apply_calls cs reg = Inr reg'" "reg_ok reg'"
    and f: "\<And>name ls. bounded_call (MInc name ls 0) \<Longrightarrow> name \<in> fst ` set reg \<Longrightarrow>
      reading name ls reg' = reading name ls reg + FinNum (of_nat (logged_total name ls (map fst cs)))"
    using apply_calls_bounded [OF assms(2) reg(1)] by blast
  have "reading name ls reg' = FinNum (of_nat (logged_total name ls (map fst cs)))"
    if "bounded_call (MInc name ls 0)" "reg_has name reg" for name ls
  proof -
    have "name \<in> fst ` set reg" using that(2) map_of_eq_None_iff [of reg name] by (simp add: reg_has_def)
    then show ?thesis using f [OF that(1)] reg(2) by (simp add: fresh_reg_def zero_jsnum_def)
  qed
  then show ?thesis using r sample_bound [OF r(2), of num_str] spec_bound_total by auto
qed

text \<open>Three connections, one of them refused, and a frame delivered.\<close>

definition sample_calls :: "(metric_call \<times> jsnum) list" where
  "sample_calls =
     [(MInc ''pulse_connections_total'' [(''status'', ''success'')] 1, 0), (MSet ''pulse_connections_active'' 1, 0),
      (MInc ''pulse_connections_total'' [(''status'', ''rejected'')] 1, 0),
      (MInc ''pulse_connections_total'' [(''status'', ''success'')] 1, 0),
      (MRecord ''pulse_local_delivery_duration_seconds'', FinNum (1/1000))]"

lemma metrics_bounded_and_exact_witness:
  "\<exists>reg reg'. constructor_registry True True True [] = Inr reg \<and> apply_calls sample_calls reg = Inr reg' \<and>
     reading ''pulse_connections_total'' [(''status'', ''success'')] reg' = FinNum 2"
proof -
  obtain reg where reg: "constructor_registry True True True [] = Inr reg"
    and names: "fst ` set reg = spec_names (constructor_specs True True True)"
    by (rule constructor_registry_total [of True True True])
  have sp: "spec_of ''pulse_connections_total'' = Some (websocket_specs ! 1)"
    "spec_of ''pulse_connections_active'' = Some (websocket_specs ! 0)"
    "spec_of ''pulse_local_delivery_duration_seconds'' = Some (websocket_specs ! 11)"
    by (simp_all add: spec_of_def all_specs_def websocket_specs_def)
  have c: "\<forall>c d. (c, d) \<in> set sample_calls \<longrightarrow> bounded_call c \<and> d \<noteq> NaN"
    by (auto simp: sample_calls_def sp websocket_specs_def bounded_labels_def label_vocabulary_def BOUNDED_STATUSES_def zero_jsnum_def)
  have b: "bounded_call (MInc ''pulse_connections_total'' [(''status'', ''success'')] 0)"
    by (simp add: sp websocket_specs_def bounded_labels_def label_vocabulary_def BOUNDED_STATUSES_def)
  have "''pulse_connections_total'' \<in> fst ` set reg"
    unfolding names by (simp add: spec_names_def constructor_specs_def websocket_specs_def)
  then have "reg_has ''pulse_connections_total'' reg"
    using map_of_eq_None_iff [of reg "''pulse_connections_total''"] by (simp add: reg_has_def)
  with metrics_bounded_and_exact [OF reg c, of "\<lambda>_. []"] b reg show ?thesis
    by (fastforce simp: logged_total_def sample_calls_def)
qed

end
