(* ===== verification/Event_Loop.thy ===== *)
theory Event_Loop
  imports Metrics_Registry Config
begin

text \<open>
  \<^verbatim>\<open>src/metrics/EventLoopMonitor.ts\<close> and \<^verbatim>\<open>updateEventLoopMetrics\<close> of \<^verbatim>\<open>src/core/PulseServer.ts\<close>. The
  delay histogram of \<^verbatim>\<open>perf_hooks\<close> is seen through four readings in nanoseconds, which the runtime
  changes at any time: they are an argument of every operation that reads them.
\<close>

record delay_readings =
  delayMean :: jsnum
  delayP50 :: jsnum
  delayP99 :: jsnum
  delayMax :: jsnum

text \<open>Whether a histogram is held, the resolution it was made with, and the flag \<^verbatim>\<open>isRunning\<close>.\<close>

record event_loop_monitor =
  delayHistogram :: "nat option"
  monitorRunning :: bool

definition new_EventLoopMonitor :: event_loop_monitor where
  "new_EventLoopMonitor = \<lparr>delayHistogram = None, monitorRunning = False\<rparr>"

definition monitor_start :: "nat option \<Rightarrow> event_loop_monitor \<Rightarrow> event_loop_monitor" where
  "monitor_start resolutionMs m =
     (if monitorRunning m \<and> delayHistogram m \<noteq> None then m
      else \<lparr>delayHistogram = Some (case resolutionMs of None \<Rightarrow> 20 | Some r \<Rightarrow> r), monitorRunning = True\<rparr>)"

text \<open>\<^verbatim>\<open>reset\<close>: the histogram forgets its samples, its readings become those of an empty one.\<close>

definition monitor_reset :: "event_loop_monitor \<Rightarrow> delay_readings \<Rightarrow> delay_readings \<Rightarrow> delay_readings" where
  "monitor_reset m fresh d = (if delayHistogram m = None then d else fresh)"

definition monitor_stop :: "event_loop_monitor \<Rightarrow> event_loop_monitor" where
  "monitor_stop m = \<lparr>delayHistogram = None, monitorRunning = False\<rparr>"

definition monitor_isActive :: "event_loop_monitor \<Rightarrow> bool" where
  "monitor_isActive m \<longleftrightarrow> monitorRunning m \<and> delayHistogram m \<noteq> None"

record event_loop_metrics =
  meanSec :: jsnum
  p50Sec :: jsnum
  p99Sec :: jsnum
  maxSec :: jsnum

text \<open>\<^verbatim>\<open>(x || 0) / 1e9\<close>\<close>

definition nanos_to_sec :: "jsnum \<Rightarrow> jsnum" where
  "nanos_to_sec x = (case x of NaN \<Rightarrow> 0 | FinNum q \<Rightarrow> FinNum (q / 10 ^ 9) | PosInf \<Rightarrow> PosInf | NegInf \<Rightarrow> NegInf)"

definition num_or_zero :: "jsnum \<Rightarrow> jsnum" where
  "num_or_zero x = (if x = NaN then 0 else x)"

definition monitor_getMetrics :: "delay_readings \<Rightarrow> event_loop_monitor \<Rightarrow> event_loop_metrics" where
  "monitor_getMetrics d m =
     (if delayHistogram m = None then \<lparr>meanSec = 0, p50Sec = 0, p99Sec = 0, maxSec = 0\<rparr>
      else
        let safeMean = num_or_zero (nanos_to_sec (delayMean d));
            safeP50 = num_or_zero (nanos_to_sec (delayP50 d));
            safeP99 = num_or_zero (nanos_to_sec (delayP99 d));
            safeMax = num_or_zero (nanos_to_sec (delayMax d));
            safeMax1 = (if num_less safeMax safeP99 then safeP99 else safeMax);
            safeMax2 = (if num_less safeMax1 safeP50 then safeP50 else safeMax1)
        in \<lparr>meanSec = safeMean, p50Sec = safeP50, p99Sec = safeP99, maxSec = safeMax2\<rparr>)"

text \<open>The gauges are those the constructor registered; \<^verbatim>\<open>gauge?.set(v)\<close> on the registered object.\<close>

definition set_gauge :: "string \<Rightarrow> jsnum \<Rightarrow> registry \<Rightarrow> metric_error + registry" where
  "set_gauge name v reg =
     (case map_of reg name of
        Some (GaugeObj g) \<Rightarrow> map_sum id (\<lambda>g'. js_set name (GaugeObj g') reg) (gauge_set v None g)
      | _ \<Rightarrow> Inr reg)"

fun set_gauges :: "(string \<times> jsnum) list \<Rightarrow> registry \<Rightarrow> metric_error + registry" where
  "set_gauges [] reg = Inr reg"
| "set_gauges ((name, v) # gs) reg = (case set_gauge name v reg of Inl err \<Rightarrow> Inl err | Inr reg1 \<Rightarrow> set_gauges gs reg1)"

definition updateEventLoopMetrics ::
  "delay_readings \<Rightarrow> event_loop_monitor option \<Rightarrow> registry \<Rightarrow> metric_error + registry" where
  "updateEventLoopMetrics d monitor reg =
     (case monitor of
        None \<Rightarrow> Inr reg
      | Some m \<Rightarrow>
          if \<not> monitor_isActive m then Inr reg
          else let metrics = monitor_getMetrics d m
               in set_gauges [(''pulse_event_loop_lag_seconds'', meanSec metrics),
                              (''pulse_event_loop_lag_p50_seconds'', p50Sec metrics),
                              (''pulse_event_loop_lag_p99_seconds'', p99Sec metrics),
                              (''pulse_event_loop_lag_max_seconds'', maxSec metrics)] reg)"

text \<open>The gauges of the event loop, read.\<close>

definition gauge_reading :: "string \<Rightarrow> registry \<Rightarrow> jsnum" where
  "gauge_reading name reg = (case map_of reg name of Some (GaugeObj g) \<Rightarrow> metric_get None g | _ \<Rightarrow> 0)"

text \<open>
  What the listen callback of \<^verbatim>\<open>start\<close> and \<^verbatim>\<open>cleanupAndFinalize\<close> do with the monitor and its timer (the
  period of a pending interval), and the timer's callback.
\<close>

definition start_event_loop :: "pulse_config \<Rightarrow> event_loop_monitor option \<Rightarrow> event_loop_monitor option \<times> jsnum option" where
  "start_event_loop c monitor =
     (if cfgMetricsEnabled c
      then (Some (monitor_start (Some 20) (case monitor of None \<Rightarrow> new_EventLoopMonitor | Some m \<Rightarrow> m)),
            Some (let ms = cfgEventLoopMonitorIntervalMs c in if ms = NaN \<or> ms = 0 then FinNum 10000 else ms))
      else (monitor, None))"

definition sampling_tick ::
  "delay_readings \<Rightarrow> delay_readings \<Rightarrow> event_loop_monitor option \<Rightarrow> registry \<Rightarrow> metric_error + (registry \<times> delay_readings)" where
  "sampling_tick d fresh monitor reg =
     (case updateEventLoopMetrics d monitor reg of
        Inl err \<Rightarrow> Inl err
      | Inr reg1 \<Rightarrow> Inr (reg1, (case monitor of None \<Rightarrow> d | Some m \<Rightarrow> monitor_reset m fresh d)))"

definition stop_event_loop :: "event_loop_monitor option \<Rightarrow> event_loop_monitor option \<times> jsnum option" where
  "stop_event_loop monitor = (None, None)"

lemma sum_case_Inr: "(case x of Inl e \<Rightarrow> Inl e | Inr r \<Rightarrow> f r) = Inr y \<longleftrightarrow> (\<exists>r. x = Inr r \<and> f r = Inr y)"
  by (cases x) auto

lemma num_not_NaN: "nanos_to_sec x \<noteq> NaN" "num_or_zero x \<noteq> NaN"
  by (auto simp: nanos_to_sec_def num_or_zero_def zero_jsnum_def split: jsnum.splits)

text \<open>
  The readings of the monitor are never \<^verbatim>\<open>NaN\<close>, and its maximum is at least both percentiles whatever the
  runtime reports.
\<close>
theorem lag_readings_ordered:
  "let e = monitor_getMetrics d m
   in meanSec e \<noteq> NaN \<and> num_leq (p50Sec e) (maxSec e) \<and> num_leq (p99Sec e) (maxSec e)"
proof -
  have a: "num_leq x x" if "x \<noteq> NaN" for x using that by (cases x) auto
  have b: "num_leq x y" if "num_less x y" for x y using that by (cases x; cases y) auto
  have c: "num_leq y x" if "\<not> num_less x y" "x \<noteq> NaN" "y \<noteq> NaN" for x y using that by (cases x; cases y) auto
  have key: "num_leq u (let v1 = (if num_less v w then w else v) in if num_less v1 u then u else v1) \<and>
      num_leq w (let v1 = (if num_less v w then w else v) in if num_less v1 u then u else v1)"
    if "u \<noteq> NaN" "v \<noteq> NaN" "w \<noteq> NaN" for u v w
    using that by (cases u; cases v; cases w) auto
  show ?thesis
    using key [of "num_or_zero (nanos_to_sec (delayP50 d))" "num_or_zero (nanos_to_sec (delayMax d))"
        "num_or_zero (nanos_to_sec (delayP99 d))"]
    by (simp add: monitor_getMetrics_def Let_def num_not_NaN zero_jsnum_def)
qed

lemma set_gauge_ok: "v \<noteq> NaN \<Longrightarrow> reg_ok reg \<Longrightarrow> \<exists>reg'. set_gauge name v reg = Inr reg' \<and> reg_ok reg' \<and> js_keys reg' = js_keys reg"
proof (cases "map_of reg name")
  case (Some m)
  assume v: "v \<noteq> NaN" "reg_ok reg"
  obtain s where s: "spec_of name = Some s" "fits s m" using v(2) Some unfolding reg_ok_def by blast
  show ?thesis
  proof (cases m)
    case (GaugeObj g)
    then obtain n h where g: "s = GaugeSpec n h" "labelNames g = []" "series g = []" using s(2) by (cases s) auto
    have "set_gauge name v reg = Inr (js_set name (GaugeObj (g\<lparr>unlabelledValue := v\<rparr>)) reg)"
      using Some GaugeObj v(1) g by (simp add: set_gauge_def gauge_set_def)
    moreover have "reg_ok (js_set name (GaugeObj (g\<lparr>unlabelledValue := v\<rparr>)) reg)"
      using v(2) s(1) g by (auto simp: reg_ok_def)
    ultimately show ?thesis using js_get_in_keys [OF Some] by simp
  qed (use Some v in \<open>simp_all add: set_gauge_def\<close>)
qed (simp add: set_gauge_def)

lemma set_gauges_ok:
  "\<forall>name v. (name, v) \<in> set gs \<longrightarrow> v \<noteq> NaN \<Longrightarrow> reg_ok reg \<Longrightarrow>
   \<exists>reg'. set_gauges gs reg = Inr reg' \<and> reg_ok reg' \<and> js_keys reg' = js_keys reg"
proof (induction gs arbitrary: reg)
  case (Cons g gs)
  obtain name v where g: "g = (name, v)" by fastforce
  obtain r where r: "set_gauge name v reg = Inr r" "reg_ok r" "js_keys r = js_keys reg"
    using set_gauge_ok [of v reg name] Cons.prems g by auto
  then show ?case using Cons.IH [OF _ r(2)] Cons.prems(1) by (simp add: g)
qed simp

lemma metrics_not_NaN:
  "meanSec (monitor_getMetrics d m) \<noteq> NaN" "p50Sec (monitor_getMetrics d m) \<noteq> NaN"
  "p99Sec (monitor_getMetrics d m) \<noteq> NaN" "maxSec (monitor_getMetrics d m) \<noteq> NaN"
  by (simp_all add: monitor_getMetrics_def Let_def num_not_NaN zero_jsnum_def)

text \<open>The update never throws.\<close>

lemma update_total:
  assumes "reg_ok reg"
  shows "\<exists>reg'. updateEventLoopMetrics d monitor reg = Inr reg' \<and> reg_ok reg' \<and> js_keys reg' = js_keys reg"
proof (cases "\<exists>m. monitor = Some m \<and> monitor_isActive m")
  case True
  then obtain m where m: "monitor = Some m" "monitor_isActive m" by blast
  note metrics_not_NaN [of d m]
  then show ?thesis using m set_gauges_ok [OF _ assms] by (simp add: updateEventLoopMetrics_def Let_def del: set_gauges.simps)
next
  case False
  then show ?thesis using assms by (auto simp: updateEventLoopMetrics_def split: option.splits)
qed

section \<open>What a sampling publishes\<close>

definition has_gauge :: "string \<Rightarrow> registry \<Rightarrow> bool" where
  "has_gauge name reg \<longleftrightarrow> (\<exists>g. map_of reg name = Some (GaugeObj g) \<and> labelNames g = [])"

lemma set_gauge_reads:
  assumes "has_gauge name reg" "v \<noteq> NaN"
  shows "\<exists>reg'. set_gauge name v reg = Inr reg' \<and> gauge_reading name reg' = v \<and>
    (\<forall>n. n \<noteq> name \<longrightarrow> gauge_reading n reg' = gauge_reading n reg) \<and> (\<forall>n. has_gauge n reg \<longrightarrow> has_gauge n reg')"
proof -
  obtain g where g: "map_of reg name = Some (GaugeObj g)" "labelNames g = []" using assms(1) by (auto simp: has_gauge_def)
  then have "set_gauge name v reg = Inr (js_set name (GaugeObj (g\<lparr>unlabelledValue := v\<rparr>)) reg)"
    using assms(2) by (simp add: set_gauge_def gauge_set_def)
  then show ?thesis using g by (simp add: gauge_reading_def has_gauge_def metric_get_def)
qed

lemma set_gauges_read:
  "distinct (map fst gs) \<Longrightarrow> \<forall>(n, v) \<in> set gs. has_gauge n reg \<and> v \<noteq> NaN \<Longrightarrow>
   \<exists>reg'. set_gauges gs reg = Inr reg' \<and> (\<forall>(n, v) \<in> set gs. gauge_reading n reg' = v) \<and>
     (\<forall>n. n \<notin> fst ` set gs \<longrightarrow> gauge_reading n reg' = gauge_reading n reg)"
proof (induction gs arbitrary: reg)
  case (Cons x gs)
  obtain name v where x: "x = (name, v)" by fastforce
  obtain r1 where r1: "set_gauge name v reg = Inr r1" "gauge_reading name r1 = v"
    "\<forall>n. n \<noteq> name \<longrightarrow> gauge_reading n r1 = gauge_reading n reg" "\<forall>n. has_gauge n reg \<longrightarrow> has_gauge n r1"
    using set_gauge_reads [of name reg v] Cons.prems(2) x by auto
  have d: "distinct (map fst gs)" "name \<notin> fst ` set gs" using Cons.prems(1) x by auto
  have "\<forall>(n, v) \<in> set gs. has_gauge n r1 \<and> v \<noteq> NaN" using Cons.prems(2) r1(4) by auto
  from Cons.IH [OF d(1) this] obtain r2 where "set_gauges gs r1 = Inr r2" "\<forall>(n, v) \<in> set gs. gauge_reading n r2 = v"
    "\<forall>n. n \<notin> fst ` set gs \<longrightarrow> gauge_reading n r2 = gauge_reading n r1" by blast
  then show ?case using r1 d(2) x by auto
qed simp

lemma loop_gauges_registered:
  assumes "constructor_registry True p r [] = Inr reg" "s \<in> set event_loop_specs"
  shows "has_gauge (specName s) reg"
proof -
  have reg: "reg_ok reg" "fst ` set reg = spec_names (constructor_specs True p r)"
    using constructor_registry_total [of True p r] assms(1) by (metis sum.inject(2))+
  have "specName s \<in> fst ` set reg" using assms(2) by (auto simp: reg(2) spec_names_def constructor_specs_def)
  then obtain m where m: "map_of reg (specName s) = Some m" by (metis map_of_eq_None_iff not_None_eq)
  have g: "\<exists>n h. s = GaugeSpec n h" using assms(2) by (auto simp: event_loop_specs_def)
  have "s \<in> set all_specs" using assms(2) by (simp add: all_specs_def)
  then have "fits s m" using reg_fits [OF reg(1) m] spec_of_mem by blast
  then show ?thesis using m g by (cases m) (auto simp: has_gauge_def)
qed

text \<open>
  Sampling the event loop publishes the readings: once a server with metrics has started, each tick of its
  timer puts the mean, the two percentiles and the maximum of the monitor into the four gauges and clears the
  samples; it never throws, and no other gauge changes.
\<close>
theorem tick_publishes_lag:
  assumes "cfgMetricsEnabled c" "constructor_registry True p r [] = Inr reg" "start_event_loop c monitor = (Some m, timer)"
  shows "\<exists>reg'. sampling_tick d fresh (Some m) reg = Inr (reg', fresh) \<and>
    gauge_reading ''pulse_event_loop_lag_seconds'' reg' = meanSec (monitor_getMetrics d m) \<and>
    gauge_reading ''pulse_event_loop_lag_p50_seconds'' reg' = p50Sec (monitor_getMetrics d m) \<and>
    gauge_reading ''pulse_event_loop_lag_p99_seconds'' reg' = p99Sec (monitor_getMetrics d m) \<and>
    gauge_reading ''pulse_event_loop_lag_max_seconds'' reg' = maxSec (monitor_getMetrics d m) \<and>
    (\<forall>n. n \<notin> spec_names event_loop_specs \<longrightarrow> gauge_reading n reg' = gauge_reading n reg)"
proof -
  have m: "delayHistogram m \<noteq> None" "monitor_isActive m"
    using assms(1,3) by (auto simp: start_event_loop_def monitor_start_def monitor_isActive_def)
  let ?e = "monitor_getMetrics d m"
  let ?gs = "[(''pulse_event_loop_lag_seconds'', meanSec ?e), (''pulse_event_loop_lag_p50_seconds'', p50Sec ?e),
    (''pulse_event_loop_lag_p99_seconds'', p99Sec ?e), (''pulse_event_loop_lag_max_seconds'', maxSec ?e)]"
  have n: "fst ` set ?gs = spec_names event_loop_specs" by (simp add: spec_names_def event_loop_specs_def)
  have h: "has_gauge k reg" if "k \<in> spec_names event_loop_specs" for k
    using loop_gauges_registered [OF assms(2)] that by (auto simp: spec_names_def)
  have k: "k \<in> spec_names event_loop_specs" if "(k, v) \<in> set ?gs" for k v
    using that unfolding n [symmetric] by (rule rev_image_eqI) simp
  have v: "v \<noteq> NaN" if "(k, v) \<in> set ?gs" for k v
    using that metrics_not_NaN [of d m] by auto
  have d: "distinct (map fst ?gs)" by simp
  obtain reg' where r: "set_gauges ?gs reg = Inr reg'" and rd: "\<forall>(n, v) \<in> set ?gs. gauge_reading n reg' = v"
    and o: "\<forall>n. n \<notin> fst ` set ?gs \<longrightarrow> gauge_reading n reg' = gauge_reading n reg"
    using set_gauges_read [OF d, of reg] h k v by blast
  have "sampling_tick d fresh (Some m) reg = Inr (reg', fresh)"
    using m r by (auto simp: sampling_tick_def updateEventLoopMetrics_def monitor_reset_def Let_def simp del: set_gauges.simps)
  then show ?thesis using rd o unfolding n by auto
qed

text \<open>A server with the settings of no environment starts and is sampled once.\<close>

definition busy_readings :: delay_readings where
  "busy_readings = \<lparr>delayMean = FinNum 20000000, delayP50 = FinNum 20000000, delayP99 = FinNum 40000000, delayMax = FinNum 50000000\<rparr>"

lemma tick_publishes_lag_witness:
  "\<exists>reg m reg'. constructor_registry True False False [] = Inr reg \<and>
     fst (start_event_loop (read_config (\<lambda>_. None) no_options) None) = Some m \<and>
     sampling_tick busy_readings (\<lparr>delayMean = NaN, delayP50 = 0, delayP99 = 0, delayMax = 0\<rparr>) (Some m) reg =
       Inr (reg', \<lparr>delayMean = NaN, delayP50 = 0, delayP99 = 0, delayMax = 0\<rparr>) \<and>
     gauge_reading ''pulse_event_loop_lag_max_seconds'' reg' = FinNum (5/100)"
proof -
  let ?c = "read_config (\<lambda>_. None) no_options"
  let ?fresh = "\<lparr>delayMean = NaN, delayP50 = 0, delayP99 = 0, delayMax = 0\<rparr>"
  obtain reg where reg: "constructor_registry True False False [] = Inr reg"
    by (rule constructor_registry_total [of True False False])
  have c: "cfgMetricsEnabled ?c" by (simp add: read_config_def no_options_def env_bool_def given_def Let_def)
  obtain m t where m: "start_event_loop ?c None = (Some m, t)" "delayHistogram m = Some 20"
    using c by (simp add: start_event_loop_def monitor_start_def new_EventLoopMonitor_def)
  have "maxSec (monitor_getMetrics busy_readings m) = FinNum (5/100)"
    using m(2) by (simp add: monitor_getMetrics_def busy_readings_def nanos_to_sec_def num_or_zero_def Let_def)
  then show ?thesis
    using tick_publishes_lag [OF c reg m(1), of busy_readings ?fresh] reg m(1) by (auto simp: fst_def)
qed

end
