(* ===== verification/Prometheus.thy ===== *)
theory Prometheus
  imports Metrics_Registry "HOL-Library.Sorting_Algorithms"
begin

text \<open>
  \<^verbatim>\<open>src/metrics/PrometheusSerializer.ts\<close>: the text exposition format. \<^verbatim>\<open>localeCompare\<close> is a comparator,
  \<^verbatim>\<open>String\<close> and \<^verbatim>\<open>toFixed(6)\<close> of a number are functions; the properties say what they need of them.
\<close>

record formats =
  locale_compare :: "string comparator"
  num_str :: "jsnum \<Rightarrow> string"
  to_fixed6 :: "jsnum \<Rightarrow> string"

abbreviation newline :: char where "newline \<equiv> CHR 0x0A"
abbreviation backslash :: char where "backslash \<equiv> CHR 0x5C"
abbreviation dquote :: char where "dquote \<equiv> CHR 0x22"

section \<open>Escaping\<close>

text \<open>\<^verbatim>\<open>text.replace(/c/g, r)\<close>\<close>

definition replace_all :: "char \<Rightarrow> string \<Rightarrow> string \<Rightarrow> string" where
  "replace_all c r s = concat (map (\<lambda>x. if x = c then r else [x]) s)"

definition escapeHelp :: "string \<Rightarrow> string" where
  "escapeHelp s = replace_all newline [backslash, CHR ''n''] (replace_all backslash [backslash, backslash] s)"

definition escapeLabelValue :: "string \<Rightarrow> string" where
  "escapeLabelValue s =
     replace_all newline [backslash, CHR ''n'']
       (replace_all dquote [backslash, dquote] (replace_all backslash [backslash, backslash] s))"

definition label_pair :: "string \<Rightarrow> string \<Rightarrow> string" where
  "label_pair name v = name @ [CHR ''='', dquote] @ escapeLabelValue v @ [dquote]"

definition formatLabels :: "labels \<Rightarrow> string" where
  "formatLabels labels =
     (case labels of
        None \<Rightarrow> []
      | Some ls \<Rightarrow>
          if js_keys ls = [] then []
          else
            let keys = List.sort (js_keys ls);
                formattedPairs = concat (map (\<lambda>key. case map_of ls key of None \<Rightarrow> [] | Some v \<Rightarrow> [label_pair key v]) keys)
            in ''{'' @ join_with '','' formattedPairs @ ''}'')"

definition formatValue :: "formats \<Rightarrow> jsnum \<Rightarrow> string" where
  "formatValue F v =
     (if as_integer v \<noteq> None then num_str F v
      else case v of
             PosInf \<Rightarrow> ''+Inf''
           | NegInf \<Rightarrow> ''-Inf''
           | NaN \<Rightarrow> ''NaN''
           | FinNum q \<Rightarrow> (if CHR ''e'' \<in> set (num_str F v) then to_fixed6 F v else num_str F v))"

section \<open>Serialization\<close>

fun objHelp :: "metric_obj \<Rightarrow> string" where
  "objHelp (CounterObj m) = metricHelp m"
| "objHelp (GaugeObj m) = metricHelp m"
| "objHelp (HistogramObj h) = histHelp h"

definition sample_line :: "formats \<Rightarrow> metric_sample \<Rightarrow> string" where
  "sample_line F s = sampleName s @ formatLabels (sampleLabels s) @ '' '' @ formatValue F (sampleValue s)"

definition serializeMetric :: "formats \<Rightarrow> metric_obj \<Rightarrow> string list" where
  "serializeMetric F m =
     (if objHelp m \<noteq> [] then [''# HELP '' @ objName m @ '' '' @ escapeHelp (objHelp m)] else [])
     @ [''# TYPE '' @ objName m @ '' '' @ objType m]
     @ map (sample_line F) (obj_collect (num_str F) m)"

definition serialize_lines :: "formats \<Rightarrow> registry \<Rightarrow> string list" where
  "serialize_lines F reg =
     concat (map (serializeMetric F) (Sorting_Algorithms.sort (key objName (locale_compare F)) (reg_getAll reg)))"

definition prometheus_serialize :: "formats \<Rightarrow> registry \<Rightarrow> string" where
  "prometheus_serialize F reg =
     (if reg_getAll reg = [] then [] else join_with [newline] (serialize_lines F reg) @ [newline])"

section \<open>Labels can be read back\<close>

text \<open>
  A reader of a label set as the exposition format defines it: a name up to \<open>=\<close>, a quoted value with three
  escape sequences, separated by commas within braces.
\<close>

fun scan_value :: "string \<Rightarrow> (string \<times> string) option" where
  "scan_value [] = None"
| "scan_value (c # cs) =
     (if c = dquote then Some ([], cs)
      else if c = backslash then
        (case cs of
           [] \<Rightarrow> None
         | d # ds \<Rightarrow> map_option (\<lambda>(v, r). ((if d = CHR ''n'' then newline else d) # v, r)) (scan_value ds))
      else map_option (\<lambda>(v, r). (c # v, r)) (scan_value cs))"

lemma scan_value_shorter: "scan_value s = Some (v, r) \<Longrightarrow> length r < length s"
  by (induction s arbitrary: v r rule: scan_value.induct) (fastforce split: if_splits list.splits)+

definition scan_pair :: "string \<Rightarrow> ((string \<times> string) \<times> string) option" where
  "scan_pair s =
     (let name = takeWhile (\<lambda>c. c \<noteq> CHR ''='') s; rest = dropWhile (\<lambda>c. c \<noteq> CHR ''='') s
      in case rest of
           _ # q # r \<Rightarrow> if q = dquote then map_option (\<lambda>(v, t). ((name, v), t)) (scan_value r) else None
         | _ \<Rightarrow> None)"

lemma scan_pair_shorter:
  assumes "scan_pair s = Some (p, r)"
  shows "length r < length s"
proof -
  obtain c q t where d: "dropWhile (\<lambda>c. c \<noteq> CHR ''='') s = c # q # t" and v: "\<exists>w. scan_value t = Some (w, r)"
    using assms by (auto simp: scan_pair_def Let_def split: list.splits if_splits)
  have "length (c # q # t) \<le> length s" unfolding d [symmetric] by (rule length_dropWhile_le)
  then show ?thesis using v scan_value_shorter by fastforce
qed

function scan_pairs :: "string \<Rightarrow> (string \<times> string) list option" where
  "scan_pairs s =
     (case scan_pair s of
        None \<Rightarrow> None
      | Some (p, r) \<Rightarrow>
          if r = ''}'' then Some [p]
          else if r \<noteq> [] \<and> hd r = CHR '','' then map_option ((#) p) (scan_pairs (tl r)) else None)"
  by pat_completeness auto
termination
  by (relation "measure length") (auto dest!: scan_pair_shorter)

declare scan_pairs.simps [simp del]

definition scan_labels :: "string \<Rightarrow> (string \<times> string) list option" where
  "scan_labels s = (case s of [] \<Rightarrow> Some [] | c # r \<Rightarrow> if c = CHR ''{'' then scan_pairs r else None)"

lemma replace_simps [simp]:
  "replace_all c r [] = []" "replace_all c r (x # s) = (if x = c then r else [x]) @ replace_all c r s"
  "replace_all c r (s @ t) = replace_all c r s @ replace_all c r t"
  by (simp_all add: replace_all_def)

text \<open>The three replacements, character by character.\<close>

definition escape_char :: "char \<Rightarrow> string" where
  "escape_char x =
     (if x = backslash then [backslash, backslash] else if x = dquote then [backslash, dquote]
      else if x = newline then [backslash, CHR ''n''] else [x])"

lemma escape_simps [simp]:
  "escapeLabelValue [] = []" "escapeLabelValue (x # s) = escape_char x @ escapeLabelValue s"
  by (simp_all add: escapeLabelValue_def escape_char_def)

lemma scan_escaped: "scan_value (escapeLabelValue v @ dquote # r) = Some (v, r)"
  by (induction v) (simp_all add: escape_char_def)

lemma scan_label_pair:
  assumes "CHR ''='' \<notin> set k"
  shows "scan_pair (label_pair k v @ r) = Some ((k, v), r)"
proof -
  have "takeWhile (\<lambda>c. c \<noteq> CHR ''='') (k @ CHR ''='' # t) = k" "dropWhile (\<lambda>c. c \<noteq> CHR ''='') (k @ CHR ''='' # t) = CHR ''='' # t" for t
    using assms by (induction k) auto
  then show ?thesis by (simp add: scan_pair_def label_pair_def scan_escaped)
qed

lemma scan_joined:
  "ps \<noteq> [] \<Longrightarrow> \<forall>(k, v) \<in> set ps. CHR ''='' \<notin> set k \<Longrightarrow>
   scan_pairs (join_with '','' (map (\<lambda>(k, v). label_pair k v) ps) @ ''}'') = Some ps"
proof (induction ps)
  case (Cons p ps)
  obtain k v where p: "p = (k, v)" by fastforce
  have k: "CHR ''='' \<notin> set k" using Cons.prems(2) p by simp
  show ?case
  proof (cases ps)
    case Nil
    then show ?thesis using scan_label_pair [OF k, of v "''}''"] by (subst scan_pairs.simps) (simp add: p)
  next
    case (Cons q qs)
    then have "join_with '','' (map (\<lambda>(k, v). label_pair k v) (p # ps)) @ ''}'' =
      label_pair k v @ CHR '','' # join_with '','' (map (\<lambda>(k, v). label_pair k v) ps) @ ''}''"
      by (simp add: p)
    then show ?thesis using Cons.IH Cons.prems Cons scan_label_pair [OF k]
      by (subst scan_pairs.simps) (simp add: p)
  qed
qed simp

text \<open>
  The labels of a sample can be read back from its line, whatever characters their values contain: a
  reader of the exposition format finds the labels in the order of their names.
\<close>
theorem labels_roundtrip:
  assumes "wf_map ls" "\<forall>k \<in> fst ` set ls. CHR ''='' \<notin> set k"
  shows "\<exists>read. scan_labels (formatLabels (Some ls)) = Some read \<and> mset read = mset ls \<and> sorted_wrt (\<le>) (map fst read)"
proof (cases "ls = []")
  case True
  then show ?thesis by (simp add: formatLabels_def scan_labels_def)
next
  case False
  let ?ks = "List.sort (js_keys ls)"
  let ?ps = "map (\<lambda>k. (k, the (map_of ls k))) ?ks"
  have "(case map_of ls k of None \<Rightarrow> [] | Some v \<Rightarrow> [label_pair k v]) = [label_pair k (the (map_of ls k))]" if "k \<in> set ?ks" for k
    using that by (auto split: option.splits simp: map_of_eq_None_iff)
  then have "concat (map (\<lambda>k. case map_of ls k of None \<Rightarrow> [] | Some v \<Rightarrow> [label_pair k v]) ?ks) =
      concat (map (\<lambda>k. [label_pair k (the (map_of ls k))]) ?ks)"
    by (intro arg_cong [of _ _ concat] map_cong) auto
  then have "formatLabels (Some ls) = ''{'' @ join_with '','' (map (\<lambda>(k, v). label_pair k v) ?ps) @ ''}''"
    using False by (simp add: formatLabels_def Let_def comp_def)
  moreover have "?ps \<noteq> []"
  proof -
    have "length ?ps = length ls" by simp
    then show ?thesis using False by (metis length_0_conv)
  qed
  moreover have "\<forall>(k, v) \<in> set ?ps. CHR ''='' \<notin> set k" using assms(2) by auto
  ultimately have "scan_labels (formatLabels (Some ls)) = Some ?ps" using scan_joined [of ?ps] by (simp add: scan_labels_def)
  moreover have "mset ?ps = mset ls"
  proof -
    have "mset ?ps = image_mset (\<lambda>k. (k, the (map_of ls k))) (mset (js_keys ls))" by simp
    also have "\<dots> = mset (map (\<lambda>x. (fst x, the (map_of ls (fst x)))) ls)" by (simp add: image_mset.compositionality comp_def)
    also have "map (\<lambda>x. (fst x, the (map_of ls (fst x)))) ls = ls" by (rule map_idI) (use assms(1) in auto)
    finally show ?thesis .
  qed
  ultimately show ?thesis by (auto simp: comp_def)
qed

lemma labels_roundtrip_witness:
  "\<exists>read. scan_labels (formatLabels (Some [(''status'', [dquote, newline, CHR ''}'']), (''operation'', [backslash, CHR ''n''])])) = Some read
     \<and> mset read = {#(''operation'', [backslash, CHR ''n'']), (''status'', [dquote, newline, CHR ''}''])#}"
  using labels_roundtrip [of "[(''status'', [dquote, newline, CHR ''}'']), (''operation'', [backslash, CHR ''n''])]"]
  by (auto simp: add_mset_commute)

section \<open>One line per sample\<close>

lemma newline_escaped: "newline \<notin> set (escapeLabelValue v)" "newline \<notin> set (escapeHelp v)"
  by (induction v) (auto simp: escape_char_def escapeHelp_def)

lemma set_join: "set (join_with sep ps) \<subseteq> set sep \<union> (\<Union>p \<in> set ps. set p)"
  by (induction sep ps rule: join_with.induct) auto

definition clean :: "string \<Rightarrow> bool" where
  "clean s \<longleftrightarrow> newline \<notin> set s"

lemma clean_append [simp]: "clean (a @ b) \<longleftrightarrow> clean a \<and> clean b"
  by (auto simp: clean_def)

lemma clean_Cons [simp]: "clean (x # s) \<longleftrightarrow> x \<noteq> newline \<and> clean s"
  by (auto simp: clean_def)

lemma clean_pair: "clean k \<Longrightarrow> clean (label_pair k v)"
  using newline_escaped(1) by (simp add: label_pair_def clean_def)

lemma clean_join: "clean sep \<Longrightarrow> (\<And>p. p \<in> set ps \<Longrightarrow> clean p) \<Longrightarrow> clean (join_with sep ps)"
  using set_join [of sep ps] by (auto simp: clean_def)

lemma clean_labels:
  assumes "\<And>k. k \<in> fst ` set ls \<Longrightarrow> clean k"
  shows "clean (formatLabels (Some ls))"
proof -
  let ?ps = "concat (map (\<lambda>k. case map_of ls k of None \<Rightarrow> [] | Some v \<Rightarrow> [label_pair k v]) (List.sort (js_keys ls)))"
  have "clean p" if "p \<in> set ?ps" for p
    using that assms by (auto intro: clean_pair split: option.splits)
  then have "clean (join_with '','' ?ps)" by (rule clean_join [rotated]) (simp_all add: clean_def)
  moreover have "clean ''{''" "clean ''}''" "clean []" by (simp_all add: clean_def)
  ultimately show ?thesis by (simp only: formatLabels_def option.case Let_def clean_append split: if_splits) simp
qed

text \<open>What the lines need: names, label names and formatted numbers without line ends.\<close>

definition clean_formats :: "formats \<Rightarrow> bool" where
  "clean_formats F \<longleftrightarrow> (\<forall>v. clean (num_str F v) \<and> clean (to_fixed6 F v))"

definition clean_metric :: "formats \<Rightarrow> metric_obj \<Rightarrow> bool" where
  "clean_metric F m \<longleftrightarrow> clean (objName m) \<and>
     (\<forall>s \<in> set (obj_collect (num_str F) m). clean (sampleName s) \<and>
       (case sampleLabels s of None \<Rightarrow> True | Some ls \<Rightarrow> \<forall>k \<in> fst ` set ls. clean k))"

lemma clean_value: "clean_formats F \<Longrightarrow> clean (formatValue F v)"
  by (auto simp: formatValue_def clean_formats_def clean_def split: jsnum.splits)

lemma clean_lines:
  assumes "clean_formats F" "clean_metric F m" "l \<in> set (serializeMetric F m)"
  shows "clean l"
proof -
  have t: "clean (objType m)" "clean ''# HELP ''" "clean ''# TYPE ''" "clean '' ''"
    by (cases m; simp add: clean_def)+
  have "clean (sample_line F s)" if "s \<in> set (obj_collect (num_str F) m)" for s
  proof -
    have "clean (formatLabels (sampleLabels s))"
    proof (cases "sampleLabels s")
      case None
      then show ?thesis by (simp add: formatLabels_def clean_def)
    next
      case (Some ls)
      have "case sampleLabels s of None \<Rightarrow> True | Some ls \<Rightarrow> \<forall>k \<in> fst ` set ls. clean k"
        using assms(2) that unfolding clean_metric_def by blast
      then have "clean (formatLabels (Some ls))" using Some by (intro clean_labels) auto
      then show ?thesis using Some by simp
    qed
    then show ?thesis using assms(2) that clean_value [OF assms(1)] t by (simp add: sample_line_def clean_metric_def)
  qed
  moreover have "clean (escapeHelp (objHelp m))" using newline_escaped(2) by (simp add: clean_def)
  moreover have "clean (objName m)" using assms(2) by (simp add: clean_metric_def)
  ultimately show ?thesis using assms(3) t by (auto simp: serializeMetric_def split: if_splits)
qed

lemma split_joined:
  "ls \<noteq> [] \<Longrightarrow> \<forall>l \<in> set ls. c \<notin> set l \<Longrightarrow> split_char c (join_with [c] ls @ [c]) = ls @ [[]]"
proof (induction ls)
  case (Cons l ls)
  show ?case
  proof (cases ls)
    case Nil
    then show ?thesis using Cons.prems by (simp add: split_char_append)
  next
    case (Cons l2 ls2)
    then show ?thesis using Cons.IH Cons.prems by (simp add: split_char_append)
  qed
qed simp

text \<open>
  The export has exactly one line for every sample, after the help and type lines of its metric, and ends
  with a line end: no label value and no help text, whatever it contains, adds a line or breaks one.
\<close>
theorem one_line_per_sample:
  assumes "clean_formats F" "\<forall>m \<in> set (reg_getAll reg). clean_metric F m" "reg \<noteq> []"
  shows "split_char newline (prometheus_serialize F reg) =
    concat (map (\<lambda>m. (if objHelp m \<noteq> [] then [''# HELP '' @ objName m @ '' '' @ escapeHelp (objHelp m)] else [])
        @ [''# TYPE '' @ objName m @ '' '' @ objType m] @ map (sample_line F) (obj_collect (num_str F) m))
      (Sorting_Algorithms.sort (key objName (locale_compare F)) (reg_getAll reg))) @ [[]]"
proof -
  have "\<forall>l \<in> set (serialize_lines F reg). newline \<notin> set l"
    using clean_lines [OF assms(1)] assms(2) by (auto simp: serialize_lines_def clean_def)
  moreover have "serialize_lines F reg \<noteq> []"
  proof -
    obtain m where "m \<in> set (reg_getAll reg)" using assms(3) by (cases reg) (auto simp: reg_getAll_def)
    then show ?thesis by (auto simp: serialize_lines_def serializeMetric_def)
  qed
  ultimately have "split_char newline (prometheus_serialize F reg) = serialize_lines F reg @ [[]]"
    using split_joined assms(3) by (simp add: prometheus_serialize_def reg_getAll_def)
  then show ?thesis unfolding serialize_lines_def serializeMetric_def .
qed

section \<open>The order of registration does not matter\<close>

text \<open>
  The export is deterministic: registries with the same metrics give the same text in whatever order the
  metrics were registered, provided \<^verbatim>\<open>localeCompare\<close> tells distinct names apart.
\<close>
theorem export_independent_of_order:
  assumes "mset reg = mset reg2" "names_wf reg" "\<And>a b. compare (locale_compare F) a b = Equiv \<Longrightarrow> a = b"
  shows "prometheus_serialize F reg2 = prometheus_serialize F reg"
proof -
  let ?cmp = "key objName (locale_compare F)"
  have d: "distinct (map objName (reg_getAll r))" "mset (reg_getAll r) = mset (reg_getAll reg)" if "mset r = mset reg" for r
  proof -
    have m: "mset (map f r) = mset (map f reg)" for f :: "string \<times> metric_obj \<Rightarrow> 'a" using that by simp
    have "map objName (reg_getAll reg) = js_keys reg" using assms(2) by (auto simp: names_wf_def reg_getAll_def)
    then have "distinct (map objName (reg_getAll reg))" using assms(2) by (simp add: names_wf_def)
    moreover have "mset (map objName (reg_getAll r)) = mset (map objName (reg_getAll reg))"
      using m [of "objName \<circ> snd"] by (simp add: reg_getAll_def)
    ultimately show "distinct (map objName (reg_getAll r))" using mset_eq_imp_distinct_iff by blast
    show "mset (reg_getAll r) = mset (reg_getAll reg)" using m [of snd] by (simp add: reg_getAll_def)
  qed
  have seg: "filter (\<lambda>x. compare ?cmp m x = Equiv) ms = [m]" if "distinct (map objName ms)" "m \<in> set ms" for m ms
  proof -
    have "filter (\<lambda>x. compare ?cmp m x = Equiv) ms = filter (\<lambda>x. objName m = objName x) ms"
      using assms(3) by (intro filter_cong) (auto simp: compare.refl)
    also have "\<dots> = [m]" using that
    proof (induction ms)
      case (Cons a ms)
      show ?case
      proof (cases "m = a")
        case True
        then have "filter (\<lambda>x. objName m = objName x) ms = []" using Cons.prems(1) by (force simp: filter_empty_conv)
        then show ?thesis using True by simp
      next
        case False
        then have "m \<in> set ms" using Cons.prems by simp
        moreover have "objName a \<notin> objName ` set ms" using Cons.prems(1) by simp
        ultimately have "objName m \<noteq> objName a" by (metis imageI)
        then show ?thesis using Cons \<open>m \<in> set ms\<close> by simp
      qed
    qed simp
    finally show ?thesis .
  qed
  have "Sorting_Algorithms.sort ?cmp (reg_getAll reg2) = Sorting_Algorithms.sort ?cmp (reg_getAll reg)"
  proof (rule sort_eqI)
    show "mset (reg_getAll reg2) = mset (Sorting_Algorithms.sort ?cmp (reg_getAll reg))"
      using d(2) [of reg2] assms(1) by simp
  next
    fix m assume m: "m \<in> set (reg_getAll reg2)"
    have m1: "m \<in> set (reg_getAll reg)" using m mset_eq_setD [OF d(2) [of reg2]] assms(1) by simp
    show "stable_segment ?cmp m (reg_getAll reg2) = stable_segment ?cmp m (Sorting_Algorithms.sort ?cmp (reg_getAll reg))"
      unfolding stable_sort seg [OF d(1) [OF assms(1) [symmetric]] m] seg [OF d(1) [OF refl] m1] ..
  qed simp
  moreover have "reg_getAll reg2 = [] \<longleftrightarrow> reg_getAll reg = []"
    using mset_eq_length [OF assms(1)] by (simp add: reg_getAll_def flip: length_0_conv)
  ultimately show ?thesis by (simp add: prometheus_serialize_def serialize_lines_def)
qed

text \<open>Two registries with two gauges.\<close>

definition plain_formats :: formats where
  "plain_formats = \<lparr>locale_compare = default, num_str = (\<lambda>v. case as_integer v of Some i \<Rightarrow> js_int_str i | None \<Rightarrow> ''0.5''),
     to_fixed6 = (\<lambda>_. ''0.000000'')\<rparr>"

definition sample_gauge :: "string \<Rightarrow> metric_obj" where
  "sample_gauge name = GaugeObj \<lparr>metricName = name, metricHelp = [newline], labelNames = [], unlabelledValue = 0, series = []\<rparr>"

lemma export_independent_of_order_witness:
  "prometheus_serialize plain_formats [(''b'', sample_gauge ''b''), (''a'', sample_gauge ''a'')] =
   prometheus_serialize plain_formats [(''a'', sample_gauge ''a''), (''b'', sample_gauge ''b'')]"
  by (rule export_independent_of_order) (auto simp: names_wf_def sample_gauge_def plain_formats_def)

lemma plain_formats_clean: "clean_formats plain_formats"
proof -
  have "newline \<notin> set (digits_of_nat n)" for n
  proof (induction n rule: digits_of_nat.induct)
    case (1 n)
    have c: "newline \<noteq> char_of (k + 48)" if "k < 10" for k :: nat
    proof
      assume "newline = char_of (k + 48)"
      then have "of_char newline = (of_char (char_of (k + 48) :: char) :: nat)" by (rule arg_cong)
      then show False using that by (simp add: of_char_of)
    qed
    show ?case using 1 c [of n] c [of "n mod 10"] by (cases "n < 10"; subst digits_of_nat.simps) simp_all
  qed
  then show ?thesis by (auto simp: clean_formats_def plain_formats_def clean_def js_int_str_def split: option.splits)
qed

lemma one_line_per_sample_witness:
  "length (split_char newline (prometheus_serialize plain_formats [(''a'', sample_gauge ''a'')])) = 4"
proof -
  have m: "\<forall>m \<in> set (reg_getAll [(''a'', sample_gauge ''a'')]). clean_metric plain_formats m"
    by (simp add: reg_getAll_def clean_metric_def sample_gauge_def metric_collect_def clean_def)
  show ?thesis using one_line_per_sample [OF plain_formats_clean m]
    by (simp add: reg_getAll_def sample_gauge_def metric_collect_def)
qed

end
