(* ===== verification/Http_Endpoints.thy ===== *)
theory Http_Endpoints
  imports Server_Inv Event_Loop Prometheus
begin

text \<open>
  \<^verbatim>\<open>handleHttpRequest\<close> of \<^verbatim>\<open>src/core/PulseServer.ts\<close>: statistics, the dashboard's files, health, readiness
  and the Prometheus export. POSIX paths of \<^verbatim>\<open>node:path\<close> are modelled; the file system,
  \<^verbatim>\<open>decodeURIComponent\<close> (any function), \<^verbatim>\<open>Buffer.byteLength\<close>, rounding to two decimals and the clocks are arguments. A body is
  the value given to \<^verbatim>\<open>JSON.stringify\<close>, a text, or the file that is streamed.
\<close>

section \<open>Paths\<close>

definition path_segments :: "string \<Rightarrow> string list" where
  "path_segments p = split_char CHR ''/'' p"

text \<open>Empty and dot segments disappear, a double dot removes the segment before it, the root has no parent.\<close>

fun normalize_segments :: "string list \<Rightarrow> string list \<Rightarrow> string list" where
  "normalize_segments acc [] = rev acc"
| "normalize_segments acc (s # ss) =
     (if s = [] \<or> s = ''.'' then normalize_segments acc ss
      else if s = ''..'' then normalize_segments (tl acc) ss
      else normalize_segments (s # acc) ss)"

definition absolute_path :: "string list \<Rightarrow> string" where
  "absolute_path ss = CHR ''/'' # join_with ''/'' ss"

text \<open>\<^verbatim>\<open>path.resolve(base, p)\<close> for an absolute base.\<close>

definition path_resolve :: "string \<Rightarrow> string \<Rightarrow> string" where
  "path_resolve base p =
     absolute_path (normalize_segments []
       (if starts_with ''/'' p then path_segments p else path_segments base @ path_segments p))"

text \<open>\<^verbatim>\<open>path.normalize(p)\<close> for an absolute path: a trailing slash stays.\<close>

definition path_normalize :: "string \<Rightarrow> string" where
  "path_normalize p =
     (let ss = normalize_segments [] (path_segments p)
      in absolute_path ss @ (if ss \<noteq> [] \<and> last p = CHR ''/'' then ''/'' else []))"

text \<open>\<^verbatim>\<open>path.extname\<close>: from the last dot of the last segment, unless the segment begins with it.\<close>

definition path_extname :: "string \<Rightarrow> string" where
  "path_extname p =
     (let base = last ([] # filter (\<lambda>s. s \<noteq> []) (path_segments p));
          ext = rev (takeWhile (\<lambda>c. c \<noteq> CHR ''.'') (rev base))
      in if CHR ''.'' \<notin> set base \<or> length base = Suc (length ext) then [] else CHR ''.'' # ext)"

section \<open>Requests and responses\<close>

record http_request =
  httpMethod :: string
  httpUrl :: "string option"
  httpOrigin :: "string option"

datatype http_body =
    NoBody
  | JsonBody json
  | TextBody string
  | FileBody string

text \<open>What a client parses out of a body (\<^verbatim>\<open>JSON.parse\<close> of the text \<^verbatim>\<open>JSON.stringify\<close> wrote).\<close>

fun json_body :: "http_body \<Rightarrow> json" where
  "json_body (JsonBody j) = json_reparse j"
| "json_body _ = JNull"

record http_response =
  respStatus :: nat
  respHeaders :: "(string \<times> string) list"
  respBody :: http_body

record http_env =
  envNow :: int
  envUptime :: rat
  envCwd :: string
  fsExists :: "string \<Rightarrow> bool"
  fsIsDirectory :: "string \<Rightarrow> bool"
  decodeURIComponent :: "string \<Rightarrow> string option"
  toFixed2 :: "jsnum \<Rightarrow> jsnum"
  delayReadings :: delay_readings
  loopMonitor :: "event_loop_monitor option"
  hasGateway :: bool
  byteLength :: "string \<Rightarrow> nat"
  envFormats :: formats

definition respond :: "nat \<Rightarrow> (string \<times> string) list \<Rightarrow> http_body \<Rightarrow> http_response" where
  "respond status headers body = \<lparr>respStatus = status, respHeaders = headers, respBody = body\<rparr>"

definition json_headers :: "(string \<times> string) list" where
  "json_headers = [(''Content-Type'', ''application/json'')]"

definition plain_headers :: "(string \<times> string) list" where
  "plain_headers = [(''Content-Type'', ''text/plain'')]"

definition no_cache :: "string \<times> string" where
  "no_cache = (''Cache-Control'', ''no-cache, no-store, must-revalidate'')"

definition js_nat :: "nat \<Rightarrow> json" where
  "js_nat n = JNum (int_num (int n))"

definition js_int :: "int \<Rightarrow> json" where
  "js_int i = JNum (int_num i)"

text \<open>The headers every response carries.\<close>

definition common_headers :: "http_request \<Rightarrow> (string \<times> string) list" where
  "common_headers req =
     [(''Access-Control-Allow-Origin'', (if str_truthy (httpOrigin req) then the (httpOrigin req) else ''*'')),
      (''Access-Control-Allow-Methods'', ''GET, POST, OPTIONS''),
      (''Access-Control-Allow-Headers'', ''Content-Type, Authorization, X-Requested-With''),
      (''X-Content-Type-Options'', ''nosniff''), (''X-Frame-Options'', ''DENY'')]"

section \<open>Health and readiness\<close>

definition redis_degraded :: "'s server \<Rightarrow> bool" where
  "redis_degraded sv \<longleftrightarrow> hasRedis (srvNode sv) \<and> \<not> link_connected (srvNode sv)"

definition health_status :: "'s server \<Rightarrow> string \<times> nat" where
  "health_status sv =
     (if isShuttingDown sv then (''DRAINING'', 503) else if redis_degraded sv then (''DEGRADED'', 200) else (''OK'', 200))"

fun link_status_name :: "link_status \<Rightarrow> string" where
  "link_status_name Idle = ''idle''"
| "link_status_name Connecting = ''connecting''"
| "link_status_name Connected = ''connected''"
| "link_status_name Reconnecting = ''reconnecting''"
| "link_status_name Disconnecting = ''disconnecting''"
| "link_status_name Disconnected = ''disconnected''"
| "link_status_name Error = ''error''"

definition redis_metrics_json :: "rm_snapshot \<Rightarrow> json" where
  "redis_metrics_json s =
     (case snapPublish s of (pc, pe, pavg, pmax, infl) \<Rightarrow>
      case snapInbound s of (ic, iavg, imax) \<Rightarrow>
      case snapSuppressed s of (echoes, dups) \<Rightarrow>
      case snapChannels s of (chans, state) \<Rightarrow>
      case snapPresence s of (users, conns, pub, rec, prune, renew) \<Rightarrow>
        JObj [(''redis.publish.count'', js_nat pc), (''redis.publish.errors'', js_nat pe),
              (''redis.publish.latency.avgMs'', JNum (FinNum pavg)), (''redis.publish.latency.maxMs'', js_int pmax),
              (''redis.publish.inFlight'', js_int infl), (''redis.inbound.count'', js_nat ic),
              (''redis.inbound.latency.avgMs'', JNum (FinNum iavg)), (''redis.inbound.latency.maxMs'', js_int imax),
              (''redis.echoes.suppressed'', js_nat echoes), (''redis.duplicates.suppressed'', js_nat dups),
              (''redis.channels.active'', js_nat chans), (''redis.connection.state'', JStr state),
              (''presence.users.online'', js_nat users), (''presence.connections.active'', js_nat conns),
              (''presence.events.published'', js_nat pub), (''presence.events.received'', js_nat rec),
              (''presence.prune.latency.ms'', js_int prune), (''presence.lease.renewals'', js_nat renew)])"

definition redis_json :: "'s server \<Rightarrow> json" where
  "redis_json sv =
     (let st = srvNode sv
      in if hasRedis st
         then JObj [(''enabled'', JBool True), (''publisher'', JStr (link_status_name (publisherStatus st))),
                    (''subscriber'', JStr (link_status_name (subscriberStatus st))),
                    (''isConnected'', JBool (link_connected st)), (''metrics'', redis_metrics_json (getSnapshot st))]
         else JObj [(''enabled'', JBool False)])"

definition presence_metrics_json :: "presence \<Rightarrow> json" where
  "presence_metrics_json pm =
     JObj [(''presence.users.online'', js_nat (length (set_of_array (map snd (localConnections pm))))),
           (''presence.connections.active'', js_nat (length (localConnections pm))),
           (''presence.events.published'', js_nat (eventsPublished pm)),
           (''presence.events.received'', js_nat (eventsReceived pm)),
           (''presence.prune.latency.ms'', js_int (pruneLatencyMs pm)),
           (''presence.lease.renewals'', js_nat (totalLeaseRenewals pm))]"

definition presence_json :: "'s server \<Rightarrow> json" where
  "presence_json sv =
     (case presenceMgr (srvNode sv) of
        None \<Rightarrow> JObj [(''enabled'', JBool False), (''mode'', JStr ''disabled'')]
      | Some pm \<Rightarrow>
          JObj [(''enabled'', JBool True),
                (''mode'', JStr (if redis_degraded sv then ''degraded-local-only'' else ''distributed'')),
                (''metrics'', presence_metrics_json pm)])"

definition health_response :: "http_env \<Rightarrow> 's server \<Rightarrow> http_response" where
  "health_response E sv =
     (let (status, statusCode) = health_status sv; st = srvNode sv
      in respond statusCode json_headers
           (JsonBody (JObj
             [(''status'', JStr status), (''instanceId'', JStr (cfgInstanceId (serverConfig sv))), (''timestamp'', js_int (envNow E)),
              (''connections'', js_nat (getCount st)), (''rooms'', js_nat (getRoomCount st)),
              (''idempotencyCacheSize'', js_nat (idem_size (idem st))), (''redis'', redis_json sv),
              (''presence'', presence_json sv)])))"

definition ready_response :: "http_env \<Rightarrow> 's server \<Rightarrow> http_response" where
  "ready_response E sv =
     (let isRedisDegraded = (cfgRedisEnabled (serverConfig sv) \<and> (\<not> hasRedis (srvNode sv) \<or> \<not> link_connected (srvNode sv)));
          (ready, status, statusCode, reason) =
            (if isShuttingDown sv then (False, ''DRAINING'', 503 :: nat, [(''reason'', JStr ''Server is draining connections'')])
             else if isRedisDegraded then (False, ''NOT_READY'', 503, [(''reason'', JStr ''Redis is enabled but disconnected'')])
             else (True, ''READY'', 200, []))
      in respond statusCode (json_headers @ [no_cache])
           (JsonBody (JObj
             ([(''ready'', JBool ready), (''status'', JStr status), (''instanceId'', JStr (cfgInstanceId (serverConfig sv))),
               (''timestamp'', js_int (envNow E))] @ reason))))"

section \<open>Statistics\<close>

definition counter_total :: "string \<Rightarrow> registry \<Rightarrow> metric_error + jsnum" where
  "counter_total name reg =
     (case getCounter name reg of
        Inl err \<Rightarrow> Inl err
      | Inr None \<Rightarrow> Inr 0
      | Inr (Some m) \<Rightarrow> Inr (sum_list (map sampleValue (metric_collect m))))"

definition loop_metrics :: "http_env \<Rightarrow> registry \<Rightarrow> event_loop_metrics" where
  "loop_metrics E reg =
     (case loopMonitor E of
        Some m \<Rightarrow>
          if monitor_isActive m then monitor_getMetrics (delayReadings E) m
          else \<lparr>meanSec = gauge_reading ''pulse_event_loop_lag_seconds'' reg,
                p50Sec = gauge_reading ''pulse_event_loop_lag_p50_seconds'' reg,
                p99Sec = gauge_reading ''pulse_event_loop_lag_p99_seconds'' reg,
                maxSec = gauge_reading ''pulse_event_loop_lag_max_seconds'' reg\<rparr>
      | None \<Rightarrow> \<lparr>meanSec = gauge_reading ''pulse_event_loop_lag_seconds'' reg,
                p50Sec = gauge_reading ''pulse_event_loop_lag_p50_seconds'' reg,
                p99Sec = gauge_reading ''pulse_event_loop_lag_p99_seconds'' reg,
                maxSec = gauge_reading ''pulse_event_loop_lag_max_seconds'' reg\<rparr>)"

definition times_1000 :: "jsnum \<Rightarrow> jsnum" where
  "times_1000 x = (case x of FinNum q \<Rightarrow> FinNum (q * 1000) | _ \<Rightarrow> x)"

definition room_sample :: "'s server \<Rightarrow> json list" where
  "room_sample sv =
     map (\<lambda>r. JObj [(''roomId'', JStr r), (''subscriberCount'', js_nat (getConnectionCountInRoom r (srvNode sv)))])
       (take 50 (getAllRoomIds (srvNode sv)))"

definition connection_json :: "'s ws \<Rightarrow> 's connection \<Rightarrow> json" where
  "connection_json W c =
     JObj [(''connectionId'', JStr (connectionId c)), (''userId'', JStr (userId c)), (''remoteAddress'', JStr (remoteAddress c)),
           (''roles'', roles c), (''connectedAt'', js_int (connectedAt c)),
           (''bufferedAmountBytes'', js_nat (bufferedAmount W (socket c))), (''rooms'', JArr (map JStr (connRooms c)))]"

definition connection_sample :: "'s ws \<Rightarrow> 's server \<Rightarrow> json list" where
  "connection_sample W sv =
     concat (map (\<lambda>cid. case heap (srvNode sv) cid of None \<Rightarrow> [] | Some c \<Rightarrow> [connection_json W c])
       (take 50 (getAllConnections (srvNode sv))))"

definition stats_response ::
  "'s ws \<Rightarrow> http_env \<Rightarrow> 's server \<Rightarrow> registry \<Rightarrow> metric_error + (http_response \<times> registry)" where
  "stats_response W E sv reg =
     (case updateEventLoopMetrics (delayReadings E) (loopMonitor E) reg of
        Inl err \<Rightarrow> Inl err
      | Inr reg1 \<Rightarrow>
          (case counter_total ''pulse_messages_received_total'' reg1 of
             Inl err \<Rightarrow> Inl err
           | Inr rx \<Rightarrow>
          (case counter_total ''pulse_messages_delivered_total'' reg1 of
             Inl err \<Rightarrow> Inl err
           | Inr tx \<Rightarrow>
          (case counter_total ''pulse_connections_total'' reg1 of
             Inl err \<Rightarrow> Inl err
           | Inr attempted \<Rightarrow>
               let (status, statusCode) = health_status sv; st = srvNode sv; lag = loop_metrics E reg1;
                   ms = (\<lambda>x. JNum (toFixed2 E (times_1000 x)))
               in Inr (respond statusCode (json_headers @ [no_cache])
                    (JsonBody (JObj
                      [(''status'', JStr status), (''statusCode'', js_nat statusCode),
                       (''instanceId'', JStr (cfgInstanceId (serverConfig sv))),
                       (''nodeEnv'', JStr (cfgNodeEnv (serverConfig sv))), (''uptimeSeconds'', js_int \<lfloor>envUptime E\<rfloor>),
                       (''timestamp'', js_int (envNow E)),
                       (''connections'', JObj [(''active'', js_nat (getCount st)), (''total'', JNum attempted),
                                              (''sample'', JArr (connection_sample W sv))]),
                       (''rooms'', JObj [(''active'', js_nat (getRoomCount st)), (''list'', JArr (room_sample sv))]),
                       (''throughput'', JObj [(''messagesReceived'', JNum rx), (''messagesDelivered'', JNum tx)]),
                       (''eventLoopLag'', JObj [(''meanMs'', ms (meanSec lag)), (''p50Ms'', ms (p50Sec lag)),
                                               (''p99Ms'', ms (p99Sec lag)), (''maxMs'', ms (maxSec lag))]),
                       (''idempotencyCacheSize'', js_nat (idem_size (idem st))), (''redis'', redis_json sv),
                       (''presence'', presence_json sv),
                       (''routex'', if hasGateway E then JObj [(''enabled'', JBool True), (''version'', JStr ''1.2.0'')]
                                   else JObj [(''enabled'', JBool False)])])),
                    reg1)))))"

section \<open>The dashboard\<close>

definition mime_type :: "string \<Rightarrow> string" where
  "mime_type ext =
     (case map_of
        [(''.html'', ''text/html; charset=utf-8''), (''.js'', ''application/javascript; charset=utf-8''),
         (''.css'', ''text/css; charset=utf-8''), (''.svg'', ''image/svg+xml''), (''.png'', ''image/png''),
         (''.ico'', ''image/x-icon''), (''.json'', ''application/json; charset=utf-8'')] ext of
        Some t \<Rightarrow> t | None \<Rightarrow> ''application/octet-stream'')"

definition dashboard_root :: "http_env \<Rightarrow> string" where
  "dashboard_root E = path_resolve (path_resolve (envCwd E) ''dashboard'') ''dist''"

definition has_double_dot :: "string \<Rightarrow> bool" where
  "has_double_dot s \<longleftrightarrow> includes_str ''..'' s"

definition serve_file :: "http_env \<Rightarrow> string \<Rightarrow> http_response option" where
  "serve_file E finalPath =
     (if fsExists E finalPath
      then Some (respond 200 [(''Content-Type'', mime_type (js_lower (path_extname finalPath)))] (FileBody finalPath))
      else None)"

text \<open>The decoded path; \<open>None\<close> when no file is found and the later branches of the handler decide.\<close>

definition dashboard_file_response :: "http_env \<Rightarrow> string \<Rightarrow> string \<Rightarrow> http_response option" where
  "dashboard_file_response E dir relativeFile =
     (let filePath = path_resolve dir relativeFile;
          normalizedDist = path_normalize dir @ ''/'';
          normalizedFile = path_normalize filePath
      in if normalizedFile \<noteq> path_normalize dir \<and> \<not> starts_with normalizedDist normalizedFile
         then Some (respond 403 plain_headers (TextBody ''Forbidden''))
         else
           let missing = (\<not> fsExists E filePath \<or> fsIsDirectory E filePath)
           in if missing \<and> path_extname relativeFile \<noteq> [] \<and> path_extname relativeFile \<noteq> ''.html''
              then Some (respond 404 plain_headers (TextBody ''Not Found''))
              else serve_file E (if missing then path_resolve dir ''index.html'' else filePath))"

text \<open>A path under \<^verbatim>\<open>/dashboard/\<close>.\<close>

definition dashboard_response :: "http_env \<Rightarrow> string \<Rightarrow> http_response option" where
  "dashboard_response E pathname =
     (let dist = dashboard_root E
      in if \<not> fsExists E dist then
           Some (respond 404 json_headers
             (JsonBody (JObj [(''error'', JStr ''Dashboard build not found''),
               (''message'', JStr ''Run npm run build:dashboard to compile dashboard static assets or run npm run dev:dashboard for development.'')])))
         else
           (case decodeURIComponent E (drop (length ''/dashboard/'') pathname) of
              None \<Rightarrow> Some (respond 400 plain_headers (TextBody ''Bad Request''))
            | Some decoded \<Rightarrow>
                if CHR 0x00 \<in> set decoded \<or> has_double_dot decoded then Some (respond 403 plain_headers (TextBody ''Forbidden''))
                else dashboard_file_response E dist (if decoded = [] then ''index.html'' else decoded)))"

section \<open>The handler\<close>

definition metrics_response :: "http_env \<Rightarrow> 's server \<Rightarrow> registry \<Rightarrow> metric_error + (http_response \<times> registry)" where
  "metrics_response E sv reg =
     (if \<not> cfgMetricsEnabled (serverConfig sv)
      then Inr (respond 404 json_headers (JsonBody (JObj [(''error'', JStr ''Metrics endpoint is disabled'')])), reg)
      else
        (case updateEventLoopMetrics (delayReadings E) (loopMonitor E) reg of
           Inl err \<Rightarrow> Inl err
         | Inr reg1 \<Rightarrow>
             let metricsText = prometheus_serialize (envFormats E) reg1
             in Inr (respond 200 [(''Content-Type'', ''text/plain; version=0.0.4; charset=utf-8''),
                       (''Content-Length'', digits_of_nat (byteLength E metricsText)), no_cache] (TextBody metricsText),
                     reg1)))"

definition not_found :: http_response where
  "not_found = respond 404 json_headers (JsonBody (JObj [(''error'', JStr ''Not Found'')]))"

text \<open>The branches after the dashboard.\<close>

definition service_response ::
  "http_env \<Rightarrow> string \<Rightarrow> string \<Rightarrow> 's server \<Rightarrow> registry \<Rightarrow> metric_error + (http_response \<times> registry)" where
  "service_response E meth pathname sv reg =
     (if pathname = ''/healthz'' \<or> pathname = ''/health'' then Inr (health_response E sv, reg)
      else if pathname = ''/readyz'' then Inr (ready_response E sv, reg)
      else if meth = ''GET'' \<and> (pathname = ''/metrics'' \<or>
                 (cfgMetricsPath (serverConfig sv) \<noteq> [] \<and> pathname = cfgMetricsPath (serverConfig sv)))
      then metrics_response E sv reg
      else Inr (not_found, reg))"

definition route_request ::
  "'s ws \<Rightarrow> http_env \<Rightarrow> http_request \<Rightarrow> 's server \<Rightarrow> registry \<Rightarrow> metric_error + (http_response \<times> registry)" where
  "route_request W E req sv reg =
     (let rawUrl = (case httpUrl req of None \<Rightarrow> [] | Some u \<Rightarrow> u);
          pathname = hd (split_char CHR ''?'' rawUrl); meth = httpMethod req
      in if meth = ''OPTIONS'' then Inr (respond 204 [] NoBody, reg)
         else if meth = ''GET'' \<and> (pathname = ''/api/stats'' \<or> pathname = ''/api/telemetry'') then stats_response W E sv reg
         else if pathname = ''/dashboard'' then Inr (respond 301 [(''Location'', ''/dashboard/'')] NoBody, reg)
         else if starts_with ''/dashboard/'' pathname then
           (case dashboard_response E pathname of
              Some r \<Rightarrow> Inr (r, reg)
            | None \<Rightarrow> service_response E meth pathname sv reg)
         else service_response E meth pathname sv reg)"

definition handleHttpRequest ::
  "'s ws \<Rightarrow> http_env \<Rightarrow> http_request \<Rightarrow> 's server \<Rightarrow> registry \<Rightarrow> metric_error + (http_response \<times> registry)" where
  "handleHttpRequest W E req sv reg =
     map_sum id (\<lambda>(r, reg1). (r\<lparr>respHeaders := common_headers req @ respHeaders r\<rparr>, reg1)) (route_request W E req sv reg)"

section \<open>Path safety\<close>

text \<open>The segments of an absolute path that has been resolved: no empty ones, no dots.\<close>

definition plain_segment :: "string \<Rightarrow> bool" where
  "plain_segment s \<longleftrightarrow> s \<noteq> [] \<and> s \<noteq> ''.'' \<and> s \<noteq> ''..'' \<and> CHR ''/'' \<notin> set s"

lemma split_no_sep: "s \<in> set (split_char c p) \<Longrightarrow> c \<notin> set s"
  by (induction p arbitrary: s) (auto split: if_splits list.splits)

lemma normalize_plain:
  "\<forall>s \<in> set ss. CHR ''/'' \<notin> set s \<Longrightarrow> \<forall>s \<in> set acc. plain_segment s \<Longrightarrow> \<forall>s \<in> set (normalize_segments acc ss). plain_segment s"
proof (induction ss arbitrary: acc)
  case (Cons s ss)
  have ih: "\<forall>s \<in> set a. plain_segment s \<Longrightarrow> \<forall>s \<in> set (normalize_segments a ss). plain_segment s" for a
    using Cons.IH [of a] Cons.prems(1) by simp
  consider "s = [] \<or> s = ''.''" | "s = ''..''" | "s \<noteq> []" "s \<noteq> ''.''" "s \<noteq> ''..''" by blast
  then show ?case
  proof cases
    case 1
    then show ?thesis using ih [OF Cons.prems(2)] by auto
  next
    case 2
    have "\<forall>s \<in> set (tl acc). plain_segment s" using Cons.prems(2) by (cases acc) auto
    then show ?thesis using ih [of "tl acc"] 2 by simp
  next
    case 3
    then have "plain_segment s" using Cons.prems(1) by (simp add: plain_segment_def)
    then have "\<forall>x \<in> set (normalize_segments (s # acc) ss). plain_segment x" using Cons.prems(2) by (intro ih) simp
    then show ?thesis using 3 by simp
  qed
qed simp

lemma normalize_idem: "\<forall>s \<in> set ss. plain_segment s \<Longrightarrow> normalize_segments acc ss = rev acc @ ss"
  by (induction ss arbitrary: acc) (auto simp: plain_segment_def)

lemma split_joined_segments:
  "ss \<noteq> [] \<Longrightarrow> \<forall>s \<in> set ss. CHR ''/'' \<notin> set s \<Longrightarrow> path_segments (join_with ''/'' ss) = ss"
proof (induction ss)
  case (Cons s ss)
  then show ?case
    by (cases ss) (simp_all add: path_segments_def split_char_append split_char_no_sep)
qed simp

lemma segments_absolute:
  assumes "\<forall>s \<in> set ss. plain_segment s"
  shows "normalize_segments [] (path_segments (absolute_path ss)) = ss"
proof (cases "ss = []")
  case True
  then show ?thesis by (simp add: absolute_path_def path_segments_def)
next
  case False
  have "path_segments (absolute_path ss) = [] # ss"
    using split_joined_segments [OF False] assms by (simp add: absolute_path_def path_segments_def plain_segment_def)
  then show ?thesis using normalize_idem [OF assms, of "[]"] by simp
qed

lemma last_absolute:
  assumes "\<forall>s \<in> set ss. plain_segment s" "ss \<noteq> []"
  shows "last (absolute_path ss) \<noteq> CHR ''/''"
proof -
  have "join_with ''/'' ss \<noteq> [] \<and> last (join_with ''/'' ss) \<noteq> CHR ''/''" using assms
  proof (induction ss)
    case (Cons s ss)
    then show ?case by (cases ss) (auto simp: plain_segment_def dest: last_in_set)
  qed simp
  then show ?thesis by (simp add: absolute_path_def)
qed

lemma normalize_absolute:
  assumes "\<forall>s \<in> set ss. plain_segment s"
  shows "path_normalize (absolute_path ss) = absolute_path ss"
  using segments_absolute [OF assms] last_absolute [OF assms] by (auto simp: path_normalize_def Let_def)

lemma resolve_segments: "\<exists>ss. path_resolve base p = absolute_path ss \<and> (\<forall>s \<in> set ss. plain_segment s)"
proof -
  let ?in = "if starts_with ''/'' p then path_segments p else path_segments base @ path_segments p"
  have "\<forall>s \<in> set ?in. CHR ''/'' \<notin> set s" using split_no_sep by (auto simp: path_segments_def)
  then have "\<forall>s \<in> set (normalize_segments [] ?in). plain_segment s" by (rule normalize_plain) simp
  then show ?thesis by (auto simp: path_resolve_def)
qed

lemma split_joined_prefix:
  "ds \<noteq> [] \<Longrightarrow> \<forall>s \<in> set ds. CHR ''/'' \<notin> set s \<Longrightarrow>
   path_segments (join_with ''/'' ds @ CHR ''/'' # r) = ds @ path_segments r"
proof (induction ds)
  case (Cons d ds)
  then show ?case by (cases ds) (simp_all add: path_segments_def split_char_append)
qed simp

lemma starts_with_segments:
  assumes "starts_with (absolute_path ds @ ''/'') (absolute_path ss)" "\<forall>s \<in> set ds. plain_segment s"
    "\<forall>s \<in> set ss. plain_segment s" "ds \<noteq> []"
  shows "\<exists>rest. ss = ds @ rest"
proof -
  obtain r where r: "join_with ''/'' ss = join_with ''/'' ds @ CHR ''/'' # r"
    using assms(1) by (auto simp: starts_with_iff absolute_path_def)
  then have "ss \<noteq> []" by auto
  then have "ss = path_segments (join_with ''/'' ss)" using split_joined_segments assms(3) by (simp add: plain_segment_def)
  also have "\<dots> = ds @ path_segments r" unfolding r
    by (rule split_joined_prefix) (use assms(2,4) in \<open>auto simp: plain_segment_def\<close>)
  finally show ?thesis by blast
qed

lemma resolve_plain:
  assumes "\<forall>s \<in> set ss. plain_segment s" "plain_segment name"
  shows "path_resolve (absolute_path ss) name = absolute_path (ss @ [name])"
proof -
  have s: "path_segments name = [name]" using assms(2) by (simp add: path_segments_def plain_segment_def split_char_no_sep)
  have "\<not> starts_with ''/'' name" using assms(2) by (cases name) (auto simp: starts_with_def plain_segment_def)
  moreover have "normalize_segments acc (xs @ ys) = normalize_segments (rev (normalize_segments acc xs)) ys" for acc xs ys
    by (induction acc xs rule: normalize_segments.induct) auto
  moreover have "normalize_segments [] (path_segments (absolute_path ss)) = ss" by (rule segments_absolute [OF assms(1)])
  ultimately show ?thesis using assms(2) by (simp add: path_resolve_def s plain_segment_def)
qed

lemma dashboard_root_segments:
  obtains ds where "dashboard_root E = absolute_path ds" "ds \<noteq> []" "\<forall>s \<in> set ds. plain_segment s"
proof -
  obtain ss where ss: "path_resolve (envCwd E) ''dashboard'' = absolute_path ss" "\<forall>s \<in> set ss. plain_segment s"
    using resolve_segments by blast
  have d: "plain_segment ''dist''" by (simp add: plain_segment_def)
  show ?thesis by (rule that [of "ss @ [''dist'']"]) (use ss d resolve_plain [OF ss(2) d] in \<open>auto simp: dashboard_root_def\<close>)
qed

lemma dashboard_file_cases:
  assumes "dashboard_file_response E dir rel = Some r" "respBody r = FileBody f"
  shows "path_normalize (path_resolve dir rel) = path_normalize dir \<or>
      starts_with (path_normalize dir @ ''/'') (path_normalize (path_resolve dir rel))"
    and "f = path_resolve dir ''index.html'' \<or> f = path_resolve dir rel \<and> \<not> fsIsDirectory E f"
    and "fsExists E f" "respStatus r = 200"
proof -
  let ?fp = "path_resolve dir rel" and ?index = "path_resolve dir ''index.html''"
  show i: "path_normalize ?fp = path_normalize dir \<or> starts_with (path_normalize dir @ ''/'') (path_normalize ?fp)"
  proof (rule ccontr)
    assume "\<not> ?thesis"
    then show False using assms by (auto simp: dashboard_file_response_def Let_def respond_def)
  qed
  have "\<not> ((\<not> fsExists E ?fp \<or> fsIsDirectory E ?fp) \<and> path_extname rel \<noteq> [] \<and> path_extname rel \<noteq> ''.html'')"
  proof
    assume "(\<not> fsExists E ?fp \<or> fsIsDirectory E ?fp) \<and> path_extname rel \<noteq> [] \<and> path_extname rel \<noteq> ''.html''"
    then show False using assms i by (auto simp: dashboard_file_response_def Let_def respond_def)
  qed
  then have n: "\<not> fsExists E ?fp \<or> fsIsDirectory E ?fp \<Longrightarrow> path_extname rel = [] \<or> path_extname rel = ''.html''" by blast
  have s: "serve_file E (if \<not> fsExists E ?fp \<or> fsIsDirectory E ?fp then ?index else ?fp) = Some r"
    using assms(1) i n unfolding dashboard_file_response_def Let_def by auto
  show "f = ?index \<or> f = ?fp \<and> \<not> fsIsDirectory E f" "fsExists E f" "respStatus r = 200"
    using s assms(2) by (cases "\<not> fsExists E ?fp \<or> fsIsDirectory E ?fp"; auto simp: serve_file_def respond_def split: if_splits)+
qed

lemma dashboard_file:
  assumes "dashboard_response E pathname = Some r" "respBody r = FileBody f"
  shows "respStatus r = 200 \<and> fsExists E f \<and> (\<exists>rest. f = absolute_path (path_segments (tl (dashboard_root E)) @ rest) \<and>
    (\<forall>s \<in> set rest. plain_segment s)) \<and> (fsIsDirectory E f \<longrightarrow> f = path_resolve (dashboard_root E) ''index.html'')"
proof -
  obtain ds where ds: "dashboard_root E = absolute_path ds" "ds \<noteq> []" "\<forall>s \<in> set ds. plain_segment s"
    by (rule dashboard_root_segments)
  have seg: "path_segments (tl (dashboard_root E)) = ds"
    using split_joined_segments [OF ds(2)] ds(1,3) by (simp add: absolute_path_def plain_segment_def)
  obtain rel where rel: "dashboard_file_response E (dashboard_root E) rel = Some r"
    using assms unfolding dashboard_response_def Let_def respond_def by (auto split: if_splits option.splits)
  note c = dashboard_file_cases [OF rel assms(2)]
  obtain ss where ss: "path_resolve (dashboard_root E) rel = absolute_path ss" "\<forall>s \<in> set ss. plain_segment s"
    using resolve_segments [of "dashboard_root E" rel] by auto
  have "\<exists>rest. ss = ds @ rest"
  proof (cases "path_resolve (dashboard_root E) rel = dashboard_root E")
    case True
    then have "absolute_path ss = absolute_path ds" using ss(1) ds(1) by simp
    then have "normalize_segments [] (path_segments (absolute_path ss)) = normalize_segments [] (path_segments (absolute_path ds))"
      by (rule arg_cong)
    then show ?thesis using segments_absolute [OF ss(2)] segments_absolute [OF ds(3)] by simp
  next
    case False
    then have "starts_with (absolute_path ds @ ''/'') (absolute_path ss)"
      using c(1) normalize_absolute [OF ds(3)] normalize_absolute [OF ss(2)] ss(1) ds(1) by simp
    then show ?thesis by (rule starts_with_segments [OF _ ds(3) ss(2) ds(2)])
  qed
  then obtain rest where rest: "ss = ds @ rest" by blast
  have i: "plain_segment ''index.html''" by (simp add: plain_segment_def)
  have "\<exists>rest. f = absolute_path (ds @ rest) \<and> (\<forall>s \<in> set rest. plain_segment s)"
    using c(2)
  proof
    assume "f = path_resolve (dashboard_root E) ''index.html''"
    then show ?thesis using resolve_plain [OF ds(3) i] ds(1) i by (intro exI [of _ "[''index.html'']"]) simp
  next
    assume "f = path_resolve (dashboard_root E) rel \<and> \<not> fsIsDirectory E f"
    then show ?thesis using ss rest by (intro exI [of _ rest]) simp
  qed
  moreover have "fsIsDirectory E f \<longrightarrow> f = path_resolve (dashboard_root E) ''index.html''" using c(2) by blast
  ultimately show ?thesis using c(3,4) by (simp add: seg)
qed

lemma response_bodies:
  "respBody (health_response E sv) \<noteq> FileBody f" "respBody (ready_response E sv) \<noteq> FileBody f" "respBody not_found \<noteq> FileBody f"
  by (simp_all add: health_response_def ready_response_def not_found_def respond_def Let_def case_prod_unfold)

lemma metrics_body: "metrics_response E sv reg = Inr (x, reg1) \<Longrightarrow> respBody x \<noteq> FileBody f"
  by (auto simp: metrics_response_def respond_def Let_def split: if_splits sum.splits)

lemma stats_body: "stats_response W E sv reg = Inr (x, reg1) \<Longrightarrow> respBody x \<noteq> FileBody f"
  unfolding stats_response_def sum_case_Inr Let_def case_prod_unfold by (elim exE conjE) (auto simp: respond_def)

lemma only_dashboard_files:
  assumes "handleHttpRequest W E req sv reg = Inr (r, reg1)" "respBody r = FileBody f"
  shows "\<exists>pathname r0. dashboard_response E pathname = Some r0 \<and> respBody r0 = FileBody f \<and> respStatus r0 = respStatus r"
proof -
  obtain r0 where r0: "route_request W E req sv reg = Inr (r0, reg1)" "respBody r0 = FileBody f" "respStatus r0 = respStatus r"
    using assms by (cases "route_request W E req sv reg") (auto simp: handleHttpRequest_def)
  have "respBody x \<noteq> FileBody f" if "service_response E m p sv reg = Inr (x, reg1)" for x m p
    using that response_bodies metrics_body [of E sv reg x reg1 f] unfolding service_response_def
    by (simp only: sum.inject prod.inject split: if_split_asm) blast+
  moreover have "respBody x \<noteq> FileBody f" if "stats_response W E sv reg = Inr (x, reg1)" for x
    using stats_body [OF that] .
  moreover have "respBody (respond s h NoBody) \<noteq> FileBody f" for s h by (simp add: respond_def)
  ultimately show ?thesis using r0 unfolding route_request_def Let_def
    by (simp only: split: if_split_asm option.split_asm) blast+
qed

text \<open>
  C27: the HTTP server serves no file outside the dashboard: whatever the request and whatever the decoding of
  its URL yields, a file in a response is the dashboard's directory followed by plain segments, none of them
  empty, a dot or a double dot; it exists, and only the index page may be a directory.
\<close>
theorem served_files_inside_dashboard:
  assumes "handleHttpRequest W E req sv reg = Inr (r, reg1)" "respBody r = FileBody f"
  shows "respStatus r = 200 \<and> fsExists E f \<and> (\<exists>rest. f = absolute_path (path_segments (tl (dashboard_root E)) @ rest) \<and>
    (\<forall>s \<in> set rest. plain_segment s)) \<and> (fsIsDirectory E f \<longrightarrow> f = path_resolve (dashboard_root E) ''index.html'')"
  using only_dashboard_files [OF assms] dashboard_file by metis

text \<open>A machine where the dashboard is built and has one script.\<close>

definition dashboard_env :: http_env where
  "dashboard_env =
     \<lparr>envNow = 0, envUptime = 0, envCwd = ''/srv/pulse'',
      fsExists = (\<lambda>p. p \<in> {''/srv/pulse/dashboard/dist'', ''/srv/pulse/dashboard/dist/index.html'', ''/srv/pulse/dashboard/dist/app.js''}),
      fsIsDirectory = (\<lambda>p. p = ''/srv/pulse/dashboard/dist''), decodeURIComponent = Some, toFixed2 = (\<lambda>x. x),
      delayReadings = \<lparr>delayMean = 0, delayP50 = 0, delayP99 = 0, delayMax = 0\<rparr>, loopMonitor = None, hasGateway = False,
      byteLength = length,
      envFormats = plain_formats\<rparr>"

definition get_request :: "string \<Rightarrow> http_request" where
  "get_request u = \<lparr>httpMethod = ''GET'', httpUrl = Some u, httpOrigin = None\<rparr>"

lemma served_files_inside_dashboard_witness:
  "\<exists>r. handleHttpRequest sim_ws dashboard_env (get_request ''/dashboard/app.js'') server0 [] = Inr (r, []) \<and> respStatus r = 200 \<and>
     respBody r = FileBody ''/srv/pulse/dashboard/dist/app.js''"
proof -
  have root: "dashboard_root dashboard_env = ''/srv/pulse/dashboard/dist''" by code_simp
  have res: "path_resolve ''/srv/pulse/dashboard/dist'' ''app.js'' = ''/srv/pulse/dashboard/dist/app.js''"
    "path_normalize ''/srv/pulse/dashboard/dist'' = ''/srv/pulse/dashboard/dist''"
    "path_normalize ''/srv/pulse/dashboard/dist/app.js'' = ''/srv/pulse/dashboard/dist/app.js''"
    "starts_with (''/srv/pulse/dashboard/dist'' @ ''/'') ''/srv/pulse/dashboard/dist/app.js''"
    by code_simp+
  have "dashboard_file_response dashboard_env ''/srv/pulse/dashboard/dist'' ''app.js'' =
    Some (respond 200 [(''Content-Type'', mime_type (js_lower (path_extname ''/srv/pulse/dashboard/dist/app.js'')))]
      (FileBody ''/srv/pulse/dashboard/dist/app.js''))"
    unfolding dashboard_file_response_def Let_def res by (simp add: serve_file_def dashboard_env_def starts_with_def)
  moreover have "dashboard_response dashboard_env ''/dashboard/app.js'' = dashboard_file_response dashboard_env ''/srv/pulse/dashboard/dist'' ''app.js''"
    unfolding dashboard_response_def root by (simp add: dashboard_env_def has_double_dot_def starts_with_def Let_def)
  moreover have "hd (split_char CHR ''?'' ''/dashboard/app.js'') = ''/dashboard/app.js''" "starts_with ''/dashboard/'' ''/dashboard/app.js''"
    by (simp_all add: starts_with_def)
  ultimately obtain r where r: "handleHttpRequest sim_ws dashboard_env (get_request ''/dashboard/app.js'') server0 [] = Inr (r, [])"
    "respBody r = FileBody ''/srv/pulse/dashboard/dist/app.js''"
    by (simp add: handleHttpRequest_def route_request_def get_request_def respond_def)
  with served_files_inside_dashboard [OF r] show ?thesis by simp
qed

section \<open>Health and readiness tell the state\<close>

definition is_ready :: "'s server \<Rightarrow> bool" where
  "is_ready sv \<longleftrightarrow> \<not> isShuttingDown sv \<and>
     (cfgRedisEnabled (serverConfig sv) \<longrightarrow> hasRedis (srvNode sv) \<and> link_connected (srvNode sv))"

lemma respond_simps [simp]:
  "respStatus (respond s h b) = s" "respBody (respond s h b) = b" "respHeaders (respond s h b) = h"
  by (simp_all add: respond_def)

text \<open>
  C29: a probe learns the state of the server: \<^verbatim>\<open>/readyz\<close> answers 200 exactly when the server is not draining and
  Redis, if enabled, is connected, and its body says the same; \<^verbatim>\<open>/healthz\<close> answers 503 exactly when the server
  is draining. Neither changes anything.
\<close>
theorem probes_tell_the_state:
  assumes "httpMethod req \<noteq> ''OPTIONS''" "httpUrl req = Some u"
  shows "(hd (split_char CHR ''?'' u) = ''/readyz'' \<longrightarrow>
      (\<exists>r kvs. handleHttpRequest W E req sv reg = Inr (r, reg) \<and> (respStatus r = 200 \<longleftrightarrow> is_ready sv) \<and>
        respBody r = JsonBody (JObj kvs) \<and> map_of kvs ''ready'' = Some (JBool (is_ready sv)))) \<and>
    (hd (split_char CHR ''?'' u) = ''/healthz'' \<longrightarrow>
      (\<exists>r. handleHttpRequest W E req sv reg = Inr (r, reg) \<and> (respStatus r = 503 \<longleftrightarrow> isShuttingDown sv)))"
proof (intro conjI impI)
  assume p: "hd (split_char CHR ''?'' u) = ''/readyz''"
  have "route_request W E req sv reg = Inr (ready_response E sv, reg)"
    using assms p by (simp add: route_request_def service_response_def starts_with_def)
  moreover have "respStatus (ready_response E sv) = 200 \<longleftrightarrow> is_ready sv"
    by (simp add: ready_response_def is_ready_def Let_def)
  moreover have "\<exists>kvs. respBody (ready_response E sv) = JsonBody (JObj kvs) \<and> map_of kvs ''ready'' = Some (JBool (is_ready sv))"
    by (simp add: ready_response_def is_ready_def Let_def)
  ultimately show "\<exists>r kvs. handleHttpRequest W E req sv reg = Inr (r, reg) \<and> (respStatus r = 200 \<longleftrightarrow> is_ready sv) \<and>
      respBody r = JsonBody (JObj kvs) \<and> map_of kvs ''ready'' = Some (JBool (is_ready sv))"
    by (simp add: handleHttpRequest_def)
next
  assume p: "hd (split_char CHR ''?'' u) = ''/healthz''"
  have "route_request W E req sv reg = Inr (health_response E sv, reg)"
    using assms p by (simp add: route_request_def service_response_def starts_with_def)
  moreover have "respStatus (health_response E sv) = 503 \<longleftrightarrow> isShuttingDown sv"
    by (simp add: health_response_def health_status_def case_prod_unfold Let_def)
  ultimately show "\<exists>r. handleHttpRequest W E req sv reg = Inr (r, reg) \<and> (respStatus r = 503 \<longleftrightarrow> isShuttingDown sv)"
    by (simp add: handleHttpRequest_def)
qed

section \<open>Every request is answered\<close>

lemma counter_total_ok:
  assumes "reg_ok reg" "\<exists>n h ls. spec_of name = Some (CounterSpec n h ls)"
  shows "\<exists>x. counter_total name reg = Inr x"
proof (cases "map_of reg name")
  case None
  then show ?thesis by (simp add: counter_total_def getCounter_def)
next
  case (Some m)
  obtain n h ls where s: "spec_of name = Some (CounterSpec n h ls)" using assms(2) by blast
  then have "fits (CounterSpec n h ls) m" by (rule reg_fits [OF assms(1) Some])
  then show ?thesis using Some by (cases m) (simp_all add: counter_total_def getCounter_def)
qed

lemma counted_specs:
  "\<exists>n h ls. spec_of ''pulse_messages_received_total'' = Some (CounterSpec n h ls)"
  "\<exists>n h ls. spec_of ''pulse_messages_delivered_total'' = Some (CounterSpec n h ls)"
  "\<exists>n h ls. spec_of ''pulse_connections_total'' = Some (CounterSpec n h ls)"
  by (simp_all add: spec_of_def all_specs_def websocket_specs_def)

definition answers :: "registry \<Rightarrow> nat set \<Rightarrow> metric_error + (http_response \<times> registry) \<Rightarrow> bool" where
  "answers reg codes x \<longleftrightarrow> (\<exists>r reg'. x = Inr (r, reg') \<and> reg_ok reg' \<and> js_keys reg' = js_keys reg \<and> respStatus r \<in> codes)"

lemma answers_same: "reg_ok reg \<Longrightarrow> respStatus r \<in> codes \<Longrightarrow> answers reg codes (Inr (r, reg))"
  by (auto simp: answers_def)

lemma answers_if: "(c \<Longrightarrow> answers reg codes x) \<Longrightarrow> (\<not> c \<Longrightarrow> answers reg codes y) \<Longrightarrow> answers reg codes (if c then x else y)"
  by simp

lemma stats_total:
  assumes "reg_ok reg"
  shows "answers reg {200, 503} (stats_response W E sv reg)"
proof -
  obtain r1 where r1: "updateEventLoopMetrics (delayReadings E) (loopMonitor E) reg = Inr r1" "reg_ok r1" "js_keys r1 = js_keys reg"
    using update_total [OF assms] by blast
  obtain a b c where "counter_total ''pulse_messages_received_total'' r1 = Inr a"
    "counter_total ''pulse_messages_delivered_total'' r1 = Inr b" "counter_total ''pulse_connections_total'' r1 = Inr c"
    using counter_total_ok [OF r1(2)] counted_specs by metis
  then show ?thesis using r1 by (simp add: answers_def stats_response_def health_status_def Let_def case_prod_unfold)
qed

lemma metrics_total:
  assumes "reg_ok reg"
  shows "answers reg {200, 404} (metrics_response E sv reg)"
proof -
  obtain r1 where "updateEventLoopMetrics (delayReadings E) (loopMonitor E) reg = Inr r1" "reg_ok r1" "js_keys r1 = js_keys reg"
    using update_total [OF assms] by blast
  then show ?thesis using assms by (simp add: answers_def metrics_response_def Let_def)
qed

definition all_codes :: "nat set" where
  "all_codes = {200, 204, 301, 400, 403, 404, 503}"

lemma answers_all: "answers reg codes x \<Longrightarrow> codes \<subseteq> all_codes \<Longrightarrow> answers reg all_codes x"
  by (auto simp: answers_def)

lemma service_total:
  assumes "reg_ok reg"
  shows "answers reg all_codes (service_response E m p sv reg)"
proof -
  have "respStatus (health_response E sv) \<in> all_codes" "respStatus (ready_response E sv) \<in> all_codes" "respStatus not_found \<in> all_codes"
    by (auto simp: health_response_def ready_response_def not_found_def health_status_def Let_def case_prod_unfold all_codes_def)
  moreover have "answers reg all_codes (metrics_response E sv reg)"
    by (rule answers_all [OF metrics_total [OF assms]]) (simp add: all_codes_def)
  ultimately show ?thesis unfolding service_response_def by (intro answers_if answers_same [OF assms])
qed

lemma dashboard_status: "dashboard_response E p = Some r \<Longrightarrow> respStatus r \<in> all_codes"
  by (auto simp: dashboard_response_def dashboard_file_response_def serve_file_def all_codes_def Let_def
      split: if_splits option.splits)

lemma request_answered:
  assumes "reg_ok reg"
  shows "answers reg all_codes (handleHttpRequest W E req sv reg)"
proof -
  have s: "answers reg all_codes (stats_response W E sv reg)"
    by (rule answers_all [OF stats_total [OF assms]]) (simp add: all_codes_def)
  have n: "respStatus (respond 204 [] NoBody) \<in> all_codes" "respStatus (respond 301 h NoBody) \<in> all_codes" for h
    by (simp_all add: all_codes_def)
  have d: "answers reg all_codes (case dashboard_response E p of Some r \<Rightarrow> Inr (r, reg) | None \<Rightarrow> service_response E m p sv reg)" for p m
    using service_total [OF assms] answers_same [OF assms dashboard_status [of E p]] by (cases "dashboard_response E p") simp_all
  have "answers reg all_codes (route_request W E req sv reg)"
    unfolding route_request_def Let_def by (intro answers_if answers_same [OF assms] s n d service_total [OF assms])
  then show ?thesis by (auto simp: handleHttpRequest_def answers_def)
qed



lemma probes_tell_the_state_witness:
  "\<exists>r. handleHttpRequest sim_ws dashboard_env (get_request ''/healthz'') server0 [] = Inr (r, []) \<and> respStatus r \<noteq> 503"
  using probes_tell_the_state [of "get_request ''/healthz''" "''/healthz''" sim_ws dashboard_env server0 "[]"]
  by (auto simp: get_request_def sample_server)

text \<open>The samples in the statistics are bounded.\<close>

lemma stats_samples_bounded: "length (room_sample sv) \<le> 50" "length (connection_sample W sv) \<le> 50"
proof -
  have "length (concat (map (\<lambda>cid. case heap (srvNode sv) cid of None \<Rightarrow> [] | Some c \<Rightarrow> [connection_json W c]) cs)) \<le> length cs" for cs
    by (induction cs) (auto split: option.splits)
  from this [of "take 50 (getAllConnections (srvNode sv))"] show "length (connection_sample W sv) \<le> 50"
    by (simp add: connection_sample_def)
  show "length (room_sample sv) \<le> 50" by (simp add: room_sample_def)
qed

end
