(* ===== verification/Dashboard_Socket.thy ===== *)
theory Dashboard_Socket
  imports Js_Value
begin

text \<open>
  \<^verbatim>\<open>dashboard/src/hooks/usePulseSocket.ts\<close>: the WebSocket of the dashboard as a state machine over the calls
  of the page, the events of its sockets and its timers. The refs and the state of the hook are one record;
  an updater given to a setter is applied at once, so that \<^verbatim>\<open>subscribedRoomsRef\<close> and \<^verbatim>\<open>subscribedRooms\<close> are
  one field. A socket is identified by its position in the list of all sockets the hook has made. What the
  browser provides (parsing and printing JSON, the formats of times, sizes, whether a URL is accepted) is an
  argument.
\<close>

section \<open>State\<close>

definition MAX_FRAMES_BUFFER :: nat where "MAX_FRAMES_BUFFER = 100"
definition MAX_ACTIVITIES_BUFFER :: nat where "MAX_ACTIVITIES_BUFFER = 100"
definition MAX_RECONNECT_ATTEMPTS :: nat where "MAX_RECONNECT_ATTEMPTS = 5"
definition BASE_BACKOFF_MS :: rat where "BASE_BACKOFF_MS = 1000"
definition MAX_BACKOFF_MS :: rat where "MAX_BACKOFF_MS = 10000"

datatype ui_status = UiDisconnected | UiConnecting | UiConnected | UiReconnecting | UiError

datatype frame_direction = FrameIn | FrameOut

record wire_frame =
  frId :: string
  frTime :: string
  frDirection :: frame_direction
  frType :: json
  frAction :: "json option"
  frRoom :: "json option"
  frPayload :: json
  frRaw :: string
  frSize :: nat

datatype activity_direction = ActSent | ActReceived

datatype activity_status = ActPending | ActDelivered | ActFailed

record activity =
  actId :: string
  actCorrelation :: "json option"
  actDirection :: activity_direction
  actRoom :: json
  actSender :: "json option"
  actContent :: string
  actTime :: string
  actTimeMs :: int
  actStatus :: activity_status
  actAckAt :: "string option"
  actRaw :: json

text \<open>A WebSocket of the browser: \<^verbatim>\<open>readyState\<close> (0 to 3), whether its handlers are set, what was sent.\<close>

record ui_socket =
  uwReady :: nat
  uwHandlers :: bool
  uwSent :: "string list"

text \<open>A pending \<^verbatim>\<open>sendBatch\<close>: the room, the number of frames asked for and those sent.\<close>

record burst =
  buRoom :: string
  buCount :: int
  buSent :: int

record hook =
  hkStatus :: ui_status
  hkFrames :: "wire_frame list"
  hkActivities :: "activity list"
  hkRooms :: "string list"
  hkError :: "string option"
  hkBursting :: bool
  hkProgress :: "(int \<times> int) option"
  hkSocket :: "nat option"
  hkFrameIds :: nat
  hkActivityIds :: nat
  hkShouldConnect :: bool
  hkIntentional :: bool
  hkUrl :: string
  hkTimer :: "rat option"
  hkAttempts :: nat
  hkSockets :: "ui_socket list"
  hkBursts :: "burst list"
  hkMounted :: bool

definition new_hook :: hook where
  "new_hook =
     \<lparr>hkStatus = UiDisconnected, hkFrames = [], hkActivities = [], hkRooms = [], hkError = None, hkBursting = False,
      hkProgress = None, hkSocket = None, hkFrameIds = 0, hkActivityIds = 0, hkShouldConnect = False,
      hkIntentional = False, hkUrl = [], hkTimer = None, hkAttempts = 0, hkSockets = [], hkBursts = [], hkMounted = True\<rparr>"

record browser =
  brParse :: "string \<Rightarrow> json option"
  brText :: "json \<Rightarrow> string"
  brString :: "json \<Rightarrow> string"
  brIsoTime :: "int \<Rightarrow> string"
  brClockTime :: "int \<Rightarrow> string"
  brSize :: "string \<Rightarrow> nat"
  brOpen :: "string \<Rightarrow> string option"
  brEntropy :: "int \<Rightarrow> int \<Rightarrow> string"

section \<open>Messages\<close>

text \<open>\<^verbatim>\<open>v !== undefined && typeof v !== 'object'\<close>\<close>

fun plain_value :: "json option \<Rightarrow> bool" where
  "plain_value None \<longleftrightarrow> False"
| "plain_value (Some JNull) \<longleftrightarrow> False"
| "plain_value (Some (JArr _)) \<longleftrightarrow> False"
| "plain_value (Some (JObj _)) \<longleftrightarrow> False"
| "plain_value (Some _) \<longleftrightarrow> True"

definition message_text :: "browser \<Rightarrow> json \<Rightarrow> string" where
  "message_text B p =
     (case as_str (json_get p ''content'') of Some s \<Rightarrow> s | None \<Rightarrow>
     (case as_str (json_get p ''message'') of Some s \<Rightarrow> s | None \<Rightarrow>
     (case as_str (json_get p ''text'') of Some s \<Rightarrow> s | None \<Rightarrow>
        if plain_value (json_get p ''content'') then brString B (the (json_get p ''content''))
        else if plain_value (json_get p ''message'') then brString B (the (json_get p ''message''))
        else if plain_value (json_get p ''text'') then brString B (the (json_get p ''text''))
        else brText B p)))"

definition extractMessageContent :: "browser \<Rightarrow> json option \<Rightarrow> string" where
  "extractMessageContent B payload =
     (case payload of
        None \<Rightarrow> ''(empty payload)''
      | Some JNull \<Rightarrow> ''(empty payload)''
      | Some (JStr s) \<Rightarrow> s
      | Some (JArr xs) \<Rightarrow> message_text B (JArr xs)
      | Some (JObj kvs) \<Rightarrow> message_text B (JObj kvs)
      | Some p \<Rightarrow> brString B p)"

text \<open>\<^verbatim>\<open>a || b\<close> on properties, and \<^verbatim>\<open>o?.k\<close>.\<close>

definition json_or :: "json option \<Rightarrow> json option \<Rightarrow> json option" where
  "json_or a b = (if truthy a then a else b)"

definition opt_get :: "json option \<Rightarrow> string \<Rightarrow> json option" where
  "opt_get j k = (case j of None \<Rightarrow> None | Some v \<Rightarrow> json_get v k)"

definition frame_type :: "json \<Rightarrow> json" where
  "frame_type p = the (json_or (json_get p ''type'') (json_or (json_get p ''action'') (Some (JStr ''MESSAGE''))))"

definition frame_room :: "json \<Rightarrow> json option" where
  "frame_room p = json_or (json_get p ''room'') (opt_get (json_get p ''target'') ''roomId'')"

text \<open>A frame is a text, or another object that an event carries (a \<^verbatim>\<open>Blob\<close>), seen through its properties.\<close>

datatype ui_data = TextData string | ObjectData json

definition read_frame :: "browser \<Rightarrow> ui_data \<Rightarrow> string \<times> json \<times> json \<times> json option \<times> json option" where
  "read_frame B d =
     (case d of
        TextData s \<Rightarrow>
          (case brParse B s of
             None \<Rightarrow> (s, JObj [(''raw'', JStr s)], JStr ''UNKNOWN'', None, None)
           | Some JNull \<Rightarrow> (s, JObj [(''raw'', JStr s)], JStr ''UNKNOWN'', None, None)
           | Some p \<Rightarrow> (s, p, frame_type p, frame_room p, json_get p ''action''))
      | ObjectData p \<Rightarrow> (brText B p, p, frame_type p, frame_room p, json_get p ''action''))"

definition addFrame :: "browser \<Rightarrow> int \<Rightarrow> frame_direction \<Rightarrow> ui_data \<Rightarrow> hook \<Rightarrow> hook" where
  "addFrame B now dir d h =
     (case read_frame B d of (raw, parsed, type, room, act) \<Rightarrow>
        let frame = \<lparr>frId = ''frm-'' @ js_int_str now @ ''-'' @ digits_of_nat (Suc (hkFrameIds h)), frTime = brIsoTime B now,
                     frDirection = dir, frType = type, frAction = act, frRoom = room, frPayload = parsed, frRaw = raw,
                     frSize = brSize B raw\<rparr>;
            updated = frame # hkFrames h
        in h\<lparr>hkFrameIds := Suc (hkFrameIds h),
             hkFrames := (if length updated > MAX_FRAMES_BUFFER then take MAX_FRAMES_BUFFER updated else updated)\<rparr>)"

text \<open>\<^verbatim>\<open>setActivities((prev) => [...prev, activity])\<close>, cut from the front.\<close>

definition push_activity :: "activity \<Rightarrow> hook \<Rightarrow> hook" where
  "push_activity a h =
     (let next = hkActivities h @ [a]
      in h\<lparr>hkActivities := (if length next > MAX_ACTIVITIES_BUFFER then drop (length next - MAX_ACTIVITIES_BUFFER) next else next)\<rparr>)"

definition raw_payload :: "json option \<Rightarrow> string \<Rightarrow> json" where
  "raw_payload p content =
     (case p of Some (JObj kvs) \<Rightarrow> JObj kvs | Some (JArr xs) \<Rightarrow> JArr xs | _ \<Rightarrow> JObj [(''content'', JStr content)])"

definition truthy_or_none :: "json option \<Rightarrow> json option" where
  "truthy_or_none v = (if truthy v then v else None)"

definition room_or_lobby :: "json \<Rightarrow> json" where
  "room_or_lobby p =
     the (json_or (opt_get (json_get p ''target'') ''roomId'') (json_or (json_get p ''room'') (Some (JStr ''lobby''))))"

definition received_activity :: "browser \<Rightarrow> int \<Rightarrow> json \<Rightarrow> nat \<Rightarrow> activity" where
  "received_activity B now p n =
     (let content = extractMessageContent B (json_get p ''payload'')
      in \<lparr>actId = ''act-in-'' @ js_int_str now @ ''-'' @ digits_of_nat n, actCorrelation = truthy_or_none (json_get p ''correlationId''),
          actDirection = ActReceived, actRoom = room_or_lobby p, actSender = truthy_or_none (json_get p ''senderId''),
          actContent = content, actTime = brClockTime B now, actTimeMs = now, actStatus = ActDelivered, actAckAt = None,
          actRaw = raw_payload (json_get p ''payload'') content\<rparr>)"

definition sent_activity :: "browser \<Rightarrow> int \<Rightarrow> json \<Rightarrow> nat \<Rightarrow> activity" where
  "sent_activity B now p n =
     (let content = extractMessageContent B (json_get p ''payload'')
      in \<lparr>actId = ''act-out-'' @ js_int_str now @ ''-'' @ digits_of_nat n, actCorrelation = truthy_or_none (json_get p ''correlationId''),
          actDirection = ActSent, actRoom = room_or_lobby p, actSender = truthy_or_none (json_get p ''senderId''),
          actContent = content, actTime = brClockTime B now, actTimeMs = now, actStatus = ActPending, actAckAt = None,
          actRaw = raw_payload (json_get p ''payload'') content\<rparr>)"

text \<open>\<^verbatim>\<open>===\<close>: objects that come from different texts are never the same.\<close>

fun strict_equal :: "json option \<Rightarrow> json \<Rightarrow> bool" where
  "strict_equal (Some (JArr _)) _ \<longleftrightarrow> False"
| "strict_equal (Some (JObj _)) _ \<longleftrightarrow> False"
| "strict_equal (Some (JNum n)) v \<longleftrightarrow> n \<noteq> NaN \<and> v = JNum n"
| "strict_equal (Some u) v \<longleftrightarrow> u = v"
| "strict_equal None _ \<longleftrightarrow> False"

definition awaits :: "json \<Rightarrow> activity \<Rightarrow> bool" where
  "awaits corr a \<longleftrightarrow> actDirection a = ActSent \<and> actStatus a = ActPending \<and>
     (strict_equal (actCorrelation a) corr \<or> corr = JStr (actId a))"

definition reconcile :: "json \<Rightarrow> (activity \<Rightarrow> activity) \<Rightarrow> hook \<Rightarrow> hook" where
  "reconcile corr f h = h\<lparr>hkActivities := map (\<lambda>a. if awaits corr a then f a else a) (hkActivities h)\<rparr>"

definition reply_correlation :: "json \<Rightarrow> json option" where
  "reply_correlation p = json_or (json_get p ''correlationId'') (opt_get (json_get p ''payload'') ''targetEventId'')"

section \<open>The socket\<close>

definition set_socket :: "nat \<Rightarrow> (ui_socket \<Rightarrow> ui_socket) \<Rightarrow> hook \<Rightarrow> hook" where
  "set_socket k f h = h\<lparr>hkSockets := (if k < length (hkSockets h) then (hkSockets h)[k := f (hkSockets h ! k)] else hkSockets h)\<rparr>"

definition socket_state :: "nat \<Rightarrow> hook \<Rightarrow> nat" where
  "socket_state k h = (if k < length (hkSockets h) then uwReady (hkSockets h ! k) else 3)"

definition is_open :: "hook \<Rightarrow> bool" where
  "is_open h \<longleftrightarrow> (case hkSocket h of None \<Rightarrow> False | Some k \<Rightarrow> socket_state k h = 1)"

text \<open>The handlers of a socket run unless \<^verbatim>\<open>cleanupSocket\<close> has removed them.\<close>

definition handled :: "nat \<Rightarrow> hook \<Rightarrow> bool" where
  "handled k h \<longleftrightarrow> k < length (hkSockets h) \<and> uwHandlers (hkSockets h ! k)"

text \<open>\<^verbatim>\<open>ws.send(text)\<close> on an open socket; on one that is closing or closed the browser discards the text.\<close>

definition ws_send :: "nat \<Rightarrow> string \<Rightarrow> hook \<Rightarrow> hook" where
  "ws_send k s h = set_socket k (\<lambda>w. if uwReady w = 1 then w\<lparr>uwSent := uwSent w @ [s]\<rparr> else w) h"

definition send_text :: "browser \<Rightarrow> int \<Rightarrow> nat \<Rightarrow> string \<Rightarrow> hook \<Rightarrow> hook" where
  "send_text B now k s h = addFrame B now FrameOut (TextData s) (ws_send k s h)"

definition cleanupSocket :: "hook \<Rightarrow> hook" where
  "cleanupSocket h =
     (case hkSocket h of
        None \<Rightarrow> h
      | Some k \<Rightarrow> (set_socket k (\<lambda>w. w\<lparr>uwHandlers := False, uwReady := (if uwReady w = 1 \<or> uwReady w = 0 then 2 else uwReady w)\<rparr>) h)
                  \<lparr>hkSocket := None\<rparr>)"

definition reconnect_delay :: "rat \<Rightarrow> nat \<Rightarrow> rat" where
  "reconnect_delay rnd attempts =
     (let expDelay = min MAX_BACKOFF_MS (BASE_BACKOFF_MS * (3 / 2) ^ attempts); jitter = of_int \<lfloor>rnd * 500\<rfloor>
      in min MAX_BACKOFF_MS (expDelay + jitter))"

definition ui_scheduleReconnect :: "rat \<Rightarrow> hook \<Rightarrow> hook" where
  "ui_scheduleReconnect rnd h =
     (if \<not> hkShouldConnect h \<or> hkIntentional h then h
      else
        let h1 = h\<lparr>hkTimer := None\<rparr>; attempts = hkAttempts h
        in if attempts \<ge> MAX_RECONNECT_ATTEMPTS
           then h1\<lparr>hkStatus := UiDisconnected,
                   hkError := Some (''Reconnection failed after '' @ digits_of_nat MAX_RECONNECT_ATTEMPTS @ '' attempts. Click Connect to retry.''),
                   hkShouldConnect := False\<rparr>
           else h1\<lparr>hkStatus := UiReconnecting, hkAttempts := attempts + 1, hkTimer := Some (reconnect_delay rnd attempts)\<rparr>)"

definition already_connected :: "string \<Rightarrow> hook \<Rightarrow> bool" where
  "already_connected url h \<longleftrightarrow>
     (case hkSocket h of None \<Rightarrow> False | Some k \<Rightarrow> socket_state k h = 1 \<or> socket_state k h = 0) \<and> hkUrl h = url"

text \<open>\<open>brOpen B url\<close> is the message of the exception the constructor of \<^verbatim>\<open>WebSocket\<close> throws, if it does.\<close>

definition ui_doConnect :: "browser \<Rightarrow> rat \<Rightarrow> string \<Rightarrow> bool \<Rightarrow> hook \<Rightarrow> hook" where
  "ui_doConnect B rnd url isReconnecting h =
     (if already_connected url h \<and> \<not> isReconnecting then h
      else
        let h1 = (cleanupSocket h)\<lparr>hkStatus := (if isReconnecting then UiReconnecting else UiConnecting), hkError := None\<rparr>
        in case brOpen B url of
             None \<Rightarrow> h1\<lparr>hkSockets := hkSockets h1 @ [\<lparr>uwReady = 0, uwHandlers = True, uwSent = []\<rparr>],
                        hkSocket := Some (length (hkSockets h1))\<rparr>
           | Some msg \<Rightarrow>
               let h2 = h1\<lparr>hkStatus := UiError, hkError := Some msg\<rparr>
               in if hkShouldConnect h2 \<and> \<not> hkIntentional h2 then ui_scheduleReconnect rnd h2 else h2)"

definition room_frame :: "string \<Rightarrow> string \<Rightarrow> json" where
  "room_frame type room =
     JObj [(''type'', JStr type), (''target'', JObj [(''roomId'', JStr room)]), (''payload'', JObj [(''roomId'', JStr room)])]"

definition ui_on_open :: "browser \<Rightarrow> int \<Rightarrow> nat \<Rightarrow> hook \<Rightarrow> hook" where
  "ui_on_open B now k h =
     (if hkSocket h \<noteq> Some k then h
      else fold (\<lambda>room. send_text B now k (brText B (room_frame ''ROOM_JOIN'' room))) (hkRooms h)
             (h\<lparr>hkStatus := UiConnected, hkError := None, hkAttempts := 0\<rparr>))"

definition pong_frame :: "int \<Rightarrow> json \<Rightarrow> json" where
  "pong_frame now p =
     JObj ([(''type'', JStr ''SYS_PONG'')]
       @ (case json_or (json_get p ''eventId'') (truthy_or_none (json_get p ''correlationId'')) of None \<Rightarrow> [] | Some c \<Rightarrow> [(''correlationId'', c)])
       @ [(''timestamp'', JNum (int_num now)), (''payload'', JObj [])])"

definition dispatch_message :: "browser \<Rightarrow> int \<Rightarrow> nat \<Rightarrow> json \<Rightarrow> hook \<Rightarrow> hook" where
  "dispatch_message B now k p h =
     (let eventType = json_get p ''type''
      in if eventType = Some (JStr ''SYS_PING'') then
           (if socket_state k h = 1 then send_text B now k (brText B (pong_frame now p)) h else h)
         else if eventType = Some (JStr ''ROOM_MESSAGE'') then
           push_activity (received_activity B now p (Suc (hkActivityIds h))) (h\<lparr>hkActivityIds := Suc (hkActivityIds h)\<rparr>)
         else if eventType = Some (JStr ''DELIVERY_ACK'') then
           (if truthy (reply_correlation p)
            then reconcile (the (reply_correlation p)) (\<lambda>a. a\<lparr>actStatus := ActDelivered, actAckAt := Some (brClockTime B now)\<rparr>) h else h)
         else if eventType = Some (JStr ''SYS_ERROR'') then
           (if truthy (reply_correlation p) then reconcile (the (reply_correlation p)) (\<lambda>a. a\<lparr>actStatus := ActFailed\<rparr>) h else h)
         else h)"

definition ui_on_message :: "browser \<Rightarrow> int \<Rightarrow> nat \<Rightarrow> ui_data \<Rightarrow> hook \<Rightarrow> hook" where
  "ui_on_message B now k d h =
     (if hkSocket h \<noteq> Some k then h
      else
        let h1 = addFrame B now FrameIn d h
        in case d of
             ObjectData j \<Rightarrow> h1
           | TextData raw \<Rightarrow>
               if raw = [] then h1
               else (case brParse B raw of
                       Some (JObj kvs) \<Rightarrow> dispatch_message B now k (JObj kvs) h1
                     | Some (JArr xs) \<Rightarrow> dispatch_message B now k (JArr xs) h1
                     | _ \<Rightarrow> h1))"

definition on_error :: "nat \<Rightarrow> hook \<Rightarrow> hook" where
  "on_error k h =
     (if hkSocket h \<noteq> Some k then h else h\<lparr>hkStatus := UiError, hkError := Some ''WebSocket transport error encountered''\<rparr>)"

text \<open>The dash of the first message, beyond the code units below 256, is written \<open>CHR 0x97\<close>.\<close>

definition ui_on_close :: "rat \<Rightarrow> nat \<Rightarrow> int \<Rightarrow> bool \<Rightarrow> hook \<Rightarrow> hook" where
  "ui_on_close rnd k code wasClean h =
     (if hkSocket h \<noteq> Some k then h
      else
        let h1 = h\<lparr>hkSocket := None\<rparr>
        in if hkIntentional h1 \<or> \<not> hkShouldConnect h1 then h1\<lparr>hkStatus := UiDisconnected\<rparr>
           else
             let h2 = (if wasClean then h1
                       else if code = 1006
                       then h1\<lparr>hkError := Some (''Connection closed abnormally (code 1006) '' @ [CHR 0x97] @
                                '' Handshake rejected by server (check auth token or port)'')\<rparr>
                       else h1\<lparr>hkError := Some (''Connection closed abnormally (code '' @ js_int_str code @ '')'')\<rparr>)
             in ui_scheduleReconnect rnd h2)"

section \<open>The calls of the page\<close>

definition ui_connect :: "browser \<Rightarrow> rat \<Rightarrow> string \<Rightarrow> hook \<Rightarrow> hook" where
  "ui_connect B rnd url h =
     ui_doConnect B rnd url False
       (h\<lparr>hkShouldConnect := True, hkIntentional := False, hkUrl := url, hkAttempts := 0, hkTimer := None\<rparr>)"

definition ui_disconnect :: "hook \<Rightarrow> hook" where
  "ui_disconnect h =
     (cleanupSocket (h\<lparr>hkShouldConnect := False, hkIntentional := True, hkAttempts := 0, hkTimer := None\<rparr>))
       \<lparr>hkStatus := UiDisconnected\<rparr>"

datatype ui_message = MessageText string | MessageObject json

definition track_sent :: "browser \<Rightarrow> int \<Rightarrow> json \<Rightarrow> hook \<Rightarrow> hook" where
  "track_sent B now p h =
     (if json_get p ''type'' = Some (JStr ''ROOM_MESSAGE'') \<or> json_get p ''type'' = Some (JStr ''DIRECT_MESSAGE'')
      then push_activity (sent_activity B now p (Suc (hkActivityIds h))) (h\<lparr>hkActivityIds := Suc (hkActivityIds h)\<rparr>)
      else h)"

definition sendRaw :: "browser \<Rightarrow> int \<Rightarrow> ui_message \<Rightarrow> hook \<Rightarrow> bool \<times> hook" where
  "sendRaw B now m h =
     (case (if is_open h then hkSocket h else None) of
        None \<Rightarrow> (False, h\<lparr>hkError := Some ''Cannot send: Socket is not open''\<rparr>)
      | Some k \<Rightarrow>
          let h1 = send_text B now k (case m of MessageText s \<Rightarrow> s | MessageObject j \<Rightarrow> brText B j) h;
              parsedObj = (case m of MessageText s \<Rightarrow> brParse B s | MessageObject j \<Rightarrow> Some j)
          in (True, case parsedObj of None \<Rightarrow> h1 | Some p \<Rightarrow> track_sent B now p h1))"

definition ui_subscribe :: "browser \<Rightarrow> int \<Rightarrow> string \<Rightarrow> hook \<Rightarrow> hook" where
  "ui_subscribe B now room h =
     (let (ok, h1) = sendRaw B now (MessageObject (room_frame ''ROOM_JOIN'' room)) h
      in if ok then h1\<lparr>hkRooms := set_of_array (hkRooms h1 @ [room])\<rparr> else h1)"

definition ui_unsubscribe :: "browser \<Rightarrow> int \<Rightarrow> string \<Rightarrow> hook \<Rightarrow> hook" where
  "ui_unsubscribe B now room h =
     (let (ok, h1) = sendRaw B now (MessageObject (room_frame ''ROOM_LEAVE'' room)) h
      in if ok then h1\<lparr>hkRooms := filter (\<lambda>r. r \<noteq> room) (hkRooms h1)\<rparr> else h1)"

text \<open>\<^verbatim>\<open>visibilitychange\<close> to a visible page, and the cleanup when the hook is unmounted.\<close>

definition on_visible :: "browser \<Rightarrow> rat \<Rightarrow> hook \<Rightarrow> hook" where
  "on_visible B rnd h =
     (if \<not> hkShouldConnect h \<or> hkIntentional h then h
      else if (case hkSocket h of None \<Rightarrow> False | Some k \<Rightarrow> socket_state k h = 1 \<or> socket_state k h = 0) then h
      else if hkUrl h = [] then h
      else ui_doConnect B rnd (hkUrl h) True (h\<lparr>hkTimer := None\<rparr>))"

definition ui_unmount :: "hook \<Rightarrow> hook" where
  "ui_unmount h = (cleanupSocket (h\<lparr>hkTimer := None\<rparr>))\<lparr>hkMounted := False\<rparr>"

definition reconnect_fires :: "browser \<Rightarrow> rat \<Rightarrow> hook \<Rightarrow> hook" where
  "reconnect_fires B rnd h =
     (let h1 = h\<lparr>hkTimer := None\<rparr>
      in if hkShouldConnect h1 \<and> \<not> hkIntentional h1 \<and> hkUrl h1 \<noteq> [] then ui_doConnect B rnd (hkUrl h1) True h1 else h1)"

definition burst_frame :: "browser \<Rightarrow> int \<Rightarrow> string \<Rightarrow> int \<Rightarrow> json" where
  "burst_frame B now room n =
     JObj [(''type'', JStr ''ROOM_MESSAGE''), (''target'', JObj [(''roomId'', JStr room)]),
           (''payload'', JObj [(''content'', JStr (''Load generator burst frame '' @ js_int_str n)), (''seq'', JNum (int_num n)),
                              (''client'', JStr ''load-generator''), (''entropy'', JStr (brEntropy B now n))]),
           (''timestamp'', JNum (int_num now))]"

definition sendBatch :: "browser \<Rightarrow> int \<Rightarrow> burst \<Rightarrow> hook \<Rightarrow> hook" where
  "sendBatch B now b h =
     (case (if is_open h then hkSocket h else None) of
        None \<Rightarrow> h\<lparr>hkBursting := False, hkProgress := None\<rparr>
      | Some k \<Rightarrow>
          let currentBatch = min 25 (buCount b - buSent b);
              h1 = fold (\<lambda>i. send_text B now k (brText B (burst_frame B now (buRoom b) (buSent b + int i + 1))))
                     [0 ..< nat currentBatch] h;
              sentCount = buSent b + currentBatch;
              h2 = h1\<lparr>hkProgress := Some (sentCount, buCount b)\<rparr>
          in if sentCount < buCount b then h2\<lparr>hkBursts := hkBursts h2 @ [b\<lparr>buSent := sentCount\<rparr>]\<rparr>
             else h2\<lparr>hkBursting := False, hkProgress := None\<rparr>)"

definition triggerBurstLoad :: "browser \<Rightarrow> int \<Rightarrow> string \<Rightarrow> int \<Rightarrow> hook \<Rightarrow> hook" where
  "triggerBurstLoad B now room count h =
     (if \<not> is_open h then h\<lparr>hkError := Some ''Connect to server before running load generator''\<rparr>
      else sendBatch B now \<lparr>buRoom = room, buCount = count, buSent = 0\<rparr>
             (h\<lparr>hkBursting := True, hkProgress := Some (0, count)\<rparr>))"

section \<open>Events\<close>

datatype ui_event =
    UiConnect string
  | UiDisconnect
  | UiSendRaw ui_message
  | UiSubscribe string
  | UiUnsubscribe string
  | UiClearFrames
  | UiClearActivities
  | UiVisible
  | UiUnmount
  | UiBurst string int
  | BurstTimer
  | ReconnectFires
  | WsOpens nat
  | WsClosing nat
  | WsMessage nat ui_data
  | WsErrors nat
  | WsCloses nat int bool

text \<open>
  One event at a time \<open>now\<close> with a random number. A timer that is not pending and an event a socket cannot
  have in its state do nothing; the calls and the visibility listener end with the unmounting.
\<close>

fun ui_step :: "browser \<Rightarrow> int \<Rightarrow> rat \<Rightarrow> ui_event \<Rightarrow> hook \<Rightarrow> hook" where
  "ui_step B now rnd (UiConnect url) h = (if hkMounted h then ui_connect B rnd url h else h)"
| "ui_step B now rnd UiDisconnect h = (if hkMounted h then ui_disconnect h else h)"
| "ui_step B now rnd (UiSendRaw m) h = (if hkMounted h then snd (sendRaw B now m h) else h)"
| "ui_step B now rnd (UiSubscribe room) h = (if hkMounted h then ui_subscribe B now room h else h)"
| "ui_step B now rnd (UiUnsubscribe room) h = (if hkMounted h then ui_unsubscribe B now room h else h)"
| "ui_step B now rnd UiClearFrames h = (if hkMounted h then h\<lparr>hkFrames := []\<rparr> else h)"
| "ui_step B now rnd UiClearActivities h = (if hkMounted h then h\<lparr>hkActivities := []\<rparr> else h)"
| "ui_step B now rnd UiVisible h = (if hkMounted h then on_visible B rnd h else h)"
| "ui_step B now rnd UiUnmount h = ui_unmount h"
| "ui_step B now rnd (UiBurst room count) h = (if hkMounted h then triggerBurstLoad B now room count h else h)"
| "ui_step B now rnd BurstTimer h = (case hkBursts h of [] \<Rightarrow> h | b # bs \<Rightarrow> sendBatch B now b (h\<lparr>hkBursts := bs\<rparr>))"
| "ui_step B now rnd ReconnectFires h = (if hkTimer h = None then h else reconnect_fires B rnd h)"
| "ui_step B now rnd (WsOpens k) h =
     (if socket_state k h = 0
      then let h1 = set_socket k (\<lambda>w. w\<lparr>uwReady := 1\<rparr>) h in if handled k h then ui_on_open B now k h1 else h1
      else h)"
| "ui_step B now rnd (WsClosing k) h = (if socket_state k h = 1 then set_socket k (\<lambda>w. w\<lparr>uwReady := 2\<rparr>) h else h)"
| "ui_step B now rnd (WsMessage k d) h = (if socket_state k h = 1 \<and> handled k h then ui_on_message B now k d h else h)"
| "ui_step B now rnd (WsErrors k) h = (if handled k h then on_error k h else h)"
| "ui_step B now rnd (WsCloses k code wasClean) h =
     (if socket_state k h = 3 then h
      else let h1 = set_socket k (\<lambda>w. w\<lparr>uwReady := 3\<rparr>) h in if handled k h then ui_on_close rnd k code wasClean h1 else h1)"

definition ui_run :: "browser \<Rightarrow> (int \<times> rat \<times> ui_event) list \<Rightarrow> hook \<Rightarrow> hook" where
  "ui_run B evs h = fold (\<lambda>(now, rnd, ev). ui_step B now rnd ev) evs h"


section \<open>What the operations leave unchanged\<close>

lemma addFrame_fields [simp]:
  "hkStatus (addFrame B now dir d h) = hkStatus h" "hkActivities (addFrame B now dir d h) = hkActivities h"
  "hkRooms (addFrame B now dir d h) = hkRooms h" "hkError (addFrame B now dir d h) = hkError h"
  "hkBursting (addFrame B now dir d h) = hkBursting h" "hkProgress (addFrame B now dir d h) = hkProgress h"
  "hkSocket (addFrame B now dir d h) = hkSocket h" "hkActivityIds (addFrame B now dir d h) = hkActivityIds h"
  "hkShouldConnect (addFrame B now dir d h) = hkShouldConnect h" "hkIntentional (addFrame B now dir d h) = hkIntentional h"
  "hkUrl (addFrame B now dir d h) = hkUrl h" "hkTimer (addFrame B now dir d h) = hkTimer h"
  "hkAttempts (addFrame B now dir d h) = hkAttempts h" "hkSockets (addFrame B now dir d h) = hkSockets h"
  "hkBursts (addFrame B now dir d h) = hkBursts h" "hkMounted (addFrame B now dir d h) = hkMounted h"
  by (simp_all add: addFrame_def case_prod_unfold Let_def)

lemma addFrame_bound: "length (hkFrames (addFrame B now dir d h)) \<le> MAX_FRAMES_BUFFER"
  by (simp add: addFrame_def case_prod_unfold Let_def)

lemma set_socket_fields [simp]:
  "hkStatus (set_socket k f h) = hkStatus h" "hkActivities (set_socket k f h) = hkActivities h"
  "hkRooms (set_socket k f h) = hkRooms h" "hkError (set_socket k f h) = hkError h" "hkFrames (set_socket k f h) = hkFrames h"
  "hkBursting (set_socket k f h) = hkBursting h" "hkProgress (set_socket k f h) = hkProgress h"
  "hkSocket (set_socket k f h) = hkSocket h" "hkActivityIds (set_socket k f h) = hkActivityIds h"
  "hkShouldConnect (set_socket k f h) = hkShouldConnect h" "hkIntentional (set_socket k f h) = hkIntentional h"
  "hkUrl (set_socket k f h) = hkUrl h" "hkTimer (set_socket k f h) = hkTimer h"
  "hkAttempts (set_socket k f h) = hkAttempts h" "length (hkSockets (set_socket k f h)) = length (hkSockets h)"
  "hkBursts (set_socket k f h) = hkBursts h" "hkMounted (set_socket k f h) = hkMounted h"
  by (simp_all add: set_socket_def)

lemma socket_state_set [simp]:
  "socket_state k (set_socket j f h) = (if k = j \<and> k < length (hkSockets h) then uwReady (f (hkSockets h ! k)) else socket_state k h)"
  by (simp add: set_socket_def socket_state_def)

lemma socket_state_addFrame [simp]: "socket_state k (addFrame B now dir d h) = socket_state k h"
  by (simp add: socket_state_def)

lemma handled_simps [simp]:
  "handled k (addFrame B now dir d h) = handled k h"
  "handled k (set_socket j (uwReady_update g) h) = handled k h"
  by (simp_all add: handled_def set_socket_def nth_list_update)

lemma send_text_fields [simp]:
  "hkStatus (send_text B now k s h) = hkStatus h" "hkActivities (send_text B now k s h) = hkActivities h"
  "hkRooms (send_text B now k s h) = hkRooms h" "hkError (send_text B now k s h) = hkError h"
  "hkBursting (send_text B now k s h) = hkBursting h" "hkProgress (send_text B now k s h) = hkProgress h"
  "hkSocket (send_text B now k s h) = hkSocket h" "hkActivityIds (send_text B now k s h) = hkActivityIds h"
  "hkShouldConnect (send_text B now k s h) = hkShouldConnect h" "hkIntentional (send_text B now k s h) = hkIntentional h"
  "hkUrl (send_text B now k s h) = hkUrl h" "hkTimer (send_text B now k s h) = hkTimer h"
  "hkAttempts (send_text B now k s h) = hkAttempts h" "length (hkSockets (send_text B now k s h)) = length (hkSockets h)"
  "hkBursts (send_text B now k s h) = hkBursts h" "hkMounted (send_text B now k s h) = hkMounted h"
  by (simp_all add: send_text_def ws_send_def)

lemma send_text_state [simp]: "socket_state j (send_text B now k s h) = socket_state j h"
  by (simp add: send_text_def ws_send_def) (simp add: socket_state_def)

lemma send_text_handled [simp]: "handled j (send_text B now k s h) = handled j h"
  by (simp add: send_text_def ws_send_def) (simp add: handled_def set_socket_def nth_list_update)

text \<open>Sending several texts.\<close>

lemma send_all_fields [simp]:
  "hkStatus (fold (\<lambda>x. send_text B now k (f x)) xs h) = hkStatus h"
  "hkActivities (fold (\<lambda>x. send_text B now k (f x)) xs h) = hkActivities h"
  "hkRooms (fold (\<lambda>x. send_text B now k (f x)) xs h) = hkRooms h"
  "hkSocket (fold (\<lambda>x. send_text B now k (f x)) xs h) = hkSocket h"
  "hkShouldConnect (fold (\<lambda>x. send_text B now k (f x)) xs h) = hkShouldConnect h"
  "hkIntentional (fold (\<lambda>x. send_text B now k (f x)) xs h) = hkIntentional h"
  "hkTimer (fold (\<lambda>x. send_text B now k (f x)) xs h) = hkTimer h"
  "hkAttempts (fold (\<lambda>x. send_text B now k (f x)) xs h) = hkAttempts h"
  "length (hkSockets (fold (\<lambda>x. send_text B now k (f x)) xs h)) = length (hkSockets h)"
  "hkBursts (fold (\<lambda>x. send_text B now k (f x)) xs h) = hkBursts h"
  "hkMounted (fold (\<lambda>x. send_text B now k (f x)) xs h) = hkMounted h"
  "socket_state j (fold (\<lambda>x. send_text B now k (f x)) xs h) = socket_state j h"
  by (induction xs arbitrary: h) auto

lemma push_activity_fields [simp]:
  "hkStatus (push_activity a h) = hkStatus h" "hkFrames (push_activity a h) = hkFrames h" "hkSocket (push_activity a h) = hkSocket h"
  "hkShouldConnect (push_activity a h) = hkShouldConnect h" "hkIntentional (push_activity a h) = hkIntentional h"
  "hkTimer (push_activity a h) = hkTimer h" "hkAttempts (push_activity a h) = hkAttempts h"
  "hkSockets (push_activity a h) = hkSockets h" "hkBursts (push_activity a h) = hkBursts h" "hkMounted (push_activity a h) = hkMounted h"
  "hkRooms (push_activity a h) = hkRooms h" "hkUrl (push_activity a h) = hkUrl h"
  by (simp_all add: push_activity_def Let_def)

lemma push_activity_bound: "length (hkActivities (push_activity a h)) \<le> MAX_ACTIVITIES_BUFFER"
  by (simp add: push_activity_def MAX_ACTIVITIES_BUFFER_def Let_def)

section \<open>Bounds of the buffers\<close>

definition buffers_bounded :: "hook \<Rightarrow> bool" where
  "buffers_bounded h \<longleftrightarrow> length (hkFrames h) \<le> MAX_FRAMES_BUFFER \<and> length (hkActivities h) \<le> MAX_ACTIVITIES_BUFFER"

text \<open>An operation that only sends on sockets, records and reports: the connection's control state is the same.\<close>

definition quiet :: "hook \<Rightarrow> hook \<Rightarrow> bool" where
  "quiet h h' \<longleftrightarrow> hkSocket h' = hkSocket h \<and> (\<forall>k. socket_state k h' = socket_state k h) \<and>
     length (hkSockets h') = length (hkSockets h) \<and> hkShouldConnect h' = hkShouldConnect h \<and>
     hkIntentional h' = hkIntentional h \<and> hkTimer h' = hkTimer h \<and> hkAttempts h' = hkAttempts h \<and>
     hkUrl h' = hkUrl h \<and> hkMounted h' = hkMounted h \<and> (\<forall>k. handled k h' = handled k h) \<and>
     (buffers_bounded h \<longrightarrow> buffers_bounded h')"

lemma quiet_refl [simp, intro]: "quiet h h"
  by (simp add: quiet_def)

lemma quiet_trans: "quiet h h1 \<Longrightarrow> quiet h1 h2 \<Longrightarrow> quiet h h2"
  by (simp add: quiet_def)

lemma quiet_addFrame [intro]: "quiet h (addFrame B now dir d h)"
  using addFrame_bound [of B now dir d h] by (simp add: quiet_def buffers_bounded_def)

lemma quiet_send_text [intro]: "quiet h (send_text B now k s h)"
  using addFrame_bound [of B now FrameOut "TextData s" "ws_send k s h"]
  by (simp add: quiet_def buffers_bounded_def) (simp add: send_text_def)

lemma quiet_send_all [intro]: "quiet h (fold (\<lambda>x. send_text B now k (f x)) xs h)"
proof (induction xs arbitrary: h)
  case (Cons x xs)
  show ?case using quiet_trans [OF quiet_send_text Cons.IH] by simp
qed simp

lemma quiet_push [intro]: "quiet h (push_activity a h)"
  using push_activity_bound [of a h] by (simp add: quiet_def buffers_bounded_def socket_state_def handled_def)

lemma quiet_reconcile [intro]: "quiet h (reconcile corr f h)"
  by (simp add: quiet_def buffers_bounded_def reconcile_def socket_state_def handled_def)

text \<open>Changes of the fields that are only shown.\<close>

lemma quiet_shown [intro]:
  "quiet h (h\<lparr>hkActivityIds := n\<rparr>)" "quiet h (h\<lparr>hkError := e\<rparr>)" "quiet h (h\<lparr>hkRooms := r\<rparr>)"
  "quiet h (h\<lparr>hkBursting := b, hkProgress := p\<rparr>)" "quiet h (h\<lparr>hkProgress := p\<rparr>)" "quiet h (h\<lparr>hkBursts := q\<rparr>)"
  "quiet h (h\<lparr>hkStatus := st, hkError := e\<rparr>)" "quiet h (h\<lparr>hkFrames := []\<rparr>)" "quiet h (h\<lparr>hkActivities := []\<rparr>)"
  by (simp_all add: quiet_def buffers_bounded_def socket_state_def handled_def)

lemma quiet_record: "quiet h (push_activity a (h\<lparr>hkActivityIds := n\<rparr>))"
  by (rule quiet_trans [OF quiet_shown(1) quiet_push])

lemma quiet_dispatch: "quiet h (dispatch_message B now k p h)"
  by (auto simp: dispatch_message_def Let_def quiet_record)

lemma quiet_message: "quiet h (ui_on_message B now k d h)"
  using quiet_trans [OF quiet_addFrame quiet_dispatch]
  by (auto simp: ui_on_message_def Let_def split: ui_data.splits option.splits json.splits)

lemma quiet_error: "quiet h (on_error k h)"
  by (auto simp: on_error_def)

lemma quiet_track: "quiet h (track_sent B now p h)"
  by (auto simp: track_sent_def quiet_record)

lemma quiet_sendRaw: "quiet h (snd (sendRaw B now m h))"
  using quiet_trans [OF quiet_send_text quiet_track] by (auto simp: sendRaw_def Let_def split: option.splits)

lemma quiet_rooms: "quiet h (ui_subscribe B now room h)" "quiet h (ui_unsubscribe B now room h)"
  using quiet_trans [OF quiet_sendRaw quiet_shown(3)] quiet_sendRaw
  by (auto simp: ui_subscribe_def ui_unsubscribe_def case_prod_unfold Let_def)

lemma quiet_batch: "quiet h (sendBatch B now b h)"
proof (cases "if is_open h then hkSocket h else None")
  case None
  have "sendBatch B now b h = h\<lparr>hkBursting := False, hkProgress := None\<rparr>" unfolding sendBatch_def None by simp
  then show ?thesis by (simp add: quiet_shown)
next
  case (Some k)
  let ?h1 = "fold (\<lambda>i. send_text B now k (brText B (burst_frame B now (buRoom b) (buSent b + int i + 1))))
    [0 ..< nat (min 25 (buCount b - buSent b))] h"
  have a: "quiet h ?h1" by (rule quiet_send_all)
  have b: "quiet h (?h1\<lparr>hkProgress := pr\<rparr>)" for pr by (rule quiet_trans [OF a quiet_shown(5)])
  show ?thesis unfolding sendBatch_def Some option.case Let_def
    by (simp only: split: if_split) (intro conjI impI quiet_trans [OF b quiet_shown(6)] quiet_trans [OF b quiet_shown(4)])
qed

lemma quiet_burst: "quiet h (triggerBurstLoad B now room count h)"
  using quiet_trans [OF quiet_shown(4) quiet_batch] by (auto simp: triggerBurstLoad_def)

section \<open>One live connection\<close>

definition hook_ok :: "hook \<Rightarrow> bool" where
  "hook_ok h \<longleftrightarrow> (\<forall>k. socket_state k h < 2 \<longrightarrow> hkSocket h = Some k) \<and>
     (\<forall>k. hkSocket h = Some k \<longrightarrow> k < length (hkSockets h) \<and> hkTimer h = None) \<and>
     hkAttempts h \<le> MAX_RECONNECT_ATTEMPTS \<and>
     (\<forall>d. hkTimer h = Some d \<longrightarrow> BASE_BACKOFF_MS \<le> d \<and> d \<le> MAX_BACKOFF_MS \<and> hkShouldConnect h \<and> \<not> hkIntentional h) \<and>
     buffers_bounded h"

lemma hook_ok_new: "hook_ok new_hook"
  by (simp add: hook_ok_def new_hook_def socket_state_def buffers_bounded_def)

lemma quiet_ok: "quiet h h' \<Longrightarrow> hook_ok h \<Longrightarrow> hook_ok h'"
  by (simp add: hook_ok_def quiet_def)

lemma reconnect_delay_bounds:
  assumes "0 \<le> rnd"
  shows "BASE_BACKOFF_MS \<le> reconnect_delay rnd n \<and> reconnect_delay rnd n \<le> MAX_BACKOFF_MS"
proof -
  have "(1 :: rat) \<le> (3 / 2) ^ n" by (rule one_le_power) simp
  then have "(1000 :: rat) \<le> min 10000 (1000 * (3 / 2) ^ n)" by simp
  moreover have "(0 :: rat) \<le> of_int \<lfloor>rnd * 500\<rfloor>" using assms by simp
  ultimately have "(1000 :: rat) \<le> min 10000 (1000 * (3 / 2) ^ n) + of_int \<lfloor>rnd * 500\<rfloor>" by linarith
  then show ?thesis by (simp add: reconnect_delay_def BASE_BACKOFF_MS_def MAX_BACKOFF_MS_def Let_def)
qed

lemma cleanup_fields [simp]:
  "hkSocket (cleanupSocket h) = None" "hkShouldConnect (cleanupSocket h) = hkShouldConnect h"
  "hkIntentional (cleanupSocket h) = hkIntentional h" "hkTimer (cleanupSocket h) = hkTimer h"
  "hkAttempts (cleanupSocket h) = hkAttempts h" "length (hkSockets (cleanupSocket h)) = length (hkSockets h)"
  "hkFrames (cleanupSocket h) = hkFrames h" "hkActivities (cleanupSocket h) = hkActivities h"
  "hkUrl (cleanupSocket h) = hkUrl h" "hkRooms (cleanupSocket h) = hkRooms h" "hkMounted (cleanupSocket h) = hkMounted h"
  "hkBursts (cleanupSocket h) = hkBursts h"
  by (simp_all add: cleanupSocket_def split: option.splits)

lemma cleanup_state:
  assumes "hook_ok h"
  shows "\<not> socket_state k (cleanupSocket h) < 2"
proof (cases "hkSocket h")
  case None
  then show ?thesis using assms by (auto simp: cleanupSocket_def hook_ok_def)
next
  case (Some j)
  have "socket_state k (cleanupSocket h) = (if k = j \<and> k < length (hkSockets h)
      then (if uwReady (hkSockets h ! k) = 1 \<or> uwReady (hkSockets h ! k) = 0 then 2 else uwReady (hkSockets h ! k)) else socket_state k h)"
    unfolding cleanupSocket_def Some option.case by (simp add: socket_state_def set_socket_def)
  moreover have "k = j" if "socket_state k h < 2" using assms that Some by (auto simp: hook_ok_def)
  moreover have "j < length (hkSockets h)" using assms Some by (auto simp: hook_ok_def)
  ultimately show ?thesis by (auto split: if_splits)
qed

lemma socket_state_fields [simp]:
  "socket_state k (h\<lparr>hkStatus := st\<rparr>) = socket_state k h" "socket_state k (h\<lparr>hkError := e\<rparr>) = socket_state k h"
  "socket_state k (h\<lparr>hkTimer := t\<rparr>) = socket_state k h" "socket_state k (h\<lparr>hkAttempts := n\<rparr>) = socket_state k h"
  "socket_state k (h\<lparr>hkShouldConnect := b\<rparr>) = socket_state k h" "socket_state k (h\<lparr>hkIntentional := b\<rparr>) = socket_state k h"
  "socket_state k (h\<lparr>hkUrl := u\<rparr>) = socket_state k h" "socket_state k (h\<lparr>hkMounted := b\<rparr>) = socket_state k h"
  "socket_state k (h\<lparr>hkSocket := so\<rparr>) = socket_state k h" "socket_state k (h\<lparr>hkBursts := q\<rparr>) = socket_state k h"
  by (simp_all add: socket_state_def)

lemma handled_fields [simp]:
  "handled k (h\<lparr>hkStatus := st\<rparr>) = handled k h" "handled k (h\<lparr>hkError := e\<rparr>) = handled k h"
  "handled k (h\<lparr>hkTimer := t\<rparr>) = handled k h" "handled k (h\<lparr>hkAttempts := n\<rparr>) = handled k h"
  "handled k (h\<lparr>hkShouldConnect := b\<rparr>) = handled k h" "handled k (h\<lparr>hkIntentional := b\<rparr>) = handled k h"
  "handled k (h\<lparr>hkUrl := u\<rparr>) = handled k h" "handled k (h\<lparr>hkSocket := so\<rparr>) = handled k h"
  by (simp_all add: handled_def)

lemma schedule_ok:
  assumes "hook_ok h" "hkSocket h = None" "0 \<le> rnd"
  shows "hook_ok (ui_scheduleReconnect rnd h)"
  using assms reconnect_delay_bounds [OF assms(3), of "hkAttempts h"]
  by (auto simp: ui_scheduleReconnect_def hook_ok_def buffers_bounded_def Let_def)

lemma ui_cleanup_ok: "hook_ok h \<Longrightarrow> hook_ok (cleanupSocket h)"
  using cleanup_state [of h] by (simp add: hook_ok_def buffers_bounded_def)

lemma doConnect_ok:
  assumes "hook_ok h" "hkTimer h = None" "0 \<le> rnd"
  shows "hook_ok (ui_doConnect B rnd url r h)"
proof -
  let ?h1 = "(cleanupSocket h)\<lparr>hkStatus := (if r then UiReconnecting else UiConnecting), hkError := None\<rparr>"
  note c = ui_cleanup_ok [OF assms(1)] cleanup_state [OF assms(1)]
  have q: "quiet (cleanupSocket h) ?h1" by (rule quiet_shown)
  have h1: "hook_ok ?h1" by (rule quiet_ok [OF q c(1)])
  have s: "socket_state k (?h1\<lparr>hkSockets := hkSockets ?h1 @ [\<lparr>uwReady = 0, uwHandlers = True, uwSent = []\<rparr>],
      hkSocket := Some (length (hkSockets ?h1))\<rparr>) = (if k = length (hkSockets h) then 0 else socket_state k (cleanupSocket h))" for k
    by (auto simp: socket_state_def nth_append)
  have new: "hook_ok (?h1\<lparr>hkSockets := hkSockets ?h1 @ [\<lparr>uwReady = 0, uwHandlers = True, uwSent = []\<rparr>], hkSocket := Some (length (hkSockets ?h1))\<rparr>)"
    using h1 c(2) assms(2) unfolding hook_ok_def s by (auto simp: buffers_bounded_def split: if_splits)
  have bad: "hook_ok (?h1\<lparr>hkStatus := UiError, hkError := Some msg\<rparr>)" for msg
    by (rule quiet_ok [OF quiet_shown(7) h1])
  show ?thesis
    unfolding ui_doConnect_def Let_def using assms(1) new bad schedule_ok [OF bad _ assms(3)]
    by (auto split: option.split)
qed

lemma opened_ok: "hook_ok h \<Longrightarrow> hook_ok (h\<lparr>hkStatus := st, hkError := e, hkAttempts := 0\<rparr>)"
  by (simp add: hook_ok_def buffers_bounded_def)

lemma step_ok:
  assumes "hook_ok h" "0 \<le> rnd"
  shows "hook_ok (ui_step B now rnd ev h)"
proof -
  have shut: "hook_ok (h\<lparr>hkTimer := None\<rparr>)" using assms(1) by (auto simp: hook_ok_def buffers_bounded_def)
  show ?thesis
  proof (cases ev)
    case (UiConnect url)
    have "hook_ok (h\<lparr>hkShouldConnect := True, hkIntentional := False, hkUrl := url, hkAttempts := 0, hkTimer := None\<rparr>)"
      using assms(1) by (auto simp: hook_ok_def buffers_bounded_def)
    then show ?thesis using assms UiConnect by (simp add: ui_connect_def doConnect_ok)
  next
    case UiDisconnect
    have d: "hook_ok (h\<lparr>hkShouldConnect := False, hkIntentional := True, hkAttempts := 0, hkTimer := None\<rparr>)"
      using assms(1) by (auto simp: hook_ok_def buffers_bounded_def)
    show ?thesis using assms(1) UiDisconnect ui_cleanup_ok [OF d] by (auto simp: ui_disconnect_def hook_ok_def buffers_bounded_def)
  next
    case UiVisible
    then show ?thesis using assms shut by (auto simp: on_visible_def doConnect_ok)
  next
    case UiUnmount
    then show ?thesis using ui_cleanup_ok [OF shut] by (auto simp: ui_unmount_def hook_ok_def buffers_bounded_def)
  next
    case ReconnectFires
    then show ?thesis using assms shut by (auto simp: reconnect_fires_def Let_def doConnect_ok)
  next
    case (WsOpens k)
    show ?thesis
    proof (cases "socket_state k h = 0")
      case True
      then have k: "hkSocket h = Some k" using assms(1) by (auto simp: hook_ok_def)
      have o: "hook_ok (set_socket k (\<lambda>w. w\<lparr>uwReady := 1\<rparr>) h)"
        using assms(1) True by (auto simp: hook_ok_def buffers_bounded_def split: if_splits)
      have "hook_ok ((set_socket k (\<lambda>w. w\<lparr>uwReady := 1\<rparr>) h)\<lparr>hkStatus := UiConnected, hkError := None, hkAttempts := 0\<rparr>)"
        by (rule opened_ok [OF o])
      then have "hook_ok (ui_on_open B now k (set_socket k (\<lambda>w. w\<lparr>uwReady := 1\<rparr>) h))"
        unfolding ui_on_open_def using o k quiet_ok [OF quiet_send_all] by simp
      then show ?thesis using WsOpens True o by (simp add: Let_def)
    qed (use WsOpens assms in simp)
  next
    case (WsClosing k)
    then show ?thesis using assms(1) by (auto simp: hook_ok_def buffers_bounded_def split: if_splits)
  next
    case (WsCloses k code clean)
    have o: "hook_ok (set_socket k (\<lambda>w. w\<lparr>uwReady := 3\<rparr>) h)"
      using assms(1) by (auto simp: hook_ok_def buffers_bounded_def split: if_splits)
    have "hook_ok (ui_on_close rnd k code clean (set_socket k (\<lambda>w. w\<lparr>uwReady := 3\<rparr>) h))"
    proof (cases "hkSocket h = Some k")
      case True
      let ?h1 = "(set_socket k (\<lambda>w. w\<lparr>uwReady := 3\<rparr>) h)\<lparr>hkSocket := None\<rparr>"
      have l: "k < length (hkSockets h)" using assms(1) True by (auto simp: hook_ok_def)
      have n: "j = k" if "socket_state j h < 2" for j using assms(1) that True by (auto simp: hook_ok_def)
      have c: "hook_ok ?h1"
        using assms(1) l n by (auto simp: hook_ok_def buffers_bounded_def split: if_splits)
      have e: "hook_ok (?h1\<lparr>hkError := m\<rparr>)" "hook_ok (?h1\<lparr>hkStatus := st\<rparr>)" for m st
        using c by (auto simp: hook_ok_def buffers_bounded_def)
      show ?thesis unfolding ui_on_close_def Let_def
        using True o e(2) schedule_ok [OF e(1) _ assms(2)] schedule_ok [OF c _ assms(2)] by simp
    qed (simp add: ui_on_close_def o)
    then show ?thesis using WsCloses assms(1) o by (simp add: Let_def)
  next
    case (UiSendRaw m)
    then show ?thesis using assms quiet_ok [OF quiet_sendRaw] by simp
  next
    case (UiSubscribe room)
    then show ?thesis using assms quiet_ok [OF quiet_rooms(1)] by simp
  next
    case (UiUnsubscribe room)
    then show ?thesis using assms quiet_ok [OF quiet_rooms(2)] by simp
  next
    case UiClearFrames
    then show ?thesis using assms quiet_ok [OF quiet_shown(8)] by simp
  next
    case UiClearActivities
    then show ?thesis using assms quiet_ok [OF quiet_shown(9)] by simp
  next
    case (UiBurst room count)
    then show ?thesis using assms quiet_ok [OF quiet_burst] by simp
  next
    case BurstTimer
    have "hook_ok (sendBatch B now b (h\<lparr>hkBursts := bs\<rparr>))" for b bs
      by (rule quiet_ok [OF quiet_trans [OF quiet_shown(6) quiet_batch] assms(1)])
    then show ?thesis using assms(1) BurstTimer by (cases "hkBursts h") simp_all
  next
    case (WsMessage k d)
    then show ?thesis using assms quiet_ok [OF quiet_message] by simp
  next
    case (WsErrors k)
    then show ?thesis using assms quiet_ok [OF quiet_error] by simp
  qed
qed

lemma ui_run_simps [simp]:
  "ui_run B [] h = h" "ui_run B ((now, rnd, ev) # evs) h = ui_run B evs (ui_step B now rnd ev h)"
  "ui_run B (evs @ [(now, rnd, ev)]) h = ui_step B now rnd ev (ui_run B evs h)"
  by (simp_all add: ui_run_def)

lemma ui_run_ok: "\<forall>(now, rnd, ev) \<in> set evs. 0 \<le> rnd \<Longrightarrow> hook_ok h \<Longrightarrow> hook_ok (ui_run B evs h)"
  by (induction evs arbitrary: h) (auto simp: step_ok)

text \<open>
  C32: whatever the page, the browser and the network do, at most one socket of the dashboard is connecting or
  open, and it is the one the hook holds; the buffers of frames and messages keep at most 100 entries; a
  pending reconnect waits between one and ten seconds, holds no socket, and follows at most five attempts.
\<close>
theorem dashboard_one_connection:
  assumes "\<forall>(now, rnd, ev) \<in> set evs. 0 \<le> rnd"
  shows "let h = ui_run B evs new_hook
    in (\<forall>k. socket_state k h < 2 \<longrightarrow> hkSocket h = Some k) \<and> length (hkFrames h) \<le> 100 \<and> length (hkActivities h) \<le> 100 \<and>
       hkAttempts h \<le> 5 \<and> (\<forall>d. hkTimer h = Some d \<longrightarrow> 1000 \<le> d \<and> d \<le> 10000 \<and> hkSocket h = None)"
  using ui_run_ok [OF assms hook_ok_new, of B]
  by (auto simp: hook_ok_def buffers_bounded_def MAX_FRAMES_BUFFER_def MAX_ACTIVITIES_BUFFER_def MAX_RECONNECT_ATTEMPTS_def
      BASE_BACKOFF_MS_def MAX_BACKOFF_MS_def Let_def)

definition plain_browser :: browser where
  "plain_browser =
     \<lparr>brParse = (\<lambda>s. None), brText = (\<lambda>j. []), brString = (\<lambda>j. []), brIsoTime = (\<lambda>n. []), brClockTime = (\<lambda>n. []),
      brSize = length, brOpen = (\<lambda>u. None), brEntropy = (\<lambda>n i. [])\<rparr>"

text \<open>A page connects, loses its connection before it opens, and connects again while the retry is pending.\<close>

definition sample_events :: "(int \<times> rat \<times> ui_event) list" where
  "sample_events =
     [(0, 0, UiConnect ''ws://pulse''), (5, 1/2, WsCloses 0 1006 False), (9, 0, UiConnect ''ws://pulse''), (12, 0, WsOpens 1)]"

lemma dashboard_one_connection_witness:
  "socket_state 1 (ui_run plain_browser sample_events new_hook) = 1 \<and> hkSocket (ui_run plain_browser sample_events new_hook) = Some 1"
proof -
  have r: "\<forall>(now, rnd, ev) \<in> set sample_events. (0 :: rat) \<le> rnd" by (simp add: sample_events_def)
  have s: "socket_state 1 (ui_run plain_browser sample_events new_hook) = 1"
    by (simp add: sample_events_def ui_run_def new_hook_def ui_connect_def ui_doConnect_def already_connected_def cleanupSocket_def
        ui_on_close_def ui_scheduleReconnect_def handled_def set_socket_def socket_state_def plain_browser_def ui_on_open_def
        MAX_RECONNECT_ATTEMPTS_def Let_def)
  have "socket_state k (ui_run plain_browser sample_events new_hook) < 2 \<longrightarrow> hkSocket (ui_run plain_browser sample_events new_hook) = Some k" for k
    using dashboard_one_connection [OF r, of plain_browser] by (simp add: Let_def)
  from this [of 1] s show ?thesis by simp
qed

text \<open>
  While a socket is connecting or open, asking for another server only changes the address the hook remembers:
  the guard of \<^verbatim>\<open>doConnect\<close> compares the new address with itself.
\<close>

lemma connect_keeps_old_server:
  assumes "hkSocket h = Some k" "socket_state k h < 2"
  shows "hkSockets (ui_connect B rnd url h) = hkSockets h \<and> hkSocket (ui_connect B rnd url h) = Some k \<and>
    hkUrl (ui_connect B rnd url h) = url"
proof -
  have "socket_state k h = 0 \<or> socket_state k h = 1" using assms(2) by auto
  then show ?thesis using assms(1) by (auto simp: ui_connect_def ui_doConnect_def already_connected_def socket_state_def)
qed

section \<open>Reconnection\<close>

text \<open>What is still to come: a pending retry counts one socket, so does every attempt left.\<close>

definition sockets_to_come :: "hook \<Rightarrow> nat" where
  "sockets_to_come h = length (hkSockets h) + (if hkTimer h = None then 0 else 1) +
     (if hkShouldConnect h then MAX_RECONNECT_ATTEMPTS - hkAttempts h else 0)"

text \<open>The events that allow a new series of attempts.\<close>

fun restarts :: "ui_event \<Rightarrow> bool" where
  "restarts (UiConnect url) \<longleftrightarrow> True"
| "restarts UiVisible \<longleftrightarrow> True"
| "restarts (WsOpens k) \<longleftrightarrow> True"
| "restarts _ \<longleftrightarrow> False"

lemma quiet_to_come: "quiet h h' \<Longrightarrow> sockets_to_come h' = sockets_to_come h"
  by (simp add: quiet_def sockets_to_come_def)

lemma schedule_to_come:
  "hkTimer h = None \<Longrightarrow> sockets_to_come h = n \<Longrightarrow> sockets_to_come (ui_scheduleReconnect rnd h) \<le> n"
  by (auto simp: ui_scheduleReconnect_def sockets_to_come_def Let_def)

lemma doConnect_to_come:
  assumes "hkTimer h = None"
  shows "sockets_to_come (ui_doConnect B rnd url r h) \<le> Suc (sockets_to_come h)"
proof -
  have s: "sockets_to_come (ui_scheduleReconnect rnd (cleanupSocket h\<lparr>hkStatus := UiError, hkError := e\<rparr>)) \<le> sockets_to_come h" for e
    by (rule schedule_to_come) (simp_all add: assms, simp add: sockets_to_come_def)
  have n: "sockets_to_come ((cleanupSocket h)\<lparr>hkStatus := st, hkError := None, hkSockets := hkSockets (cleanupSocket h) @ [w],
      hkSocket := k\<rparr>) = Suc (sockets_to_come h)" for st w k
    by (simp add: sockets_to_come_def)
  have m: "sockets_to_come ((cleanupSocket h)\<lparr>hkStatus := UiError, hkError := e\<rparr>) \<le> Suc (sockets_to_come h)" for e
    by (simp add: sockets_to_come_def)
  show ?thesis
  proof (cases "brOpen B url")
    case None
    then show ?thesis by (simp add: ui_doConnect_def Let_def n)
  next
    case (Some e)
    then show ?thesis by (simp add: ui_doConnect_def Let_def m le_SucI [OF s])
  qed
qed

lemma step_to_come:
  assumes "\<not> restarts ev" "hook_ok h"
  shows "sockets_to_come (ui_step B now rnd ev h) \<le> sockets_to_come h"
proof (cases ev)
  case UiDisconnect
  then show ?thesis by (simp add: ui_disconnect_def sockets_to_come_def)
next
  case UiUnmount
  then show ?thesis by (simp add: ui_unmount_def sockets_to_come_def)
next
  case ReconnectFires
  show ?thesis
  proof (cases "hkTimer h")
    case (Some d)
    have "Suc (sockets_to_come (h\<lparr>hkTimer := None\<rparr>)) = sockets_to_come h" using Some by (simp add: sockets_to_come_def)
    then show ?thesis using doConnect_to_come [of "h\<lparr>hkTimer := None\<rparr>" B rnd "hkUrl h" True] ReconnectFires Some
      by (auto simp: reconnect_fires_def Let_def)
  qed (simp add: ReconnectFires)
next
  case (WsClosing k)
  then show ?thesis by (simp add: sockets_to_come_def)
next
  case (WsCloses k code clean)
  let ?s = "set_socket k (\<lambda>w. w\<lparr>uwReady := 3\<rparr>) h"
  have "sockets_to_come (ui_on_close rnd k code clean ?s) \<le> sockets_to_come h"
  proof (cases "hkSocket h = Some k")
    case True
    then have t: "hkTimer h = None" using assms(2) by (auto simp: hook_ok_def)
    have "sockets_to_come (ui_scheduleReconnect rnd (?s\<lparr>hkSocket := None, hkError := e\<rparr>)) \<le> sockets_to_come h" for e
      by (rule schedule_to_come) (simp_all add: t sockets_to_come_def)
    moreover have "sockets_to_come (ui_scheduleReconnect rnd (?s\<lparr>hkSocket := None\<rparr>)) \<le> sockets_to_come h"
      by (rule schedule_to_come) (simp_all add: t sockets_to_come_def)
    moreover have "sockets_to_come (?s\<lparr>hkSocket := None, hkStatus := UiDisconnected\<rparr>) \<le> sockets_to_come h"
      by (simp add: sockets_to_come_def)
    ultimately show ?thesis using True by (simp add: ui_on_close_def Let_def)
  qed (simp add: ui_on_close_def sockets_to_come_def)
  then show ?thesis using WsCloses by (simp add: Let_def) (simp add: sockets_to_come_def)
next
  case BurstTimer
  have "sockets_to_come (sendBatch B now b (h\<lparr>hkBursts := bs\<rparr>)) = sockets_to_come h" for b bs
    using quiet_to_come [OF quiet_trans [OF quiet_shown(6) quiet_batch]] .
  then show ?thesis using BurstTimer by (cases "hkBursts h") simp_all
next
  case UiClearFrames
  then show ?thesis using quiet_to_come [OF quiet_shown(8)] by simp
next
  case UiClearActivities
  then show ?thesis using quiet_to_come [OF quiet_shown(9)] by simp
qed (use assms(1) quiet_to_come [OF quiet_sendRaw] quiet_to_come [OF quiet_rooms(1)] quiet_to_come [OF quiet_rooms(2)]
      quiet_to_come [OF quiet_burst] quiet_to_come [OF quiet_message] quiet_to_come [OF quiet_error] in simp_all)

lemma run_to_come:
  "\<forall>(now, rnd, ev) \<in> set evs. 0 \<le> rnd \<and> \<not> restarts ev \<Longrightarrow> hook_ok h \<Longrightarrow> sockets_to_come (ui_run B evs h) \<le> sockets_to_come h"
proof (induction evs arbitrary: h)
  case (Cons e evs)
  obtain now rnd ev where e: "e = (now, rnd, ev)" by (cases e)
  have "sockets_to_come (ui_run B evs (ui_step B now rnd ev h)) \<le> sockets_to_come (ui_step B now rnd ev h)"
    using Cons e by (auto simp: step_ok)
  also have "\<dots> \<le> sockets_to_come h" using Cons.prems e by (auto intro: step_to_come)
  finally show ?case by (simp add: e)
qed simp



text \<open>
  A dashboard that wants a connection has one, or is waiting to retry: the socket it holds is not closed and
  its handlers are set.
\<close>

definition not_stranded :: "hook \<Rightarrow> bool" where
  "not_stranded h \<longleftrightarrow>
     (hkShouldConnect h \<and> \<not> hkIntentional h \<and> hkUrl h \<noteq> [] \<and> hkMounted h \<longrightarrow> hkSocket h \<noteq> None \<or> hkTimer h \<noteq> None) \<and>
     (\<forall>k. hkSocket h = Some k \<longrightarrow> socket_state k h < 3 \<and> handled k h)"

lemma quiet_stranded: "quiet h h' \<Longrightarrow> not_stranded h \<Longrightarrow> not_stranded h'"
  by (simp add: not_stranded_def quiet_def)

lemma schedule_stranded: "hkSocket h = None \<Longrightarrow> not_stranded (ui_scheduleReconnect rnd h)"
  by (auto simp: ui_scheduleReconnect_def not_stranded_def Let_def)

lemma fresh_socket_stranded:
  "length ss = n \<Longrightarrow> not_stranded (h\<lparr>hkStatus := st, hkError := e,
     hkSockets := ss @ [\<lparr>uwReady = 0, uwHandlers = True, uwSent = []\<rparr>], hkSocket := Some n\<rparr>)"
  by (auto simp: not_stranded_def socket_state_def handled_def nth_append)

lemma idle_stranded: "hkSocket h = None \<Longrightarrow> \<not> hkShouldConnect h \<or> hkIntentional h \<Longrightarrow> not_stranded h"
  by (auto simp: not_stranded_def)

lemma reconnect_stranded: "not_stranded (ui_doConnect B rnd url True h)"
  by (cases "brOpen B url") (auto simp: ui_doConnect_def Let_def schedule_stranded fresh_socket_stranded intro: idle_stranded)

lemma doConnect_stranded: "hkShouldConnect h \<Longrightarrow> \<not> hkIntentional h \<Longrightarrow> not_stranded h \<Longrightarrow> not_stranded (ui_doConnect B rnd url r h)"
  by (cases "brOpen B url") (auto simp: ui_doConnect_def Let_def schedule_stranded fresh_socket_stranded)

lemma step_stranded:
  assumes "not_stranded h" "hook_ok h"
  shows "not_stranded (ui_step B now rnd ev h)"
proof (cases ev)
  case (UiConnect url)
  let ?h1 = "h\<lparr>hkShouldConnect := True, hkIntentional := False, hkUrl := url, hkAttempts := 0, hkTimer := None\<rparr>"
  have "not_stranded (ui_doConnect B rnd url False ?h1)"
  proof (cases "hkSocket h")
    case None
    then have "\<not> already_connected url ?h1" by (simp add: already_connected_def)
    then show ?thesis by (cases "brOpen B url") (simp_all add: ui_doConnect_def Let_def schedule_stranded fresh_socket_stranded)
  next
    case (Some k)
    then have "not_stranded ?h1" using assms(1) by (auto simp: not_stranded_def)
    then show ?thesis by (intro doConnect_stranded) simp_all
  qed
  then show ?thesis using UiConnect assms(1) by (simp add: ui_connect_def)
next
  case UiDisconnect
  then show ?thesis using assms(1) by (auto simp: ui_disconnect_def not_stranded_def)
next
  case UiVisible
  then show ?thesis using assms(1) by (simp add: on_visible_def reconnect_stranded)
next
  case UiUnmount
  then show ?thesis by (simp add: ui_unmount_def not_stranded_def)
next
  case ReconnectFires
  show ?thesis
  proof (cases "hkTimer h")
    case (Some d)
    have s: "hkShouldConnect h" "\<not> hkIntentional h" "hkSocket h = None" using assms(2) Some by (auto simp: hook_ok_def)
    have "not_stranded (h\<lparr>hkTimer := None\<rparr>)" if "hkUrl h = []" using s that by (simp add: not_stranded_def)
    then show ?thesis using ReconnectFires Some s by (simp add: reconnect_fires_def Let_def reconnect_stranded)
  qed (simp add: ReconnectFires assms(1))
next
  case (WsOpens k)
  have o: "not_stranded (set_socket k (\<lambda>w. w\<lparr>uwReady := 1\<rparr>) h)"
    using assms(1) by (auto simp: not_stranded_def)
  have "not_stranded ((set_socket k (\<lambda>w. w\<lparr>uwReady := 1\<rparr>) h)\<lparr>hkStatus := UiConnected, hkError := None, hkAttempts := 0\<rparr>)"
    using o by (simp add: not_stranded_def)
  then have "not_stranded (ui_on_open B now k (set_socket k (\<lambda>w. w\<lparr>uwReady := 1\<rparr>) h))"
    unfolding ui_on_open_def using o by (auto intro: quiet_stranded [OF quiet_send_all])
  then show ?thesis using WsOpens o assms(1) by (simp add: Let_def)
next
  case (WsClosing k)
  then show ?thesis using assms(1) by (auto simp: not_stranded_def)
next
  case (WsCloses k code clean)
  let ?s = "set_socket k (\<lambda>w. w\<lparr>uwReady := 3\<rparr>) h"
  show ?thesis
  proof (cases "hkSocket h = Some k")
    case True
    then have hd: "handled k h" using assms(1) by (simp add: not_stranded_def)
    have "not_stranded (ui_on_close rnd k code clean ?s)"
      using True by (auto simp: ui_on_close_def Let_def schedule_stranded) (auto simp: not_stranded_def)
    then show ?thesis using WsCloses hd assms(1) by (simp add: Let_def)
  next
    case False
    then have "not_stranded ?s" using assms(1) by (auto simp: not_stranded_def)
    then show ?thesis using WsCloses False assms(1) by (simp add: Let_def ui_on_close_def)
  qed
next
  case BurstTimer
  have "not_stranded (sendBatch B now b (h\<lparr>hkBursts := bs\<rparr>))" for b bs
    by (rule quiet_stranded [OF quiet_trans [OF quiet_shown(6) quiet_batch] assms(1)])
  then show ?thesis using BurstTimer assms(1) by (cases "hkBursts h") simp_all
next
  case UiClearFrames
  then show ?thesis using quiet_stranded [OF quiet_shown(8)] assms(1) by simp
next
  case UiClearActivities
  then show ?thesis using quiet_stranded [OF quiet_shown(9)] assms(1) by simp
qed (use assms(1) quiet_stranded [OF quiet_sendRaw] quiet_stranded [OF quiet_rooms(1)] quiet_stranded [OF quiet_rooms(2)]
      quiet_stranded [OF quiet_burst] quiet_stranded [OF quiet_message] quiet_stranded [OF quiet_error] in simp_all)

lemma run_stranded:
  "\<forall>(now, rnd, ev) \<in> set evs. 0 \<le> rnd \<Longrightarrow> not_stranded h \<Longrightarrow> hook_ok h \<Longrightarrow> not_stranded (ui_run B evs h)"
  by (induction evs arbitrary: h) (auto simp: step_stranded step_ok)

text \<open>
  The dashboard is never stranded: as long as the page wants a connection to a URL, the hook holds a
  socket that is not closed and whose handlers are set, or waits for a retry; giving up clears the wish.
\<close>
theorem dashboard_never_stranded:
  assumes "\<forall>(now, rnd, ev) \<in> set evs. 0 \<le> rnd"
  shows "let h = ui_run B evs new_hook
    in hkShouldConnect h \<and> \<not> hkIntentional h \<and> hkUrl h \<noteq> [] \<and> hkMounted h \<longrightarrow>
       hkTimer h \<noteq> None \<or> (\<exists>k. hkSocket h = Some k \<and> socket_state k h < 3 \<and> handled k h)"
proof -
  have "not_stranded new_hook" by (simp add: not_stranded_def new_hook_def)
  then show ?thesis using run_stranded [OF assms _ hook_ok_new, of B] by (auto simp: not_stranded_def Let_def)
qed

lemma dashboard_never_stranded_witness:
  "let h = ui_run plain_browser (take 2 sample_events) new_hook in hkShouldConnect h \<and> hkTimer h \<noteq> None"
proof -
  have r: "\<forall>(now, rnd, ev) \<in> set (take 2 sample_events). (0 :: rat) \<le> rnd" by (simp add: sample_events_def)
  let ?h = "ui_run plain_browser (take 2 sample_events) new_hook"
  have s: "hkShouldConnect ?h \<and> \<not> hkIntentional ?h \<and> hkUrl ?h \<noteq> [] \<and> hkMounted ?h \<and> hkSocket ?h = None"
    by (simp add: sample_events_def ui_run_def new_hook_def ui_connect_def ui_doConnect_def already_connected_def cleanupSocket_def
        ui_on_close_def ui_scheduleReconnect_def handled_def set_socket_def socket_state_def plain_browser_def
        MAX_RECONNECT_ATTEMPTS_def Let_def)
  then show ?thesis using dashboard_never_stranded [OF r, of plain_browser] by (simp add: Let_def)
qed

text \<open>Disconnecting is final.\<close>

definition stopped :: "nat \<Rightarrow> hook \<Rightarrow> bool" where
  "stopped n h \<longleftrightarrow> \<not> hkShouldConnect h \<and> hkSocket h = None \<and> hkTimer h = None \<and> length (hkSockets h) = n"

lemma quiet_stopped: "quiet h h' \<Longrightarrow> stopped n h \<Longrightarrow> stopped n h'"
  by (simp add: stopped_def quiet_def)

fun connects :: "ui_event \<Rightarrow> bool" where
  "connects (UiConnect url) \<longleftrightarrow> True"
| "connects _ \<longleftrightarrow> False"

lemma step_stopped:
  assumes "stopped n h" "\<not> connects ev"
  shows "stopped n (ui_step B now rnd ev h)"
proof (cases ev)
  case BurstTimer
  have "stopped n (sendBatch B now b (h\<lparr>hkBursts := bs\<rparr>))" for b bs
    by (rule quiet_stopped [OF quiet_trans [OF quiet_shown(6) quiet_batch] assms(1)])
  then show ?thesis using BurstTimer assms(1) by (cases "hkBursts h") simp_all
next
  case UiClearFrames
  then show ?thesis using quiet_stopped [OF quiet_shown(8)] assms(1) by simp
next
  case UiClearActivities
  then show ?thesis using quiet_stopped [OF quiet_shown(9)] assms(1) by simp
next
  case (WsOpens k)
  then show ?thesis using assms(1) by (simp add: stopped_def ui_on_open_def Let_def)
next
  case (WsClosing k)
  then show ?thesis using assms(1) by (simp add: stopped_def)
next
  case (WsCloses k code clean)
  then show ?thesis using assms(1) by (simp add: stopped_def ui_on_close_def Let_def)
next
  case UiDisconnect
  then show ?thesis using assms(1) by (simp add: stopped_def ui_disconnect_def)
next
  case UiUnmount
  then show ?thesis using assms(1) by (simp add: stopped_def ui_unmount_def)
next
  case UiVisible
  then show ?thesis using assms(1) by (simp add: stopped_def on_visible_def)
next
  case ReconnectFires
  then show ?thesis using assms(1) by (simp add: stopped_def)
qed (use assms quiet_stopped [OF quiet_sendRaw] quiet_stopped [OF quiet_rooms(1)] quiet_stopped [OF quiet_rooms(2)]
      quiet_stopped [OF quiet_burst] quiet_stopped [OF quiet_message] quiet_stopped [OF quiet_error] in simp_all)

text \<open>
  After \<^verbatim>\<open>disconnect\<close> no socket is connecting or open, none is made and no retry is pending, whatever
  happens until \<^verbatim>\<open>connect\<close> is called.
\<close>
theorem disconnect_is_final:
  assumes "\<forall>(now, rnd, ev) \<in> set before. 0 \<le> rnd" "\<forall>(now, rnd, ev) \<in> set evs. 0 \<le> rnd \<and> \<not> connects ev"
  shows "let h = ui_run B before new_hook; h' = ui_run B evs (ui_disconnect h)
    in (\<forall>k. \<not> socket_state k h' < 2) \<and> hkTimer h' = None \<and> length (hkSockets h') = length (hkSockets h)"
proof -
  let ?h = "ui_run B before new_hook"
  have ok: "hook_ok ?h" by (rule ui_run_ok [OF assms(1) hook_ok_new])
  have "hook_ok (ui_disconnect ?h)"
    using ok ui_cleanup_ok [of "?h\<lparr>hkShouldConnect := False, hkIntentional := True, hkAttempts := 0, hkTimer := None\<rparr>"]
    by (auto simp: ui_disconnect_def hook_ok_def buffers_bounded_def)
  moreover have "stopped (length (hkSockets ?h)) (ui_disconnect ?h)" by (simp add: stopped_def ui_disconnect_def)
  ultimately have "hook_ok (ui_run B evs (ui_disconnect ?h)) \<and> stopped (length (hkSockets ?h)) (ui_run B evs (ui_disconnect ?h))"
    using assms(2) by (induction evs arbitrary: h rule: rev_induct) (auto simp: step_ok step_stopped)
  then show ?thesis by (auto simp: hook_ok_def stopped_def Let_def)
qed

lemma disconnect_is_final_witness:
  "\<not> socket_state 0 (ui_run plain_browser [(9, 0, UiVisible)] (ui_disconnect (ui_run plain_browser [(0, 0, UiConnect ''ws://pulse'')] new_hook))) < 2"
  using disconnect_is_final [of "[(0, 0, UiConnect ''ws://pulse'')]" "[(9, 0, UiVisible)]" plain_browser] by (simp add: Let_def)

section \<open>What the page shows of a message\<close>

text \<open>An event that acknowledges an activity.\<close>

definition acknowledges :: "browser \<Rightarrow> ui_event \<Rightarrow> activity \<Rightarrow> bool" where
  "acknowledges B ev a \<longleftrightarrow> (\<exists>k raw p c. ev = WsMessage k (TextData raw) \<and> brParse B raw = Some p \<and>
     json_get p ''type'' = Some (JStr ''DELIVERY_ACK'') \<and> reply_correlation p = Some c \<and>
     (strict_equal (actCorrelation a) c \<or> c = JStr (actId a)))"

definition shown_delivered :: "activity \<Rightarrow> bool" where
  "shown_delivered a \<longleftrightarrow> actDirection a = ActSent \<and> actStatus a = ActDelivered"

text \<open>Every sent activity shown as delivered was so before, or the event acknowledges it.\<close>

definition deliveries_from :: "browser \<Rightarrow> ui_event \<Rightarrow> hook \<Rightarrow> hook \<Rightarrow> bool" where
  "deliveries_from B ev h h' \<longleftrightarrow>
     (\<forall>a \<in> set (hkActivities h'). shown_delivered a \<longrightarrow> a \<in> set (hkActivities h) \<or> acknowledges B ev a)"

lemma deliveries_same: "hkActivities h' = hkActivities h \<Longrightarrow> deliveries_from B ev h h'"
  by (simp add: deliveries_from_def)

lemma deliveries_push: "\<not> shown_delivered a \<Longrightarrow> hkActivities h1 = hkActivities h \<Longrightarrow> deliveries_from B ev h (push_activity a h1)"
  by (auto simp: deliveries_from_def push_activity_def Let_def dest: in_set_dropD)

lemma deliveries_reconcile:
  assumes "\<And>a. awaits c a \<Longrightarrow> shown_delivered (f a) \<Longrightarrow> acknowledges B ev (f a)" "hkActivities h1 = hkActivities h"
  shows "deliveries_from B ev h (reconcile c f h1)"
  using assms by (auto simp: deliveries_from_def reconcile_def)

lemma deliveries_message:
  "deliveries_from B (WsMessage k d) h (ui_on_message B now k d h)"
proof -
  have dispatch: "deliveries_from B (WsMessage k (TextData raw)) h (dispatch_message B now k p (addFrame B now FrameIn (TextData raw) h))"
    if p: "brParse B raw = Some p" for raw p
  proof -
    let ?h1 = "addFrame B now FrameIn (TextData raw) h"
    have rcv: "\<not> shown_delivered (received_activity B now p n)" for n
      by (simp add: shown_delivered_def received_activity_def Let_def)
    have ack: "deliveries_from B (WsMessage k (TextData raw)) h
        (reconcile c (\<lambda>a. a\<lparr>actStatus := ActDelivered, actAckAt := Some t\<rparr>) ?h1)"
      if "json_get p ''type'' = Some (JStr ''DELIVERY_ACK'')" "reply_correlation p = Some c" for c t
      by (rule deliveries_reconcile) (use p that in \<open>auto simp: acknowledges_def awaits_def\<close>)
    have err: "deliveries_from B (WsMessage k (TextData raw)) h (reconcile c (\<lambda>a. a\<lparr>actStatus := ActFailed\<rparr>) ?h1)" for c
      by (rule deliveries_reconcile) (simp_all add: shown_delivered_def)
    have t: "\<exists>c. reply_correlation p = Some c" if "truthy (reply_correlation p)"
      using that by (cases "reply_correlation p") simp_all
    show ?thesis
      unfolding dispatch_message_def Let_def
      by (auto simp: deliveries_same deliveries_push rcv err dest!: t intro!: ack)
  qed
  show ?thesis
    by (auto simp: ui_on_message_def Let_def deliveries_same dispatch split: ui_data.splits option.splits json.splits)
qed

lemma deliveries_sendRaw: "deliveries_from B ev h (snd (sendRaw B now m h))"
proof -
  have s: "\<not> shown_delivered (sent_activity B now p n)" for p n by (simp add: shown_delivered_def sent_activity_def Let_def)
  have "deliveries_from B ev h (track_sent B now p (send_text B now k t h))" for p k t
    unfolding track_sent_def by (simp add: deliveries_same deliveries_push s)
  then show ?thesis
    by (auto simp: sendRaw_def Let_def deliveries_same split: option.splits)
qed

lemma activities_unchanged [simp]:
  "hkActivities (ui_scheduleReconnect rnd h) = hkActivities h" "hkActivities (ui_doConnect B rnd url r h) = hkActivities h"
  "hkActivities (on_error k h) = hkActivities h" "hkActivities (ui_on_close rnd k code clean h) = hkActivities h"
  "hkActivities (ui_on_open B now k h) = hkActivities h" "hkActivities (sendBatch B now b h) = hkActivities h"
proof -
  show s: "hkActivities (ui_scheduleReconnect rnd h) = hkActivities h" for rnd h
    by (simp add: ui_scheduleReconnect_def Let_def)
  show "hkActivities (ui_doConnect B rnd url r h) = hkActivities h"
    by (simp add: ui_doConnect_def Let_def s split: option.split)
  show "hkActivities (on_error k h) = hkActivities h" by (simp add: on_error_def)
  show "hkActivities (ui_on_close rnd k code clean h) = hkActivities h" by (simp add: ui_on_close_def Let_def s)
  show "hkActivities (ui_on_open B now k h) = hkActivities h" by (simp add: ui_on_open_def)
  show "hkActivities (sendBatch B now b h) = hkActivities h" by (simp add: sendBatch_def Let_def split: option.split)
qed

lemma step_deliveries: "deliveries_from B ev h (ui_step B now rnd ev h)"
proof (cases ev)
  case (UiSendRaw m)
  then show ?thesis using deliveries_sendRaw by (simp add: deliveries_same)
next
  case (UiSubscribe room)
  then show ?thesis
    using deliveries_sendRaw [of B ev h now "MessageObject (room_frame ''ROOM_JOIN'' room)"]
    by (auto simp: ui_subscribe_def deliveries_from_def Let_def case_prod_unfold split: if_splits)
next
  case (UiUnsubscribe room)
  then show ?thesis
    using deliveries_sendRaw [of B ev h now "MessageObject (room_frame ''ROOM_LEAVE'' room)"]
    by (auto simp: ui_unsubscribe_def deliveries_from_def Let_def case_prod_unfold split: if_splits)
next
  case UiClearActivities
  then show ?thesis by (simp add: deliveries_from_def)
next
  case (WsMessage k d)
  then show ?thesis using deliveries_message by (simp add: deliveries_same)
next
  case BurstTimer
  then show ?thesis by (cases "hkBursts h") (simp_all add: deliveries_same)
next
  case UiDisconnect
  then show ?thesis by (simp add: deliveries_same ui_disconnect_def)
next
  case UiUnmount
  then show ?thesis by (simp add: deliveries_same ui_unmount_def)
qed (simp_all add: deliveries_same ui_connect_def on_visible_def reconnect_fires_def triggerBurstLoad_def Let_def)


text \<open>A page whose JSON parser knows one acknowledgement.\<close>

definition ack_browser :: browser where
  "ack_browser = plain_browser\<lparr>brParse := (\<lambda>s. if s = ''ack'' then Some (JObj [(''type'', JStr ''DELIVERY_ACK''), (''correlationId'', JStr ''c1'')]) else None)\<rparr>"

definition chat_message :: json where
  "chat_message = JObj [(''type'', JStr ''ROOM_MESSAGE''), (''correlationId'', JStr ''c1''), (''payload'', JStr ''hi'')]"


section \<open>Resubscription and load\<close>

lemma ws_send_sent:
  "k < length (hkSockets h) \<Longrightarrow> uwReady (hkSockets h ! k) = 1 \<Longrightarrow>
   hkSockets (send_text B now k t h) = (hkSockets h)[k := (hkSockets h ! k)\<lparr>uwSent := uwSent (hkSockets h ! k) @ [t]\<rparr>]"
  by (simp add: send_text_def ws_send_def set_socket_def)

lemma send_all_sent:
  "k < length (hkSockets h) \<Longrightarrow> uwReady (hkSockets h ! k) = 1 \<Longrightarrow>
   uwSent (hkSockets (fold (\<lambda>x. send_text B now k (f x)) xs h) ! k) = uwSent (hkSockets h ! k) @ map f xs"
  by (induction xs arbitrary: h) (simp_all add: ws_send_sent)

text \<open>
  When the held socket opens, the dashboard joins exactly the rooms it is subscribed to, in their order, and
  counts its attempts anew.
\<close>
theorem dashboard_resubscribes:
  assumes "hkSocket h = Some k" "socket_state k h = 0" "handled k h"
  shows "let h' = ui_step B now rnd (WsOpens k) h
    in uwSent (hkSockets h' ! k) = uwSent (hkSockets h ! k) @ map (\<lambda>room. brText B (room_frame ''ROOM_JOIN'' room)) (hkRooms h) \<and>
       hkAttempts h' = 0 \<and> hkStatus h' = UiConnected \<and> hkRooms h' = hkRooms h"
proof -
  let ?s = "(set_socket k (\<lambda>w. w\<lparr>uwReady := 1\<rparr>) h)\<lparr>hkStatus := UiConnected, hkError := None, hkAttempts := 0\<rparr>"
  have l: "k < length (hkSockets h)" using assms(3) by (simp add: handled_def)
  then have r: "k < length (hkSockets ?s)" "uwReady (hkSockets ?s ! k) = 1" "uwSent (hkSockets ?s ! k) = uwSent (hkSockets h ! k)"
    by (simp_all add: set_socket_def)
  have "ui_step B now rnd (WsOpens k) h = fold (\<lambda>room. send_text B now k (brText B (room_frame ''ROOM_JOIN'' room))) (hkRooms h) ?s"
    using assms by (simp add: ui_on_open_def Let_def)
  then show ?thesis using send_all_sent [OF r(1,2), of B now "\<lambda>room. brText B (room_frame ''ROOM_JOIN'' room)" "hkRooms h"] r(3)
    by (simp add: Let_def)
qed

text \<open>The load generator: the batches of a burst, sent at the given times.\<close>

definition burst_text :: "browser \<Rightarrow> string \<Rightarrow> int list \<Rightarrow> nat \<Rightarrow> nat \<Rightarrow> string" where
  "burst_text B room nows s i = brText B (burst_frame B (nows ! (i div 25)) room (int (s + i + 1)))"

lemma batch_sends:
  fixes B :: browser and room :: string and now :: int and ns :: "int list" and c s k :: nat and h :: hook
  assumes "hkSocket h = Some k" "socket_state k h = 1" "k < length (hkSockets h)" "s \<le> c"
  defines "h' \<equiv> sendBatch B now \<lparr>buRoom = room, buCount = int c, buSent = int s\<rparr> h"
  shows "uwSent (hkSockets h' ! k) = uwSent (hkSockets h ! k) @ map (burst_text B room (now # ns) s) [0 ..< min 25 (c - s)]"
    and "hkSocket h' = Some k" "socket_state k h' = 1" "k < length (hkSockets h')"
    and "c - s \<le> 25 \<Longrightarrow> hkBursts h' = hkBursts h \<and> \<not> hkBursting h'"
    and "25 < c - s \<Longrightarrow> hkBursts h' = hkBursts h @ [\<lparr>buRoom = room, buCount = int c, buSent = int (s + 25)\<rparr>]"
proof -
  let ?f = "\<lambda>i. brText B (burst_frame B now room (int s + int i + 1))"
  have o: "(if is_open h then hkSocket h else None) = Some k" using assms(1,2) by (simp add: is_open_def)
  have n: "nat (min 25 (int c - int s)) = min 25 (c - s)" using assms(4) by linarith
  have r: "uwReady (hkSockets h ! k) = 1" using assms(2,3) by (simp add: socket_state_def)
  define h1 where "h1 = fold (\<lambda>i. send_text B now k (?f i)) [0 ..< min 25 (c - s)] h"
  have h': "h' = (if int s + min 25 (int c - int s) < int c
         then h1\<lparr>hkProgress := Some (int s + min 25 (int c - int s), int c),
                 hkBursts := hkBursts h1 @ [\<lparr>buRoom = room, buCount = int c, buSent = int s + min 25 (int c - int s)\<rparr>]\<rparr>
         else h1\<lparr>hkBursting := False, hkProgress := None\<rparr>)"
    unfolding h'_def sendBatch_def o option.case burst.simps Let_def n h1_def [symmetric] by simp
  have h1: "hkSocket h1 = Some k" "hkSockets h' = hkSockets h1" "hkBursts h1 = hkBursts h" "socket_state k h1 = 1"
    "length (hkSockets h1) = length (hkSockets h)"
    using assms(1,2) by (simp_all add: h') (simp_all add: h1_def)
  have f: "map ?f [0 ..< min 25 (c - s)] = map (burst_text B room (now # ns) s) [0 ..< min 25 (c - s)]"
    by (rule map_cong) (simp_all add: burst_text_def add.commute add.left_commute)
  show "uwSent (hkSockets h' ! k) = uwSent (hkSockets h ! k) @ map (burst_text B room (now # ns) s) [0 ..< min 25 (c - s)]"
    using send_all_sent [OF assms(3) r, of B now ?f "[0 ..< min 25 (c - s)]"] unfolding f h1(2) h1_def .
  show "hkSocket h' = Some k" using h1(1) by (simp add: h')
  show "socket_state k h' = 1" "k < length (hkSockets h')" using h1 assms(3) by (simp_all add: socket_state_def)
  show "c - s \<le> 25 \<Longrightarrow> hkBursts h' = hkBursts h \<and> \<not> hkBursting h'" using assms(4) h1(3) by (simp add: h')
  show "25 < c - s \<Longrightarrow> hkBursts h' = hkBursts h @ [\<lparr>buRoom = room, buCount = int c, buSent = int (s + 25)\<rparr>]"
    using assms(4) h1(3) by (simp add: h')
qed

fun burst_timers :: "browser \<Rightarrow> int list \<Rightarrow> hook \<Rightarrow> hook" where
  "burst_timers B [] h = h"
| "burst_timers B (now # ns) h = burst_timers B ns (ui_step B now 0 BurstTimer h)"

lemma burst_timers_idle: "hkBursts h = [] \<Longrightarrow> burst_timers B ns h = h"
  by (induction ns) simp_all

lemma burst_text_shift: "burst_text B room (now # ns) s (i + 25) = burst_text B room ns (s + 25) i"
  by (simp add: burst_text_def div_add_self2 add.commute add.left_commute)

lemma upt_split_25: "25 < n \<Longrightarrow> map f [0 ..< n] = map f [0 ..< 25] @ map (\<lambda>i. f (i + 25)) [0 ..< n - 25]"
proof -
  assume "25 < n"
  then have "[0 ..< n] = [0 ..< 25] @ map (\<lambda>i. i + 25) [0 ..< n - 25]"
    using upt_add_eq_append [of 0 25 "n - 25"] map_add_upt [of 25 "n - 25"] by simp
  then show ?thesis by simp
qed

lemma burst_completes:
  "hkSocket h = Some k \<Longrightarrow> socket_state k h = 1 \<Longrightarrow> k < length (hkSockets h) \<Longrightarrow> s \<le> c \<Longrightarrow> hkBursts h = [] \<Longrightarrow>
   c - s \<le> 25 * Suc (length ns) \<Longrightarrow>
   (let h' = burst_timers B ns (sendBatch B now \<lparr>buRoom = room, buCount = int c, buSent = int s\<rparr> h)
    in uwSent (hkSockets h' ! k) = uwSent (hkSockets h ! k) @ map (burst_text B room (now # ns) s) [0 ..< c - s] \<and>
       hkBursts h' = [] \<and> \<not> hkBursting h')"
proof (induction ns arbitrary: h s now)
  case Nil
  note b = batch_sends(1) [OF Nil.prems(1-4), where B = B and now = now and room = room and ns = "[]"]
    batch_sends(2-6) [OF Nil.prems(1-4), where B = B and now = now and room = room]
  have "c - s \<le> 25" using Nil.prems(6) by simp
  then show ?case using b Nil.prems(5) by (simp add: Let_def min_def)
next
  case (Cons n ns)
  note b = batch_sends(1) [OF Cons.prems(1-4), where B = B and now = now and room = room and ns = "n # ns"]
    batch_sends(2-6) [OF Cons.prems(1-4), where B = B and now = now and room = room]
  let ?h1 = "sendBatch B now \<lparr>buRoom = room, buCount = int c, buSent = int s\<rparr> h"
  show ?case
  proof (cases "25 < c - s")
    case False
    then have "hkBursts ?h1 = [] \<and> \<not> hkBursting ?h1" using b(5) Cons.prems(5) by simp
    then show ?thesis using b(1) False burst_timers_idle [of ?h1 B "n # ns"] by (simp add: Let_def min_def)
  next
    case True
    have q: "hkBursts ?h1 = [\<lparr>buRoom = room, buCount = int c, buSent = int (s + 25)\<rparr>]"
      using b(6) [OF True] Cons.prems(5) by simp
    let ?h2 = "?h1\<lparr>hkBursts := []\<rparr>"
    have p: "hkSocket ?h2 = Some k" "socket_state k ?h2 = 1" "k < length (hkSockets ?h2)" "s + 25 \<le> c" "hkBursts ?h2 = []"
      "c - (s + 25) \<le> 25 * Suc (length ns)"
      using b(2-4) True Cons.prems(6) by simp_all
    have g: "uwSent (hkSockets ?h2 ! k) = uwSent (hkSockets h ! k) @ map (burst_text B room (now # n # ns) s) [0 ..< 25]"
      using b(1) True by (simp add: min_def)
    have s: "map (burst_text B room (now # n # ns) s) [0 ..< c - s] =
        map (burst_text B room (now # n # ns) s) [0 ..< 25] @ map (burst_text B room (n # ns) (s + 25)) [0 ..< c - (s + 25)]"
      using upt_split_25 [OF True, of "burst_text B room (now # n # ns) s"] by (simp add: burst_text_shift)
    have t: "burst_timers B (n # ns) ?h1 = burst_timers B ns (sendBatch B n \<lparr>buRoom = room, buCount = int c, buSent = int (s + 25)\<rparr> ?h2)"
      using q by simp
    show ?thesis using Cons.IH [OF p, of n] g unfolding t s Let_def by simp
  qed
qed

text \<open>
  On a connection that stays open a burst of \<open>c\<close> frames is sent completely, once each and in order, in
  batches of 25: after the first batch and the timers of the others the generator has stopped.
\<close>
theorem burst_sends_all:
  assumes "hkSocket h = Some k" "socket_state k h = 1" "k < length (hkSockets h)" "hkBursts h = []" "hkMounted h"
    and "c \<le> 25 * Suc (length ns)"
  shows "let h' = burst_timers B ns (ui_step B now 0 (UiBurst room (int c)) h)
    in uwSent (hkSockets h' ! k) = uwSent (hkSockets h ! k) @ map (burst_text B room (now # ns) 0) [0 ..< c] \<and>
       hkBursts h' = [] \<and> \<not> hkBursting h'"
proof -
  let ?h = "h\<lparr>hkBursting := True, hkProgress := Some (0, int c)\<rparr>"
  have p: "hkSocket ?h = Some k" "socket_state k ?h = 1" "k < length (hkSockets ?h)" "hkBursts ?h = []"
    using assms by (simp_all add: socket_state_def)
  have "ui_step B now 0 (UiBurst room (int c)) h = sendBatch B now \<lparr>buRoom = room, buCount = int c, buSent = int 0\<rparr> ?h"
    using assms(1,2,5) by (simp add: triggerBurstLoad_def is_open_def)
  then show ?thesis using burst_completes [OF p(1-3), of 0 c ns B now room] p(4) assms(6) by (simp add: Let_def)
qed

text \<open>A page in two rooms whose socket is about to open, and the same page with the socket open.\<close>

definition joining_hook :: "nat \<Rightarrow> hook" where
  "joining_hook ready = new_hook\<lparr>hkRooms := [''lobby'', ''ops''], hkSocket := Some 0, hkShouldConnect := True,
     hkSockets := [\<lparr>uwReady = ready, uwHandlers = True, uwSent = []\<rparr>]\<rparr>"

lemma dashboard_resubscribes_witness:
  "length (uwSent (hkSockets (ui_step plain_browser 0 0 (WsOpens 0) (joining_hook 0)) ! 0)) = 2"
  using dashboard_resubscribes [of "joining_hook 0" 0 plain_browser 0 0]
  by (simp add: joining_hook_def new_hook_def socket_state_def handled_def Let_def)

lemma burst_sends_all_witness:
  "length (uwSent (hkSockets (burst_timers plain_browser [16] (ui_step plain_browser 0 0 (UiBurst ''load'' (int 30)) (joining_hook 1))) ! 0)) = 30"
  using burst_sends_all [of "joining_hook 1" 0 30 "[16]" plain_browser 0 "''load''"]
  by (simp add: joining_hook_def new_hook_def socket_state_def Let_def)

end
