(* ===== verification/Dashboard_Sandbox.thy ===== *)
theory Dashboard_Sandbox
  imports Dashboard_Socket Client_Session Event_Validator
begin

text \<open>
  The behaviour behind \<^verbatim>\<open>dashboard/src/components/TrafficSandbox.tsx\<close>: the URL it connects to, the session it
  resumes, the frames it makes of what a user types, and what it lists. The markup is not modelled.
\<close>

section \<open>Connecting\<close>

record page_location =
  locProtocol :: string
  locHostname :: string
  locPort :: string

text \<open>\<^verbatim>\<open>VITE_WS_URL\<close>, and \<^verbatim>\<open>window.location\<close> when there is a window.\<close>

definition defaultWsUrl :: "string option \<Rightarrow> page_location option \<Rightarrow> string" where
  "defaultWsUrl viteUrl loc =
     (if str_truthy viteUrl then the viteUrl
      else case loc of
             None \<Rightarrow> ''ws://127.0.0.1:8085/ws''
           | Some l \<Rightarrow>
               let proto = (if locProtocol l = ''https:'' then ''wss:'' else ''ws:''); port = locPort l;
                   hostPort = (if port = ''5173'' then locHostname l @ '':8085''
                               else if port \<noteq> [] \<and> port \<noteq> ''80'' \<and> port \<noteq> ''443'' then locHostname l @ '':'' @ port
                               else locHostname l)
               in proto @ ''//'' @ hostPort @ ''/ws'')"

definition with_token :: "string \<Rightarrow> string \<Rightarrow> string" where
  "with_token url token =
     (if js_trim token \<noteq> [] \<and> \<not> includes_str ''token='' url
      then url @ (if includes_str ''?'' url then ''&'' else ''?'') @ ''token='' @ encodeURIComponent (js_trim token)
      else url)"

text \<open>The fields of the form, the note shown after a resumed session, and the entry of \<^verbatim>\<open>sessionStorage\<close>.\<close>

record sandbox =
  sbServerUrl :: string
  sbAuthToken :: string
  sbRoomInput :: string
  sbPayload :: string
  sbNotice :: "string option"
  sbStored :: "string option"

definition new_sandbox :: "string option \<Rightarrow> page_location option \<Rightarrow> string option \<Rightarrow> sandbox" where
  "new_sandbox viteUrl loc stored =
     \<lparr>sbServerUrl = defaultWsUrl viteUrl loc, sbAuthToken = [], sbRoomInput = ''lobby'',
      sbPayload = ''{'' @ [CHR 0x22] @ ''content'' @ [CHR 0x22] @ '': '' @ [CHR 0x22] @ ''Hello from Mission Control'' @ [CHR 0x22] @ ''}'',
      sbNotice = None, sbStored = stored\<rparr>"

text \<open>
  On mount: a stored session with \<^verbatim>\<open>autoResume\<close> and a server URL is resumed. A stored field that is not a
  text, which the page never writes, is taken as missing.
\<close>

definition resume_session :: "browser \<Rightarrow> rat \<Rightarrow> sandbox \<times> hook \<Rightarrow> sandbox \<times> hook" where
  "resume_session B rnd s =
     (case s of (sb, h) \<Rightarrow>
      case (if str_truthy (sbStored sb) then brParse B (the (sbStored sb)) else None) of
        None \<Rightarrow> (sb, h)
      | Some p \<Rightarrow>
          let url = as_str (json_get p ''serverUrl''); token = as_str (json_get p ''authToken''); room = as_str (json_get p ''roomInput'')
          in if truthy (json_get p ''autoResume'') \<and> str_truthy url
             then (sb\<lparr>sbServerUrl := the url, sbAuthToken := (if str_truthy token then the token else sbAuthToken sb),
                      sbRoomInput := (if str_truthy room then the room else sbRoomInput sb),
                      sbNotice := Some (''Resumed sandbox session for '' @ the url)\<rparr>,
                   ui_connect B rnd (with_token (the url) (if str_truthy token then the token else [])) h)
             else (sb, h))"

definition handleConnectToggle :: "browser \<Rightarrow> rat \<Rightarrow> sandbox \<times> hook \<Rightarrow> sandbox \<times> hook" where
  "handleConnectToggle B rnd s =
     (case s of (sb, h) \<Rightarrow>
        if hkStatus h = UiConnected \<or> hkStatus h = UiConnecting \<or> hkStatus h = UiReconnecting
        then (sb\<lparr>sbStored := None, sbNotice := None\<rparr>, ui_disconnect h)
        else (sb, ui_connect B rnd (with_token (sbServerUrl sb) (sbAuthToken sb)) h))"

definition stored_session :: "sandbox \<Rightarrow> json" where
  "stored_session sb =
     JObj [(''autoResume'', JBool True), (''serverUrl'', JStr (sbServerUrl sb)), (''authToken'', JStr (sbAuthToken sb)),
           (''roomInput'', JStr (sbRoomInput sb))]"

text \<open>On unmount the session is stored when it was connected or on the way.\<close>

definition unmount_sandbox :: "browser \<Rightarrow> sandbox \<times> hook \<Rightarrow> sandbox \<times> hook" where
  "unmount_sandbox B s =
     (case s of (sb, h) \<Rightarrow>
        ((if hkStatus h = UiConnected \<or> hkStatus h = UiConnecting \<or> hkStatus h = UiReconnecting
          then sb\<lparr>sbStored := Some (brText B (stored_session sb))\<rparr> else sb), ui_unmount h))"

section \<open>Sending\<close>

definition room_of_input :: "string \<Rightarrow> string" where
  "room_of_input input = (if js_trim input = [] then ''lobby'' else js_trim input)"

definition corr_now :: "int \<Rightarrow> json" where
  "corr_now now = JStr (''corr-'' @ js_int_str now)"

definition message_frame :: "int \<Rightarrow> json \<Rightarrow> json \<Rightarrow> json \<Rightarrow> json" where
  "message_frame now room pl corr =
     JObj [(''type'', JStr ''ROOM_MESSAGE''), (''target'', JObj [(''roomId'', room)]), (''payload'', pl),
           (''timestamp'', JNum (int_num now)), (''correlationId'', corr), (''ackRequired'', JBool True)]"

definition is_object :: "json option \<Rightarrow> bool" where
  "is_object j \<longleftrightarrow> (case j of Some (JObj _) \<Rightarrow> True | Some (JArr _) \<Rightarrow> True | _ \<Rightarrow> False)"

text \<open>An envelope typed by the user: the properties are spread and five of them set.\<close>

definition canonical_frame :: "int \<Rightarrow> string \<Rightarrow> (string \<times> json) list \<Rightarrow> json" where
  "canonical_frame now room kvs =
     (let p = JObj kvs;
          tgt = (if is_object (json_get p ''target'') then the (json_get p ''target'') else JObj [(''roomId'', JStr room)]);
          ts = the (json_or (json_get p ''timestamp'') (Some (JNum (int_num now))));
          corr = the (json_or (json_get p ''correlationId'') (Some (corr_now now)));
          ack = (case json_get p ''ackRequired'' of None \<Rightarrow> JBool True | Some JNull \<Rightarrow> JBool True | Some v \<Rightarrow> v)
      in JObj (js_set ''ackRequired'' ack (js_set ''correlationId'' corr (js_set ''timestamp'' ts (js_set ''target'' tgt kvs)))))"

definition legacy_frame :: "browser \<Rightarrow> int \<Rightarrow> string \<Rightarrow> json \<Rightarrow> json" where
  "legacy_frame B now room p =
     (let payloadData = (case json_get p ''payload'' of Some v \<Rightarrow> v | None \<Rightarrow> (case json_get p ''data'' of Some v \<Rightarrow> v | None \<Rightarrow> p));
          r = the (json_or (opt_get (json_get p ''target'') ''roomId'') (json_or (json_get p ''room'') (Some (JStr room))));
          pl = (if is_object (Some payloadData) then payloadData else JObj [(''content'', JStr (brString B payloadData))])
      in message_frame now r pl (the (json_or (json_get p ''correlationId'') (Some (corr_now now)))))"

definition broadcast_frame :: "browser \<Rightarrow> int \<Rightarrow> string \<Rightarrow> string \<Rightarrow> json" where
  "broadcast_frame B now room text =
     (case brParse B text of
        None \<Rightarrow> message_frame now (JStr room) (JObj [(''content'', JStr text)]) (corr_now now)
      | Some (JObj kvs) \<Rightarrow>
          let type = json_get (JObj kvs) ''type''
          in if type = Some (JStr ''ROOM_MESSAGE'') \<or> type = Some (JStr ''DIRECT_MESSAGE'') then canonical_frame now room kvs
             else if type = Some (JStr ''MESSAGE_SEND'') \<or> type = Some (JStr ''BROADCAST'') then legacy_frame B now room (JObj kvs)
             else message_frame now (JStr room) (JObj kvs) (corr_now now)
      | Some p \<Rightarrow> message_frame now (JStr room) (JObj [(''content'', p)]) (corr_now now))"

definition handleBroadcast :: "browser \<Rightarrow> int \<Rightarrow> sandbox \<times> hook \<Rightarrow> sandbox \<times> hook" where
  "handleBroadcast B now s =
     (case s of (sb, h) \<Rightarrow>
        if hkStatus h \<noteq> UiConnected then (sb, h)
        else (sb, snd (sendRaw B now (MessageObject (broadcast_frame B now (room_of_input (sbRoomInput sb)) (sbPayload sb))) h)))"

section \<open>What is listed\<close>

definition filteredFrames :: "frame_direction option \<Rightarrow> hook \<Rightarrow> wire_frame list" where
  "filteredFrames directionFilter h =
     filter (\<lambda>f. case directionFilter of None \<Rightarrow> True | Some d \<Rightarrow> frDirection f = d) (hkFrames h)"

definition displayContent :: "bool \<Rightarrow> activity \<Rightarrow> string" where
  "displayContent expanded a =
     (if length (actContent a) > 350 \<and> \<not> expanded
      then take 300 (actContent a) @ ''... [truncated, '' @ digits_of_nat (length (actContent a)) @ '' chars total]''
      else actContent a)"

section \<open>The server accepts what the page makes of a text\<close>

text \<open>A text that is not a JSON object with one of the types the page treats apart.\<close>

definition plain_text :: "browser \<Rightarrow> string \<Rightarrow> bool" where
  "plain_text B text \<longleftrightarrow>
     (case brParse B text of
        Some (JObj kvs) \<Rightarrow> kvs \<noteq> [] \<and> map_of kvs ''type'' \<notin> Some ` JStr ` {''ROOM_MESSAGE'', ''DIRECT_MESSAGE'', ''MESSAGE_SEND'', ''BROADCAST''}
      | _ \<Rightarrow> True)"

lemma plain_frame:
  assumes "plain_text B text"
  obtains kvs where "broadcast_frame B now room text = message_frame now (JStr room) (JObj kvs) (corr_now now)" "kvs \<noteq> []"
proof (cases "brParse B text")
  case None
  then show ?thesis by (intro that [of "[(''content'', JStr text)]"]) (simp_all add: broadcast_frame_def)
next
  case (Some p)
  show ?thesis
  proof (cases p)
    case (JObj kvs)
    then show ?thesis using assms Some by (intro that [of kvs]) (auto simp: broadcast_frame_def plain_text_def)
  qed (use Some in \<open>auto intro!: that [of "[(''content'', p)]"] simp: broadcast_frame_def\<close>)
qed

lemma message_accepted:
  assumes "room \<noteq> []" "js_trim room = room" "kvs \<noteq> []" "now > 0"
  shows "\<exists>e rt'. validateParsed rnd srvNow (json_reparse (message_frame now (JStr room) (JObj kvs) (JStr corr))) sender rt = (Inr e, rt') \<and>
    evType e = ROOM_MESSAGE \<and> target_room (target e) = Some room \<and> correlationId e = Some corr \<and> ackRequired e = Some True \<and>
    payload e = json_reparse (JObj kvs) \<and> senderId e = sender"
proof -
  let ?kvs = "map (map_prod id json_reparse) kvs"
  obtain eid rt' where id: "pick_event_id rnd srvNow None rt = (eid, rt')" by fastforce
  have f: "find_event_type ''ROOM_MESSAGE'' = Some ROOM_MESSAGE" by (simp add: find_event_type_def VALID_EVENT_TYPES_def)
  let ?t = "resolve_target (Some (JObj [(''roomId'', JStr room)])) ?kvs"
  have t: "target_room ?t = Some room"
    using assms(1,2) by (auto simp: resolve_target_def fill_recipient_def fill_room_def base_target_def split: option.splits)
  have q: "type_requirements ROOM_MESSAGE ?t ?kvs = None"
    using t assms(1,3) by (simp add: type_requirements_def)
  show ?thesis
    using id f t q
    by (simp add: message_frame_def validateParsed_def build_envelope_def pick_seq_def pick_payload_def pick_origin_def pick_origin_ts_def
        Let_def)
qed

lemma room_of_input_ok: "room_of_input input \<noteq> [] \<and> js_trim (room_of_input input) = room_of_input input"
  by (simp add: room_of_input_def) code_simp

lemma js_trim_lobby: "js_trim ''lobby'' = ''lobby''"
  by code_simp

lemma push_last: "hkActivities (push_activity a h) \<noteq> [] \<and> last (hkActivities (push_activity a h)) = a"
  by (simp add: push_activity_def MAX_ACTIVITIES_BUFFER_def Let_def)

text \<open>What a broadcast does on an open socket.\<close>

lemma broadcast_sends:
  assumes "hkStatus h = UiConnected" "hkSocket h = Some k" "socket_state k h = 1" "k < length (hkSockets h)"
    and "broadcast_frame B now (room_of_input (sbRoomInput sb)) (sbPayload sb) = message_frame now r (JObj kvs) c" "truthy (Some c)"
  obtains h' a where "snd (handleBroadcast B now (sb, h)) = h'"
    "uwSent (hkSockets h' ! k) = uwSent (hkSockets h ! k) @ [brText B (message_frame now r (JObj kvs) c)]"
    "hkSocket h' = Some k" "socket_state k h' = 1" "handled k h' = handled k h"
    "a \<in> set (hkActivities h')" "actDirection a = ActSent" "actStatus a = ActPending" "actCorrelation a = Some c"
proof -
  define m where "m = message_frame now r (JObj kvs) c"
  define h1 where "h1 = send_text B now k (brText B m) h"
  define a where "a = sent_activity B now m (Suc (hkActivityIds h1))"
  define h' where "h' = push_activity a (h1\<lparr>hkActivityIds := Suc (hkActivityIds h1)\<rparr>)"
  have o: "(if is_open h then hkSocket h else None) = Some k" using assms(2,3) by (simp add: is_open_def)
  have h': "snd (handleBroadcast B now (sb, h)) = h'"
    unfolding handleBroadcast_def using assms(1) o assms(5)
    by (simp add: sendRaw_def Let_def track_sent_def h'_def a_def h1_def m_def) (simp add: message_frame_def)
  have r: "uwReady (hkSockets h ! k) = 1" using assms(3,4) by (simp add: socket_state_def)
  have s: "uwSent (hkSockets h' ! k) = uwSent (hkSockets h ! k) @ [brText B m]"
    using ws_send_sent [OF assms(4) r, of B now "brText B m"] assms(4) by (simp add: h'_def h1_def)
  have q: "quiet h h'" unfolding h'_def h1_def by (rule quiet_trans [OF quiet_send_text quiet_record])
  have a: "actDirection a = ActSent" "actStatus a = ActPending" "actCorrelation a = Some c"
    using assms(6) by (simp_all add: a_def m_def sent_activity_def message_frame_def truthy_or_none_def Let_def)
  have n: "a \<in> set (hkActivities h')" using push_last last_in_set unfolding h'_def by metis
  show ?thesis
    using q assms(2,3) by (intro that [OF h' s [unfolded m_def] _ _ _ n a]) (simp_all add: quiet_def)
qed

text \<open>What an acknowledgement of the server does.\<close>

lemma ack_reconciles:
  assumes "hkSocket h = Some k" "socket_state k h = 1" "handled k h" "evType ack = DELIVERY_ACK" "correlationId ack = Some c" "c \<noteq> []"
    and "brParse B raw = Some (json_reparse (envelope_json ack))" "raw \<noteq> []"
  shows "hkActivities (ui_step B now rnd (WsMessage k (TextData raw)) h) =
    map (\<lambda>a. if awaits (JStr c) a then a\<lparr>actStatus := ActDelivered, actAckAt := Some (brClockTime B now)\<rparr> else a) (hkActivities h)"
proof -
  obtain kvs where j: "json_reparse (envelope_json ack) = JObj kvs" by (simp add: envelope_json_def)
  have t: "json_get (JObj kvs) ''type'' = Some (JStr ''DELIVERY_ACK'')" "json_get (JObj kvs) ''correlationId'' = Some (JStr c)"
    unfolding j [symmetric] json_get_reparse using assms(4,5) by (auto simp: envelope_json_def opt_field_def split: option.splits)
  have r: "reply_correlation (JObj kvs) = Some (JStr c)" using t(2) assms(6) by (simp add: reply_correlation_def json_or_def)
  have p: "brParse B raw = Some (JObj kvs)" using assms(7) j by simp
  show ?thesis
    using assms(1-3,6,8) p by (simp add: ui_on_message_def dispatch_message_def t [simplified] r reconcile_def Let_def)
qed

section \<open>A typed message, from the page to the server and back\<close>


definition open_hook :: hook where
  "open_hook = new_hook\<lparr>hkStatus := UiConnected, hkSocket := Some 0, hkSockets := [\<lparr>uwReady = 1, uwHandlers = True, uwSent = []\<rparr>]\<rparr>"

definition typed_sandbox :: sandbox where
  "typed_sandbox = (new_sandbox None None None)\<lparr>sbPayload := ''hello''\<rparr>"

definition typed_parse :: "string \<Rightarrow> json option" where
  "typed_parse s = Some (json_reparse (message_frame 5 (JStr ''lobby'') (JObj [(''content'', JStr ''hello'')]) (corr_now 5)))"


section \<open>The stored session\<close>

definition page_back :: "browser \<Rightarrow> string option \<Rightarrow> page_location option \<Rightarrow> sandbox \<times> hook \<Rightarrow> sandbox \<times> hook" where
  "page_back B viteUrl loc s = (new_sandbox viteUrl loc (sbStored (fst (unmount_sandbox B s))), new_hook)"

text \<open>
  A page left while it is connected or on the way comes back with the same server, token and room, and
  opens the connection its button would open; a page that was disconnected with the button comes back idle. The
  text stored on leaving is parsed to what was written.
\<close>

theorem session_resumes:
  assumes "brParse B (brText B (stored_session sb)) = Some (stored_session sb)" "brText B (stored_session sb) \<noteq> []"
    and "sbServerUrl sb \<noteq> []" "sbRoomInput sb \<noteq> []"
    and "hkStatus h \<in> {UiConnected, UiConnecting, UiReconnecting}"
  shows "(\<exists>sb'. resume_session B rnd (page_back B viteUrl loc (sb, h)) = (sb', snd (handleConnectToggle B rnd (sb, new_hook))) \<and>
      sbServerUrl sb' = sbServerUrl sb \<and> sbAuthToken sb' = sbAuthToken sb \<and> sbRoomInput sb' = sbRoomInput sb) \<and>
    resume_session B rnd (page_back B viteUrl loc (handleConnectToggle B rnd (sb, h))) = (new_sandbox viteUrl loc None, new_hook)"
proof -
  have st: "sbStored (fst (unmount_sandbox B (sb, h))) = Some (brText B (stored_session sb))"
    using assms(5) by (auto simp: unmount_sandbox_def)
  have n: "hkStatus new_hook = UiDisconnected" by (simp add: new_hook_def)
  have t: "with_token (sbServerUrl sb) (if sbAuthToken sb = [] then [] else sbAuthToken sb) = with_token (sbServerUrl sb) (sbAuthToken sb)"
    by simp
  have "\<exists>sb'. resume_session B rnd (page_back B viteUrl loc (sb, h)) = (sb', snd (handleConnectToggle B rnd (sb, new_hook))) \<and>
      sbServerUrl sb' = sbServerUrl sb \<and> sbAuthToken sb' = sbAuthToken sb \<and> sbRoomInput sb' = sbRoomInput sb"
    unfolding page_back_def st using assms(1-4) n
    by (cases "sbAuthToken sb = []")
      (simp_all add: resume_session_def new_sandbox_def handleConnectToggle_def stored_session_def)
  moreover have "sbStored (fst (unmount_sandbox B (handleConnectToggle B rnd (sb, h)))) = None"
    using assms(5) by (auto simp: unmount_sandbox_def handleConnectToggle_def ui_disconnect_def)
  then have "resume_session B rnd (page_back B viteUrl loc (handleConnectToggle B rnd (sb, h))) = (new_sandbox viteUrl loc None, new_hook)"
    unfolding page_back_def by (simp add: resume_session_def new_sandbox_def)
  ultimately show ?thesis by blast
qed

definition session_browser :: browser where
  "session_browser = plain_browser\<lparr>brText := (\<lambda>j. ''session''), brParse := (\<lambda>s. Some (stored_session typed_sandbox))\<rparr>"

lemma session_resumes_witness:
  "\<exists>sb'. sbServerUrl sb' = ''ws://127.0.0.1:8085/ws'' \<and> sbRoomInput sb' = ''lobby'' \<and>
    resume_session session_browser 0 (page_back session_browser None None (typed_sandbox, open_hook)) =
      (sb', snd (handleConnectToggle session_browser 0 (typed_sandbox, new_hook)))"
proof -
  have f: "brParse session_browser (brText session_browser (stored_session typed_sandbox)) = Some (stored_session typed_sandbox)"
    "brText session_browser (stored_session typed_sandbox) \<noteq> []" by (simp_all add: session_browser_def)
  have u: "sbServerUrl typed_sandbox = ''ws://127.0.0.1:8085/ws''" "sbRoomInput typed_sandbox = ''lobby''"
    by (simp_all add: typed_sandbox_def new_sandbox_def defaultWsUrl_def)
  have o: "hkStatus open_hook \<in> {UiConnected, UiConnecting, UiReconnecting}" by (simp add: open_hook_def)
  show ?thesis
    using session_resumes [where B = session_browser and sb = typed_sandbox and h = open_hook and viteUrl = None and loc = None
        and rnd = 0, OF f _ _ o] u by auto
qed

end
