(* ===== verification/Bench_Stats.thy ===== *)
theory Bench_Stats
  imports Config
begin

text \<open>
  \<^verbatim>\<open>bench/StatsAggregator.ts\<close> and \<^verbatim>\<open>bench/types.ts\<close>: what a benchmark counts, the percentiles of its latencies
  and its verdict. Latencies that are not finite are ignored by the code, so that the samples are rationals;
  the counts passed by the callers are natural numbers. \<^verbatim>\<open>String(n)\<close> is a parameter.
\<close>

section \<open>Configuration and state\<close>

datatype bench_profile = BroadcastProfile | DirectProfile | PresenceProfile | RampProfile | BackpressureProfile

record bench_config =
  bcTarget :: string
  bcProfile :: bench_profile
  bcConnections :: jsnum
  bcDurationSec :: jsnum
  bcRampRate :: jsnum
  bcMessageRate :: jsnum
  bcRooms :: jsnum
  bcAuthSecret :: string
  bcJson :: bool
  bcForce :: bool

record aggregator =
  agConfig :: bench_config
  agStart :: int
  agEnd :: int
  agAttempted :: nat
  agEstablished :: nat
  agFailed :: nat
  agSent :: nat
  agReceived :: nat
  agDropped :: nat
  agLatencies :: "rat list"
  agConnectLatencies :: "rat list"
  agErrors :: "string list"

definition new_StatsAggregator :: "bench_config \<Rightarrow> int \<Rightarrow> aggregator" where
  "new_StatsAggregator cfg now =
     \<lparr>agConfig = cfg, agStart = now, agEnd = 0, agAttempted = 0, agEstablished = 0, agFailed = 0, agSent = 0, agReceived = 0,
      agDropped = 0, agLatencies = [], agConnectLatencies = [], agErrors = []\<rparr>"

section \<open>Recording\<close>

text \<open>\<^verbatim>\<open>if (Number.isFinite(latencyMs)) samples.push(Math.max(0, latencyMs))\<close>\<close>

fun push_sample :: "jsnum option \<Rightarrow> rat list \<Rightarrow> rat list" where
  "push_sample (Some (FinNum x)) xs = xs @ [max 0 x]"
| "push_sample _ xs = xs"

definition recordConnectionAttempt :: "aggregator \<Rightarrow> aggregator" where
  "recordConnectionAttempt ag = ag\<lparr>agAttempted := agAttempted ag + 1\<rparr>"

definition recordConnectionSuccess :: "jsnum option \<Rightarrow> aggregator \<Rightarrow> aggregator" where
  "recordConnectionSuccess latencyMs ag =
     ag\<lparr>agEstablished := agEstablished ag + 1, agConnectLatencies := push_sample latencyMs (agConnectLatencies ag)\<rparr>"

definition recordError :: "string \<Rightarrow> aggregator \<Rightarrow> aggregator" where
  "recordError error ag =
     (if error \<noteq> [] \<and> error \<notin> set (agErrors ag) then ag\<lparr>agErrors := agErrors ag @ [error]\<rparr> else ag)"

definition recordConnectionFailure :: "string option \<Rightarrow> aggregator \<Rightarrow> aggregator" where
  "recordConnectionFailure error ag =
     (let ag1 = ag\<lparr>agFailed := agFailed ag + 1\<rparr>
      in if str_truthy error \<and> the error \<notin> set (agErrors ag1) then ag1\<lparr>agErrors := agErrors ag1 @ [the error]\<rparr> else ag1)"

definition recordSent :: "nat \<Rightarrow> aggregator \<Rightarrow> aggregator" where
  "recordSent count ag = ag\<lparr>agSent := agSent ag + count\<rparr>"

definition recordReceived :: "nat \<Rightarrow> jsnum option \<Rightarrow> aggregator \<Rightarrow> aggregator" where
  "recordReceived count latencyMs ag =
     ag\<lparr>agReceived := agReceived ag + count, agLatencies := push_sample latencyMs (agLatencies ag)\<rparr>"

definition recordDropped :: "nat \<Rightarrow> aggregator \<Rightarrow> aggregator" where
  "recordDropped count ag = ag\<lparr>agDropped := agDropped ag + count\<rparr>"

definition recordLatency :: "jsnum \<Rightarrow> aggregator \<Rightarrow> aggregator" where
  "recordLatency latencyMs ag = ag\<lparr>agLatencies := push_sample (Some latencyMs) (agLatencies ag)\<rparr>"

definition finish_bench :: "int \<Rightarrow> aggregator \<Rightarrow> aggregator" where
  "finish_bench now ag = ag\<lparr>agEnd := now\<rparr>"

section \<open>Percentiles\<close>

text \<open>\<^verbatim>\<open>Math.round(x)\<close>, and the rounding to a number of decimals built on it.\<close>

definition js_round :: "rat \<Rightarrow> int" where
  "js_round x = \<lfloor>x + 1 / 2\<rfloor>"

definition round_to :: "rat \<Rightarrow> rat \<Rightarrow> rat" where
  "round_to unit x = of_int (js_round (x * unit)) / unit"

record percentile_stats =
  minMs :: rat
  maxMs :: rat
  meanMs :: rat
  p50Ms :: rat
  p90Ms :: rat
  p95Ms :: rat
  p99Ms :: rat
  sampleCount :: nat

definition interpolate :: "rat list \<Rightarrow> rat \<Rightarrow> rat" where
  "interpolate ordered index =
     (let lower = \<lfloor>index\<rfloor>; upper = \<lceil>index\<rceil>; weight = index - of_int lower
      in ordered ! nat lower * (1 - weight) + ordered ! nat upper * weight)"

definition getPercentile :: "rat list \<Rightarrow> rat \<Rightarrow> rat" where
  "getPercentile ordered p =
     (if length ordered = 1 then ordered ! 0 else round_to 100 (interpolate ordered (p / 100 * (of_nat (length ordered) - 1))))"

definition calculatePercentiles :: "rat list \<Rightarrow> percentile_stats" where
  "calculatePercentiles samples =
     (if samples = []
      then \<lparr>minMs = 0, maxMs = 0, meanMs = 0, p50Ms = 0, p90Ms = 0, p95Ms = 0, p99Ms = 0, sampleCount = 0\<rparr>
      else
        let ordered = sort samples; count = length ordered; total = foldl (+) 0 ordered
        in \<lparr>minMs = round_to 100 (ordered ! 0), maxMs = round_to 100 (ordered ! (count - 1)),
            meanMs = round_to 100 (total / of_nat count), p50Ms = getPercentile ordered 50, p90Ms = getPercentile ordered 90,
            p95Ms = getPercentile ordered 95, p99Ms = getPercentile ordered 99, sampleCount = count\<rparr>)"

section \<open>The result\<close>

text \<open>\<^verbatim>\<open>x.toFixed(d)\<close> below \<^verbatim>\<open>1e21\<close>: of the nearest multiples of the unit the larger, written with \<open>d\<close> decimals.\<close>

definition js_toFixed :: "nat \<Rightarrow> rat \<Rightarrow> string" where
  "js_toFixed d x =
     (let n = nat (js_round (\<bar>x\<bar> * 10 ^ d));
          whole = digits_of_nat (n div 10 ^ d); decimals = digits_of_nat (n mod 10 ^ d)
      in (if x < 0 then ''-'' else []) @ whole @
         (if d = 0 then [] else CHR ''.'' # replicate (d - length decimals) CHR ''0'' @ decimals))"

record bench_result =
  brProfile :: bench_profile
  brTarget :: string
  brDurationSec :: rat
  brAttempted :: nat
  brEstablished :: nat
  brFailed :: nat
  brMessagesSent :: nat
  brMessagesReceived :: nat
  brMessagesDropped :: nat
  deliveryRatePercent :: rat
  throughputMsgPerSec :: rat
  brLatency :: percentile_stats
  brConnectLatency :: percentile_stats
  brErrors :: "string list"
  brPassed :: bool
  slaViolations :: "string list"

definition duration_sec :: "aggregator \<Rightarrow> rat" where
  "duration_sec ag = max (1 / 1000) (of_int (agEnd ag - agStart ag) / 1000)"

definition delivery_rate :: "nat \<Rightarrow> nat \<Rightarrow> rat" where
  "delivery_rate received sent =
     (if sent > 0 then min 100 (of_int (js_round (of_nat received / of_nat sent * 10000)) / 100) else 100)"

definition sla_violations :: "(rat \<Rightarrow> string) \<Rightarrow> aggregator \<Rightarrow> percentile_stats \<Rightarrow> string list" where
  "sla_violations numStr ag latencyStats =
     (let failures = of_nat (agFailed ag) / of_nat (agAttempted ag)
      in (if agAttempted ag > 0 \<and> failures > 5 / 100
          then [''Connection failure rate ('' @ js_toFixed 1 (failures * 100) @ ''%) exceeded 5% threshold''] else []) @
         (if sampleCount latencyStats > 0 \<and> p95Ms latencyStats > 100
          then [''p95 latency ('' @ numStr (p95Ms latencyStats) @ ''ms) exceeded 100ms threshold''] else []))"

definition computeResult :: "(rat \<Rightarrow> string) \<Rightarrow> int \<Rightarrow> aggregator \<Rightarrow> bench_result \<times> aggregator" where
  "computeResult numStr now ag0 =
     (let ag = (if agEnd ag0 = 0 then ag0\<lparr>agEnd := now\<rparr> else ag0);
          latencyStats = calculatePercentiles (agLatencies ag);
          violations = sla_violations numStr ag latencyStats
      in (\<lparr>brProfile = bcProfile (agConfig ag), brTarget = bcTarget (agConfig ag), brDurationSec = round_to 10 (duration_sec ag),
           brAttempted = agAttempted ag, brEstablished = agEstablished ag, brFailed = agFailed ag, brMessagesSent = agSent ag,
           brMessagesReceived = agReceived ag, brMessagesDropped = agDropped ag,
           deliveryRatePercent = delivery_rate (agReceived ag) (agSent ag),
           throughputMsgPerSec = round_to 10 (of_nat (agReceived ag) / duration_sec ag),
           brLatency = latencyStats, brConnectLatency = calculatePercentiles (agConnectLatencies ag), brErrors = agErrors ag,
           brPassed = (violations = [] \<and> agFailed ag = 0), slaViolations = violations\<rparr>, ag))"

section \<open>Percentiles are ordered\<close>

lemma round_to_mono: "0 < u \<Longrightarrow> x \<le> y \<Longrightarrow> round_to u x \<le> round_to u y"
  unfolding round_to_def js_round_def by (intro divide_right_mono) (simp_all add: floor_mono mult_right_mono)

lemma interpolate_low:
  assumes "sorted xs" "0 \<le> i" "i \<le> of_nat (length xs - 1)" "xs \<noteq> []"
  shows "xs ! nat \<lfloor>i\<rfloor> \<le> interpolate xs i" "interpolate xs i \<le> xs ! nat \<lceil>i\<rceil>"
proof -
  define w where "w = i - of_int \<lfloor>i\<rfloor>"
  have w: "0 \<le> w" "w \<le> 1" unfolding w_def by linarith+
  have "\<lceil>i\<rceil> \<le> int (length xs - 1)" using assms(3) by (simp add: ceiling_le_iff)
  then have u: "nat \<lceil>i\<rceil> < length xs" using assms(4) by (cases xs) auto
  have "nat \<lfloor>i\<rfloor> \<le> nat \<lceil>i\<rceil>" by (simp add: nat_mono)
  then have le: "xs ! nat \<lfloor>i\<rfloor> \<le> xs ! nat \<lceil>i\<rceil>" using assms(1) u by (simp add: sorted_nth_mono)
  have e: "interpolate xs i = xs ! nat \<lfloor>i\<rfloor> + (xs ! nat \<lceil>i\<rceil> - xs ! nat \<lfloor>i\<rfloor>) * w"
    by (simp add: interpolate_def w_def Let_def algebra_simps)
  show "xs ! nat \<lfloor>i\<rfloor> \<le> interpolate xs i" unfolding e using le w by simp
  have "(xs ! nat \<lceil>i\<rceil> - xs ! nat \<lfloor>i\<rfloor>) * w \<le> xs ! nat \<lceil>i\<rceil> - xs ! nat \<lfloor>i\<rfloor>"
    using le w by (intro mult_left_le) simp_all
  then show "interpolate xs i \<le> xs ! nat \<lceil>i\<rceil>" unfolding e by simp
qed

lemma interpolate_mono:
  assumes "sorted xs" "xs \<noteq> []" "0 \<le> i" "i \<le> j" "j \<le> of_nat (length xs - 1)"
  shows "interpolate xs i \<le> interpolate xs j"
proof (cases "\<lfloor>i\<rfloor> = \<lfloor>j\<rfloor>")
  case True
  show ?thesis
  proof (cases "i = of_int \<lfloor>i\<rfloor>")
    case True': True
    then have "interpolate xs i = xs ! nat \<lfloor>j\<rfloor>" using True by (simp add: interpolate_def Let_def)
    then show ?thesis using interpolate_low(1) [OF assms(1) _ assms(5,2)] assms(3,4) by simp
  next
    case False
    then have "j \<noteq> of_int \<lfloor>j\<rfloor>" using assms(4) True by (metis floor_correct order.antisym)
    then have c: "\<lceil>i\<rceil> = \<lceil>j\<rceil>" using False True by (simp add: ceiling_altdef)
    have "\<lceil>j\<rceil> \<le> int (length xs - 1)" using assms(5) by (simp add: ceiling_le_iff)
    then have u: "nat \<lceil>j\<rceil> < length xs" using assms(2) by (cases xs) auto
    have "nat \<lfloor>j\<rfloor> \<le> nat \<lceil>j\<rceil>" by (simp add: nat_mono)
    then have d: "0 \<le> xs ! nat \<lceil>j\<rceil> - xs ! nat \<lfloor>j\<rfloor>" using assms(1) u by (simp add: sorted_nth_mono)
    have e: "interpolate xs k = xs ! nat \<lfloor>k\<rfloor> + (xs ! nat \<lceil>k\<rceil> - xs ! nat \<lfloor>k\<rfloor>) * (k - of_int \<lfloor>k\<rfloor>)" for k
      by (simp add: interpolate_def Let_def algebra_simps)
    show ?thesis unfolding e c True using mult_left_mono [OF _ d] assms(4) by simp
  qed
next
  case False
  then have lt: "\<lfloor>i\<rfloor> < \<lfloor>j\<rfloor>" using floor_mono [OF assms(4)] by simp
  then have "\<lceil>i\<rceil> \<le> \<lfloor>j\<rfloor>" using ceiling_diff_floor_le_1 [of i] by linarith
  then have le: "nat \<lceil>i\<rceil> \<le> nat \<lfloor>j\<rfloor>" by (rule nat_mono)
  have "\<lfloor>j\<rfloor> \<le> int (length xs - 1)" using floor_mono [OF assms(5)] by simp
  then have u: "nat \<lfloor>j\<rfloor> < length xs" using assms(2) by (cases xs) auto
  have "interpolate xs i \<le> xs ! nat \<lceil>i\<rceil>" using assms by (intro interpolate_low) auto
  also have "\<dots> \<le> xs ! nat \<lfloor>j\<rfloor>" using assms(1) le u by (rule sorted_nth_mono)
  also have "\<dots> \<le> interpolate xs j" using assms by (intro interpolate_low) auto
  finally show ?thesis .
qed

lemma interpolate_nat: "interpolate xs (of_nat k) = xs ! k"
  by (simp add: interpolate_def Let_def)

lemma percentile_mono:
  assumes "sorted xs" "length xs \<ge> 2" "0 \<le> p" "p \<le> q" "q \<le> 100"
  shows "round_to 100 (xs ! 0) \<le> getPercentile xs p" "getPercentile xs p \<le> getPercentile xs q"
    "getPercentile xs q \<le> round_to 100 (xs ! (length xs - 1))"
proof -
  let ?n = "of_nat (length xs) - 1 :: rat"
  have n: "0 \<le> ?n" "?n = of_nat (length xs - 1)" using assms(2) by (auto simp: of_nat_diff)
  have ne: "xs \<noteq> []" "length xs \<noteq> 1" using assms(2) by auto
  have i: "0 \<le> p / 100 * ?n" "p / 100 * ?n \<le> q / 100 * ?n"
    using assms(3,4) n(1) by (simp_all add: mult_right_mono)
  have "q / 100 * ?n \<le> 1 * ?n" using assms(5) n(1) by (intro mult_right_mono) simp_all
  then have "q / 100 * ?n \<le> ?n" by (simp only: mult_1)
  then have j: "q / 100 * ?n \<le> of_nat (length xs - 1)" by (simp only: n(2) [symmetric])
  have first: "interpolate xs 0 = xs ! 0" by (simp add: interpolate_def)
  have last: "interpolate xs (of_nat (length xs - 1)) = xs ! (length xs - 1)" by (rule interpolate_nat)
  have zero: "(0 :: rat) \<le> 0" by simp
  have p0: "p / 100 * ?n \<le> of_nat (length xs - 1)" using i(2) j by (rule order_trans)
  have q0: "0 \<le> q / 100 * ?n" using i by (rule order_trans)
  have low: "interpolate xs 0 \<le> interpolate xs (p / 100 * ?n)"
    by (rule interpolate_mono [OF assms(1) ne(1) zero i(1) p0])
  have mid: "interpolate xs (p / 100 * ?n) \<le> interpolate xs (q / 100 * ?n)"
    by (rule interpolate_mono [OF assms(1) ne(1) i j])
  have top: "interpolate xs (q / 100 * ?n) \<le> interpolate xs (of_nat (length xs - 1))"
    by (rule interpolate_mono [OF assms(1) ne(1) q0 j order_refl])
  have g: "getPercentile xs r = round_to 100 (interpolate xs (r / 100 * ?n))" for r
    using ne(2) by (simp add: getPercentile_def)
  show "round_to 100 (xs ! 0) \<le> getPercentile xs p" unfolding g using round_to_mono [OF _ low, of 100] by (simp add: first)
  show "getPercentile xs p \<le> getPercentile xs q" unfolding g using round_to_mono [OF _ mid, of 100] by simp
  show "getPercentile xs q \<le> round_to 100 (xs ! (length xs - 1))"
    unfolding g using round_to_mono [OF _ top [unfolded last], of 100] by simp
qed

lemma mean_between:
  assumes "sorted xs" "xs \<noteq> []"
  shows "xs ! 0 \<le> foldl (+) 0 xs / of_nat (length xs)" "foldl (+) 0 xs / of_nat (length xs) \<le> (xs ! (length xs - 1) :: rat)"
proof -
  have "foldl (+) a ys = a + sum_list ys" for a :: rat and ys by (induction ys arbitrary: a) simp_all
  then have t: "foldl (+) 0 xs = sum_list xs" by simp
  have "sum_list (map (\<lambda>_. xs ! 0) xs) \<le> sum_list (map (\<lambda>x. x) xs)"
    using assms by (intro sum_list_mono) (metis in_set_conv_nth le0 sorted_nth_mono)
  then have l: "of_nat (length xs) * (xs ! 0) \<le> sum_list xs" by (simp add: sum_list_triv)
  have "sum_list (map (\<lambda>x. x) xs) \<le> sum_list (map (\<lambda>_. xs ! (length xs - 1)) xs)"
    using assms by (intro sum_list_mono) (metis One_nat_def Suc_pred diff_less in_set_conv_nth length_greater_0_conv lessI less_Suc_eq_le sorted_nth_mono)
  then have u: "sum_list xs \<le> of_nat (length xs) * (xs ! (length xs - 1))" by (simp add: sum_list_triv)
  have n: "(0 :: rat) < of_nat (length xs)" using assms(2) by simp
  show "xs ! 0 \<le> foldl (+) 0 xs / of_nat (length xs)" using l n by (simp add: t le_divide_eq mult.commute)
  show "foldl (+) 0 xs / of_nat (length xs) \<le> xs ! (length xs - 1)" using u n by (simp add: t divide_le_eq mult.commute)
qed

text \<open>
  C38: unless there is exactly one sample, the statistics of a benchmark are in order: minimum, median, the
  percentiles 90, 95 and 99, and maximum ascend, the mean lies between minimum and maximum, the count is the
  number of samples, and the order in which the samples came does not matter.
\<close>
theorem percentiles_ordered:
  assumes "length samples \<noteq> 1" "sort other = sort samples"
  shows "let s = calculatePercentiles samples
    in sampleCount s = length samples \<and> minMs s \<le> p50Ms s \<and> p50Ms s \<le> p90Ms s \<and> p90Ms s \<le> p95Ms s \<and> p95Ms s \<le> p99Ms s \<and>
       p99Ms s \<le> maxMs s \<and> minMs s \<le> meanMs s \<and> meanMs s \<le> maxMs s \<and> calculatePercentiles other = s"
proof (cases "samples = []")
  case True
  then have "other = []" using assms(2) by (metis sort_key_simps(1) length_0_conv length_sort)
  then show ?thesis using True by (simp add: calculatePercentiles_def)
next
  case False
  define xs where "xs = sort samples"
  have len: "length xs = length samples" by (simp add: xs_def)
  then have two: "length xs \<ge> 2" "xs \<noteq> []" using False assms(1) by (cases samples; cases "tl samples"; auto)+
  have so: "sorted xs" by (simp add: xs_def)
  have c: "calculatePercentiles samples =
      \<lparr>minMs = round_to 100 (xs ! 0), maxMs = round_to 100 (xs ! (length xs - 1)),
       meanMs = round_to 100 (foldl (+) 0 xs / of_nat (length xs)), p50Ms = getPercentile xs 50, p90Ms = getPercentile xs 90,
       p95Ms = getPercentile xs 95, p99Ms = getPercentile xs 99, sampleCount = length xs\<rparr>"
    using False by (simp add: calculatePercentiles_def xs_def Let_def)
  have "other \<noteq> []" using False assms(2) by (metis sort_key_simps(1) length_0_conv length_sort)
  then have o: "calculatePercentiles other = calculatePercentiles samples" using False assms(2) by (simp add: calculatePercentiles_def)
  note m = percentile_mono [OF so two(1)]
  have "round_to 100 (xs ! 0) \<le> getPercentile xs 50" by (rule m(1) [of 50 50]) simp_all
  moreover have "getPercentile xs 50 \<le> getPercentile xs 90" "getPercentile xs 90 \<le> getPercentile xs 95"
    "getPercentile xs 95 \<le> getPercentile xs 99" by (rule m(2); simp)+
  moreover have "getPercentile xs 99 \<le> round_to 100 (xs ! (length xs - 1))" by (rule m(3) [of 99 99]) simp_all
  moreover have "round_to 100 (xs ! 0) \<le> round_to 100 (foldl (+) 0 xs / of_nat (length xs))"
    "round_to 100 (foldl (+) 0 xs / of_nat (length xs)) \<le> round_to 100 (xs ! (length xs - 1))"
    using mean_between [OF so two(2)] by (simp_all add: round_to_mono)
  ultimately show ?thesis using len by (simp add: o c Let_def)
qed

lemma percentiles_ordered_witness:
  "p50Ms (calculatePercentiles [3, 1, 2]) \<le> p90Ms (calculatePercentiles [3, 1, 2]) \<and> calculatePercentiles [1, 2, 3] = calculatePercentiles [3, 1, 2]"
  using percentiles_ordered [of "[3, 1, 2]" "[1, 2, 3]"] by (simp add: Let_def)

text \<open>One sample is reported unrounded between rounded extremes, so that the median can exceed the maximum.\<close>

lemma single_sample_unrounded: "maxMs (calculatePercentiles [1 / 250]) = 0 \<and> p50Ms (calculatePercentiles [1 / 250]) = 1 / 250"
  by (simp add: calculatePercentiles_def getPercentile_def round_to_def js_round_def floor_eq_iff)

section \<open>The verdict\<close>

text \<open>
  A benchmark passes exactly when no connection failed and the 95th percentile of the latencies, if there are
  any, is at most 100 ms. The delivery rate is a percentage, and it is 100 as soon as as many messages came in as
  were sent, whatever the number of receivers each was meant for.
\<close>
theorem benchmark_verdict:
  "let r = fst (computeResult numStr now ag)
   in (brPassed r \<longleftrightarrow> agFailed ag = 0 \<and> (agLatencies ag = [] \<or> p95Ms (brLatency r) \<le> 100)) \<and>
     0 \<le> deliveryRatePercent r \<and> deliveryRatePercent r \<le> 100 \<and>
     (agReceived ag < agSent ag \<or> deliveryRatePercent r = 100)"
proof -
  define r where "r = fst (computeResult numStr now ag)"
  have lat: "sampleCount (calculatePercentiles xs) > 0 \<longleftrightarrow> xs \<noteq> []" for xs
    by (simp add: calculatePercentiles_def Let_def)
  have f: "brLatency r = calculatePercentiles (agLatencies ag)" "deliveryRatePercent r = delivery_rate (agReceived ag) (agSent ag)"
    "brPassed r \<longleftrightarrow> slaViolations r = [] \<and> agFailed ag = 0"
    by (simp_all add: r_def computeResult_def Let_def)
  have s: "slaViolations r = sla_violations numStr (if agEnd ag = 0 then ag\<lparr>agEnd := now\<rparr> else ag) (calculatePercentiles (agLatencies ag))"
    by (simp add: r_def computeResult_def Let_def)
  have p: "brPassed r \<longleftrightarrow> agFailed ag = 0 \<and> (agLatencies ag = [] \<or> p95Ms (brLatency r) \<le> 100)"
    unfolding f s by (auto simp: sla_violations_def Let_def lat not_less)
  have "0 \<le> js_round (of_nat a / of_nat b * 10000)" for a b by (simp add: js_round_def)
  then have d: "0 \<le> delivery_rate a b" "delivery_rate a b \<le> 100" for a b by (simp_all add: delivery_rate_def)
  have "delivery_rate a b = 100" if "b \<le> a" for a b
  proof (cases "b = 0")
    case False
    then have "(10000 :: rat) \<le> of_nat a / of_nat b * 10000" using that by (simp add: le_divide_eq)
    then have "10000 \<le> js_round (of_nat a / of_nat b * 10000)" unfolding js_round_def by (simp add: le_floor_iff)
    then have "(100 :: rat) \<le> of_int (js_round (of_nat a / of_nat b * 10000)) / 100" by (simp add: le_divide_eq)
    then show ?thesis using False by (simp add: delivery_rate_def)
  qed (simp add: delivery_rate_def)
  then have "agReceived ag < agSent ag \<or> deliveryRatePercent r = 100" unfolding f by (metis not_less)
  with p d show ?thesis unfolding r_def [symmetric] Let_def f by simp
qed

end
