(* ===== verification/Bench_Load.thy ===== *)
theory Bench_Load
  imports Bench_Stats Server Client_Session "HOL-Library.Multiset"
begin

text \<open>
  The load profiles \<^verbatim>\<open>bench/profiles/BroadcastProfile.ts\<close>, \<^verbatim>\<open>DirectProfile.ts\<close> and \<^verbatim>\<open>RampProfile.ts\<close> as state
  machines over the events of their sockets and timers. A socket is its position among those created. The
  process dies (\<open>ldCrashed\<close>) when a socket emits \<^verbatim>\<open>error\<close> and no listener is attached.
  The lifetime of a token is read as an integer of milliseconds.
\<close>

section \<open>What the profiles share\<close>

record bench_env =
  benAuth :: auth_prims
  benRnd :: "nat \<Rightarrow> nat"
  benStr :: "jsnum \<Rightarrow> string"
  benBig :: "json \<Rightarrow> int option"
  benParse :: "string \<Rightarrow> json option"

definition life_ms :: "bench_config \<Rightarrow> int" where
  "life_ms cfg = (case bcDurationSec cfg of FinNum d \<Rightarrow> num_int (FinNum ((d + 60) * 1000)) | _ \<Rightarrow> 0)"

definition bench_url :: "bench_env \<Rightarrow> bench_config \<Rightarrow> int \<Rightarrow> string \<Rightarrow> string" where
  "bench_url E cfg now user =
     bcTarget cfg @ (if includes_str ''?'' (bcTarget cfg) then ''&'' else ''?'') @ ''token='' @
     encodeURIComponent (generateToken (benAuth E) (bcAuthSecret cfg) user (Some [''user'']) (Some (life_ms cfg)) now)"

text \<open>\<^verbatim>\<open>a % b\<close>, \<^verbatim>\<open>a + 1\<close>, \<^verbatim>\<open>Math.max(a, b)\<close> and \<^verbatim>\<open>Math.floor(1000 / b)\<close> on numbers.\<close>

fun js_rem :: "jsnum \<Rightarrow> jsnum \<Rightarrow> jsnum" where
  "js_rem (FinNum a) (FinNum b) =
     (if b = 0 then NaN else FinNum (a - b * of_int (if 0 \<le> a / b then \<lfloor>a / b\<rfloor> else \<lceil>a / b\<rceil>)))"
| "js_rem (FinNum a) PosInf = FinNum a"
| "js_rem (FinNum a) NegInf = FinNum a"
| "js_rem _ _ = NaN"

fun plus_one :: "jsnum \<Rightarrow> jsnum" where
  "plus_one (FinNum a) = FinNum (a + 1)"
| "plus_one n = n"

definition math_max :: "jsnum \<Rightarrow> jsnum \<Rightarrow> jsnum" where
  "math_max a b = (if a = NaN \<or> b = NaN then NaN else if num_less a b then b else a)"

fun per_second :: "jsnum \<Rightarrow> jsnum" where
  "per_second (FinNum r) = (if r = 0 then PosInf else FinNum (of_int \<lfloor>1000 / r\<rfloor>))"
| "per_second PosInf = FinNum 0"
| "per_second NegInf = FinNum 0"
| "per_second NaN = NaN"

text \<open>\<^verbatim>\<open>now + durationSec * 1000\<close>\<close>

fun time_after :: "int \<Rightarrow> jsnum \<Rightarrow> jsnum" where
  "time_after now (FinNum d) = FinNum (of_int now + d * 1000)"
| "time_after now d = d"

text \<open>What \<^verbatim>\<open>setTimeout\<close> makes of its delay: anything but a number from 1 to 2147483647 becomes 1.\<close>

definition timer_delay :: "jsnum \<Rightarrow> rat" where
  "timer_delay n = (case n of FinNum d \<Rightarrow> if 1 \<le> d \<and> d \<le> 2147483647 then of_int \<lfloor>d\<rfloor> else 1 | _ \<Rightarrow> 1)"

definition elapsed_ms :: "int \<Rightarrow> int \<Rightarrow> jsnum" where
  "elapsed_ms hr start = FinNum (of_int (hr - start) / 1000000)"

section \<open>Broadcast and direct messages\<close>

record load_socket =
  lsUser :: string
  lsRoom :: string
  lsPeer :: string
  lsUrl :: string
  lsStartHr :: int
  lsState :: nat
  lsOpenOnce :: bool
  lsErrorOnce :: bool
  lsMessages :: bool
  lsSent :: "json list"

text \<open>
  Where \<^verbatim>\<open>execute\<close> waits: for connection \<open>i\<close>, for the pause before the traffic, between two rounds of traffic
  up to the given time, for the last deliveries.
\<close>

datatype load_phase = LoadConnecting nat | LoadSettling | LoadTraffic jsnum | LoadDraining | LoadDone

record load_run =
  ldConfig :: bench_config
  ldAgg :: aggregator
  ldIds :: runtime
  ldSockets :: "load_socket list"
  ldClients :: "nat list"
  ldSenders :: "nat list"
  ldAcks :: nat
  ldAborted :: bool
  ldPhase :: load_phase
  ldTimer :: "jsnum option"
  ldCrashed :: bool

definition is_direct :: "load_run \<Rightarrow> bool" where
  "is_direct st \<longleftrightarrow> bcProfile (ldConfig st) = DirectProfile"

definition totalClients :: "load_run \<Rightarrow> jsnum" where
  "totalClients st = (if is_direct st then math_max (FinNum 2) (bcConnections (ldConfig st)) else bcConnections (ldConfig st))"

definition client_name :: "bool \<Rightarrow> nat \<Rightarrow> string" where
  "client_name direct i = (if direct then ''direct-client-'' else ''broadcaster-'') @ digits_of_nat (i + 1)"

definition bench_room_name :: "bench_env \<Rightarrow> bench_config \<Rightarrow> nat \<Rightarrow> string" where
  "bench_room_name E cfg i = ''room-'' @ benStr E (plus_one (js_rem (int_num (int i)) (bcRooms cfg)))"

definition peer_name :: "bench_env \<Rightarrow> jsnum \<Rightarrow> nat \<Rightarrow> string" where
  "peer_name E n i = ''direct-client-'' @ benStr E (plus_one (js_rem (int_num (int i + 1)) n))"

definition start_attempt :: "bench_env \<Rightarrow> int \<Rightarrow> int \<Rightarrow> nat \<Rightarrow> load_run \<Rightarrow> load_run" where
  "start_attempt E now hr i st =
     (let user = client_name (is_direct st) i
      in st\<lparr>ldAgg := recordConnectionAttempt (ldAgg st), ldPhase := LoadConnecting i,
            ldSockets := ldSockets st @
              [\<lparr>lsUser = user, lsRoom = (if is_direct st then [] else bench_room_name E (ldConfig st) i),
                lsPeer = (if is_direct st then peer_name E (totalClients st) i else []), lsUrl = bench_url E (ldConfig st) now user,
                lsStartHr = hr, lsState = 0, lsOpenOnce = True, lsErrorOnce = True, lsMessages = False, lsSent = []\<rparr>]\<rparr>)"

definition upd_socket :: "nat \<Rightarrow> (load_socket \<Rightarrow> load_socket) \<Rightarrow> load_run \<Rightarrow> load_run" where
  "upd_socket k f st = st\<lparr>ldSockets := (if k < length (ldSockets st) then (ldSockets st)[k := f (ldSockets st ! k)] else ldSockets st)\<rparr>"

definition client_open :: "load_run \<Rightarrow> nat \<Rightarrow> bool" where
  "client_open st k \<longleftrightarrow> k < length (ldSockets st) \<and> lsState (ldSockets st ! k) = 1"

definition join_envelope :: "string \<Rightarrow> int \<Rightarrow> load_socket \<Rightarrow> json" where
  "join_envelope eid now s =
     JObj [(''eventId'', JStr eid), (''type'', JStr ''ROOM_JOIN''), (''timestamp'', JNum (int_num now)), (''senderId'', JStr (lsUser s)),
           (''target'', JObj [(''roomId'', JStr (lsRoom s))]), (''payload'', JObj [(''roomId'', JStr (lsRoom s))])]"

definition traffic_envelope :: "bool \<Rightarrow> string \<Rightarrow> int \<Rightarrow> int \<Rightarrow> load_socket \<Rightarrow> json" where
  "traffic_envelope direct eid now hr s =
     (if direct
      then JObj [(''eventId'', JStr eid), (''type'', JStr ''DIRECT_MESSAGE''), (''timestamp'', JNum (int_num now)),
             (''senderId'', JStr (lsUser s)), (''target'', JObj [(''recipientId'', JStr (lsPeer s))]), (''ackRequired'', JBool True),
             (''payload'', JObj [(''text'', JStr ''Pulse empirical benchmark unicast payload''), (''sentAtHr'', JStr (js_int_str hr))])]
      else JObj [(''eventId'', JStr eid), (''type'', JStr ''ROOM_MESSAGE''), (''timestamp'', JNum (int_num now)),
             (''senderId'', JStr (lsUser s)), (''target'', JObj [(''roomId'', JStr (lsRoom s))]),
             (''payload'', JObj [(''text'', JStr ''Pulse empirical benchmark broadcast frame''), (''sentAtHr'', JStr (js_int_str hr))])])"

definition send_join :: "bench_env \<Rightarrow> int \<Rightarrow> nat \<Rightarrow> load_run \<Rightarrow> load_run" where
  "send_join E now k st =
     (if client_open st k
      then let (eid, ids) = freshId (benRnd E) now (ldIds st)
           in upd_socket k (\<lambda>s. s\<lparr>lsSent := lsSent s @ [join_envelope eid now s]\<rparr>) (st\<lparr>ldIds := ids\<rparr>)
      else st)"

definition send_traffic :: "bench_env \<Rightarrow> int \<Rightarrow> int \<Rightarrow> nat \<Rightarrow> load_run \<Rightarrow> load_run" where
  "send_traffic E now hr k st =
     (if client_open st k
      then let (eid, ids) = freshId (benRnd E) now (ldIds st)
           in upd_socket k (\<lambda>s. s\<lparr>lsSent := lsSent s @ [traffic_envelope (is_direct st) eid now hr s]\<rparr>)
                (st\<lparr>ldIds := ids, ldAgg := recordSent 1 (ldAgg st)\<rparr>)
      else st)"

text \<open>After the loop of connections: join the rooms (broadcast), or go on with at least two clients (direct).\<close>

definition after_connecting :: "bench_env \<Rightarrow> int \<Rightarrow> load_run \<Rightarrow> load_run" where
  "after_connecting E now st =
     (if is_direct st
      then if length (ldClients st) < 2 \<or> ldAborted st then st\<lparr>ldPhase := LoadDone\<rparr>
           else st\<lparr>ldPhase := LoadSettling, ldTimer := Some (FinNum 50)\<rparr>
      else if ldClients st = [] \<or> ldAborted st then st\<lparr>ldPhase := LoadDone\<rparr>
           else (fold (send_join E now) (ldClients st) st)\<lparr>ldPhase := LoadSettling, ldTimer := Some (FinNum 100)\<rparr>)"

definition next_attempt :: "bench_env \<Rightarrow> int \<Rightarrow> int \<Rightarrow> nat \<Rightarrow> load_run \<Rightarrow> load_run" where
  "next_attempt E now hr i st =
     (if num_less (int_num (int i)) (totalClients st) \<and> \<not> ldAborted st then start_attempt E now hr i st
      else after_connecting E now st)"

definition start_load :: "bench_env \<Rightarrow> bench_config \<Rightarrow> aggregator \<Rightarrow> runtime \<Rightarrow> int \<Rightarrow> int \<Rightarrow> load_run" where
  "start_load E cfg ag ids now hr =
     next_attempt E now hr 0
       \<lparr>ldConfig = cfg, ldAgg = ag, ldIds = ids, ldSockets = [], ldClients = [], ldSenders = [], ldAcks = 0, ldAborted = False,
        ldPhase = LoadConnecting 0, ldTimer = None, ldCrashed = False\<rparr>"

definition load_open :: "bench_env \<Rightarrow> int \<Rightarrow> int \<Rightarrow> nat \<Rightarrow> load_run \<Rightarrow> load_run" where
  "load_open E now hr k st =
     (if k < length (ldSockets st) \<and> lsOpenOnce (ldSockets st ! k)
      then
        let ag = recordConnectionSuccess (Some (elapsed_ms hr (lsStartHr (ldSockets st ! k)))) (ldAgg st);
            st1 = upd_socket k (\<lambda>s. s\<lparr>lsOpenOnce := False, lsState := 1\<rparr>) (st\<lparr>ldAgg := ag\<rparr>)
        in if ldPhase st1 = LoadConnecting k
           then next_attempt E now hr (k + 1)
                  (upd_socket k (\<lambda>s. s\<lparr>lsMessages := True\<rparr>) (st1\<lparr>ldClients := ldClients st1 @ [k]\<rparr>))
           else st1
      else st)"

definition load_error :: "bench_env \<Rightarrow> int \<Rightarrow> int \<Rightarrow> nat \<Rightarrow> string \<Rightarrow> load_run \<Rightarrow> load_run" where
  "load_error E now hr k msg st =
     (if k < length (ldSockets st)
      then if lsErrorOnce (ldSockets st ! k)
           then
             let st1 = upd_socket k (\<lambda>s. s\<lparr>lsErrorOnce := False, lsState := 2\<rparr>) (st\<lparr>ldAgg := recordConnectionFailure (Some msg) (ldAgg st)\<rparr>)
             in if ldPhase st1 = LoadConnecting k
                then next_attempt E now hr (k + 1)
                       (st1\<lparr>ldAgg := recordError (''Connection '' @ lsUser (ldSockets st ! k) @ '' failed: '' @ msg) (ldAgg st1)\<rparr>)
                else st1
           else st\<lparr>ldCrashed := True\<rparr>
      else st)"

text \<open>
  The listener of messages. A text that is not JSON, and a time stamp that is not an integer, throw inside the
  \<^verbatim>\<open>try\<close> and count nothing.
\<close>

definition receive_timed :: "bench_env \<Rightarrow> int \<Rightarrow> json \<Rightarrow> load_run \<Rightarrow> load_run" where
  "receive_timed E hr parsed st =
     (let payload = json_get parsed ''payload'';
          sentAt = (case payload of None \<Rightarrow> None | Some p \<Rightarrow> json_get p ''sentAtHr'')
      in if truthy payload \<and> truthy sentAt
         then (case benBig E (the sentAt) of
                 None \<Rightarrow> st
               | Some start \<Rightarrow> st\<lparr>ldAgg := recordReceived 1 (Some (elapsed_ms hr start)) (ldAgg st)\<rparr>)
         else st\<lparr>ldAgg := recordReceived 1 None (ldAgg st)\<rparr>)"

definition load_message :: "bench_env \<Rightarrow> int \<Rightarrow> nat \<Rightarrow> string \<Rightarrow> load_run \<Rightarrow> load_run" where
  "load_message E hr k data st =
     (if k < length (ldSockets st) \<and> lsMessages (ldSockets st ! k)
      then case benParse E data of
             None \<Rightarrow> st
           | Some parsed \<Rightarrow>
               let type = json_get parsed ''type''
               in if type = Some (JStr (if is_direct st then ''DIRECT_MESSAGE'' else ''ROOM_MESSAGE'')) then receive_timed E hr parsed st
                  else if is_direct st \<and> type = Some (JStr ''DELIVERY_ACK'') then st\<lparr>ldAcks := ldAcks st + 1\<rparr>
                  else st
      else st)"

text \<open>
  The first client of every room sends; \<^verbatim>\<open>r <= rooms\<close> fails at once when \<^verbatim>\<open>rooms\<close> is not a number. An infinite
  number of rooms, which no command line gives, would not end the loop of the code.
\<close>

definition room_senders :: "load_run \<Rightarrow> nat list" where
  "room_senders st =
     List.map_filter (\<lambda>r. find (\<lambda>k. lsRoom (ldSockets st ! k) = ''room-'' @ js_int_str r) (ldClients st))
       (case bcRooms (ldConfig st) of FinNum q \<Rightarrow> [1..\<lfloor>q\<rfloor>] | _ \<Rightarrow> [])"

definition load_interval :: "bench_config \<Rightarrow> jsnum" where
  "load_interval cfg = math_max (FinNum 10) (per_second (bcMessageRate cfg))"

definition traffic_round :: "bench_env \<Rightarrow> int \<Rightarrow> int \<Rightarrow> jsnum \<Rightarrow> load_run \<Rightarrow> load_run" where
  "traffic_round E now hr endTime st =
     (if num_less (int_num now) endTime \<and> \<not> ldAborted st
      then (fold (send_traffic E now hr) (if is_direct st then ldClients st else ldSenders st) st)
             \<lparr>ldPhase := LoadTraffic endTime, ldTimer := Some (load_interval (ldConfig st))\<rparr>
      else st\<lparr>ldPhase := LoadDraining, ldTimer := Some (FinNum 200)\<rparr>)"

definition load_timer :: "bench_env \<Rightarrow> int \<Rightarrow> int \<Rightarrow> load_run \<Rightarrow> load_run" where
  "load_timer E now hr st =
     (if ldTimer st = None then st
      else
        let st1 = st\<lparr>ldTimer := None\<rparr>
        in case ldPhase st1 of
             LoadSettling \<Rightarrow>
               traffic_round E now hr (time_after now (bcDurationSec (ldConfig st1)))
                 (st1\<lparr>ldSenders := (if is_direct st1 then [] else room_senders st1)\<rparr>)
           | LoadTraffic endTime \<Rightarrow> traffic_round E now hr endTime st1
           | LoadDraining \<Rightarrow> st1\<lparr>ldPhase := LoadDone\<rparr>
           | _ \<Rightarrow> st1)"

text \<open>\<^verbatim>\<open>cleanup\<close> closes what is open or connecting and forgets the clients; \<^verbatim>\<open>abort\<close> raises the flag first.\<close>

definition close_client :: "nat \<Rightarrow> load_run \<Rightarrow> load_run" where
  "close_client k st = upd_socket k (\<lambda>s. if lsState s = 1 \<or> lsState s = 0 then s\<lparr>lsState := 2\<rparr> else s) st"

definition load_cleanup :: "load_run \<Rightarrow> load_run" where
  "load_cleanup st = (fold close_client (ldClients st) st)\<lparr>ldClients := []\<rparr>"

definition load_abort :: "load_run \<Rightarrow> load_run" where
  "load_abort st = load_cleanup (st\<lparr>ldAborted := True\<rparr>)"

datatype load_event =
    LoadOpen nat
  | LoadError nat string
  | LoadMessage nat string
  | LoadClose nat
  | LoadTimer
  | LoadAbort

fun load_step :: "bench_env \<Rightarrow> int \<Rightarrow> int \<Rightarrow> load_event \<Rightarrow> load_run \<Rightarrow> load_run" where
  "load_step E now hr (LoadOpen k) st = (if ldCrashed st then st else load_open E now hr k st)"
| "load_step E now hr (LoadError k msg) st = (if ldCrashed st then st else load_error E now hr k msg st)"
| "load_step E now hr (LoadMessage k d) st = (if ldCrashed st then st else load_message E hr k d st)"
| "load_step E now hr (LoadClose k) st = (if ldCrashed st then st else upd_socket k (\<lambda>s. s\<lparr>lsState := 3\<rparr>) st)"
| "load_step E now hr LoadTimer st = (if ldCrashed st then st else load_timer E now hr st)"
| "load_step E now hr LoadAbort st = (if ldCrashed st then st else load_abort st)"

definition load_all :: "bench_env \<Rightarrow> (int \<times> int \<times> load_event) list \<Rightarrow> load_run \<Rightarrow> load_run" where
  "load_all E evs st = fold (\<lambda>(now, hr, ev). load_step E now hr ev) evs st"

section \<open>What is counted\<close>

definition opened :: "load_socket list \<Rightarrow> nat" where
  "opened ss = length (filter (\<lambda>s. \<not> lsOpenOnce s) ss)"

definition errored :: "load_socket list \<Rightarrow> nat" where
  "errored ss = length (filter (\<lambda>s. \<not> lsErrorOnce s) ss)"

definition late_errors :: "load_socket list \<Rightarrow> nat" where
  "late_errors ss = length (filter (\<lambda>s. \<not> lsOpenOnce s \<and> \<not> lsErrorOnce s) ss)"

definition undecided :: "load_socket list \<Rightarrow> nat" where
  "undecided ss = length (filter (\<lambda>s. lsOpenOnce s \<and> lsErrorOnce s) ss)"

definition traffic_sent :: "load_socket list \<Rightarrow> nat" where
  "traffic_sent ss = sum_list (map (\<lambda>s. length (filter (\<lambda>j. json_get j ''type'' \<noteq> Some (JStr ''ROOM_JOIN'')) (lsSent s))) ss)"

definition load_inv :: "load_run \<Rightarrow> bool" where
  "load_inv st \<longleftrightarrow>
     agAttempted (ldAgg st) = length (ldSockets st) \<and> agEstablished (ldAgg st) = opened (ldSockets st) \<and>
     agFailed (ldAgg st) = errored (ldSockets st) \<and> agSent (ldAgg st) = traffic_sent (ldSockets st) \<and>
     (\<forall>k < length (ldSockets st). lsOpenOnce (ldSockets st ! k) \<and> lsErrorOnce (ldSockets st ! k) \<longrightarrow> ldPhase st = LoadConnecting k)"

lemma counts_append [simp]:
  "opened (ss @ [s]) = opened ss + (if lsOpenOnce s then 0 else 1)" "errored (ss @ [s]) = errored ss + (if lsErrorOnce s then 0 else 1)"
  "traffic_sent (ss @ [s]) = traffic_sent ss + length (filter (\<lambda>j. json_get j ''type'' \<noteq> Some (JStr ''ROOM_JOIN'')) (lsSent s))"
  by (simp_all add: opened_def errored_def traffic_sent_def)

lemma counts_balance: "length ss + late_errors ss = opened ss + errored ss + undecided ss"
  by (induction ss) (auto simp: late_errors_def opened_def errored_def undecided_def)

definition traffic_of :: "load_socket \<Rightarrow> nat" where
  "traffic_of s = length (filter (\<lambda>j. json_get j ''type'' \<noteq> Some (JStr ''ROOM_JOIN'')) (lsSent s))"

text \<open>A count is what the other sockets give plus what one socket gives.\<close>

lemma counts_split:
  assumes "k < length ss"
  obtains a e t where "\<And>x. opened (ss[k := x]) = a + (if lsOpenOnce x then 0 else 1)"
    "\<And>x. errored (ss[k := x]) = e + (if lsErrorOnce x then 0 else 1)" "\<And>x. traffic_sent (ss[k := x]) = t + traffic_of x"
proof -
  let ?as = "take k ss" and ?bs = "drop (Suc k) ss"
  have u: "ss[k := x] = ?as @ x # ?bs" for x using assms by (simp add: upd_conv_take_nth_drop)
  show ?thesis
    by (rule that [of "opened ?as + opened ?bs" "errored ?as + errored ?bs" "traffic_sent ?as + traffic_sent ?bs"])
      (simp_all add: u opened_def errored_def traffic_sent_def traffic_of_def)
qed

lemma upd_socket_fields [simp]:
  "ldAgg (upd_socket k f st) = ldAgg st" "ldPhase (upd_socket k f st) = ldPhase st" "ldConfig (upd_socket k f st) = ldConfig st"
  "length (ldSockets (upd_socket k f st)) = length (ldSockets st)" "ldClients (upd_socket k f st) = ldClients st"
  "ldAborted (upd_socket k f st) = ldAborted st" "ldSenders (upd_socket k f st) = ldSenders st" "ldCrashed (upd_socket k f st) = ldCrashed st"
  "ldTimer (upd_socket k f st) = ldTimer st"
  by (simp_all add: upd_socket_def)

text \<open>Updates that keep the listeners and the traffic keep the invariant.\<close>

lemma load_inv_keep:
  assumes "load_inv st" "\<And>s. lsOpenOnce (f s) = lsOpenOnce s" "\<And>s. lsErrorOnce (f s) = lsErrorOnce s" "\<And>s. traffic_of (f s) = traffic_of s"
  shows "load_inv (upd_socket k f st)"
proof (cases "k < length (ldSockets st)")
  case True
  obtain a e t where c: "\<And>x. opened ((ldSockets st)[k := x]) = a + (if lsOpenOnce x then 0 else 1)"
    "\<And>x. errored ((ldSockets st)[k := x]) = e + (if lsErrorOnce x then 0 else 1)"
    "\<And>x. traffic_sent ((ldSockets st)[k := x]) = t + traffic_of x" using counts_split [OF True] by blast
  note own = c [of "ldSockets st ! k", unfolded list_update_id]
  show ?thesis using assms(1) True own by (auto simp: load_inv_def upd_socket_def c assms(2-4) nth_list_update)
qed (use assms(1) in \<open>simp add: upd_socket_def\<close>)

text \<open>Changes of other fields, as long as no undecided connection is forgotten.\<close>

lemma load_inv_frame:
  assumes "load_inv st" "ldSockets st' = ldSockets st" "agAttempted (ldAgg st') = agAttempted (ldAgg st)"
    "agEstablished (ldAgg st') = agEstablished (ldAgg st)" "agFailed (ldAgg st') = agFailed (ldAgg st)" "agSent (ldAgg st') = agSent (ldAgg st)"
    "ldPhase st' = ldPhase st \<or> undecided (ldSockets st) = 0"
  shows "load_inv st'"
proof -
  have "\<not> (lsOpenOnce (ldSockets st ! k) \<and> lsErrorOnce (ldSockets st ! k))" if "undecided (ldSockets st) = 0" "k < length (ldSockets st)" for k
    using that by (auto simp: undecided_def filter_empty_conv)
  then show ?thesis using assms by (auto simp: load_inv_def)
qed

lemma load_inv_join:
  assumes "load_inv st"
  shows "load_inv (send_join E now k st)"
proof -
  have "load_inv (upd_socket k (\<lambda>s. s\<lparr>lsSent := lsSent s @ [join_envelope i now s]\<rparr>) (st\<lparr>ldIds := ids\<rparr>))" for i ids
    using load_inv_frame [OF assms, of "st\<lparr>ldIds := ids\<rparr>"] by (intro load_inv_keep) (simp_all add: traffic_of_def join_envelope_def)
  then show ?thesis using assms by (simp add: send_join_def split_beta)
qed

lemma load_inv_traffic:
  assumes "load_inv st"
  shows "load_inv (send_traffic E now hr k st)"
proof (cases "client_open st k")
  case True
  then have k: "k < length (ldSockets st)" by (simp add: client_open_def)
  obtain a e t where c: "\<And>x. opened ((ldSockets st)[k := x]) = a + (if lsOpenOnce x then 0 else 1)"
    "\<And>x. errored ((ldSockets st)[k := x]) = e + (if lsErrorOnce x then 0 else 1)"
    "\<And>x. traffic_sent ((ldSockets st)[k := x]) = t + traffic_of x" using counts_split [OF k] by blast
  note own = c [of "ldSockets st ! k", unfolded list_update_id]
  show ?thesis using assms True k own
    by (auto simp: load_inv_def send_traffic_def split_beta upd_socket_def c nth_list_update recordSent_def traffic_of_def traffic_envelope_def)
qed (use assms in \<open>simp add: send_traffic_def\<close>)

lemma load_inv_fold: "(\<And>k st. load_inv st \<Longrightarrow> load_inv (f k st)) \<Longrightarrow> load_inv st \<Longrightarrow> load_inv (fold f ks st)"
  by (induction ks arbitrary: st) auto

lemma fold_sockets [simp]:
  "length (ldSockets (fold (send_join E now) ks st)) = length (ldSockets st)" "ldPhase (fold (send_join E now) ks st) = ldPhase st"
  "length (ldSockets (fold (send_traffic E now hr) ks st)) = length (ldSockets st)" "ldPhase (fold (send_traffic E now hr) ks st) = ldPhase st"
  by (induction ks arbitrary: st) (simp_all add: send_join_def send_traffic_def split_beta)

definition aligned :: "load_run \<Rightarrow> bool" where
  "aligned st \<longleftrightarrow> load_inv st \<and> (\<forall>k. ldPhase st = LoadConnecting k \<longrightarrow> length (ldSockets st) = Suc k)"

lemma aligned_frame:
  assumes "aligned st" "ldSockets st' = ldSockets st" "agAttempted (ldAgg st') = agAttempted (ldAgg st)"
    "agEstablished (ldAgg st') = agEstablished (ldAgg st)" "agFailed (ldAgg st') = agFailed (ldAgg st)" "agSent (ldAgg st') = agSent (ldAgg st)"
    "ldPhase st' = ldPhase st"
  shows "aligned st'"
  using assms load_inv_frame [of st st'] by (simp add: aligned_def)

lemma aligned_keep:
  assumes "aligned st" "\<And>s. lsOpenOnce (f s) = lsOpenOnce s" "\<And>s. lsErrorOnce (f s) = lsErrorOnce s" "\<And>s. traffic_of (f s) = traffic_of s"
  shows "aligned (upd_socket k f st)"
  using assms load_inv_keep [of st f k] by (simp add: aligned_def)

lemma recorded [simp]:
  "agAttempted (recordError m ag) = agAttempted ag" "agEstablished (recordError m ag) = agEstablished ag"
  "agFailed (recordError m ag) = agFailed ag" "agSent (recordError m ag) = agSent ag"
  "agAttempted (recordConnectionFailure e ag) = agAttempted ag" "agEstablished (recordConnectionFailure e ag) = agEstablished ag"
  "agFailed (recordConnectionFailure e ag) = agFailed ag + 1" "agSent (recordConnectionFailure e ag) = agSent ag"
  "agAttempted (recordReceived n l ag) = agAttempted ag" "agEstablished (recordReceived n l ag) = agEstablished ag"
  "agFailed (recordReceived n l ag) = agFailed ag" "agSent (recordReceived n l ag) = agSent ag"
  "agAttempted (recordConnectionSuccess l ag) = agAttempted ag" "agEstablished (recordConnectionSuccess l ag) = agEstablished ag + 1"
  "agFailed (recordConnectionSuccess l ag) = agFailed ag" "agSent (recordConnectionSuccess l ag) = agSent ag"
  "agAttempted (recordConnectionAttempt ag) = agAttempted ag + 1" "agEstablished (recordConnectionAttempt ag) = agEstablished ag"
  "agFailed (recordConnectionAttempt ag) = agFailed ag" "agSent (recordConnectionAttempt ag) = agSent ag"
  by (simp_all add: recordError_def recordConnectionFailure_def recordReceived_def recordConnectionSuccess_def recordConnectionAttempt_def Let_def)

lemma join_phase: "send_join E now k (st\<lparr>ldPhase := p\<rparr>) = (send_join E now k st)\<lparr>ldPhase := p\<rparr>"
  by (simp add: send_join_def client_open_def upd_socket_def split_beta)

lemma joins_phase: "fold (send_join E now) ks (st\<lparr>ldPhase := p\<rparr>) = (fold (send_join E now) ks st)\<lparr>ldPhase := p\<rparr>"
  by (induction ks arbitrary: st) (simp_all add: join_phase)

text \<open>The next connection is tried only when the one before is decided.\<close>

lemma next_attempt_aligned:
  assumes "load_inv st" "undecided (ldSockets st) = 0" "length (ldSockets st) = i"
  shows "aligned (next_attempt E now hr i st)"
proof -
  have dec: "\<not> (lsOpenOnce (ldSockets st ! k) \<and> lsErrorOnce (ldSockets st ! k))" if "k < i" for k
    using assms(2,3) that by (auto simp: undecided_def filter_empty_conv)
  have attempt: "aligned (start_attempt E now hr i st)"
    using assms dec by (auto simp: aligned_def load_inv_def start_attempt_def nth_append less_Suc_eq traffic_of_def Let_def)
  have settle: "load_inv (st\<lparr>ldPhase := p, ldTimer := t\<rparr>)" "load_inv (st\<lparr>ldPhase := p\<rparr>)" for p t
    by (rule load_inv_frame [OF assms(1)]; simp add: assms(2))+
  have "load_inv (fold (send_join E now) (ldClients st) (st\<lparr>ldPhase := LoadSettling\<rparr>))"
    by (rule load_inv_fold [OF load_inv_join settle(2)])
  then have joined: "load_inv ((fold (send_join E now) (ldClients st) st)\<lparr>ldPhase := LoadSettling, ldTimer := t\<rparr>)" for t
    unfolding joins_phase by (rule load_inv_frame) simp_all
  show ?thesis
    using attempt settle joined by (auto simp: next_attempt_def after_connecting_def aligned_def)
qed

lemma undecided_last:
  assumes "aligned st" "ldPhase st = LoadConnecting k" "\<not> (lsOpenOnce s \<and> lsErrorOnce s)"
  shows "undecided ((ldSockets st)[k := s]) = 0"
proof -
  have "\<not> (lsOpenOnce (ldSockets st ! j) \<and> lsErrorOnce (ldSockets st ! j))" if "j < length (ldSockets st)" "j \<noteq> k" for j
    using assms(1,2) that by (auto simp: aligned_def load_inv_def)
  then have "\<not> (lsOpenOnce ((ldSockets st)[k := s] ! j) \<and> lsErrorOnce ((ldSockets st)[k := s] ! j))" if "j < length (ldSockets st)" for j
    using assms(3) that by (cases "j = k") simp_all
  then show ?thesis by (auto simp: undecided_def filter_empty_conv in_set_conv_nth)
qed

lemma load_inv_put:
  assumes "load_inv st" "k < length (ldSockets st)" "agAttempted ag = agAttempted (ldAgg st)" "agSent ag = agSent (ldAgg st)"
    and "agEstablished ag + (if lsOpenOnce s then 1 else 0) = agEstablished (ldAgg st) + (if lsOpenOnce (ldSockets st ! k) then 1 else 0)"
    and "agFailed ag + (if lsErrorOnce s then 1 else 0) = agFailed (ldAgg st) + (if lsErrorOnce (ldSockets st ! k) then 1 else 0)"
    and "traffic_of s = traffic_of (ldSockets st ! k)" "\<not> (lsOpenOnce s \<and> lsErrorOnce s)"
  shows "load_inv (st\<lparr>ldAgg := ag, ldSockets := (ldSockets st)[k := s]\<rparr>)"
proof -
  obtain a e t where c: "\<And>x. opened ((ldSockets st)[k := x]) = a + (if lsOpenOnce x then 0 else 1)"
    "\<And>x. errored ((ldSockets st)[k := x]) = e + (if lsErrorOnce x then 0 else 1)"
    "\<And>x. traffic_sent ((ldSockets st)[k := x]) = t + traffic_of x" using counts_split [OF assms(2)] by blast
  note own = c [of "ldSockets st ! k", unfolded list_update_id]
  have n: "agAttempted (ldAgg st) = length (ldSockets st)" "agEstablished (ldAgg st) = opened (ldSockets st)"
    "agFailed (ldAgg st) = errored (ldSockets st)" "agSent (ldAgg st) = traffic_sent (ldSockets st)"
    using assms(1) by (simp_all add: load_inv_def)
  have "agEstablished ag = opened ((ldSockets st)[k := s])"
    using assms(5) n(2) unfolding c own by (cases "lsOpenOnce s"; cases "lsOpenOnce (ldSockets st ! k)"; simp)
  moreover have "agFailed ag = errored ((ldSockets st)[k := s])"
    using assms(6) n(3) unfolding c own by (cases "lsErrorOnce s"; cases "lsErrorOnce (ldSockets st ! k)"; simp)
  moreover have "agSent ag = traffic_sent ((ldSockets st)[k := s])" using assms(4,7) n(4) unfolding c own by simp
  moreover have "ldPhase st = LoadConnecting j"
    if "j < length (ldSockets st)" "lsOpenOnce ((ldSockets st)[k := s] ! j)" "lsErrorOnce ((ldSockets st)[k := s] ! j)" for j
    using that assms(1,8) by (cases "j = k") (auto simp: load_inv_def)
  ultimately show ?thesis using n(1) assms(3) by (simp add: load_inv_def)
qed

lemma open_aligned:
  assumes "aligned st"
  shows "aligned (load_open E now hr k st)"
proof (cases "k < length (ldSockets st) \<and> lsOpenOnce (ldSockets st ! k)")
  case True
  define s' where "s' = (ldSockets st ! k)\<lparr>lsOpenOnce := False, lsState := 1\<rparr>"
  define st1 where "st1 = st\<lparr>ldAgg := recordConnectionSuccess (Some (elapsed_ms hr (lsStartHr (ldSockets st ! k)))) (ldAgg st),
    ldSockets := (ldSockets st)[k := s']\<rparr>"
  have inv: "load_inv st1" unfolding st1_def
    by (rule load_inv_put) (use assms True in \<open>auto simp: aligned_def s'_def traffic_of_def\<close>)
  let ?f = "\<lambda>s. s\<lparr>lsMessages := True\<rparr>"
  have go: "aligned (next_attempt E now hr (k + 1) (upd_socket k ?f (st1\<lparr>ldClients := ldClients st1 @ [k]\<rparr>)))"
    if p: "ldPhase st = LoadConnecting k"
  proof (rule next_attempt_aligned)
    have "load_inv (st1\<lparr>ldClients := ldClients st1 @ [k]\<rparr>)" by (rule load_inv_frame [OF inv]) simp_all
    then show "load_inv (upd_socket k ?f (st1\<lparr>ldClients := ldClients st1 @ [k]\<rparr>))"
      by (rule load_inv_keep) (simp_all add: traffic_of_def)
    have "ldSockets (upd_socket k ?f (st1\<lparr>ldClients := ldClients st1 @ [k]\<rparr>)) = (ldSockets st)[k := ?f s']"
      using True by (simp add: upd_socket_def st1_def)
    then show "undecided (ldSockets (upd_socket k ?f (st1\<lparr>ldClients := ldClients st1 @ [k]\<rparr>))) = 0"
      using undecided_last [OF assms p, of "?f s'"] by (simp add: s'_def)
    show "length (ldSockets (upd_socket k ?f (st1\<lparr>ldClients := ldClients st1 @ [k]\<rparr>))) = k + 1"
      using assms p by (simp add: aligned_def st1_def)
  qed
  have stay: "aligned st1" using inv assms by (simp add: aligned_def st1_def)
  have "load_open E now hr k st = (if ldPhase st = LoadConnecting k
      then next_attempt E now hr (k + 1) (upd_socket k ?f (st1\<lparr>ldClients := ldClients st1 @ [k]\<rparr>)) else st1)"
    using True by (simp add: load_open_def st1_def s'_def upd_socket_def Let_def)
  then show ?thesis using go stay by simp
qed (use assms in \<open>auto simp: load_open_def\<close>)

lemma error_aligned:
  assumes "aligned st"
  shows "aligned (load_error E now hr k msg st)"
proof (cases "k < length (ldSockets st) \<and> lsErrorOnce (ldSockets st ! k)")
  case True
  define s' where "s' = (ldSockets st ! k)\<lparr>lsErrorOnce := False, lsState := 2\<rparr>"
  define st1 where "st1 = st\<lparr>ldAgg := recordConnectionFailure (Some msg) (ldAgg st), ldSockets := (ldSockets st)[k := s']\<rparr>"
  define st2 where "st2 = st1\<lparr>ldAgg := recordError (''Connection '' @ lsUser (ldSockets st ! k) @ '' failed: '' @ msg) (ldAgg st1)\<rparr>"
  have inv: "load_inv st1" unfolding st1_def
    by (rule load_inv_put) (use assms True in \<open>auto simp: aligned_def s'_def traffic_of_def\<close>)
  have go: "aligned (next_attempt E now hr (k + 1) st2)" if p: "ldPhase st = LoadConnecting k"
  proof (rule next_attempt_aligned)
    show "load_inv st2" by (rule load_inv_frame [OF inv]) (simp_all add: st2_def)
    show "undecided (ldSockets st2) = 0" using undecided_last [OF assms p, of s'] by (simp add: st2_def st1_def s'_def)
    show "length (ldSockets st2) = k + 1" using assms p by (simp add: aligned_def st2_def st1_def)
  qed
  have stay: "aligned st1" using inv assms by (simp add: aligned_def st1_def)
  have "load_error E now hr k msg st = (if ldPhase st = LoadConnecting k then next_attempt E now hr (k + 1) st2 else st1)"
    using True by (simp add: load_error_def st2_def st1_def s'_def upd_socket_def Let_def)
  then show ?thesis using go stay by simp
qed (use assms in \<open>auto simp: load_error_def intro: aligned_frame [of st]\<close>)

lemma round_aligned:
  assumes "aligned st" "undecided (ldSockets st) = 0"
  shows "aligned (traffic_round E now hr endTime st)"
proof -
  have i: "load_inv st" using assms(1) by (simp add: aligned_def)
  have settle: "load_inv (st\<lparr>ldPhase := p\<rparr>)" for p by (rule load_inv_frame [OF i]) (simp_all add: assms(2))
  have ph: "send_traffic E now hr k (s\<lparr>ldPhase := p\<rparr>) = (send_traffic E now hr k s)\<lparr>ldPhase := p\<rparr>" for k s p
    by (simp add: send_traffic_def client_open_def upd_socket_def is_direct_def split_beta)
  have phs: "fold (send_traffic E now hr) ks (s\<lparr>ldPhase := p\<rparr>) = (fold (send_traffic E now hr) ks s)\<lparr>ldPhase := p\<rparr>" for ks s p
    by (induction ks arbitrary: s) (simp_all add: ph)
  have "load_inv (fold (send_traffic E now hr) ks (st\<lparr>ldPhase := p\<rparr>))" for ks p
    by (rule load_inv_fold [OF load_inv_traffic settle])
  then have fin: "load_inv ((fold (send_traffic E now hr) ks st)\<lparr>ldPhase := p\<rparr>)" for ks p unfolding phs .
  have go: "load_inv ((fold (send_traffic E now hr) ks st)\<lparr>ldPhase := p, ldTimer := t\<rparr>)" for ks p t
    by (rule load_inv_frame [OF fin [of p ks]]) simp_all
  have stop: "load_inv (st\<lparr>ldPhase := p, ldTimer := t\<rparr>)" for p t by (rule load_inv_frame [OF i]) (simp_all add: assms(2))
  show ?thesis using go stop by (simp add: traffic_round_def aligned_def)
qed

lemma aligned_decided:
  assumes "aligned st" "\<forall>k. ldPhase st \<noteq> LoadConnecting k"
  shows "undecided (ldSockets st) = 0"
  using assms by (auto simp: aligned_def load_inv_def undecided_def filter_empty_conv in_set_conv_nth)

lemma timer_aligned:
  assumes "aligned st"
  shows "aligned (load_timer E now hr st)"
proof (cases "ldTimer st")
  case (Some t)
  let ?st1 = "st\<lparr>ldTimer := None\<rparr>"
  have a: "aligned ?st1" "aligned (?st1\<lparr>ldSenders := ss\<rparr>)" for ss by (rule aligned_frame [OF assms]; simp)+
  have d: "undecided (ldSockets ?st1) = 0" "undecided (ldSockets (?st1\<lparr>ldSenders := ss\<rparr>)) = 0"
    if "\<forall>k. ldPhase st \<noteq> LoadConnecting k" for ss using aligned_decided [OF assms that] by simp_all
  show ?thesis
  proof (cases "ldPhase st")
    case LoadSettling
    then show ?thesis using round_aligned [OF a(2) d(2)] Some by (simp add: load_timer_def Let_def)
  next
    case (LoadTraffic endTime)
    then show ?thesis using round_aligned [OF a(1) d(1)] Some by (simp add: load_timer_def Let_def)
  next
    case LoadDraining
    have u: "undecided (ldSockets ?st1) = 0" by (rule d(1)) (simp add: LoadDraining)
    have i: "load_inv ?st1" using a(1) by (simp only: aligned_def)
    have "load_inv (?st1\<lparr>ldPhase := LoadDone\<rparr>)" by (rule load_inv_frame [OF i]) (use u in simp_all)
    then show ?thesis using LoadDraining Some by (simp add: load_timer_def aligned_def Let_def)
  qed (use a(1) Some in \<open>simp_all add: load_timer_def Let_def\<close>)
qed (use assms in \<open>simp add: load_timer_def\<close>)

lemma message_aligned: "aligned st \<Longrightarrow> aligned (load_message E hr k d st)"
  by (auto simp: load_message_def receive_timed_def Let_def split: option.splits intro: aligned_frame [of st])

lemma abort_aligned:
  assumes "aligned st"
  shows "aligned (load_abort st)"
proof -
  have "aligned (close_client k s)" if "aligned s" for k s
    unfolding close_client_def by (rule aligned_keep [OF that]) (simp_all add: traffic_of_def)
  then have "aligned (fold close_client ks s)" if "aligned s" for ks s
    using that by (induction ks arbitrary: s) simp_all
  moreover have "aligned (st\<lparr>ldAborted := True\<rparr>)" by (rule aligned_frame [OF assms]) simp_all
  ultimately have "aligned (fold close_client (ldClients (st\<lparr>ldAborted := True\<rparr>)) (st\<lparr>ldAborted := True\<rparr>))" by blast
  then show ?thesis unfolding load_abort_def load_cleanup_def by (rule aligned_frame) simp_all
qed

lemma load_step_aligned: "aligned st \<Longrightarrow> aligned (load_step E now hr ev st)"
  by (cases ev) (auto simp: open_aligned error_aligned message_aligned timer_aligned abort_aligned traffic_of_def intro!: aligned_keep)

lemma load_all_aligned: "aligned st \<Longrightarrow> aligned (load_all E evs st)"
proof (induction evs arbitrary: st)
  case (Cons ev evs)
  then show ?case by (cases ev) (auto simp: load_all_def load_step_aligned)
qed (simp add: load_all_def)

lemma start_aligned: "aligned (start_load E cfg (new_StatsAggregator cfg t) ids now hr)"
  unfolding start_load_def
  by (rule next_attempt_aligned) (simp_all add: load_inv_def new_StatsAggregator_def opened_def errored_def traffic_sent_def undecided_def)

lemma undecided_at_most_one:
  assumes "aligned st"
  shows "undecided (ldSockets st) \<le> (case ldPhase st of LoadConnecting _ \<Rightarrow> 1 | _ \<Rightarrow> 0)"
proof (cases "\<exists>k. ldPhase st = LoadConnecting k")
  case True
  then obtain k where k: "ldPhase st = LoadConnecting k" by blast
  then have len: "length (ldSockets st) = Suc k" using assms by (simp add: aligned_def)
  then have ss: "ldSockets st = take k (ldSockets st) @ [ldSockets st ! k]" by (metis lessI take_Suc_conv_app_nth take_all_iff order_refl)
  have "ldPhase st = LoadConnecting j" if "j < length (ldSockets st)" "lsOpenOnce (ldSockets st ! j)" "lsErrorOnce (ldSockets st ! j)" for j
    using assms that unfolding aligned_def load_inv_def by blast
  then have "\<not> (lsOpenOnce (ldSockets st ! i) \<and> lsErrorOnce (ldSockets st ! i))" if "i < k" for i
    using that unfolding k len by (metis less_SucI load_phase.inject(1) nat_neq_iff)
  then have "undecided (take k (ldSockets st)) = 0" by (auto simp: undecided_def filter_empty_conv in_set_conv_nth)
  moreover have "undecided (xs @ [x]) \<le> undecided xs + 1" for xs x by (simp add: undecided_def)
  ultimately have "undecided (ldSockets st) \<le> 1" by (metis ss add_0)
  then show ?thesis by (simp add: k)
qed (use aligned_decided [OF assms] in \<open>simp add: undecided_def split: load_phase.splits\<close>)


section \<open>Who writes to whom\<close>

lemma rem_nat: "0 < n \<Longrightarrow> js_rem (int_num (int i)) (int_num (int n)) = int_num (int (i mod n))"
proof -
  assume n: "0 < n"
  have "\<lfloor>rat_of_int (int i) / of_int (int n)\<rfloor> = int i div int n" by (rule floor_divide_of_int_eq)
  moreover have "(of_int (int i) - of_int (int n) * of_int (int i div int n) :: rat) = of_int (int (i mod n))"
    by (metis minus_mult_div_eq_mod of_int_diff of_int_mult zmod_int)
  ultimately show ?thesis using n by simp
qed

text \<open>
  In a direct benchmark of at least two connections every client writes to another client, and every client
  is written to by exactly one.
\<close>
theorem direct_clients_form_a_ring:
  assumes "\<And>i. benStr E (int_num i) = js_int_str i" "2 \<le> n"
  shows "mset (map (peer_name E (int_num (int n))) [0..<n]) = mset (map (client_name True) [0..<n]) \<and>
    (\<forall>i < n. peer_name E (int_num (int n)) i \<noteq> client_name True i)"
proof -
  have inj: "digits_of_nat a = digits_of_nat b \<Longrightarrow> a = b" for a b
    by (metis digits_value_digits of_nat_eq_iff)
  have p: "peer_name E (int_num (int n)) i = client_name True (Suc i mod n)" for i
  proof -
    have "peer_name E (int_num (int n)) i = ''direct-client-'' @ benStr E (plus_one (js_rem (int_num (int (Suc i))) (int_num (int n))))"
      unfolding peer_name_def by (simp only: of_nat_Suc add.commute)
    also have "js_rem (int_num (int (Suc i))) (int_num (int n)) = int_num (int (Suc i mod n))"
      using assms(2) by (intro rem_nat) simp
    also have "plus_one (int_num (int (Suc i mod n))) = int_num (int (Suc i mod n) + 1)"
      by (simp only: plus_one.simps of_int_add of_int_1)
    also have "benStr E (int_num (int (Suc i mod n) + 1)) = digits_of_nat (Suc i mod n + 1)"
      by (simp only: assms(1)) (simp add: js_int_str_def nat_add_distrib)
    finally show ?thesis by (simp add: client_name_def)
  qed
  have e: "map (peer_name E (int_num (int n))) [0..<n] = map (client_name True) (map (\<lambda>i. Suc i mod n) [0..<n])"
    unfolding map_map comp_def by (rule map_cong [OF refl p])
  obtain m where n: "n = Suc m" using assms(2) by (cases n) auto
  have "map (\<lambda>i. Suc i mod n) [0..<n] = [1..<n] @ [0]" 
  proof -
    have "map (\<lambda>i. Suc i mod n) [0..<m] = map Suc [0..<m]" using n by (intro map_cong) auto
    then show ?thesis using n by (simp add: map_Suc_upt)
  qed
  then have "mset (map (peer_name E (int_num (int n))) [0..<n]) = mset (map (client_name True) ([1..<n] @ [0]))" by (simp only: e)
  also have "\<dots> = mset (map (client_name True) (0 # [1..<n]))" by simp
  also have "0 # [1..<n] = [0..<n]" using assms(2) by (simp add: upt_conv_Cons)
  finally have m: "mset (map (peer_name E (int_num (int n))) [0..<n]) = mset (map (client_name True) [0..<n])" .
  have "client_name True (Suc i mod n) \<noteq> client_name True i" if "i < n" for i
  proof
    assume "client_name True (Suc i mod n) = client_name True i"
    then have "Suc i mod n = i" using inj [of "Suc i mod n + 1" "i + 1"] by (simp add: client_name_def)
    then show False using that assms(2) by (auto simp: mod_Suc split: if_splits)
  qed
  then show ?thesis using m p by simp
qed

definition bench_sample_env :: bench_env where
  "bench_sample_env = \<lparr>benAuth = sample_prims, benRnd = (\<lambda>n. 0), benStr = (\<lambda>n. js_int_str (num_int n)), benBig = (\<lambda>j. None), benParse = (\<lambda>s. None)\<rparr>"

lemma direct_clients_form_a_ring_witness:
  "mset (map (peer_name bench_sample_env (int_num (int 3))) [0..<3]) = mset (map (client_name True) [0..<3])"
proof -
  have "benStr bench_sample_env (int_num i) = js_int_str i" for i by (simp add: bench_sample_env_def num_int_def)
  then show ?thesis using direct_clients_form_a_ring [of bench_sample_env 3] by simp
qed

text \<open>One connection that opens and is reset later: the benchmark fails for a connection it has established.\<close>

definition one_connection :: bench_config where
  "one_connection = \<lparr>bcTarget = ''ws://localhost:8080'', bcProfile = BroadcastProfile, bcConnections = FinNum 1, bcDurationSec = FinNum 5,
     bcRampRate = FinNum 25, bcMessageRate = FinNum 10, bcRooms = FinNum 5, bcAuthSecret = ''secret'', bcJson = False, bcForce = False\<rparr>"

lemma late_error_fails_benchmark:
  "let ag = ldAgg (load_all bench_sample_env [(1, 1, LoadOpen 0), (2, 2, LoadError 0 ''reset'')]
        (start_load bench_sample_env one_connection (new_StatsAggregator one_connection 0) ids 0 0))
   in agAttempted ag = 1 \<and> agEstablished ag = 1 \<and> agFailed ag = 1 \<and> \<not> brPassed (fst (computeResult numStr 3 ag))"
  by (simp add: load_all_def start_load_def next_attempt_def one_connection_def totalClients_def is_direct_def start_attempt_def
      new_StatsAggregator_def recordConnectionAttempt_def load_open_def load_error_def upd_socket_def after_connecting_def send_join_def
      client_open_def split_beta computeResult_def Let_def)

text \<open>A message rate of 0 makes the pause infinite, which the timer turns into one millisecond: full load.\<close>

lemma rate_zero_floods: "timer_delay (load_interval (one_connection\<lparr>bcMessageRate := FinNum 0\<rparr>)) = 1"
  by (simp add: load_interval_def one_connection_def math_max_def timer_delay_def)

end
