(* ===== verification/Bench_Runner.thy ===== *)
theory Bench_Runner
  imports Bench_Load Prometheus
begin

text \<open>
  \<^verbatim>\<open>bench/profiles/RampProfile.ts\<close>, \<^verbatim>\<open>bench/BenchmarkRunner.ts\<close> (settings, report, the run of the modelled
  profiles) and the command line \<^verbatim>\<open>bin/pulse-bench.ts\<close>.
\<close>

section \<open>The connection ramp\<close>

record ramp_socket =
  rsUrl :: string
  rsStartHr :: int
  rsSettled :: "bool option"
  rsOnOpen :: bool
  rsOnError :: bool
  rsState :: nat

datatype ramp_phase = RampPacing nat | RampWaiting | RampHolding | RampDone

record ramp_run =
  rrConfig :: bench_config
  rrAgg :: aggregator
  rrSockets :: "ramp_socket list"
  rrActive :: "nat list"
  rrAborted :: bool
  rrPhase :: ramp_phase
  rrTimer :: "jsnum option"
  rrCrashed :: bool

text \<open>The passes of the loop \<^verbatim>\<open>i < connections\<close>; an infinite number, which no command line gives, is left out.\<close>

definition ramp_total :: "bench_config \<Rightarrow> nat" where
  "ramp_total cfg = (case bcConnections cfg of FinNum q \<Rightarrow> nat \<lceil>q\<rceil> | _ \<Rightarrow> 0)"

definition ramp_interval :: "bench_config \<Rightarrow> jsnum" where
  "ramp_interval cfg = math_max (FinNum 0) (per_second (bcRampRate cfg))"

definition ramp_attempt :: "bench_env \<Rightarrow> int \<Rightarrow> int \<Rightarrow> nat \<Rightarrow> ramp_run \<Rightarrow> ramp_run" where
  "ramp_attempt E now hr i st =
     st\<lparr>rrAgg := recordConnectionAttempt (rrAgg st),
        rrSockets := rrSockets st @
          [\<lparr>rsUrl = bench_url E (rrConfig st) now (''ramp-client-'' @ digits_of_nat (i + 1)), rsStartHr = hr, rsSettled = None,
            rsOnOpen = True, rsOnError = True, rsState = 0\<rparr>]\<rparr>"

definition all_settled :: "ramp_run \<Rightarrow> bool" where
  "all_settled st \<longleftrightarrow> list_all (\<lambda>s. rsSettled s \<noteq> None) (rrSockets st)"

text \<open>After the handshakes: hold the connections for the duration, at most 30 seconds.\<close>

definition ramp_hold :: "ramp_run \<Rightarrow> ramp_run" where
  "ramp_hold st =
     (case bcDurationSec (rrConfig st) of
        FinNum d \<Rightarrow>
          if \<not> rrAborted st \<and> d > 0 then st\<lparr>rrPhase := RampHolding, rrTimer := Some (FinNum (min (d * 1000) 30000))\<rparr>
          else st\<lparr>rrPhase := RampDone\<rparr>
      | PosInf \<Rightarrow>
          if \<not> rrAborted st then st\<lparr>rrPhase := RampHolding, rrTimer := Some (FinNum 30000)\<rparr> else st\<lparr>rrPhase := RampDone\<rparr>
      | _ \<Rightarrow> st\<lparr>rrPhase := RampDone\<rparr>)"

definition ramp_wait :: "ramp_run \<Rightarrow> ramp_run" where
  "ramp_wait st = (if all_settled st then ramp_hold st else st\<lparr>rrPhase := RampWaiting\<rparr>)"

primrec ramp_loop :: "bench_env \<Rightarrow> int \<Rightarrow> int \<Rightarrow> nat \<Rightarrow> nat \<Rightarrow> ramp_run \<Rightarrow> ramp_run" where
  "ramp_loop E now hr 0 i st = ramp_wait st"
| "ramp_loop E now hr (Suc left) i st =
     (if rrAborted st then ramp_wait st
      else
        let st1 = ramp_attempt E now hr i st
        in if left > 0 \<and> num_less (FinNum 0) (ramp_interval (rrConfig st1))
           then st1\<lparr>rrPhase := RampPacing (i + 1), rrTimer := Some (ramp_interval (rrConfig st1))\<rparr>
           else ramp_loop E now hr left (i + 1) st1)"

definition start_ramp :: "bench_env \<Rightarrow> bench_config \<Rightarrow> aggregator \<Rightarrow> int \<Rightarrow> int \<Rightarrow> ramp_run" where
  "start_ramp E cfg ag now hr =
     ramp_loop E now hr (ramp_total cfg) 0
       \<lparr>rrConfig = cfg, rrAgg = ag, rrSockets = [], rrActive = [], rrAborted = False, rrPhase = RampPacing 0, rrTimer = None,
        rrCrashed = False\<rparr>"

definition settle_ramp :: "nat \<Rightarrow> ramp_socket \<Rightarrow> aggregator \<Rightarrow> ramp_run \<Rightarrow> ramp_run" where
  "settle_ramp k s ag st =
     (let st1 = st\<lparr>rrAgg := ag, rrSockets := (rrSockets st)[k := s]\<rparr>
      in if rrPhase st1 = RampWaiting then ramp_wait st1 else st1)"

definition ramp_open :: "int \<Rightarrow> nat \<Rightarrow> ramp_run \<Rightarrow> ramp_run" where
  "ramp_open hr k st =
     (if k < length (rrSockets st) \<and> rsOnOpen (rrSockets st ! k)
      then
        let s = (rrSockets st ! k)\<lparr>rsOnOpen := False, rsState := 1\<rparr>
        in if rsSettled s \<noteq> None then st\<lparr>rrSockets := (rrSockets st)[k := s]\<rparr>
           else settle_ramp k (s\<lparr>rsSettled := Some True, rsOnError := False\<rparr>)
                  (recordConnectionSuccess (Some (elapsed_ms hr (rsStartHr s))) (rrAgg st)) (st\<lparr>rrActive := set_add k (rrActive st)\<rparr>)
      else st)"

definition ramp_error :: "nat \<Rightarrow> string \<Rightarrow> ramp_run \<Rightarrow> ramp_run" where
  "ramp_error k msg st =
     (if k < length (rrSockets st)
      then if rsOnError (rrSockets st ! k)
           then
             let s = (rrSockets st ! k)\<lparr>rsOnError := False, rsState := 2\<rparr>
             in if rsSettled s \<noteq> None then st\<lparr>rrSockets := (rrSockets st)[k := s]\<rparr>
                else settle_ramp k (s\<lparr>rsSettled := Some False, rsOnOpen := False\<rparr>) (recordConnectionFailure (Some msg) (rrAgg st)) st
           else st\<lparr>rrCrashed := True\<rparr>
      else st)"

definition ramp_timer :: "bench_env \<Rightarrow> int \<Rightarrow> int \<Rightarrow> ramp_run \<Rightarrow> ramp_run" where
  "ramp_timer E now hr st =
     (if rrTimer st = None then st
      else
        let st1 = st\<lparr>rrTimer := None\<rparr>
        in case rrPhase st1 of
             RampPacing i \<Rightarrow> ramp_loop E now hr (ramp_total (rrConfig st1) - i) i st1
           | RampHolding \<Rightarrow> st1\<lparr>rrPhase := RampDone\<rparr>
           | _ \<Rightarrow> st1)"

definition ramp_cleanup :: "ramp_run \<Rightarrow> ramp_run" where
  "ramp_cleanup st =
     st\<lparr>rrSockets := fold (\<lambda>k ss. ss[k := (ss ! k)\<lparr>rsState := (if rsState (ss ! k) = 1 \<or> rsState (ss ! k) = 0 then 2 else rsState (ss ! k))\<rparr>])
          (rrActive st) (rrSockets st), rrActive := []\<rparr>"

definition ramp_abort :: "ramp_run \<Rightarrow> ramp_run" where
  "ramp_abort st = ramp_cleanup (st\<lparr>rrAborted := True\<rparr>)"

datatype ramp_event = RampOpen nat | RampError nat string | RampTimer | RampAbort

fun ramp_step :: "bench_env \<Rightarrow> int \<Rightarrow> int \<Rightarrow> ramp_event \<Rightarrow> ramp_run \<Rightarrow> ramp_run" where
  "ramp_step E now hr (RampOpen k) st = (if rrCrashed st then st else ramp_open hr k st)"
| "ramp_step E now hr (RampError k msg) st = (if rrCrashed st then st else ramp_error k msg st)"
| "ramp_step E now hr RampTimer st = (if rrCrashed st then st else ramp_timer E now hr st)"
| "ramp_step E now hr RampAbort st = (if rrCrashed st then st else ramp_abort st)"

definition ramp_all :: "bench_env \<Rightarrow> (int \<times> int \<times> ramp_event) list \<Rightarrow> ramp_run \<Rightarrow> ramp_run" where
  "ramp_all E evs st = fold (\<lambda>(now, hr, ev). ramp_step E now hr ev) evs st"

section \<open>Settings\<close>

definition SAFE_MAX_CONNECTIONS :: rat where "SAFE_MAX_CONNECTIONS = 5000"
definition DEFAULT_AUTH_SECRET :: string where "DEFAULT_AUTH_SECRET = ''pulse-dev-secret-key-32chars-min''"

record partial_config =
  pcTarget :: "string option"
  pcProfile :: "string option"
  pcConnections :: "jsnum option"
  pcDurationSec :: "jsnum option"
  pcRampRate :: "jsnum option"
  pcMessageRate :: "jsnum option"
  pcRooms :: "jsnum option"
  pcAuthSecret :: "string option"
  pcJson :: bool
  pcForce :: bool

definition no_bench_options :: partial_config where
  "no_bench_options = \<lparr>pcTarget = None, pcProfile = None, pcConnections = None, pcDurationSec = None, pcRampRate = None, pcMessageRate = None,
     pcRooms = None, pcAuthSecret = None, pcJson = False, pcForce = False\<rparr>"

fun profile_name :: "bench_profile \<Rightarrow> string" where
  "profile_name BroadcastProfile = ''broadcast''"
| "profile_name DirectProfile = ''direct''"
| "profile_name PresenceProfile = ''presence''"
| "profile_name RampProfile = ''ramp''"
| "profile_name BackpressureProfile = ''backpressure''"

definition valid_profiles :: "bench_profile list" where
  "valid_profiles = [BroadcastProfile, DirectProfile, PresenceProfile, RampProfile, BackpressureProfile]"

definition find_profile :: "string \<Rightarrow> bench_profile option" where
  "find_profile name = find (\<lambda>p. profile_name p = name) valid_profiles"

definition num_default :: "jsnum option \<Rightarrow> rat \<Rightarrow> jsnum" where
  "num_default n d = (case n of Some v \<Rightarrow> v | None \<Rightarrow> FinNum d)"

definition validateConfig :: "(jsnum \<Rightarrow> string) \<Rightarrow> string option \<Rightarrow> partial_config \<Rightarrow> string + bench_config" where
  "validateConfig numStr envSecret p =
     (let target = the (str_or (pcTarget p) (Some ''ws://localhost:8080'')); profile = the (str_or (pcProfile p) (Some ''broadcast''));
          connections = num_default (pcConnections p) 50; durationSec = num_default (pcDurationSec p) 5;
          rampRate = num_default (pcRampRate p) 25
      in if \<not> starts_with ''ws://'' target \<and> \<not> starts_with ''wss://'' target
         then Inl (''Invalid benchmark target URL '' @ [CHR 0x27] @ target @ [CHR 0x27] @ ''. Must start with ws:// or wss://'')
         else if find_profile profile = None
         then Inl (''Unknown benchmark profile '' @ [CHR 0x27] @ profile @ [CHR 0x27] @ ''. Valid profiles are: '' @
                join_with '', '' (map profile_name valid_profiles))
         else if num_leq connections (FinNum 0)
         then Inl (''Connections count must be greater than 0, received '' @ numStr connections)
         else if num_less (FinNum SAFE_MAX_CONNECTIONS) connections \<and> \<not> pcForce p
         then Inl (''Requested '' @ numStr connections @ '' connections exceeds safe limit of '' @ numStr (FinNum SAFE_MAX_CONNECTIONS) @
                ''. Use --force-high-concurrency to override this laptop safety threshold.'')
         else if num_leq durationSec (FinNum 0) \<or> num_less (FinNum 3600) durationSec
         then Inl (''Duration must be between 1 and 3600 seconds, received '' @ numStr durationSec)
         else if num_leq rampRate (FinNum 0)
         then Inl (''Ramp rate must be greater than 0, received '' @ numStr rampRate)
         else Inr \<lparr>bcTarget = target, bcProfile = the (find_profile profile), bcConnections = connections, bcDurationSec = durationSec,
                bcRampRate = rampRate, bcMessageRate = num_default (pcMessageRate p) 10, bcRooms = num_default (pcRooms p) 5,
                bcAuthSecret = the (str_or (pcAuthSecret p) (str_or envSecret (Some DEFAULT_AUTH_SECRET))), bcJson = pcJson p,
                bcForce = pcForce p\<rparr>)"

section \<open>The command line\<close>

record bench_cli =
  cliHelp :: bool
  cliVersion :: bool
  cliConfig :: partial_config

text \<open>The options that take the next argument; \<open>parseFloat\<close> is a parameter.\<close>

definition bench_option :: "(string \<Rightarrow> jsnum) \<Rightarrow> string \<Rightarrow> (string \<Rightarrow> partial_config \<Rightarrow> partial_config) option" where
  "bench_option parseFloat arg =
     (if arg = ''--target'' \<or> arg = ''-t'' then Some (\<lambda>v p. p\<lparr>pcTarget := Some v\<rparr>)
      else if arg = ''--profile'' \<or> arg = ''-p'' then Some (\<lambda>v p. p\<lparr>pcProfile := Some v\<rparr>)
      else if arg = ''--connections'' \<or> arg = ''-c'' then Some (\<lambda>v p. p\<lparr>pcConnections := Some (js_parseInt v)\<rparr>)
      else if arg = ''--duration'' \<or> arg = ''-d'' then Some (\<lambda>v p. p\<lparr>pcDurationSec := Some (parseFloat v)\<rparr>)
      else if arg = ''--ramp-rate'' \<or> arg = ''-r'' then Some (\<lambda>v p. p\<lparr>pcRampRate := Some (js_parseInt v)\<rparr>)
      else if arg = ''--message-rate'' \<or> arg = ''-m'' then Some (\<lambda>v p. p\<lparr>pcMessageRate := Some (js_parseInt v)\<rparr>)
      else if arg = ''--rooms'' then Some (\<lambda>v p. p\<lparr>pcRooms := Some (js_parseInt v)\<rparr>)
      else if arg = ''--auth-secret'' then Some (\<lambda>v p. p\<lparr>pcAuthSecret := Some v\<rparr>)
      else None)"

fun bench_args :: "(string \<Rightarrow> jsnum) \<Rightarrow> string list \<Rightarrow> bench_cli \<Rightarrow> bench_cli" where
  "bench_args parseFloat [] c = c"
| "bench_args parseFloat (arg # rest) c =
     (if arg = ''--help'' \<or> arg = ''-h'' then bench_args parseFloat rest (c\<lparr>cliHelp := True\<rparr>)
      else if arg = ''--version'' \<or> arg = ''-v'' then bench_args parseFloat rest (c\<lparr>cliVersion := True\<rparr>)
      else if arg = ''--json'' then bench_args parseFloat rest (c\<lparr>cliConfig := (cliConfig c)\<lparr>pcJson := True\<rparr>\<rparr>)
      else if arg = ''--force-high-concurrency'' then bench_args parseFloat rest (c\<lparr>cliConfig := (cliConfig c)\<lparr>pcForce := True\<rparr>\<rparr>)
      else case bench_option parseFloat arg of
             None \<Rightarrow> bench_args parseFloat rest c
           | Some put \<Rightarrow>
               if rest = [] then c
               else bench_args parseFloat (tl rest) (c\<lparr>cliConfig := put (hd rest) (cliConfig c)\<rparr>))"

definition parse_bench_args :: "(string \<Rightarrow> jsnum) \<Rightarrow> string list \<Rightarrow> bench_cli" where
  "parse_bench_args parseFloat argv = bench_args parseFloat argv \<lparr>cliHelp = False, cliVersion = False, cliConfig = no_bench_options\<rparr>"

section \<open>The report\<close>

text \<open>The dash of the verdict, beyond the code units below 256, is written \<open>CHR 0x97\<close>.\<close>

definition report_line :: "string \<Rightarrow> string \<Rightarrow> string" where
  "report_line label value = '' '' @ label @ replicate (27 - length label) CHR '' '' @ value"

definition milliseconds :: "string \<Rightarrow> rat \<Rightarrow> string" where
  "milliseconds label ms = ''   '' @ label @ replicate (25 - length label) CHR '' '' @ js_toFixed 2 ms @ '' ms''"

definition report_items :: "string \<Rightarrow> string list \<Rightarrow> string list" where
  "report_items title items = (if items = [] then [] else [title] @ map (\<lambda>v. ''   - '' @ v) items @ [[]])"

definition formatReport :: "(jsnum \<Rightarrow> string) \<Rightarrow> bench_result \<Rightarrow> string" where
  "formatReport numStr r =
     (let rule80 = replicate 80 CHR ''=''; count = (\<lambda>n. digits_of_nat n); lat = brLatency r; con = brConnectLatency r;
          estPct = (if brAttempted r > 0 then js_toFixed 1 (of_nat (brEstablished r) / of_nat (brAttempted r) * 100) else ''0.0'');
          verdict = (if brPassed r then ''PASS '' @ [CHR 0x97] @ '' ALL SLA TARGETS MET''
                     else ''FAIL '' @ [CHR 0x97] @ '' SLA VIOLATION OR ERRORS DETECTED'')
      in join_with [CHR 0x0A]
           ([rule80, '' PULSE BENCHMARK REPORT'',
             '' Profile: '' @ profile_name (brProfile r) @ '' | Target: '' @ brTarget r @ '' | Duration: '' @ js_toFixed 1 (brDurationSec r) @ ''s'',
             rule80,
             report_line ''Connections Attempted:'' (count (brAttempted r)),
             report_line ''Connections Established:'' (count (brEstablished r) @ '' ('' @ estPct @ ''%)''),
             report_line ''Connections Failed:'' (count (brFailed r)),
             report_line ''Messages Sent:'' (count (brMessagesSent r)),
             report_line ''Messages Received:'' (count (brMessagesReceived r) @ '' ('' @ js_toFixed 1 (deliveryRatePercent r) @ ''%)''),
             report_line ''Messages Dropped:'' (count (brMessagesDropped r)),
             report_line ''Aggregate Throughput:'' (numStr (FinNum (throughputMsgPerSec r)) @ '' msg/sec''),
             [], '' Latency Distribution:'',
             milliseconds ''Min:'' (minMs lat), milliseconds ''Mean:'' (meanMs lat), milliseconds ''p50 (Median):'' (p50Ms lat),
             milliseconds ''p90:'' (p90Ms lat), milliseconds ''p95:'' (p95Ms lat), milliseconds ''p99:'' (p99Ms lat),
             milliseconds ''Max:'' (maxMs lat),
             [], '' Connection Establishment Latency:'',
             milliseconds ''p50:'' (p50Ms con), milliseconds ''p95:'' (p95Ms con), milliseconds ''Max:'' (maxMs con), []] @
            report_items '' SLA Violations:'' (slaViolations r) @
            report_items '' Errors Encountered:'' (take 5 (brErrors r)) @
            [report_line ''Final Verdict:'' verdict, rule80]))"

section \<open>The runner\<close>

text \<open>
  What \<^verbatim>\<open>run\<close> has under way: the state of the profile, which is a local variable. \<^verbatim>\<open>activeSockets\<close> holds only
  what \<^verbatim>\<open>connectClient\<close> opened, that is nothing in these profiles. The presence and back-pressure profiles are
  \<open>OtherWork\<close>, of which nothing is modelled.
\<close>

datatype workload = LoadWork load_run | RampWork ramp_run | OtherWork

record bench_runner =
  rnConfig :: bench_config
  rnAborted :: bool
  rnWork :: workload

definition start_run :: "bench_env \<Rightarrow> bench_config \<Rightarrow> runtime \<Rightarrow> int \<Rightarrow> int \<Rightarrow> bench_runner" where
  "start_run E cfg ids now hr =
     \<lparr>rnConfig = cfg, rnAborted = False,
      rnWork = (if bcProfile cfg = RampProfile then RampWork (start_ramp E cfg (new_StatsAggregator cfg now) now hr)
                else if bcProfile cfg = PresenceProfile \<or> bcProfile cfg = BackpressureProfile then OtherWork
                else LoadWork (start_load E cfg (new_StatsAggregator cfg now) ids now hr))\<rparr>"

text \<open>\<^verbatim>\<open>abort()\<close>: the flag of the runner and its own sockets.\<close>

definition runner_abort :: "bench_runner \<Rightarrow> bench_runner" where
  "runner_abort rn = rn\<lparr>rnAborted := True\<rparr>"

datatype runner_event = LoadEvent load_event | RampEvent ramp_event | Interrupt

fun runner_step :: "bench_env \<Rightarrow> int \<Rightarrow> int \<Rightarrow> runner_event \<Rightarrow> bench_runner \<Rightarrow> bench_runner" where
  "runner_step E now hr (LoadEvent ev) rn =
     (case rnWork rn of LoadWork st \<Rightarrow> rn\<lparr>rnWork := LoadWork (load_step E now hr ev st)\<rparr> | _ \<Rightarrow> rn)"
| "runner_step E now hr (RampEvent ev) rn =
     (case rnWork rn of RampWork st \<Rightarrow> rn\<lparr>rnWork := RampWork (ramp_step E now hr ev st)\<rparr> | _ \<Rightarrow> rn)"
| "runner_step E now hr Interrupt rn = runner_abort rn"

definition runner_all :: "bench_env \<Rightarrow> (int \<times> int \<times> runner_event) list \<Rightarrow> bench_runner \<Rightarrow> bench_runner" where
  "runner_all E evs rn = fold (\<lambda>(now, hr, ev). runner_step E now hr ev) evs rn"

text \<open>The result, once \<^verbatim>\<open>execute\<close> has returned; the clean-up of the profile does not touch the figures.\<close>

definition runner_result :: "(rat \<Rightarrow> string) \<Rightarrow> int \<Rightarrow> bench_runner \<Rightarrow> bench_result option" where
  "runner_result numStr now rn =
     (case rnWork rn of
        LoadWork st \<Rightarrow>
          if ldPhase st = LoadDone \<and> \<not> ldCrashed st then Some (fst (computeResult numStr now (finish_bench now (ldAgg st)))) else None
      | RampWork st \<Rightarrow>
          if rrPhase st = RampDone \<and> \<not> rrCrashed st then Some (fst (computeResult numStr now (finish_bench now (rrAgg st)))) else None
      | OtherWork \<Rightarrow> None)"

text \<open>The command line up to the run, and the exit code.\<close>

datatype boot_result = BenchExit int | BenchRun bench_config

definition bench_boot :: "(string \<Rightarrow> jsnum) \<Rightarrow> (jsnum \<Rightarrow> string) \<Rightarrow> string option \<Rightarrow> string list \<Rightarrow> boot_result" where
  "bench_boot parseFloat numStr envSecret argv =
     (let c = parse_bench_args parseFloat argv
      in if cliHelp c then BenchExit 0 else if cliVersion c then BenchExit 0
         else case validateConfig numStr envSecret (cliConfig c) of Inl err \<Rightarrow> BenchExit 1 | Inr cfg \<Rightarrow> BenchRun cfg)"

definition bench_exit_code :: "bench_result \<Rightarrow> int" where
  "bench_exit_code r = (if brPassed r then 0 else 1)"

section \<open>Settings are checked\<close>

definition as_options :: "bench_config \<Rightarrow> partial_config" where
  "as_options c = \<lparr>pcTarget = Some (bcTarget c), pcProfile = Some (profile_name (bcProfile c)), pcConnections = Some (bcConnections c),
     pcDurationSec = Some (bcDurationSec c), pcRampRate = Some (bcRampRate c), pcMessageRate = Some (bcMessageRate c),
     pcRooms = Some (bcRooms c), pcAuthSecret = Some (bcAuthSecret c), pcJson = bcJson c, pcForce = bcForce c\<rparr>"

lemma find_profile_name [simp]: "find_profile (profile_name p) = Some p"
  by (cases p) (simp_all add: find_profile_def valid_profiles_def)

lemma profile_name_ne [simp]: "profile_name p \<noteq> []"
  by (cases p) simp_all

lemma str_or_ne: "d \<noteq> [] \<Longrightarrow> the (str_or a (Some d)) \<noteq> []"
  by (cases a) (auto simp: str_or_def)

lemma validateConfig_ok:
  assumes "validateConfig numStr envSecret p = Inr c"
  shows "starts_with ''ws://'' (bcTarget c) \<or> starts_with ''wss://'' (bcTarget c)" "\<not> num_leq (bcConnections c) (FinNum 0)"
    "\<not> num_less (FinNum 5000) (bcConnections c) \<or> bcForce c" "\<not> num_leq (bcDurationSec c) (FinNum 0)"
    "\<not> num_less (FinNum 3600) (bcDurationSec c)" "\<not> num_leq (bcRampRate c) (FinNum 0)" "bcAuthSecret c \<noteq> []" "bcTarget c \<noteq> []"
proof -
  define target where "target = the (str_or (pcTarget p) (Some ''ws://localhost:8080''))"
  define connections where "connections = num_default (pcConnections p) 50"
  define durationSec where "durationSec = num_default (pcDurationSec p) 5"
  define rampRate where "rampRate = num_default (pcRampRate p) 25"
  define secret where "secret = the (str_or (pcAuthSecret p) (str_or envSecret (Some DEFAULT_AUTH_SECRET)))"
  have g: "starts_with ''ws://'' target \<or> starts_with ''wss://'' target" "\<not> num_leq connections (FinNum 0)"
    "\<not> (num_less (FinNum 5000) connections \<and> \<not> pcForce p)" "\<not> (num_leq durationSec (FinNum 0) \<or> num_less (FinNum 3600) durationSec)"
    "\<not> num_leq rampRate (FinNum 0)" "bcTarget c = target" "bcConnections c = connections" "bcDurationSec c = durationSec"
    "bcRampRate c = rampRate" "bcForce c = pcForce p" "bcAuthSecret c = secret"
    using assms
    unfolding validateConfig_def Let_def target_def [symmetric] connections_def [symmetric] durationSec_def [symmetric]
      rampRate_def [symmetric] secret_def [symmetric] SAFE_MAX_CONNECTIONS_def
    by (simp_all only: split: if_split_asm) (simp_all only: Inr_Inl_False Inl_Inr_False sum.inject bench_config.simps, auto)
  have "DEFAULT_AUTH_SECRET \<noteq> []" by (simp add: DEFAULT_AUTH_SECRET_def)
  then have "secret \<noteq> []" unfolding secret_def
    by (cases "pcAuthSecret p"; cases envSecret) (auto simp: str_or_def)
  moreover have "target \<noteq> []" unfolding target_def by (rule str_or_ne) simp
  ultimately show "starts_with ''ws://'' (bcTarget c) \<or> starts_with ''wss://'' (bcTarget c)" "\<not> num_leq (bcConnections c) (FinNum 0)"
    "\<not> num_less (FinNum 5000) (bcConnections c) \<or> bcForce c" "\<not> num_leq (bcDurationSec c) (FinNum 0)"
    "\<not> num_less (FinNum 3600) (bcDurationSec c)" "\<not> num_leq (bcRampRate c) (FinNum 0)" "bcAuthSecret c \<noteq> []" "bcTarget c \<noteq> []"
    using g by auto
qed

text \<open>
  C39: settings that are accepted are within their limits - unless they are not numbers - and are accepted again
  unchanged.
\<close>
theorem bench_settings_checked:
  assumes "validateConfig numStr envSecret p = Inr c"
  shows "(bcConnections c = NaN \<or> num_less (FinNum 0) (bcConnections c)) \<and>
    (bcForce c \<or> bcConnections c = NaN \<or> num_leq (bcConnections c) (FinNum 5000)) \<and>
    (bcDurationSec c = NaN \<or> num_less (FinNum 0) (bcDurationSec c) \<and> num_leq (bcDurationSec c) (FinNum 3600)) \<and>
    (bcRampRate c = NaN \<or> num_less (FinNum 0) (bcRampRate c)) \<and>
    validateConfig numStr envSecret' (as_options c) = Inr c"
proof -
  note ok = validateConfig_ok [OF assms]
  have a: "num_less x y" if "\<not> num_leq y x" "x \<noteq> NaN" "y \<noteq> NaN" for x y using not_num_leq [of y x] that by simp
  have b: "num_leq y x" if "\<not> num_less x y" "x \<noteq> NaN" "y \<noteq> NaN" for x y using not_num_leq [of y x] that by blast
  have again: "validateConfig numStr envSecret' (as_options c) = Inr c"
    using ok by (simp add: validateConfig_def as_options_def num_default_def str_or_def SAFE_MAX_CONNECTIONS_def Let_def)
  show ?thesis using ok(2-6) again a b by (metis jsnum.distinct(5))
qed

lemma bench_settings_checked_witness:
  "\<exists>c. validateConfig (\<lambda>n. []) None no_bench_options = Inr c \<and> validateConfig (\<lambda>n. []) None (as_options c) = Inr c \<and>
    num_less (FinNum 0) (bcDurationSec c)"
proof -
  obtain c where c: "validateConfig (\<lambda>n. []) None no_bench_options = Inr c" "bcDurationSec c = FinNum 5"
    by (simp add: validateConfig_def no_bench_options_def num_default_def str_or_def starts_with_def find_profile_def valid_profiles_def
        SAFE_MAX_CONNECTIONS_def Let_def)
  then show ?thesis using bench_settings_checked [OF c(1), of None] by auto
qed

text \<open>
  A number of connections that is no number passes every check, opens no connection, and the benchmark
  passes: the exit code is 0.
\<close>
theorem no_number_of_connections_passes:
  assumes "js_parseInt s = NaN"
  shows "\<exists>cfg r. bench_boot parseFloat numStr envSecret [''--connections'', s] = BenchRun cfg \<and>
    runner_result textOf later (start_run E cfg ids now hr) = Some r \<and> brAttempted r = 0 \<and> bench_exit_code r = 0"
proof -
  obtain cfg where c: "bench_boot parseFloat numStr envSecret [''--connections'', s] = BenchRun cfg"
    "bcConnections cfg = NaN" "bcProfile cfg = BroadcastProfile"
    by (simp add: bench_boot_def parse_bench_args_def bench_option_def no_bench_options_def validateConfig_def num_default_def str_or_def
        starts_with_def find_profile_def valid_profiles_def assms Let_def)
  have "ldPhase (start_load E cfg (new_StatsAggregator cfg now) ids now hr) = LoadDone"
    "ldAgg (start_load E cfg (new_StatsAggregator cfg now) ids now hr) = new_StatsAggregator cfg now"
    "\<not> ldCrashed (start_load E cfg (new_StatsAggregator cfg now) ids now hr)"
    by (simp_all add: start_load_def next_attempt_def totalClients_def is_direct_def after_connecting_def c)
  then show ?thesis using c
    by (simp add: runner_result_def start_run_def computeResult_def finish_bench_def new_StatsAggregator_def bench_exit_code_def
        sla_violations_def calculatePercentiles_def Let_def)
qed

lemma no_number_of_connections_passes_witness:
  "\<exists>cfg r. bench_boot (\<lambda>s. NaN) (\<lambda>n. []) None [''--connections'', ''many''] = BenchRun cfg \<and>
    runner_result (\<lambda>x. []) 9 (start_run bench_sample_env cfg \<lparr>metricCalls = [], lastMs = 0, sequenceCounter = 0, draws = 0\<rparr> 1 1) = Some r \<and>
    brAttempted r = 0 \<and> bench_exit_code r = 0"
proof -
  have "js_parseInt ''many'' = NaN" by code_simp
  from no_number_of_connections_passes [OF this] show ?thesis by blast
qed

text \<open>An interrupt changes nothing of what the profile does, though it is reported as an orderly end.\<close>

lemma interrupt_ignored:
  "runner_result numStr later (runner_all E (evs @ [(now, hr, Interrupt)] @ evs') rn) = runner_result numStr later (runner_all E (evs @ evs') rn)"
proof -
  have same: "rnWork (runner_step E now hr ev rn) = rnWork (runner_step E now hr ev rn')" if "rnWork rn = rnWork rn'" for now hr ev rn rn'
    using that by (cases ev) (auto simp: runner_abort_def split: workload.splits)
  have all: "rnWork (runner_all E evs rn) = rnWork (runner_all E evs rn')" if "rnWork rn = rnWork rn'" for evs rn rn'
    using that
  proof (induction evs arbitrary: rn rn')
    case (Cons ev evs)
    obtain now hr e where ev: "ev = (now, hr, e)" by (cases ev)
    have "runner_all E (ev # evs) r = runner_all E evs (runner_step E now hr e r)" for r by (simp add: runner_all_def ev)
    then show ?case using Cons.IH [OF same [OF Cons.prems]] by simp
  qed (simp add: runner_all_def)
  from all [of "runner_abort (runner_all E evs rn)" "runner_all E evs rn" evs'] show ?thesis
    by (simp add: runner_result_def runner_all_def runner_abort_def)
qed

section \<open>The ramp counts every attempt once\<close>

definition settled_as :: "bool \<Rightarrow> ramp_socket list \<Rightarrow> nat" where
  "settled_as b ss = length (filter (\<lambda>s. rsSettled s = Some b) ss)"

definition unsettled :: "ramp_socket list \<Rightarrow> nat" where
  "unsettled ss = length (filter (\<lambda>s. rsSettled s = None) ss)"

definition ramp_core :: "ramp_run \<Rightarrow> bool" where
  "ramp_core st \<longleftrightarrow> agAttempted (rrAgg st) = length (rrSockets st) \<and> agEstablished (rrAgg st) = settled_as True (rrSockets st) \<and>
     agFailed (rrAgg st) = settled_as False (rrSockets st) \<and> length (rrSockets st) \<le> ramp_total (rrConfig st)"

definition ramp_inv :: "ramp_run \<Rightarrow> bool" where
  "ramp_inv st \<longleftrightarrow> ramp_core st \<and>
     (case rrPhase st of RampPacing i \<Rightarrow> length (rrSockets st) = i | RampWaiting \<Rightarrow> True | _ \<Rightarrow> unsettled (rrSockets st) = 0)"

lemma ramp_balance: "length ss = settled_as True ss + settled_as False ss + unsettled ss"
proof (induction ss)
  case (Cons s ss)
  then show ?case by (cases "rsSettled s") (auto simp: settled_as_def unsettled_def)
qed (simp add: settled_as_def unsettled_def)

lemma all_settled_count: "all_settled st \<longleftrightarrow> unsettled (rrSockets st) = 0"
  by (auto simp: all_settled_def unsettled_def list_all_iff filter_empty_conv)

lemma ramp_counts_split:
  assumes "k < length ss"
  obtains a where "\<And>b x. settled_as b (ss[k := x]) = a b + (if rsSettled x = Some b then 1 else 0)"
proof -
  have u: "ss[k := x] = take k ss @ x # drop (Suc k) ss" for x using assms by (simp add: upd_conv_take_nth_drop)
  show ?thesis
    by (rule that [of "\<lambda>b. settled_as b (take k ss) + settled_as b (drop (Suc k) ss)"]) (simp add: u settled_as_def)
qed

lemma ramp_same:
  assumes "k < length ss" "rsSettled x = rsSettled (ss ! k)"
  shows "settled_as b (ss[k := x]) = settled_as b ss" "unsettled (ss[k := x]) = unsettled ss"
proof -
  have c: "settled_as b (ss[k := x]) = settled_as b ss" for b
  proof -
    obtain a where a: "\<And>b x. settled_as b (ss[k := x]) = a b + (if rsSettled x = Some b then 1 else 0)"
      using ramp_counts_split [OF assms(1)] by blast
    show ?thesis using a [of b x] a [of b "ss ! k"] assms(2) by simp
  qed
  then show "settled_as b (ss[k := x]) = settled_as b ss" by blast
  show "unsettled (ss[k := x]) = unsettled ss"
    using ramp_balance [of ss] ramp_balance [of "ss[k := x]"] c [of True] c [of False] by (metis add_left_cancel length_list_update)
qed

lemma ramp_wait_inv: "ramp_core st \<Longrightarrow> ramp_inv (ramp_wait st)"
  by (auto simp: ramp_wait_def ramp_hold_def ramp_inv_def ramp_core_def all_settled_count split: jsnum.splits)

lemma ramp_loop_inv:
  assumes "ramp_core st" "length (rrSockets st) = i" "i + n = ramp_total (rrConfig st)"
  shows "ramp_inv (ramp_loop E now hr n i st)"
  using assms
proof (induction n arbitrary: i st)
  case 0
  then show ?case by (simp add: ramp_wait_inv)
next
  case (Suc n)
  let ?st = "ramp_attempt E now hr i st"
  have core: "ramp_core ?st" "length (rrSockets ?st) = i + 1" "rrConfig ?st = rrConfig st"
    using Suc.prems by (auto simp: ramp_core_def ramp_attempt_def settled_as_def recordConnectionAttempt_def)
  have pace: "ramp_inv (?st\<lparr>rrPhase := RampPacing (i + 1), rrTimer := t\<rparr>)" for t using core by (simp add: ramp_inv_def ramp_core_def)
  have go: "ramp_inv (ramp_loop E now hr n (i + 1) ?st)" using Suc.prems core by (intro Suc.IH) simp_all
  show ?case using pace go ramp_wait_inv [OF Suc.prems(1)] by (simp add: Let_def)
qed

lemma settle_inv:
  assumes "ramp_inv st" "k < length (rrSockets st)" "rsSettled (rrSockets st ! k) = None" "rsSettled s = Some b"
    and "agAttempted ag = agAttempted (rrAgg st)"
    and "agEstablished ag = agEstablished (rrAgg st) + (if b then 1 else 0)" "agFailed ag = agFailed (rrAgg st) + (if b then 0 else 1)"
  shows "ramp_inv (settle_ramp k s ag st)"
proof -
  obtain a where a: "\<And>b x. settled_as b ((rrSockets st)[k := x]) = a b + (if rsSettled x = Some b then 1 else 0)"
    using ramp_counts_split [OF assms(2)] by blast
  note own = a [of _ "rrSockets st ! k", unfolded list_update_id]
  have core: "ramp_core (st\<lparr>rrAgg := ag, rrSockets := (rrSockets st)[k := s]\<rparr>)"
    using assms a own by (cases b) (simp_all add: ramp_inv_def ramp_core_def)
  have "unsettled (rrSockets st) \<noteq> 0" using assms(2,3) nth_mem by (force simp: unsettled_def filter_empty_conv)
  then have "ramp_inv (st\<lparr>rrAgg := ag, rrSockets := (rrSockets st)[k := s]\<rparr>)"
    using core assms(1) by (auto simp: ramp_inv_def split: ramp_phase.splits)
  then show ?thesis using ramp_wait_inv [OF core] by (simp add: settle_ramp_def Let_def)
qed

lemma ramp_frame:
  assumes "ramp_inv st" "rrAgg st' = rrAgg st" "rrConfig st' = rrConfig st" "rrPhase st' = rrPhase st"
    "length (rrSockets st') = length (rrSockets st)" "\<And>b. settled_as b (rrSockets st') = settled_as b (rrSockets st)"
  shows "ramp_inv st'"
proof -
  have "unsettled (rrSockets st') = unsettled (rrSockets st)"
    using ramp_balance [of "rrSockets st"] ramp_balance [of "rrSockets st'"] assms(5,6) by simp
  then show ?thesis using assms by (auto simp: ramp_inv_def ramp_core_def split: ramp_phase.splits)
qed

lemma ramp_put_inv:
  assumes "ramp_inv st" "k < length (rrSockets st)" "rsSettled s = rsSettled (rrSockets st ! k)"
  shows "ramp_inv (st\<lparr>rrSockets := (rrSockets st)[k := s]\<rparr>)"
  by (rule ramp_frame [OF assms(1)]) (simp_all add: ramp_same [OF assms(2,3)])

lemma ramp_cleanup_inv:
  assumes "ramp_inv st"
  shows "ramp_inv (ramp_cleanup st)"
proof -
  let ?f = "\<lambda>k ss. ss[k := (ss ! k)\<lparr>rsState := (if rsState (ss ! k) = 1 \<or> rsState (ss ! k) = 0 then 2 else rsState (ss ! k))\<rparr>]"
  have one: "length (?f k ss) = length ss \<and> settled_as b (?f k ss) = settled_as b ss" for k ss b
    by (cases "k < length ss") (simp_all add: ramp_same list_update_beyond not_less)
  have "length (fold f ks ss) = length ss \<and> settled_as b (fold f ks ss) = settled_as b ss"
    if "\<And>k ss. length (f k ss) = length ss \<and> settled_as b (f k ss) = settled_as b ss" for f :: "nat \<Rightarrow> ramp_socket list \<Rightarrow> ramp_socket list" and ks ss b
    by (induction ks arbitrary: ss) (simp_all add: that)
  from this [of ?f, OF one] have "length (fold ?f ks ss) = length ss \<and> settled_as b (fold ?f ks ss) = settled_as b ss" for ks ss b by blast
  then show ?thesis unfolding ramp_cleanup_def by (intro ramp_frame [OF assms]) simp_all
qed

lemma ramp_step_inv:
  assumes "ramp_inv st"
  shows "ramp_inv (ramp_step E now hr ev st)"
proof -
  have o: "ramp_inv (ramp_open hr k st)" for k
  proof (cases "k < length (rrSockets st) \<and> rsOnOpen (rrSockets st ! k)")
    case True
    have act: "ramp_inv (st\<lparr>rrActive := set_add k (rrActive st)\<rparr>)" by (rule ramp_frame [OF assms]) simp_all
    show ?thesis
    proof (cases "rsSettled (rrSockets st ! k)")
      case None
      have "ramp_inv (settle_ramp k ((rrSockets st ! k)\<lparr>rsOnOpen := False, rsState := 1, rsSettled := Some True, rsOnError := False\<rparr>)
         (recordConnectionSuccess l (rrAgg st)) (st\<lparr>rrActive := set_add k (rrActive st)\<rparr>))" for l
        using True None by (intro settle_inv [OF act, of _ _ True]) simp_all
      then show ?thesis using True None by (simp add: ramp_open_def Let_def)
    next
      case (Some b)
      then show ?thesis using True ramp_put_inv [OF assms, of k "(rrSockets st ! k)\<lparr>rsOnOpen := False, rsState := 1\<rparr>"]
        by (simp add: ramp_open_def Let_def)
    qed
  qed (use assms in \<open>auto simp: ramp_open_def\<close>)
  have e: "ramp_inv (ramp_error k msg st)" for k msg
  proof (cases "k < length (rrSockets st) \<and> rsOnError (rrSockets st ! k)")
    case True
    show ?thesis
    proof (cases "rsSettled (rrSockets st ! k)")
      case None
      have "ramp_inv (settle_ramp k ((rrSockets st ! k)\<lparr>rsOnError := False, rsState := 2, rsSettled := Some False, rsOnOpen := False\<rparr>)
         (recordConnectionFailure m (rrAgg st)) st)" for m
        using True None by (intro settle_inv [OF assms, of _ _ False]) simp_all
      then show ?thesis using True None by (simp add: ramp_error_def Let_def)
    next
      case (Some b)
      then show ?thesis using True ramp_put_inv [OF assms, of k "(rrSockets st ! k)\<lparr>rsOnError := False, rsState := 2\<rparr>"]
        by (simp add: ramp_error_def Let_def)
    qed
  next
    case False
    have "ramp_inv (st\<lparr>rrCrashed := True\<rparr>)" by (rule ramp_frame [OF assms]) simp_all
    then show ?thesis using False assms by (auto simp: ramp_error_def)
  qed
  have t: "ramp_inv (ramp_timer E now hr st)"
  proof -
    let ?st = "st\<lparr>rrTimer := None\<rparr>"
    have i: "ramp_inv ?st" by (rule ramp_frame [OF assms]) simp_all
    have p: "ramp_inv (ramp_loop E now hr (ramp_total (rrConfig ?st) - n) n ?st)" if "rrPhase ?st = RampPacing n" for n
      using i that by (intro ramp_loop_inv) (auto simp: ramp_inv_def ramp_core_def)
    have h: "ramp_inv (?st\<lparr>rrPhase := RampDone\<rparr>)" if "rrPhase ?st = RampHolding" using i that by (simp add: ramp_inv_def ramp_core_def)
    show ?thesis using i p h assms by (simp add: ramp_timer_def Let_def split: ramp_phase.splits)
  qed
  have a: "ramp_inv (ramp_abort st)"
    unfolding ramp_abort_def by (rule ramp_cleanup_inv, rule ramp_frame [OF assms]) simp_all
  show ?thesis using o e t a assms by (cases ev) simp_all
qed

text \<open>
  In a ramp every attempt is counted exactly once, as established, failed or still open, there are never more
  attempts than connections asked for, and nothing is open when the connections are held or the ramp is over.
\<close>
theorem ramp_counts_exact:
  "let st = ramp_all E evs (start_ramp E cfg (new_StatsAggregator cfg t) now hr)
   in agAttempted (rrAgg st) = agEstablished (rrAgg st) + agFailed (rrAgg st) + unsettled (rrSockets st) \<and>
     agAttempted (rrAgg st) \<le> ramp_total (rrConfig st) \<and>
     (unsettled (rrSockets st) = 0 \<or> (case rrPhase st of RampPacing _ \<Rightarrow> True | RampWaiting \<Rightarrow> True | _ \<Rightarrow> False))"
proof -
  have s: "ramp_inv (start_ramp E cfg (new_StatsAggregator cfg t) now hr)"
    unfolding start_ramp_def by (rule ramp_loop_inv) (simp_all add: ramp_core_def new_StatsAggregator_def settled_as_def)
  have "ramp_inv (ramp_all E evs st)" if "ramp_inv st" for st
    using that
  proof (induction evs arbitrary: st)
    case (Cons ev evs)
    then show ?case by (cases ev) (simp add: ramp_all_def ramp_step_inv)
  qed (simp add: ramp_all_def)
  from this [OF s] show ?thesis
    using ramp_balance by (auto simp: ramp_inv_def ramp_core_def Let_def split: ramp_phase.splits)
qed

end
