(* ===== verification/Chaos_Runner.thy ===== *)
theory Chaos_Runner
  imports Bench_Stats Prometheus
begin

text \<open>
  \<^verbatim>\<open>chaos/ChaosScenarioRunner.ts\<close> and the command line \<^verbatim>\<open>bin/pulse-chaos.ts\<close>: registered drills, their results,
  the scraping of metrics, the table and the exit code. What a drill does is a parameter: from its context to a
  result or the message of what it throws. \<^verbatim>\<open>parseFloat\<close> and \<^verbatim>\<open>String\<close> are parameters.
\<close>

section \<open>Drills and results\<close>

datatype drill_status = DrillPassed | DrillFailed | DrillUnavailable

record drill_timing =
  tmFaultInjectedAt :: int
  tmFailureDetectedAt :: "int option"
  tmMttd :: "rat option"
  tmFaultRestoredAt :: "int option"
  tmMttr :: "rat option"
  tmSystemRecoveredAt :: "int option"

record drill_result =
  drScenarioId :: string
  drName :: string
  drStatus :: drill_status
  drTiming :: drill_timing
  drMetrics :: "(string \<times> json) list"
  drError :: "string option"
  drExtra :: "(string \<times> json) list option"

text \<open>\<^verbatim>\<open>{ faultInjectedAt }\<close>\<close>

definition fault_at :: "int \<Rightarrow> drill_timing" where
  "fault_at now =
     \<lparr>tmFaultInjectedAt = now, tmFailureDetectedAt = None, tmMttd = None, tmFaultRestoredAt = None, tmMttr = None,
      tmSystemRecoveredAt = None\<rparr>"

record drill_context =
  cxPulsePortA :: jsnum
  cxPulsePortB :: jsnum
  cxRedisHost :: string
  cxRedisPort :: jsnum
  cxRedisProxyPort :: jsnum
  cxAuthSecret :: string

record drill =
  dlId :: string
  dlName :: string
  dlDescription :: string
  dlExecute :: "drill_context \<Rightarrow> string + drill_result"

type_synonym chaos_runner = "(string, drill) jsmap"

definition register_drill :: "drill \<Rightarrow> chaos_runner \<Rightarrow> chaos_runner" where
  "register_drill d rn = js_set (dlId d) d rn"

definition getScenario :: "string \<Rightarrow> chaos_runner \<Rightarrow> drill option" where
  "getScenario i rn = map_of rn i"

definition getAllScenarios :: "chaos_runner \<Rightarrow> drill list" where
  "getAllScenarios rn = map snd rn"

record context_overrides =
  ovPulsePortA :: "jsnum option"
  ovPulsePortB :: "jsnum option"
  ovRedisHost :: "string option"
  ovRedisPort :: "jsnum option"
  ovRedisProxyPort :: "jsnum option"
  ovAuthSecret :: "string option"

text \<open>\<^verbatim>\<open>Number(text) || 6379\<close>, with \<^verbatim>\<open>Number\<close> of the environment variable as an argument.\<close>

definition default_context :: "(string \<Rightarrow> string option) \<Rightarrow> (string \<Rightarrow> jsnum) \<Rightarrow> drill_context" where
  "default_context penv toNumber =
     \<lparr>cxPulsePortA = FinNum 9201, cxPulsePortB = FinNum 9202,
      cxRedisHost = the (str_or (penv ''REDIS_HOST'') (Some ''127.0.0.1'')),
      cxRedisPort = (case penv ''REDIS_PORT'' of
                       None \<Rightarrow> FinNum 6379
                     | Some s \<Rightarrow> if toNumber s = NaN \<or> toNumber s = FinNum 0 then FinNum 6379 else toNumber s),
      cxRedisProxyPort = FinNum 6389, cxAuthSecret = ''pulse-chaos-secret-key-min-32-chars-long!''\<rparr>"

definition merge_context :: "drill_context \<Rightarrow> context_overrides \<Rightarrow> drill_context" where
  "merge_context c ov =
     (let pick = (\<lambda>x d. case x of None \<Rightarrow> d | Some v \<Rightarrow> v); pick' = (\<lambda>x d. case x of None \<Rightarrow> d | Some v \<Rightarrow> v)
      in \<lparr>cxPulsePortA = pick (ovPulsePortA ov) (cxPulsePortA c), cxPulsePortB = pick (ovPulsePortB ov) (cxPulsePortB c),
          cxRedisHost = pick' (ovRedisHost ov) (cxRedisHost c), cxRedisPort = pick (ovRedisPort ov) (cxRedisPort c),
          cxRedisProxyPort = pick (ovRedisProxyPort ov) (cxRedisProxyPort c), cxAuthSecret = pick' (ovAuthSecret ov) (cxAuthSecret c)\<rparr>)"

text \<open>\<open>now\<close> is the time at which the error is caught.\<close>

definition failure_result :: "drill \<Rightarrow> int \<Rightarrow> string \<Rightarrow> drill_result" where
  "failure_result d now errorMsg =
     \<lparr>drScenarioId = dlId d, drName = dlName d,
      drStatus = (if includes_str ''PREREQUISITE_FAILED'' errorMsg then DrillUnavailable else DrillFailed),
      drTiming = fault_at now, drMetrics = [], drError = Some errorMsg, drExtra = None\<rparr>"

definition runScenario :: "drill_context \<Rightarrow> int \<Rightarrow> string \<Rightarrow> context_overrides \<Rightarrow> chaos_runner \<Rightarrow> string + drill_result" where
  "runScenario defaults now i ov rn =
     (case getScenario i rn of
        None \<Rightarrow> Inl (''Chaos scenario '' @ [CHR 0x27] @ i @ [CHR 0x27] @ '' is not registered'')
      | Some d \<Rightarrow>
          Inr (case dlExecute d (merge_context defaults ov) of Inr r \<Rightarrow> r | Inl errorMsg \<Rightarrow> failure_result d now errorMsg))"

text \<open>One drill after the other; the first one that cannot be run, which no registered drill is, ends the loop.\<close>

fun run_drills :: "drill_context \<Rightarrow> int \<Rightarrow> context_overrides \<Rightarrow> chaos_runner \<Rightarrow> drill list \<Rightarrow> string + drill_result list" where
  "run_drills defaults now ov rn [] = Inr []"
| "run_drills defaults now ov rn (d # ds) =
     (case runScenario defaults now (dlId d) ov rn of
        Inl e \<Rightarrow> Inl e
      | Inr r \<Rightarrow> (case run_drills defaults now ov rn ds of Inl e \<Rightarrow> Inl e | Inr rs \<Rightarrow> Inr (r # rs)))"

definition runAll :: "drill_context \<Rightarrow> int \<Rightarrow> context_overrides \<Rightarrow> chaos_runner \<Rightarrow> string + drill_result list" where
  "runAll defaults now ov rn = run_drills defaults now ov rn (getAllScenarios rn)"

section \<open>Scraping\<close>

text \<open>A line of the export; \<open>last_space\<close> splits at \<^verbatim>\<open>lastIndexOf(' ')\<close>.\<close>

definition last_space :: "string \<Rightarrow> (string \<times> string) option" where
  "last_space s =
     (let r = rev s; v = takeWhile (\<lambda>c. c \<noteq> CHR '' '') r; rest = dropWhile (\<lambda>c. c \<noteq> CHR '' '') r
      in if rest = [] then None else Some (rev (tl rest), rev v))"

definition scrape_line :: "(string \<Rightarrow> jsnum) \<Rightarrow> string \<Rightarrow> (string, jsnum) jsmap \<Rightarrow> (string, jsnum) jsmap" where
  "scrape_line parseFloat line m =
     (let trimmed = js_trim line
      in if trimmed = [] \<or> starts_with ''#'' trimmed then m
         else case last_space trimmed of
                None \<Rightarrow> m
              | Some (name, valStr) \<Rightarrow>
                  let val = parseFloat (js_trim valStr) in if val = NaN then m else js_set (js_trim name) val m)"

definition scrapeMetrics :: "(string \<Rightarrow> jsnum) \<Rightarrow> string \<Rightarrow> (string, jsnum) jsmap" where
  "scrapeMetrics parseFloat rawData = fold (scrape_line parseFloat) (split_char newline rawData) []"

section \<open>The command line\<close>

record chaos_options =
  coScenario :: string
  coVerbose :: bool
  coJson :: bool
  coRedisHost :: string
  coRedisPort :: jsnum
  coHelp :: bool
  coVersion :: bool

definition initial_options :: "(string \<Rightarrow> string option) \<Rightarrow> chaos_options" where
  "initial_options penv =
     \<lparr>coScenario = ''all'', coVerbose = False, coJson = False, coRedisHost = the (str_or (penv ''REDIS_HOST'') (Some ''127.0.0.1'')),
      coRedisPort = js_parseInt (the (str_or (penv ''REDIS_PORT'') (Some ''6379''))), coHelp = False, coVersion = False\<rparr>"

definition chaos_flag :: "string \<Rightarrow> (chaos_options \<Rightarrow> chaos_options) option" where
  "chaos_flag arg =
     (if arg = ''--help'' \<or> arg = ''-h'' then Some (coHelp_update (\<lambda>_. True))
      else if arg = ''--version'' \<or> arg = ''-v'' then Some (coVersion_update (\<lambda>_. True))
      else if arg = ''--json'' then Some (coJson_update (\<lambda>_. True))
      else if arg = ''--verbose'' then Some (coVerbose_update (\<lambda>_. True))
      else None)"

definition chaos_value :: "string \<Rightarrow> (string \<Rightarrow> chaos_options \<Rightarrow> chaos_options) option" where
  "chaos_value arg =
     (if arg = ''--scenario'' \<or> arg = ''-s'' then Some (\<lambda>v. coScenario_update (\<lambda>_. v))
      else if arg = ''--redis-host'' then Some (\<lambda>v. coRedisHost_update (\<lambda>_. v))
      else if arg = ''--redis-port'' then Some (\<lambda>v. coRedisPort_update (\<lambda>_. js_parseInt v))
      else None)"

fun chaos_args :: "string list \<Rightarrow> chaos_options \<Rightarrow> chaos_options" where
  "chaos_args [] o1 = o1"
| "chaos_args (arg # rest) o1 =
     (case chaos_flag arg of
        Some put \<Rightarrow> chaos_args rest (put o1)
      | None \<Rightarrow>
          (case chaos_value arg of
             Some put \<Rightarrow> if rest = [] then o1 else chaos_args (tl rest) (put (hd rest) o1)
           | None \<Rightarrow> chaos_args rest o1))"

definition chaos_overrides :: "chaos_options \<Rightarrow> context_overrides" where
  "chaos_overrides o1 =
     \<lparr>ovPulsePortA = Some (FinNum 9301), ovPulsePortB = Some (FinNum 9302), ovRedisHost = Some (coRedisHost o1),
      ovRedisPort = Some (coRedisPort o1), ovRedisProxyPort = Some (FinNum 6389), ovAuthSecret = None\<rparr>"

text \<open>
  \<^verbatim>\<open>main\<close>: the exit code, and the results that are printed; a drill that cannot be run would reject the promise.
\<close>

definition chaos_main ::
  "(string \<Rightarrow> string option) \<Rightarrow> drill_context \<Rightarrow> int \<Rightarrow> chaos_runner \<Rightarrow> string list \<Rightarrow> string + int \<times> drill_result list" where
  "chaos_main penv defaults now rn argv =
     (let o1 = chaos_args argv (initial_options penv)
      in if coHelp o1 then Inr (0, []) else if coVersion o1 then Inr (0, [])
         else
           let targetScenario = js_trim (js_lower (coScenario o1));
               results =
                 (if targetScenario = ''all'' then map_sum id Some (run_drills defaults now (chaos_overrides o1) rn (getAllScenarios rn))
                  else case getScenario targetScenario rn of
                         None \<Rightarrow> Inr None
                       | Some d \<Rightarrow> map_sum id (\<lambda>r. Some [r]) (runScenario defaults now (dlId d) (chaos_overrides o1) rn))
           in case results of
                Inl e \<Rightarrow> Inl e
              | Inr None \<Rightarrow> Inr (1, [])
              | Inr (Some rs) \<Rightarrow> Inr (if list_all (\<lambda>r. drStatus r = DrillPassed) rs then 0 else 1, rs))"

section \<open>The table\<close>

definition pad_end :: "nat \<Rightarrow> string \<Rightarrow> string" where
  "pad_end n s = s @ replicate (n - length s) CHR '' ''"

definition ansi :: "string \<Rightarrow> string" where
  "ansi code = CHR 0x1B # CHR ''['' # code @ ''m''"

definition status_colored :: "drill_status \<Rightarrow> string" where
  "status_colored st =
     pad_end (14 + 9)
       (case st of
          DrillPassed \<Rightarrow> ansi ''32'' @ ''PASSED'' @ ansi ''0''
        | DrillUnavailable \<Rightarrow> ansi ''33'' @ ''UNAVAILABLE'' @ ansi ''0''
        | DrillFailed \<Rightarrow> ansi ''31'' @ ''FAILED'' @ ansi ''0'')"

definition drill_time :: "rat option \<Rightarrow> string" where
  "drill_time t = (case t of None \<Rightarrow> ''-'' | Some ms \<Rightarrow> js_int_str (js_round ms) @ ''ms'')"

definition drill_details :: "(json \<Rightarrow> string) \<Rightarrow> drill_result \<Rightarrow> string" where
  "drill_details strOf r =
     (if str_truthy (drError r)
      then (let e = the (drError r) in if length e > 35 then take 32 e @ ''...'' else e)
      else join_with '', '' (take 2 (map (\<lambda>(k, v). k @ ''='' @ strOf v) (drMetrics r))))"

definition drill_row :: "(json \<Rightarrow> string) \<Rightarrow> drill_result \<Rightarrow> string" where
  "drill_row strOf r =
     pad_end 34 (drName r) @ status_colored (drStatus r) @ pad_end 12 (drill_time (tmMttd (drTiming r))) @
     pad_end 12 (drill_time (tmMttr (drTiming r))) @ drill_details strOf r"

definition drills_with :: "drill_status \<Rightarrow> drill_result list \<Rightarrow> nat" where
  "drills_with st rs = length (filter (\<lambda>r. drStatus r = st) rs)"

definition formatTerminalTable :: "(json \<Rightarrow> string) \<Rightarrow> drill_result list \<Rightarrow> rat \<Rightarrow> string" where
  "formatTerminalTable strOf results durationSec =
     (let bold = ansi ''1''; cyan = ansi ''36''; gray = ansi ''90''; reset = ansi ''0''; rule88 = bold @ cyan @ replicate 88 CHR ''='' @ reset;
          dashes = gray @ replicate 88 CHR ''-'' @ reset;
          passed = drills_with DrillPassed results; failed = drills_with DrillFailed results; unavailable = drills_with DrillUnavailable results;
          heading = pad_end 34 ''SCENARIO'' @ pad_end 14 ''STATUS'' @ pad_end 12 ''MTTD (ms)'' @ pad_end 12 ''MTTR (ms)'' @ ''DETAILS'';
          summaryColor = (if failed > 0 \<or> unavailable > 0 then ansi ''31'' else ansi ''32'')
      in join_with [newline]
           ([[], rule88,
             bold @ cyan @ replicate 22 CHR '' '' @ ''PULSE CHAOS & RESILIENCE TEST RESULTS'' @ replicate 29 CHR '' '' @ reset,
             rule88, [], bold @ heading @ reset, dashes] @
            map (drill_row strOf) results @
            [dashes,
             summaryColor @ bold @ ''Summary: Total: '' @ digits_of_nat (length results) @ '' | Passed: '' @ digits_of_nat passed @
               '' | Failed: '' @ digits_of_nat failed @ '' | Unavailable: '' @ digits_of_nat unavailable @ '' | Duration: '' @
               js_toFixed 2 durationSec @ ''s'' @ reset, []]))"

section \<open>The exit code\<close>

definition drill_outcome :: "drill_context \<Rightarrow> int \<Rightarrow> context_overrides \<Rightarrow> drill \<Rightarrow> drill_result" where
  "drill_outcome defaults now ov d =
     (case dlExecute d (merge_context defaults ov) of Inr r \<Rightarrow> r | Inl errorMsg \<Rightarrow> failure_result d now errorMsg)"

definition registered :: "drill list \<Rightarrow> chaos_runner" where
  "registered ds = fold register_drill ds []"

lemma registered_list: "distinct (map dlId ds) \<Longrightarrow> registered ds = map (\<lambda>d. (dlId d, d)) ds"
proof (induction ds rule: rev_induct)
  case (snoc d ds)
  then have "dlId d \<notin> set (js_keys (map (\<lambda>d. (dlId d, d)) ds))" by auto
  then show ?case using snoc by (simp add: registered_def register_drill_def js_set_absent image_image)
qed (simp add: registered_def)

lemma run_drills_all:
  assumes "distinct (map dlId ds)" "set es \<subseteq> set ds"
  shows "run_drills defaults now ov (registered ds) es = Inr (map (drill_outcome defaults now ov) es)"
  using assms(2)
proof (induction es)
  case (Cons d es)
  then have "map_of (registered ds) (dlId d) = Some d"
    using assms(1) by (auto simp: registered_list comp_def intro!: map_of_is_SomeI)
  then show ?case using Cons by (simp add: runScenario_def getScenario_def drill_outcome_def)
qed simp

text \<open>
  The command line runs every registered drill once, in the order of registration, or the one that is named,
  whatever the drills throw; it exits with 0 exactly when the name is known and every drill run has passed, so
  that a drill that is unavailable counts as a failure.
\<close>
theorem chaos_exit_code:
  assumes "distinct (map dlId ds)"
  defines "opts \<equiv> \<lambda>penv argv. chaos_args argv (initial_options penv)"
  shows "let o1 = opts penv argv; t = js_trim (js_lower (coScenario o1));
             chosen = (if t = ''all'' then ds else filter (\<lambda>d. dlId d = t) ds);
             rs = map (drill_outcome defaults now (chaos_overrides o1)) chosen
         in chaos_main penv defaults now (registered ds) argv =
           Inr (if coHelp o1 \<or> coVersion o1 then (0, [])
                else (if (t = ''all'' \<or> chosen \<noteq> []) \<and> list_all (\<lambda>r. drStatus r = DrillPassed) rs then 0 else 1, rs))"
proof -
  define o1 where "o1 = opts penv argv"
  define t where "t = js_trim (js_lower (coScenario o1))"
  have o: "chaos_args argv (initial_options penv) = o1" by (simp add: o1_def opts_def)
  have rall: "run_drills defaults now ov (registered ds) (getAllScenarios (registered ds)) = Inr (map (drill_outcome defaults now ov) ds)" for ov
    using run_drills_all [OF assms(1), of ds] by (simp add: getAllScenarios_def registered_list [OF assms(1)] comp_def)
  have one: "filter (\<lambda>d. dlId d = t) ds = (case map_of (registered ds) t of None \<Rightarrow> [] | Some d \<Rightarrow> [d])"
  proof -
    have none: "map_of (map (\<lambda>d. (dlId d, d)) es) i = None" if "i \<notin> dlId ` set es" for es i
      using that by (auto simp: map_of_eq_None_iff)
    show ?thesis using assms(1) unfolding registered_list [OF assms(1)]
      by (induction ds) (auto simp: none filter_empty_conv)
  qed
  have idt: "dlId d = t" if "map_of (registered ds) t = Some d" for d
    using map_of_SomeD [OF that] by (auto simp: registered_list [OF assms(1)])
  show ?thesis
  proof (cases "coHelp o1 \<or> coVersion o1 \<or> t = ''all''")
    case True
    then show ?thesis using rall
      by (auto simp: chaos_main_def o o1_def [symmetric] t_def [symmetric] Let_def)
  next
    case False
    then show ?thesis
      using idt by (auto simp: chaos_main_def o o1_def [symmetric] t_def [symmetric] one getScenario_def runScenario_def drill_outcome_def
        Let_def split: option.split)
  qed
qed

definition sample_drills :: "drill list" where
  "sample_drills =
     [\<lparr>dlId = ''half-open'', dlName = ''Half-Open'', dlDescription = [], dlExecute = (\<lambda>c. Inl ''PREREQUISITE_FAILED: no Redis'')\<rparr>,
      \<lparr>dlId = ''ack-loss'', dlName = ''ACK Loss'', dlDescription = [], dlExecute = (\<lambda>c. Inl ''boom'')\<rparr>]"

lemma chaos_exit_code_witness:
  "\<exists>rs. chaos_main (\<lambda>n. None) (default_context (\<lambda>n. None) (\<lambda>s. NaN)) 5 (registered sample_drills) [''-s'', ''ack-loss''] = Inr (1, rs) \<and>
    map drStatus rs = [DrillFailed]"
proof -
  let ?o = "chaos_args [''-s'', ''ack-loss''] (initial_options (\<lambda>n. None))"
  have d: "distinct (map dlId sample_drills)" by (simp add: sample_drills_def)
  have o: "\<not> coHelp ?o" "\<not> coVersion ?o" "coScenario ?o = ''ack-loss''"
    by (simp_all add: initial_options_def chaos_flag_def chaos_value_def)
  have t: "js_trim (js_lower ''ack-loss'') = ''ack-loss''" by code_simp
  show ?thesis
    using chaos_exit_code [OF d, where penv = "\<lambda>n. None" and argv = "[''-s'', ''ack-loss'']"] o t
    by (simp add: Let_def sample_drills_def drill_outcome_def failure_result_def starts_with_def del: chaos_args.simps)
qed

section \<open>The scraper reads the export\<close>

lemma trim_hd: "\<not> js_ws c \<Longrightarrow> \<exists>t. js_trim (c # s) = c # t"
  by (auto simp: js_trim_def dropWhile_append intro: exI [of _ "rev (dropWhile js_ws (rev s))"])

lemma last_space_append: "CHR '' '' \<notin> set v \<Longrightarrow> last_space (k @ CHR '' '' # v) = Some (k, v)"
proof -
  assume v: "CHR '' '' \<notin> set v"
  have "takeWhile (\<lambda>c. c \<noteq> CHR '' '') (w @ CHR '' '' # u) = w \<and> dropWhile (\<lambda>c. c \<noteq> CHR '' '') (w @ CHR '' '' # u) = CHR '' '' # u"
    if "CHR '' '' \<notin> set w" for w u using that by (induction w) auto
  from this [of "rev v" "rev k"] v have "takeWhile (\<lambda>c. c \<noteq> CHR '' '') (rev v @ CHR '' '' # rev k) = rev v"
    "dropWhile (\<lambda>c. c \<noteq> CHR '' '') (rev v @ CHR '' '' # rev k) = CHR '' '' # rev k" by simp_all
  then show ?thesis by (simp add: last_space_def Let_def)
qed

definition no_ws :: "string \<Rightarrow> bool" where
  "no_ws s \<longleftrightarrow> s \<noteq> [] \<and> (\<forall>c \<in> set s. \<not> js_ws c)"

text \<open>A sample whose name and formatted value are texts without white space, the name not a comment.\<close>

definition plain_sample :: "formats \<Rightarrow> metric_sample \<Rightarrow> bool" where
  "plain_sample F s \<longleftrightarrow> no_ws (sampleName s) \<and> hd (sampleName s) \<noteq> CHR ''#'' \<and> no_ws (formatValue F (sampleValue s))"

definition sample_key :: "metric_sample \<Rightarrow> string" where
  "sample_key s = sampleName s @ formatLabels (sampleLabels s)"

lemma labels_end: "formatLabels ls = [] \<or> last (formatLabels ls) = CHR ''}''"
  by (auto simp: formatLabels_def Let_def split: option.split)

lemma not_ws: "\<not> js_ws CHR ''}''" "\<not> js_ws CHR ''#''" "js_ws CHR '' ''"
  by (simp_all add: js_ws_def)

lemma scrape_sample:
  assumes "plain_sample F s"
  shows "scrape_line pf (sample_line F s) m =
    (let v = pf (formatValue F (sampleValue s)) in if v = NaN then m else js_set (sample_key s) v m)"
proof -
  let ?v = "formatValue F (sampleValue s)"
  have n: "sampleName s \<noteq> []" "\<And>c. c \<in> set (sampleName s) \<Longrightarrow> \<not> js_ws c" "hd (sampleName s) \<noteq> CHR ''#''"
    and v: "?v \<noteq> []" "\<And>c. c \<in> set ?v \<Longrightarrow> \<not> js_ws c"
    using assms by (auto simp: plain_sample_def no_ws_def)
  have "last (sample_key s) = last (sampleName s) \<or> last (sample_key s) = CHR ''}''"
    using labels_end [of "sampleLabels s"] n(1) by (cases "formatLabels (sampleLabels s) = []") (simp_all add: sample_key_def)
  then have "\<not> js_ws (last (sample_key s))" using n(1,2) not_ws(1) last_in_set by metis
  then have k: "sample_key s \<noteq> []" "\<not> js_ws (hd (sample_key s))" "\<not> js_ws (last (sample_key s))" "hd (sample_key s) \<noteq> CHR ''#''"
    using n by (simp_all add: sample_key_def)
  have l: "sample_line F s = sample_key s @ CHR '' '' # ?v" by (simp add: sample_line_def sample_key_def)
  have tl: "js_trim (sample_line F s) = sample_line F s" using k v by (intro js_trim_id) (auto simp: l)
  have tk: "js_trim (sample_key s) = sample_key s" using k by (intro js_trim_id) auto
  have tv: "js_trim ?v = ?v" using v by (intro js_trim_id) auto
  have sp: "CHR '' '' \<notin> set ?v" using v(2) not_ws(3) by blast
  have c: "\<not> starts_with ''#'' (sample_line F s)" using k by (cases "sample_key s") (auto simp: l starts_with_def)
  have ne: "sample_line F s \<noteq> []" by (simp add: l)
  have split: "last_space (sample_line F s) = Some (sample_key s, ?v)" unfolding l by (rule last_space_append [OF sp])
  show ?thesis unfolding scrape_line_def tl using c ne by (simp add: split tk tv Let_def)
qed

lemma scrape_comment: "scrape_line pf (CHR ''#'' # s) m = m"
proof -
  obtain t where "js_trim (CHR ''#'' # s) = CHR ''#'' # t" using trim_hd [OF not_ws(2)] by blast
  then show ?thesis by (simp add: scrape_line_def starts_with_def)
qed

lemma scrape_metric:
  assumes "\<forall>s \<in> set (obj_collect (num_str F) mo). plain_sample F s"
  shows "fold (scrape_line pf) (serializeMetric F mo) m =
    fold (\<lambda>s m. let v = pf (formatValue F (sampleValue s)) in if v = NaN then m else js_set (sample_key s) v m) (obj_collect (num_str F) mo) m"
proof -
  have "fold (scrape_line pf) (map (sample_line F) ss) m =
      fold (\<lambda>s m. let v = pf (formatValue F (sampleValue s)) in if v = NaN then m else js_set (sample_key s) v m) ss m"
    if "\<forall>s \<in> set ss. plain_sample F s" for ss m
    using that by (induction ss arbitrary: m) (simp_all add: scrape_sample)
  from this [OF assms] show ?thesis by (simp add: serializeMetric_def scrape_comment)
qed



text \<open>
  The texts the half-open and the slow-consumer drill look up are those the export writes for the counter of
  closed connections, which every server registers.
\<close>

lemma drills_read_exported_counters:
  "sampleName s = ''pulse_connections_closed_total'' \<Longrightarrow> sampleLabels s = Some [(''reason'', r)] \<Longrightarrow> r \<in> {''heartbeat_timeout'', ''slow_consumer''} \<Longrightarrow>
    sample_key s = ''pulse_connections_closed_total{reason='' @ [dquote] @ r @ [dquote] @ ''}''"
  by (auto simp: sample_key_def formatLabels_def label_pair_def escapeLabelValue_def replace_all_def)

end
