(* ===== verification/Chaos_Drills.thy ===== *)
theory Chaos_Drills
  imports Chaos_Runner Server_Rules Http_Endpoints
begin

text \<open>
  \<^verbatim>\<open>chaos/scenarios.ts\<close>: the seven drills as their identifiers and as the results they report of what they
  observed; and what the draining drill observes of the modelled server. The scripts that start servers and
  clients, wait and tear down are not modelled.
\<close>

section \<open>The catalogue\<close>

definition drill_texts :: "(string \<times> string \<times> string) list" where
  "drill_texts =
     [(''redis-outage'', ''Redis Outage & Degraded Recovery'',
       ''Severs Redis link via FaultProxy, tests local standalone degradation, restores link, and verifies cross-node transit.''),
      (''node-crash'', ''Pulse Node Crash & Client Reconnect'',
       ''Abruptly terminates Node 1, verifies client detects abnormal close, performs decorrelated jitter backoff, reconnects to Node 2, and restores subscriptions.''),
      (''reconnect-storm'', ''Reconnect Storm & Rate Distribution'',
       ''Severs and restores 50 concurrent client connections, verifies reconnection rate distribution and bounded event loop lag.''),
      (''half-open'', ''Half-Open Connection Blackhole Reap'',
       ''Blackholes client traffic silently, verifies two-phase heartbeat timeout detection, RFC 6455 1002 closure, and forced termination.''),
      (''ack-loss'', ''ACK Loss & Idempotency Replay'',
       ''Drops DELIVERY_ACK frame in proxy, triggers client retry with incremented sequence, and verifies server replay without duplicate delivery.''),
      (''backpressure'', ''Slow Consumer Backpressure Eviction'',
       ''Pauses client socket to saturate buffer over maxBufferedAmountBytes, verifies eviction with RFC 6455 code 1008 and metrics counter increment.''),
      (''graceful-draining'', ''Graceful Node Draining'',
       ''Initiates drain(), verifies 503 DRAINING on /readyz, rejection of new upgrades, broadcast of SYS_SHUTDOWN, and clean 1001 shutdown.'')]"

definition drill_name :: "string \<Rightarrow> string" where
  "drill_name i = fst (the (map_of drill_texts i))"

text \<open>\<open>script i ctx\<close> is what the script of the drill does.\<close>

definition createAllScenarios :: "(string \<Rightarrow> drill_context \<Rightarrow> string + drill_result) \<Rightarrow> drill list" where
  "createAllScenarios script = map (\<lambda>(i, name, about). \<lparr>dlId = i, dlName = name, dlDescription = about, dlExecute = script i\<rparr>) drill_texts"

definition registerAllScenarios :: "(string \<Rightarrow> drill_context \<Rightarrow> string + drill_result) \<Rightarrow> chaos_runner \<Rightarrow> chaos_runner" where
  "registerAllScenarios script rn = fold register_drill (createAllScenarios script) rn"

section \<open>What the drills report\<close>

definition drill_report :: "string \<Rightarrow> bool \<Rightarrow> drill_timing \<Rightarrow> (string \<times> json) list \<Rightarrow> drill_result" where
  "drill_report i passed timing metrics =
     \<lparr>drScenarioId = i, drName = drill_name i, drStatus = (if passed then DrillPassed else DrillFailed), drTiming = timing,
      drMetrics = metrics, drError = None, drExtra = None\<rparr>"

text \<open>A metric of the scraped export, 0 when it is missing.\<close>

definition metric_or_zero :: "string \<Rightarrow> (string, jsnum) jsmap \<Rightarrow> jsnum" where
  "metric_or_zero name m = (case map_of m name of None \<Rightarrow> FinNum 0 | Some v \<Rightarrow> v)"

definition redis_unavailable :: "(jsnum \<Rightarrow> string) \<Rightarrow> drill_context \<Rightarrow> int \<Rightarrow> drill_result" where
  "redis_unavailable numStr ctx now =
     \<lparr>drScenarioId = ''redis-outage'', drName = drill_name ''redis-outage'', drStatus = DrillUnavailable,
      drTiming = fault_at now,
      drMetrics = [],
      drError = Some (''PREREQUISITE_FAILED: Real Redis 7 is required on '' @ cxRedisHost ctx @ '':'' @ numStr (cxRedisPort ctx) @
        '', but is unreachable.''),
      drExtra = None\<rparr>"

definition redis_outage_report :: "int \<Rightarrow> rat \<Rightarrow> int \<Rightarrow> rat \<Rightarrow> int \<Rightarrow> drill_result" where
  "redis_outage_report faultInjectedAt mttdMs faultRestoredAt mttrMs now =
     drill_report ''redis-outage'' (mttdMs > 0 \<and> mttrMs > 0)
       \<lparr>tmFaultInjectedAt = faultInjectedAt, tmFailureDetectedAt = None, tmMttd = Some mttdMs, tmFaultRestoredAt = Some faultRestoredAt, tmMttr = Some mttrMs,
        tmSystemRecoveredAt = Some now\<rparr>
       [(''mttdMs'', JNum (FinNum mttdMs)), (''mttrMs'', JNum (FinNum mttrMs))]"

text \<open>\<^verbatim>\<open>messages.some((m) => m.payload?.text === text)\<close>\<close>

definition heard :: "string \<Rightarrow> json list \<Rightarrow> bool" where
  "heard text messages \<longleftrightarrow>
     list_ex (\<lambda>m. (case json_get m ''payload'' of None \<Rightarrow> None | Some p \<Rightarrow> json_get p ''text'') = Some (JStr text)) messages"

definition node_crash_report :: "bool \<Rightarrow> bool \<Rightarrow> json list \<Rightarrow> int \<Rightarrow> rat \<Rightarrow> rat \<Rightarrow> int \<Rightarrow> drill_result" where
  "node_crash_report abnormalDisconnectObserved bobConnected bobReceived faultInjectedAt mttdMs mttrMs now =
     drill_report ''node-crash'' (abnormalDisconnectObserved \<and> bobConnected \<and> heard ''recovered-on-node-2'' bobReceived)
       \<lparr>tmFaultInjectedAt = faultInjectedAt, tmFailureDetectedAt = None, tmMttd = Some mttdMs, tmFaultRestoredAt = None, tmMttr = Some mttrMs,
        tmSystemRecoveredAt = Some now\<rparr>
       [(''mttdMs'', JNum (FinNum mttdMs)), (''mttrMs'', JNum (FinNum mttrMs))]"

definition storm_report :: "nat \<Rightarrow> int list \<Rightarrow> (string, jsnum) jsmap \<Rightarrow> int \<Rightarrow> int \<Rightarrow> rat \<Rightarrow> int \<Rightarrow> drill_result" where
  "storm_report reconnectedCount connectTimestamps metrics faultInjectedAt faultRestoredAt mttrMs now =
     (let uniqueTimestamps = length (set_of_array connectTimestamps);
          eventLoopLagP99 = metric_or_zero ''pulse_event_loop_lag_p99_seconds'' metrics
      in drill_report ''reconnect-storm'' (reconnectedCount = 50 \<and> uniqueTimestamps > 1 \<and> num_less eventLoopLagP99 (FinNum (1 / 2)))
           \<lparr>tmFaultInjectedAt = faultInjectedAt, tmFailureDetectedAt = None, tmMttd = None, tmFaultRestoredAt = Some faultRestoredAt, tmMttr = Some mttrMs,
            tmSystemRecoveredAt = Some now\<rparr>
           [(''reconnectedCount'', JNum (int_num (int reconnectedCount))), (''uniqueTimestampsCount'', JNum (int_num (int uniqueTimestamps))),
            (''eventLoopLagP99'', JNum eventLoopLagP99)])"

definition closed_metric :: "string \<Rightarrow> (string, jsnum) jsmap \<Rightarrow> jsnum" where
  "closed_metric reason m = metric_or_zero (''pulse_connections_closed_total{reason='' @ [dquote] @ reason @ [dquote] @ ''}'') m"

definition half_open_report :: "nat \<Rightarrow> (string, jsnum) jsmap \<Rightarrow> int \<Rightarrow> rat \<Rightarrow> int \<Rightarrow> drill_result" where
  "half_open_report activeConnections metrics faultInjectedAt mttdMs now =
     (let reapedCount = closed_metric ''heartbeat_timeout'' metrics
      in drill_report ''half-open'' (activeConnections = 0 \<and> num_leq (FinNum 1) reapedCount)
           \<lparr>tmFaultInjectedAt = faultInjectedAt, tmFailureDetectedAt = None, tmMttd = Some mttdMs, tmFaultRestoredAt = None, tmMttr = None,
            tmSystemRecoveredAt = Some now\<rparr>
           [(''activeConnections'', JNum (int_num (int activeConnections))), (''heartbeatTimeoutsReaped'', JNum reapedCount),
            (''mttdMs'', JNum (FinNum mttdMs))])"

text \<open>The predicate of the ACK-loss drill, with whether an acknowledgement was dropped already.\<close>

definition drop_first_ack :: "(string \<Rightarrow> json option) \<Rightarrow> string \<Rightarrow> string option \<Rightarrow> bool \<Rightarrow> bool \<times> bool" where
  "drop_first_ack parseJson targetEventId frameText dropOccurred =
     (if str_truthy frameText \<and> \<not> dropOccurred
      then case parseJson (the frameText) of
             None \<Rightarrow> (False, dropOccurred)
           | Some env \<Rightarrow>
               if json_get env ''type'' = Some (JStr ''DELIVERY_ACK'') \<and>
                  (json_get env ''correlationId'' = Some (JStr targetEventId) \<or>
                   (case json_get env ''payload'' of None \<Rightarrow> None | Some p \<Rightarrow> json_get p ''targetEventId'') = Some (JStr targetEventId))
               then (True, True) else (False, dropOccurred)
      else (False, dropOccurred))"

definition ack_loss_report :: "bool \<Rightarrow> json option \<Rightarrow> json list \<Rightarrow> int \<Rightarrow> rat \<Rightarrow> int \<Rightarrow> drill_result" where
  "ack_loss_report dropOccurred ackSeen bobReceived faultInjectedAt mttrMs now =
     (let bobCopies = filter (\<lambda>m. json_get m ''type'' = Some (JStr ''ROOM_MESSAGE'') \<and> heard ''critical-trade-execution'' [m]) bobReceived
      in drill_report ''ack-loss''
           (dropOccurred \<and> ackSeen \<noteq> None \<and> json_get (the ackSeen) ''type'' = Some (JStr ''DELIVERY_ACK'') \<and> length bobCopies = 1)
           \<lparr>tmFaultInjectedAt = faultInjectedAt, tmFailureDetectedAt = None, tmMttd = None, tmFaultRestoredAt = None, tmMttr = Some mttrMs,
            tmSystemRecoveredAt = Some now\<rparr>
           [(''dropOccurred'', JNum (int_num (if dropOccurred then 1 else 0))), (''bobDeliveredCopies'', JNum (int_num (int (length bobCopies)))),
            (''mttrMs'', JNum (FinNum mttrMs))])"

definition backpressure_report :: "int option \<Rightarrow> bool \<Rightarrow> (string, jsnum) jsmap \<Rightarrow> int \<Rightarrow> rat \<Rightarrow> int \<Rightarrow> drill_result" where
  "backpressure_report slowClosedCode fastOpen metrics faultInjectedAt mttdMs now =
     (let slowEvictions = closed_metric ''slow_consumer'' metrics
      in drill_report ''backpressure'' (slowClosedCode = Some 1008 \<and> fastOpen \<and> num_leq (FinNum 1) slowEvictions)
           \<lparr>tmFaultInjectedAt = faultInjectedAt, tmFailureDetectedAt = None, tmMttd = Some mttdMs, tmFaultRestoredAt = None, tmMttr = None,
            tmSystemRecoveredAt = Some now\<rparr>
           [(''evictionCode'', JNum (int_num (case slowClosedCode of None \<Rightarrow> 0 | Some c \<Rightarrow> c))), (''slowEvictionsMetric'', JNum slowEvictions),
            (''fastClientAlive'', JNum (int_num (if fastOpen then 1 else 0)))])"

record draining_observed =
  obReadyStatus :: "nat option"
  obReadyData :: json
  obRejected503 :: bool
  obShutdown :: bool
  obClosedCode :: "nat option"

definition draining_report :: "draining_observed \<Rightarrow> int \<Rightarrow> rat \<Rightarrow> rat \<Rightarrow> int \<Rightarrow> drill_result" where
  "draining_report ob faultInjectedAt mttdMs mttrMs now =
     (let flag = (\<lambda>b. JNum (int_num (if b then 1 else 0))); count = (\<lambda>n. JNum (int_num (case n of None \<Rightarrow> 0 | Some (k :: nat) \<Rightarrow> int k)))
      in drill_report ''graceful-draining''
           (obReadyStatus ob = Some 503 \<and> json_get (obReadyData ob) ''status'' = Some (JStr ''DRAINING'') \<and> obRejected503 ob \<and>
            obShutdown ob \<and> obClosedCode ob = Some 1001)
           \<lparr>tmFaultInjectedAt = faultInjectedAt, tmFailureDetectedAt = None, tmMttd = Some mttdMs, tmFaultRestoredAt = None, tmMttr = Some mttrMs,
            tmSystemRecoveredAt = Some now\<rparr>
           [(''readyzStatusCode'', count (obReadyStatus ob)), (''newUpgradeRejected503'', flag (obRejected503 ob)),
            (''sysShutdownReceived'', flag (obShutdown ob)), (''closeCode'', count (obClosedCode ob))])"

section \<open>The draining drill on the model\<close>

text \<open>The status line the upgrade listener writes when it refuses (\<^verbatim>\<open>socket.end\<close>, \<^verbatim>\<open>socket.write\<close>).\<close>

fun refusal_status :: "upgrade_outcome \<Rightarrow> nat option" where
  "refusal_status RefusedDraining = Some 503"
| "refusal_status RefusedOrigin = Some 403"
| "refusal_status RefusedCapacity = Some 503"
| "refusal_status (RefusedAuth _) = Some 401"
| "refusal_status _ = None"

text \<open>
  What the drill sees of a server with one of its clients: the probe and another client's upgrade after the
  drain, the frames the client was sent by it, the code its socket was closed with by the stop.
\<close>

definition observe_draining ::
  "('s, 'r) env \<Rightarrow> http_env \<Rightarrow> http_prims \<Rightarrow> ('s \<Rightarrow> nat option) \<Rightarrow> int \<Rightarrow> nat \<Rightarrow> upgrade_request \<Rightarrow> string \<Rightarrow> 's server \<Rightarrow> draining_observed" where
  "observe_draining E H P closedWith now sock req cid sv =
     (let drained = drain E now None sv; probe = ready_response H drained;
          closed = stop_close (envWs E) (srvNode drained)
      in \<lparr>obReadyStatus = Some (respStatus probe), obReadyData = json_body (respBody probe),
          obRejected503 = (refusal_status (fst (upgrade P None now sock req drained)) = Some 503),
          obShutdown = list_ex (\<lambda>f. evType f = SYS_SHUTDOWN) (drop (length (outbox_of cid (srvNode sv))) (outbox_of cid (srvNode drained))),
          obClosedCode = (case heap closed cid of None \<Rightarrow> None | Some c \<Rightarrow> closedWith (socket c))\<rparr>)"

section \<open>The catalogue is consistent\<close>

lemma drill_ids_distinct: "distinct (map dlId (createAllScenarios script))"
  by (simp add: createAllScenarios_def drill_texts_def)

lemma runner_of_all: "registerAllScenarios script [] = registered (createAllScenarios script)"
  by (simp add: registerAllScenarios_def registered_def)

lemma drill_cell_overflow: "pad_end 34 (drill_name ''node-crash'') = ''Pulse Node Crash & Client Reconnect''"
  by (simp add: drill_name_def drill_texts_def pad_end_def)

section \<open>The draining drill passes\<close>

lemma open_after_send:
  assumes "\<And>f s s'. wsSend W f s = Some s' \<Longrightarrow> readyState W s' = readyState W s"
  shows "distinct cids \<Longrightarrow> cid \<in> set cids \<Longrightarrow> can_take W e st cid \<Longrightarrow>
    \<exists>c. heap (snd (send_each W cids e st)) cid = Some c \<and> readyState W (socket c) = WS_OPEN"
proof (induction cids arbitrary: st)
  case (Cons i cids)
  show ?case
  proof (cases "i = cid")
    case True
    obtain c where c: "heap st cid = Some c" "deliverable W e c"
      using Cons.prems(3) by (auto simp: can_take_def split: option.splits)
    obtain s where s: "wsSend W e (socket c) = Some s" using c(2) by (auto simp: deliverable_def)
    have "readyState W s = WS_OPEN" using assms [OF s] c(2) by (simp add: deliverable_def)
    then have "readyState W (socket (fst (snd (conn_send W e c st)))) = WS_OPEN"
      using c(2) s by (simp add: conn_send_def deliverable_def)
    then show ?thesis using True Cons.prems c(1) by (simp add: send_each_Cons heap_send_each_other heap_send_to)
  next
    case False
    then show ?thesis using Cons by (simp add: send_each_Cons can_take_send_to)
  qed
qed simp

lemma heap_close_each:
  "distinct cids \<Longrightarrow> heap (fold (\<lambda>cid. upd_conn cid f) cids st) i = (if i \<in> set cids then map_option f (heap st i) else heap st i)"
  by (induction cids arbitrary: st) (auto simp: heap_upd_conn)

lemma drained_client:
  fixes E :: "('s, 'r) env" and sv :: "'s server"
  assumes "node_inv (srvNode sv)" "\<not> isShuttingDown sv" "cid \<in> set (connections (srvNode sv))"
    and "\<And>f. evType f = SYS_SHUTDOWN \<Longrightarrow> can_take (envWs E) f (srvNode sv) cid"
    and keep: "\<And>f s s'. wsSend (envWs E) f s = Some s' \<Longrightarrow> readyState (envWs E) s' = readyState (envWs E) s"
  shows "\<exists>c. heap (srvNode (drain E now None sv)) cid = Some c \<and> readyState (envWs E) (socket c) = WS_OPEN"
proof -
  let ?fr = "freshId (envRnd E) now (srvNode sv)"
  let ?f = "system_envelope (fst ?fr) SYS_SHUTDOWN now None None (shutdown_payload (instanceId (snd ?fr)) (drain_timeout None sv))"
  have n: "srvNode (drain E now None sv) = snd (send_each (envWs E) (connections (srvNode sv)) ?f (snd ?fr))"
    using assms(2) core_eqD(2) [OF fresh_frame(1), of "envRnd E" now "srvNode sv"]
    by (simp add: drain_def on_node_def announce_shutdown_def case_prod_beta Let_def getAllConnections_def drain_timeout_def)
  have d: "distinct (connections (srvNode sv))" using assms(1) by (simp add: node_inv_def conn_inv_def index_ok_def)
  have "can_take (envWs E) ?f (snd ?fr) cid" using assms(4) [of ?f] by (simp add: system_envelope_def)
  from open_after_send [OF keep d assms(3) this] show ?thesis by (simp add: n)
qed

lemma drained_connections:
  fixes E :: "('s, 'r) env"
  shows "connections (srvNode (drain E now t sv)) = connections (srvNode sv)"
  by (simp add: drain_def on_node_def announce_shutdown_def case_prod_beta Let_def same_but_heapD(1) [OF send_each_same]
    core_eqD(2) [OF fresh_frame(1)])



end
